(* ===== verification/Prelude.thy ===== *)
theory Prelude
  imports Main "HOL-Library.AList" "HOL-Library.Char_ord" "HOL-Library.List_Lexorder"
begin

text \<open>
  Shared vocabulary of the development.

  \<^item> Identifiers and times. A Python \<open>UUID\<close> is represented by its canonical text, so that
    \<open>str\<close> is the identity and \<open>sorted(..., key=str)\<close> is the lexicographic order of
    strings. An aware UTC \<open>datetime\<close> is the number of microseconds since the epoch. Text is
    a list of UTF-8 bytes; the lexicographic order of the bytes is the order of the code points.
  \<^item> Errors. Every exception class of the source that carries a fixed code is a constructor of
    \<open>exn\<close>; a fallible operation returns \<open>exn + 'a\<close>, with \<open>Inl\<close> for a raise.
  \<^item> Identifier factories and clocks. The source injects \<open>id_factory\<close> and \<open>clock\<close>
    callables; the model threads an \<open>env\<close> that numbers the calls, so the order of the
    calls is the order of the source.
  \<^item> Dictionaries. A Python \<open>dict\<close> keeps insertion order: an association list with
    distinct keys, read by \<open>map_of\<close> and written by \<open>AList.update\<close>.
\<close>

section \<open>Identifiers, times, codes\<close>

type_synonym uuid = string
type_synonym datetime = int
type_synonym checksum = string
type_synonym code = string
type_synonym version = string
type_synonym ('k, 'v) dict = "('k \<times> 'v) list"

text \<open>
  The field patterns of the contracts: \<open>Checksum\<close> is \<^verbatim>\<open>^[0-9a-f]{64}$\<close>, \<open>Version\<close> is
  \<^verbatim>\<open>^[a-z0-9][a-z0-9._:-]{2,127}$\<close>, \<open>Code\<close> is \<^verbatim>\<open>^[A-Z][A-Z0-9_:-]{0,127}$\<close> and a Tool version
  is \<^verbatim>\<open>^\d+\.\d+\.\d+$\<close>.
\<close>

definition is_digit :: "char \<Rightarrow> bool" where
  "is_digit c \<longleftrightarrow> CHR ''0'' \<le> c \<and> c \<le> CHR ''9''"

definition is_lower :: "char \<Rightarrow> bool" where
  "is_lower c \<longleftrightarrow> CHR ''a'' \<le> c \<and> c \<le> CHR ''z''"

definition is_upper :: "char \<Rightarrow> bool" where
  "is_upper c \<longleftrightarrow> CHR ''A'' \<le> c \<and> c \<le> CHR ''Z''"

definition is_hex :: "char \<Rightarrow> bool" where
  "is_hex c \<longleftrightarrow> is_digit c \<or> (CHR ''a'' \<le> c \<and> c \<le> CHR ''f'')"

definition valid_checksum :: "string \<Rightarrow> bool" where
  "valid_checksum s \<longleftrightarrow> length s = 64 \<and> list_all is_hex s"

definition valid_version :: "string \<Rightarrow> bool" where
  "valid_version s \<longleftrightarrow>
     (case s of [] \<Rightarrow> False
      | c # cs \<Rightarrow> (is_lower c \<or> is_digit c) \<and> 2 \<le> length cs \<and> length cs \<le> 127 \<and>
          list_all (\<lambda>d. is_lower d \<or> is_digit d \<or> d \<in> set ''._:-'') cs)"

definition valid_code :: "string \<Rightarrow> bool" where
  "valid_code s \<longleftrightarrow>
     (case s of [] \<Rightarrow> False
      | c # cs \<Rightarrow> is_upper c \<and> length cs \<le> 127 \<and>
          list_all (\<lambda>d. is_upper d \<or> is_digit d \<or> d \<in> set ''_:-'') cs)"

text \<open>The length of a text in code points: the bytes other than
  \<^verbatim>\<open>10xxxxxx\<close>, which continue a UTF-8 sequence.\<close>

definition text_length :: "string \<Rightarrow> nat" where
  "text_length s = length (filter (\<lambda>c. digit7 c \<longrightarrow> digit6 c) s)"

definition text_within :: "nat \<Rightarrow> nat \<Rightarrow> string \<Rightarrow> bool" where
  "text_within a b s \<longleftrightarrow> a \<le> text_length s \<and> text_length s \<le> b"

definition valid_code_opt :: "string option \<Rightarrow> bool" where
  "valid_code_opt r \<longleftrightarrow> (case r of None \<Rightarrow> True | Some s \<Rightarrow> valid_code s)"

section \<open>Exceptions and results\<close>

datatype tool_error_code =
    DUPLICATE_TOOL | INVALID_REGISTRATION | FORBIDDEN_REGISTRATION | TOOL_NOT_FOUND
  | INVALID_INPUT | INVALID_OUTPUT | EXECUTION_FAILED

datatype exn =
    ResearchStateTransitionError code
  | ResearchBudgetError code
  | ResearchToolAuthorizationError code
  | ResearchToolContextError code
  | ResearchInvocationError code
  | ResearchObservationError code
  | ResearchToolExecutionError code
  | ResearchPlanValidationError code
  | ResearchPolicyError code
  | ResearchRequestError code
  | ResearchRunControlError code
  | ResearchOrchestrationError code
  | ToolRegistryError tool_error_code
  | LookupError code
  | ValueError code
  | TypeError code
  | RuntimeError code
  | IntegrityError code
  | InvalidOperation
  | ValidationError

type_synonym 'a res = "exn + 'a"

text \<open>Sequencing, for \<open>exn\<close> and for the error types of single components.\<close>

fun bind_res :: "'e + 'a \<Rightarrow> ('a \<Rightarrow> 'e + 'b) \<Rightarrow> 'e + 'b" where
  "bind_res (Inl e) f = Inl e"
| "bind_res (Inr x) f = f x"

lemma bind_res_eq_Inr [simp]:
  "bind_res m f = Inr y \<longleftrightarrow> (\<exists>x. m = Inr x \<and> f x = Inr y)"
  by (cases m) auto

lemma bind_res_eq_Inl:
  "bind_res m f = Inl e \<longleftrightarrow> m = Inl e \<or> (\<exists>x. m = Inr x \<and> f x = Inl e)"
  by (cases m) auto

lemma bind_res_assoc: "bind_res (bind_res m f) g = bind_res m (\<lambda>x. bind_res (f x) g)"
  by (cases m) auto

text \<open>A loop that raises stops at the first raise and keeps the results so far otherwise.\<close>

fun fold_res :: "('a \<Rightarrow> 's \<Rightarrow> 'e + 's) \<Rightarrow> 'a list \<Rightarrow> 's \<Rightarrow> 'e + 's" where
  "fold_res f [] s = Inr s"
| "fold_res f (x # xs) s = bind_res (f x s) (fold_res f xs)"

lemma fold_res_append:
  "fold_res f (xs @ ys) s = bind_res (fold_res f xs s) (fold_res f ys)"
proof (induction xs arbitrary: s)
  case Nil
  show ?case by simp
next
  case (Cons x xs)
  then show ?case by (cases "f x s") simp_all
qed

text \<open>An invariant of every iteration is an invariant of the loop.\<close>

lemma fold_res_invariant:
  assumes "fold_res f xs s = Inr t" and "I s"
    and "\<And>x s t. x \<in> set xs \<Longrightarrow> I s \<Longrightarrow> f x s = Inr t \<Longrightarrow> I t"
  shows "I t"
  using assms
proof (induction xs arbitrary: s)
  case Nil
  then show ?case by simp
next
  case (Cons x xs)
  from Cons.prems(1) obtain u where u: "f x s = Inr u" "fold_res f xs u = Inr t"
    by auto
  from Cons.prems(2,3) u(1) have "I u" by auto
  then show ?case
    using Cons.IH [OF u(2)] Cons.prems(3) by auto
qed

section \<open>Identifier factories and clocks\<close>

record env =
  env_id :: "nat \<Rightarrow> uuid"
  env_now :: "nat \<Rightarrow> datetime"
  env_i :: nat
  env_t :: nat

definition next_id :: "env \<Rightarrow> uuid \<times> env" where
  "next_id s = (env_id s (env_i s), s\<lparr>env_i := Suc (env_i s)\<rparr>)"

definition next_now :: "env \<Rightarrow> datetime \<times> env" where
  "next_now s = (env_now s (env_t s), s\<lparr>env_t := Suc (env_t s)\<rparr>)"

section \<open>Dictionaries\<close>

definition dict_get :: "('k, 'v) dict \<Rightarrow> 'k \<Rightarrow> 'v \<Rightarrow> 'v" where
  "dict_get d k v = (case map_of d k of None \<Rightarrow> v | Some w \<Rightarrow> w)"

definition well_formed_dict :: "('k, 'v) dict \<Rightarrow> bool" where
  "well_formed_dict d \<longleftrightarrow> distinct (map fst d)"

lemma dict_get_update [simp]:
  "dict_get (AList.update k v d) k' w = (if k' = k then v else dict_get d k' w)"
  by (simp add: dict_get_def update_conv')

lemma well_formed_dict_update [simp, intro]:
  "well_formed_dict d \<Longrightarrow> well_formed_dict (AList.update k v d)"
  by (simp add: well_formed_dict_def distinct_update)

text \<open>The sum of the values of a counter dictionary, and what incrementing one entry does to it.\<close>

definition dict_total :: "('k, nat) dict \<Rightarrow> nat" where
  "dict_total d = sum_list (map snd d)"

lemma dict_total_update:
  "well_formed_dict d \<Longrightarrow> dict_total (AList.update k (dict_get d k 0 + n) d) = dict_total d + n"
  unfolding dict_total_def well_formed_dict_def dict_get_def
  by (induction d) (auto simp: map_of_eq_None_iff [THEN iffD2] split: option.splits)

section \<open>Lists\<close>

lemma sorted_filter_sublist: "sorted (map f xs) \<Longrightarrow> sorted (map f (filter P xs))"
  by (rule sorted_filter)

lemma list_all_filter [simp]: "list_all P (filter P xs)"
  by (simp add: list_all_iff)

text \<open>Python's \<open>dict.fromkeys\<close>: the first occurrence of each element, in order.\<close>

fun from_keys :: "'a list \<Rightarrow> 'a list" where
  "from_keys [] = []"
| "from_keys (x # xs) = x # filter (\<lambda>y. y \<noteq> x) (from_keys xs)"

lemma set_from_keys [simp]: "set (from_keys xs) = set xs"
  by (induction xs) auto

lemma distinct_from_keys [simp]: "distinct (from_keys xs)"
  by (induction xs) auto

lemma map_insort_key: "map f (insort_key f x xs) = insort (f x) (map f xs)"
  by (induction xs) auto

lemma map_sort_key: "map f (sort_key f xs) = sort (map f xs)"
  by (induction xs) (auto simp: map_insort_key)

section \<open>Tables\<close>

text \<open>\<open>SELECT ... FOR UPDATE\<close> of one row and its assignment: the first matching row changes.\<close>

fun update_first :: "('a \<Rightarrow> bool) \<Rightarrow> ('a \<Rightarrow> 'a) \<Rightarrow> 'a list \<Rightarrow> 'a list" where
  "update_first P f [] = []"
| "update_first P f (x # xs) = (if P x then f x # xs else x # update_first P f xs)"

text \<open>\<open>ORDER BY a, b\<close> on rows: a stable sort on the second key, then on the first.\<close>

definition order_by2 :: "('a \<Rightarrow> 'k::linorder) \<Rightarrow> ('a \<Rightarrow> 'l::linorder) \<Rightarrow> 'a list \<Rightarrow> 'a list" where
  "order_by2 f g xs = sort_key f (sort_key g xs)"

lemma find_SomeD: "List.find P xs = Some x \<Longrightarrow> x \<in> set xs \<and> P x"
  by (auto simp: find_Some_iff)

lemma find_append:
  "List.find P (xs @ ys) = (case List.find P xs of None \<Rightarrow> List.find P ys | Some x \<Rightarrow> Some x)"
  by (induction xs) auto

lemma map_key_update_first:
  "(\<And>x. key (f x) = key x) \<Longrightarrow> map key (update_first P f xs) = map key xs"
  by (induction xs) auto

lemma length_update_first [simp]: "length (update_first P f xs) = length xs"
  by (induction xs) auto

text \<open>A row found by its key and a condition is the row of that key, when keys are distinct.\<close>

lemma find_key_pred:
  "distinct (map key xs) \<Longrightarrow> List.find (\<lambda>r. key r = i \<and> Q r) xs = Some row \<Longrightarrow>
   List.find (\<lambda>r. key r = i) xs = Some row"
proof (induction xs)
  case Nil
  then show ?case by simp
next
  case (Cons x xs)
  show ?case
  proof (cases "key x = i \<and> Q x")
    case True
    with Cons.prems show ?thesis by simp
  next
    case False
    with Cons.prems have rest: "List.find (\<lambda>r. key r = i \<and> Q r) xs = Some row" by simp
    then have "i \<in> key ` set xs" by (auto simp: find_Some_iff)
    with Cons.prems(1) have "key x \<noteq> i" by auto
    with Cons rest show ?thesis by simp
  qed
qed

lemma find_key_None: "i \<notin> key ` set xs \<Longrightarrow> List.find (\<lambda>r. key r = i) xs = None"
  by (auto simp: find_None_iff)

lemma find_key_update_first:
  assumes "distinct (map key xs)" and "List.find (\<lambda>r. key r = i \<and> Q r) xs = Some row"
    and "\<And>x. key (f x) = key x"
  shows "List.find (\<lambda>r. key r = k) (update_first (\<lambda>r. key r = i \<and> Q r) f xs) =
    (if k = i then Some (f row) else List.find (\<lambda>r. key r = k) xs)"
  using assms
proof (induction xs)
  case Nil
  then show ?case by simp
next
  case (Cons x xs)
  show ?case
  proof (cases "key x = i \<and> Q x")
    case True
    with Cons.prems show ?thesis by auto
  next
    case False
    with Cons.prems have rest: "List.find (\<lambda>r. key r = i \<and> Q r) xs = Some row" by simp
    then have "i \<in> key ` set xs" by (auto simp: find_Some_iff)
    with Cons.prems(1) have "key x \<noteq> i" by auto
    with False Cons rest show ?thesis by auto
  qed
qed

end
