(* ===== verification/Py_Values.thy ===== *)
theory Py_Values
  imports Prelude Complex_Main
begin

text \<open>
  Python values as they appear in payloads, and the canonical JSON of
  \<open>domain/research_agent/canonical.py\<close>. \<open>pyval\<close> is what a payload can hold after
  \<open>model_dump(mode="python")\<close>; a string enum is its string, a contract is its dictionary.
  Dictionary keys are strings (the contracts require it). \<open>json\<close> is what \<open>_normalize\<close>
  returns, and \<open>json_dumps\<close> is \<open>json.dumps\<close> with the separators, key order and escapes
  that \<open>canonical_json\<close> asks for.

  Four functions of the Python library work on tables or algorithms that the repository only
  calls: Unicode case folding, SHA-256, \<open>Decimal(str)\<close> and \<open>datetime.fromisoformat\<close>.
  They are the fields of \<open>pylib\<close>, an argument of every definition that uses them.
\<close>

section \<open>Decimals\<close>

text \<open>A sign, a coefficient and an exponent; or infinity, a quiet or a signaling NaN.\<close>

datatype decimal = DFinite bool nat int | DInf bool | DNaN | DSNaN

fun dec_is_finite :: "decimal \<Rightarrow> bool" where
  "dec_is_finite (DFinite _ _ _) = True"
| "dec_is_finite _ = False"

definition dec_scaled :: "bool \<Rightarrow> nat \<Rightarrow> int \<Rightarrow> int \<Rightarrow> int" where
  "dec_scaled s c e m = (if s then - int c else int c) * 10 ^ nat (e - m)"

text \<open>Numeric equality and order: both coefficients are brought to the smaller exponent.\<close>

fun dec_eq :: "decimal \<Rightarrow> decimal \<Rightarrow> bool" where
  "dec_eq (DFinite s c e) (DFinite s' c' e') =
     (dec_scaled s c e (min e e') = dec_scaled s' c' e' (min e e'))"
| "dec_eq (DInf s) (DInf s') = (s = s')"
| "dec_eq _ _ = False"

fun dec_of_int :: "int \<Rightarrow> decimal" where
  "dec_of_int i = DFinite (i < 0) (nat \<bar>i\<bar>) 0"

lemma dec_eq_refl: "d \<noteq> DNaN \<Longrightarrow> d \<noteq> DSNaN \<Longrightarrow> dec_eq d d"
  by (cases d) auto

lemma dec_eq_sym: "dec_eq a b = dec_eq b a"
  by (induction a b rule: dec_eq.induct) (auto simp: min.commute)

section \<open>Payload values\<close>

datatype pyval =
    PNone | PBool bool | PInt int | PFloat rat | PStr string | PDec decimal | PUuid uuid
  | PDateTime datetime | PNaive int | PDate int
  | PList "pyval list" | PTuple "pyval list" | PDict "(string \<times> pyval) list"

type_synonym payload = "(string, pyval) dict"

fun py_num :: "pyval \<Rightarrow> decimal option" where
  "py_num (PBool b) = Some (dec_of_int (of_bool b))"
| "py_num (PInt i) = Some (dec_of_int i)"
| "py_num (PDec d) = Some d"
| "py_num _ = None"

text \<open>
  Python's \<open>==\<close>: numbers compare by value, sequences element by element and by kind,
  dictionaries as maps. A float is compared with a float only: no contract of the source lets a
  float meet an exact number.
\<close>

fun py_eq :: "pyval \<Rightarrow> pyval \<Rightarrow> bool"
and py_eq_list :: "pyval list \<Rightarrow> pyval list \<Rightarrow> bool"
and py_eq_items :: "(string \<times> pyval) list \<Rightarrow> (string \<times> pyval) list \<Rightarrow> bool" where
  "py_eq (PList xs) v = (case v of PList ys \<Rightarrow> py_eq_list xs ys | _ \<Rightarrow> False)"
| "py_eq (PTuple xs) v = (case v of PTuple ys \<Rightarrow> py_eq_list xs ys | _ \<Rightarrow> False)"
| "py_eq (PDict xs) v =
     (case v of PDict ys \<Rightarrow> length xs = length ys \<and> py_eq_items xs ys | _ \<Rightarrow> False)"
| "py_eq PNone v = (v = PNone)"
| "py_eq (PStr s) v = (v = PStr s)"
| "py_eq (PUuid u) v = (v = PUuid u)"
| "py_eq (PDateTime t) v = (v = PDateTime t)"
| "py_eq (PNaive t) v = (v = PNaive t)"
| "py_eq (PDate t) v = (v = PDate t)"
| "py_eq (PFloat r) v = (v = PFloat r)"
| "py_eq (PBool b) v = (case py_num v of None \<Rightarrow> False | Some d \<Rightarrow> dec_eq (dec_of_int (of_bool b)) d)"
| "py_eq (PInt i) v = (case py_num v of None \<Rightarrow> False | Some d \<Rightarrow> dec_eq (dec_of_int i) d)"
| "py_eq (PDec c) v = (case py_num v of None \<Rightarrow> False | Some d \<Rightarrow> dec_eq c d)"
| "py_eq_list [] ys = (ys = [])"
| "py_eq_list (x # xs) ys = (case ys of [] \<Rightarrow> False | y # zs \<Rightarrow> py_eq x y \<and> py_eq_list xs zs)"
| "py_eq_items [] ys = True"
| "py_eq_items ((k, v) # xs) ys =
     (case map_of ys k of None \<Rightarrow> False | Some w \<Rightarrow> py_eq v w \<and> py_eq_items xs ys)"

definition payload_get :: "payload \<Rightarrow> string \<Rightarrow> pyval" where
  "payload_get p k = dict_get p k PNone"

text \<open>\<open>_reject_binary_float\<close>: a binary float anywhere in a contract is refused.\<close>

fun has_binary_float :: "pyval \<Rightarrow> bool" where
  "has_binary_float (PFloat _) = True"
| "has_binary_float (PDict kvs) = (\<exists>kv \<in> set kvs. has_binary_float (snd kv))"
| "has_binary_float (PList vs) = (\<exists>v \<in> set vs. has_binary_float v)"
| "has_binary_float (PTuple vs) = (\<exists>v \<in> set vs. has_binary_float v)"
| "has_binary_float _ = False"

section \<open>Library functions\<close>

text \<open>\<open>fromisoformat\<close> gives a naive time, or an aware one: its UTC offset and its instant.\<close>

datatype iso_time = IsoNaive int | IsoAware int datetime

record pylib =
  lib_casefold :: "string \<Rightarrow> string"
  lib_sha256_hex :: "string \<Rightarrow> string"
  lib_decimal :: "string \<Rightarrow> decimal option"
  lib_fromisoformat :: "string \<Rightarrow> iso_time option"

text \<open>What \<open>hashlib.sha256(...).hexdigest()\<close> documents: 64 lower-case hexadecimal digits.\<close>

definition hexdigest_documented :: "pylib \<Rightarrow> bool" where
  "hexdigest_documented L \<longleftrightarrow> (\<forall>s. valid_checksum (lib_sha256_hex L s))"

text \<open>The two cases of an ASCII letter differ in bit 5.\<close>

fun set_bit5 :: "bool \<Rightarrow> char \<Rightarrow> char" where
  "set_bit5 b (Char b0 b1 b2 b3 b4 b5 b6 b7) = Char b0 b1 b2 b3 b4 b b6 b7"

definition ascii_lower_char :: "char \<Rightarrow> char" where
  "ascii_lower_char c = (if is_upper c then set_bit5 True c else c)"

definition ascii_upper_char :: "char \<Rightarrow> char" where
  "ascii_upper_char c = (if is_lower c then set_bit5 False c else c)"

definition ascii_lower :: "string \<Rightarrow> string" where
  "ascii_lower = map ascii_lower_char"

section \<open>Printing numbers, decimals and times\<close>

definition digit_char :: "nat \<Rightarrow> char" where
  "digit_char n = char_of (48 + n)"

fun nat_str :: "nat \<Rightarrow> string" where
  "nat_str n = (if n < 10 then [digit_char n] else nat_str (n div 10) @ [digit_char (n mod 10)])"

declare nat_str.simps [simp del]

definition int_str :: "int \<Rightarrow> string" where
  "int_str i = (if i < 0 then CHR ''-'' # nat_str (nat (- i)) else nat_str (nat i))"

definition pad :: "nat \<Rightarrow> string \<Rightarrow> string" where
  "pad w s = replicate (w - length s) (CHR ''0'') @ s"

text \<open>\<open>str(Decimal)\<close>: the to-scientific-string conversion of the decimal specification.\<close>

definition dec_str :: "bool \<Rightarrow> nat \<Rightarrow> int \<Rightarrow> string" where
  "dec_str s c e =
     (let ds = nat_str c; left = int (length ds) + e;
          dot = (if e \<le> 0 \<and> left > -6 then left else 1);
          ip = (if dot \<le> 0 then ''0'' else if dot \<ge> int (length ds)
                then ds @ replicate (nat (dot - int (length ds))) (CHR ''0'')
                else take (nat dot) ds);
          fp = (if dot \<le> 0 then CHR ''.'' # replicate (nat (- dot)) (CHR ''0'') @ ds
                else if dot \<ge> int (length ds) then [] else CHR ''.'' # drop (nat dot) ds);
          xp = (if left = dot then []
                else CHR ''E'' # (if left - dot \<ge> 0 then ''+'' else []) @ int_str (left - dot))
      in (if s then ''-'' else []) @ ip @ fp @ xp)"

text \<open>
  The proleptic Gregorian date of a day number (days since 1970-01-01), and \<open>isoformat\<close>. The
  microseconds are printed only when they are not zero.
\<close>

definition civil_of_days :: "int \<Rightarrow> int \<times> int \<times> int" where
  "civil_of_days n =
     (let z = n + 719468; era = z div 146097; doe = z - era * 146097;
          yoe = (doe - doe div 1460 + doe div 36524 - doe div 146096) div 365;
          doy = doe - (365 * yoe + yoe div 4 - yoe div 100);
          mp = (5 * doy + 2) div 153; d = doy - (153 * mp + 2) div 5 + 1;
          m = (if mp < 10 then mp + 3 else mp - 9);
          y = yoe + era * 400 + (if m \<le> 2 then 1 else 0)
      in (y, m, d))"

definition date_isoformat :: "int \<Rightarrow> string" where
  "date_isoformat n =
     (case civil_of_days n of (y, m, d) \<Rightarrow>
        pad 4 (int_str y) @ ''-'' @ pad 2 (int_str m) @ ''-'' @ pad 2 (int_str d))"

definition utc_isoformat_z :: "datetime \<Rightarrow> string" where
  "utc_isoformat_z t =
     (let day = t div 86400000000; r = t mod 86400000000; us = r mod 1000000; s = r div 1000000
      in date_isoformat day @ ''T'' @ pad 2 (int_str (s div 3600)) @ '':'' @
         pad 2 (int_str (s div 60 mod 60)) @ '':'' @ pad 2 (int_str (s mod 60)) @
         (if us = 0 then [] else CHR ''.'' # pad 6 (int_str us)) @ ''Z'')"

section \<open>Canonical JSON\<close>

datatype json =
    JNull | JBool bool | JInt int | JStr string | JList "json list" | JDict "(string \<times> json) list"

fun normalize :: "pyval \<Rightarrow> json res"
and normalize_list :: "pyval list \<Rightarrow> json list res"
and normalize_items :: "(string \<times> pyval) list \<Rightarrow> (string \<times> json) list res" where
  "normalize PNone = Inr JNull"
| "normalize (PBool b) = Inr (JBool b)"
| "normalize (PStr s) = Inr (JStr s)"
| "normalize (PInt i) = Inr (JInt i)"
| "normalize (PFloat _) = Inl (TypeError ''FLOAT'')"
| "normalize (PDec d) =
     (case d of DFinite s c e \<Rightarrow> Inr (JStr (dec_str s c e)) | _ \<Rightarrow> Inl (ValueError ''NOT_FINITE''))"
| "normalize (PUuid u) = Inr (JStr u)"
| "normalize (PDateTime t) = Inr (JStr (utc_isoformat_z t))"
| "normalize (PNaive _) = Inl (ValueError ''NAIVE_DATETIME'')"
| "normalize (PDate d) = Inr (JStr (date_isoformat d))"
| "normalize (PDict kvs) = bind_res (normalize_items kvs) (\<lambda>js. Inr (JDict js))"
| "normalize (PList vs) = bind_res (normalize_list vs) (\<lambda>js. Inr (JList js))"
| "normalize (PTuple vs) = bind_res (normalize_list vs) (\<lambda>js. Inr (JList js))"
| "normalize_list [] = Inr []"
| "normalize_list (v # vs) =
     bind_res (normalize v) (\<lambda>j. bind_res (normalize_list vs) (\<lambda>js. Inr (j # js)))"
| "normalize_items [] = Inr []"
| "normalize_items ((k, v) # kvs) =
     bind_res (normalize v) (\<lambda>j. bind_res (normalize_items kvs) (\<lambda>js. Inr ((k, j) # js)))"

definition hex_char :: "nat \<Rightarrow> char" where
  "hex_char n = (if n < 10 then char_of (48 + n) else char_of (87 + n))"

definition escape_special :: "char \<Rightarrow> string" where
  "escape_special c =
     (let n = of_char c :: nat in
      if n = 34 then [char_of (92::nat), c] else if n = 92 then [c, c]
      else if n = 8 then [char_of (92::nat), CHR ''b''] else if n = 12 then [char_of (92::nat), CHR ''f'']
      else if n = 10 then [char_of (92::nat), CHR ''n''] else if n = 13 then [char_of (92::nat), CHR ''r'']
      else if n = 9 then [char_of (92::nat), CHR ''t'']
      else [char_of (92::nat), CHR ''u'', CHR ''0'', CHR ''0'', hex_char (n div 16), hex_char (n mod 16)])"

text \<open>Bytes from 32 on are printed as they are, except the quote and the backslash.\<close>

definition escape_char :: "char \<Rightarrow> string" where
  "escape_char c =
     (if (digit5 c \<or> digit6 c \<or> digit7 c) \<and> c \<noteq> CHR 0x22 \<and> c \<noteq> CHR 0x5C then [c] else escape_special c)"

definition json_quote :: "string \<Rightarrow> string" where
  "json_quote s = [char_of (34::nat)] @ concat (map escape_char s) @ [char_of (34::nat)]"

fun intersperse_comma :: "string list \<Rightarrow> string" where
  "intersperse_comma [] = []"
| "intersperse_comma [x] = x"
| "intersperse_comma (x # y # zs) = x @ CHR '','' # intersperse_comma (y # zs)"

fun json_dumps :: "json \<Rightarrow> string" where
  "json_dumps JNull = ''null''"
| "json_dumps (JBool b) = (if b then ''true'' else ''false'')"
| "json_dumps (JInt i) = int_str i"
| "json_dumps (JStr s) = json_quote s"
| "json_dumps (JList js) = ''['' @ intersperse_comma (map json_dumps js) @ '']''"
| "json_dumps (JDict kjs) =
     CHR ''{'' # intersperse_comma
       (map (\<lambda>(k, s). json_quote k @ CHR '':'' # s)
          (sort_key fst (map (\<lambda>kj. (fst kj, json_dumps (snd kj))) kjs))) @ ''}''"

definition canonical_json :: "pyval \<Rightarrow> string res" where
  "canonical_json v = bind_res (normalize v) (\<lambda>j. Inr (json_dumps j))"

definition stable_checksum :: "pylib \<Rightarrow> pyval \<Rightarrow> checksum res" where
  "stable_checksum L v = bind_res (canonical_json v) (\<lambda>s. Inr (lib_sha256_hex L s))"

text \<open>
  \<open>json.loads(canonical_json(v))\<close>: the text is read back to the normalized value, with the
  keys of every dictionary in sorted order.
\<close>

fun json_loads :: "json \<Rightarrow> pyval" where
  "json_loads JNull = PNone"
| "json_loads (JBool b) = PBool b"
| "json_loads (JInt i) = PInt i"
| "json_loads (JStr s) = PStr s"
| "json_loads (JList js) = PList (map json_loads js)"
| "json_loads (JDict kjs) = PDict (sort_key fst (map (\<lambda>kj. (fst kj, json_loads (snd kj))) kjs))"

section \<open>Facts shared by the components\<close>

lemma normalize_list_map:
  "normalize_list vs = Inr js \<Longrightarrow> length js = length vs"
  by (induction vs arbitrary: js) auto

lemma stable_checksum_valid:
  "hexdigest_documented L \<Longrightarrow> stable_checksum L v = Inr c \<Longrightarrow> valid_checksum c"
  by (auto simp: stable_checksum_def hexdigest_documented_def)

text \<open>
  The canonical text does not depend on the insertion order of a dictionary: two dictionaries
  with distinct keys and the same entries have the same canonical JSON.
\<close>

lemma sort_key_fst_unique:
  fixes xs ys :: "(string \<times> 'b) list"
  assumes "distinct (map fst xs)" and "distinct (map fst ys)" and "set xs = set ys"
  shows "sort_key fst xs = sort_key fst ys"
proof (rule map_sorted_distinct_set_unique [where f = fst])
  have "inj_on fst (set xs)" using assms(1) by (simp add: distinct_map)
  then show "inj_on fst (set (sort_key fst xs) \<union> set (sort_key fst ys))"
    using assms(3) by simp
  show "sorted (map fst (sort_key fst xs))" "sorted (map fst (sort_key fst ys))" by simp_all
  show "distinct (map fst (sort_key fst xs))"
    using assms(1) by (metis distinct_map distinct_sort set_sort)
  show "distinct (map fst (sort_key fst ys))"
    using assms(2) by (metis distinct_map distinct_sort set_sort)
  show "set (sort_key fst xs) = set (sort_key fst ys)" using assms(3) by simp
qed

end
