(* ===== verification/Research_Types.thy ===== *)
theory Research_Types
  imports Prelude Py_Values
begin

text \<open>
  The closed vocabularies (\<open>domain/research_agent/enums.py\<close>) and the immutable contracts
  (\<open>domain/research_agent/schemas.py\<close>) of the controlled research orchestration. An enum is
  a datatype whose constructors carry the enum's values behind a short prefix; a pydantic
  contract is a record. Where the source builds a contract, the model checks the field
  constraints that a computed value could violate (codes, bounds, lengths).
\<close>

section \<open>Vocabularies\<close>

datatype research_type =
    COMPANY_OVERVIEW | FINANCIAL_HEALTH | VALUATION_SNAPSHOT | CATALYSTS_AND_RISKS
  | DATA_QUALITY_REVIEW | FULL_RESEARCH_PACKAGE

datatype research_section =
    Sec_SECURITY_IDENTITY | Sec_DATA_AVAILABILITY | Sec_FINANCIAL_HEALTH
  | Sec_VALUATION_SNAPSHOT | Sec_DOCUMENT_EVIDENCE | Sec_CATALYST_EVIDENCE
  | Sec_RISK_EVIDENCE | Sec_CORPORATE_ACTIONS | Sec_DATA_QUALITY | Sec_LIMITATIONS

definition all_sections :: "research_section list" where
  "all_sections =
     [Sec_SECURITY_IDENTITY, Sec_DATA_AVAILABILITY, Sec_FINANCIAL_HEALTH,
      Sec_VALUATION_SNAPSHOT, Sec_DOCUMENT_EVIDENCE, Sec_CATALYST_EVIDENCE,
      Sec_RISK_EVIDENCE, Sec_CORPORATE_ACTIONS, Sec_DATA_QUALITY, Sec_LIMITATIONS]"

definition all_research_types :: "research_type list" where
  "all_research_types =
     [COMPANY_OVERVIEW, FINANCIAL_HEALTH, VALUATION_SNAPSHOT, CATALYSTS_AND_RISKS,
      DATA_QUALITY_REVIEW, FULL_RESEARCH_PACKAGE]"

lemma set_all_sections [simp]: "set all_sections = UNIV"
  unfolding all_sections_def using research_section.exhaust by auto

lemma distinct_all_sections [simp]: "distinct all_sections"
  by (simp add: all_sections_def)

lemma set_all_research_types [simp]: "set all_research_types = UNIV"
  unfolding all_research_types_def using research_type.exhaust by auto

datatype research_mode = REAL_RESEARCH | Mode_SYNTHETIC_TEST_ONLY

datatype run_status =
    Run_CREATED | Run_PLANNING | Run_PLANNED | Run_RUNNING | Run_PAUSED | Run_COMPLETED
  | Run_PARTIAL | Run_BLOCKED | Run_FAILED | Run_CANCELLED

datatype step_status =
    Step_PENDING | Step_READY | Step_RUNNING | Step_PASS | Step_PARTIAL | Step_BLOCKED
  | Step_FAIL | Step_SKIPPED

datatype invocation_status =
    Inv_PENDING | Inv_RUNNING | Inv_PASS | Inv_PARTIAL | Inv_BLOCKED | Inv_FAIL

datatype step_type =
    RESOLVE_SECURITY | LOAD_SNAPSHOT | QUERY_STRUCTURED_DATA | QUERY_DOCUMENT_EVIDENCE
  | VALIDATE_EVIDENCE | BUILD_CLAIMS | VALIDATE_CLAIMS | ASSEMBLE_PACKAGE

datatype observation_type =
    ObsT_SECURITY_IDENTITY | ObsT_STRUCTURED_METRIC | ObsT_FINANCIAL_FACT
  | ObsT_DOCUMENT_EVIDENCE | ObsT_CORPORATE_ACTION | ObsT_DATA_QUALITY | ObsT_TOOL_ERROR
  | ObsT_BLOCKED_CAPABILITY

datatype observation_status = Obs_PASS | Obs_PARTIAL | Obs_BLOCKED | Obs_FAIL

datatype evidence_type =
    SECURITY_MASTER_EVIDENCE | SNAPSHOT_EVIDENCE | STRUCTURED_FACT_EVIDENCE
  | DERIVED_METRIC_EVIDENCE | METRIC_LINEAGE_EVIDENCE | DOCUMENT_CITATION_EVIDENCE
  | CORPORATE_ACTION_EVIDENCE | DATA_QUALITY_EVIDENCE | BLOCKED_CAPABILITY_EVIDENCE

datatype evidence_status =
    Ev_VALID | Ev_INVALID | Ev_FUTURE_DATA | Ev_SOURCE_MISSING | Ev_CONFLICTING | Ev_BLOCKED

datatype synthetic_status =
    REAL_VERIFIED | FIXTURE_REAL_EXCERPT | SYNTHETIC_TEST_ONLY | Synthetic_UNKNOWN

datatype claim_type =
    Claim_IDENTITY | Claim_FINANCIAL_FACT | Claim_FINANCIAL_METRIC | Claim_VALUATION_METRIC
  | Claim_DOCUMENT_DISCLOSURE | Claim_CORPORATE_ACTION | Claim_DATA_QUALITY | Claim_LIMITATION

datatype claim_support = SUPPORTED | PARTIALLY_SUPPORTED | CONFLICTING | UNSUPPORTED | BLOCKED

datatype claim_lifecycle = CANDIDATE | VALIDATED | REJECTED

datatype evidence_role = PRIMARY | CORROBORATING | CONTRADICTING | CONTEXT | LIMITATION

datatype package_status = Pkg_COMPLETE | Pkg_PARTIAL | Pkg_BLOCKED | Pkg_FAILED

datatype section_status = Ps_PASS | Ps_NOT_REQUESTED | Ps_NO_EVIDENCE | Ps_BLOCKED | Ps_PARTIAL

datatype run_event_type =
    RUN_CREATED | STATE_TRANSITION | PLAN_CREATED | STEP_TRANSITION | TOOL_ATTEMPT
  | BUDGET_EXHAUSTED | WARNING | RUN_TERMINATED

section \<open>Policies, requests and budgets\<close>

record allowed_tool =
  at_tool_name :: string
  at_tool_version :: string

definition tool_key :: "allowed_tool \<Rightarrow> string \<times> string" where
  "tool_key t = (at_tool_name t, at_tool_version t)"

record requested_budgets =
  rb_max_steps :: "nat option"
  rb_max_tool_calls :: "nat option"
  rb_max_calls_per_tool :: "nat option"
  rb_max_retries_per_step :: "nat option"
  rb_max_duration_seconds :: "nat option"

record research_policy =
  pol_version :: version
  pol_checksum :: checksum
  pol_allowed_research_types :: "research_type list"
  pol_allowed_sections :: "research_section list"
  pol_allowed_tools :: "allowed_tool list"
  pol_denied_tools :: "allowed_tool list"
  pol_max_steps :: nat
  pol_max_tool_calls :: nat
  pol_max_calls_per_tool :: nat
  pol_max_retries_per_step :: nat
  pol_max_duration_seconds :: nat
  pol_model_token_budget :: nat
  pol_require_snapshot :: bool
  pol_require_as_of :: bool
  pol_require_evidence_for_claims :: bool
  pol_allow_synthetic_evidence :: bool
  pol_allow_unknown_published_at :: bool
  pol_allow_partial_completion :: bool
  pol_reuse_partial_runs :: bool
  pol_allow_model_planner :: bool
  pol_allow_model_reasoner :: bool

record research_request_create =
  rq_security_query :: string
  rq_research_type :: research_type
  rq_snapshot_id :: uuid
  rq_research_as_of_time :: datetime
  rq_requested_sections :: "research_section list"
  rq_policy_version :: version
  rq_planner_version :: version
  rq_requested_budgets :: requested_budgets
  rq_research_mode :: research_mode

record research_request = research_request_create +
  rq_id :: uuid
  rq_resolved_security_id :: uuid
  rq_normalized_security_query :: string
  rq_tool_catalog_version :: string
  rq_tool_catalog_checksum :: checksum
  rq_request_checksum :: checksum
  rq_created_at :: datetime

record run_context =
  ctx_security_id :: uuid
  ctx_snapshot_id :: uuid
  ctx_research_as_of_time :: datetime
  ctx_run_id :: uuid
  ctx_request_id :: uuid
  ctx_policy_version :: version
  ctx_tool_catalog_version :: string

record run_budget =
  bud_max_steps :: nat
  bud_max_tool_calls :: nat
  bud_max_calls_per_tool :: nat
  bud_max_retries_per_step :: nat
  bud_max_duration_seconds :: nat
  bud_model_token_budget :: nat
  bud_consumed_steps :: nat
  bud_consumed_tool_calls :: nat
  bud_consumed_model_tokens :: nat
  bud_elapsed_seconds :: decimal
  bud_calls_per_tool :: "(string, nat) dict"
  bud_retries_per_step :: "(string, nat) dict"

section \<open>Runs, plans, steps and events\<close>

record agent_run =
  run_id :: uuid
  run_request_id :: uuid
  run_security_id :: uuid
  run_snapshot_id :: uuid
  run_research_as_of_time :: datetime
  run_status :: run_status
  run_policy_version :: version
  run_planner_version :: version
  run_tool_catalog_version :: string
  run_tool_catalog_checksum :: checksum
  run_idempotency_key :: checksum
  run_budget :: run_budget
  run_warning_codes :: "code list"
  run_terminal_reason_code :: "code option"
  run_created_at :: datetime
  run_updated_at :: datetime
  run_terminal_at :: "datetime option"

record run_update =
  ru_expected_status :: run_status
  ru_target_status :: run_status
  ru_budget :: run_budget
  ru_warning_codes :: "code list"
  ru_terminal_reason_code :: "code option"
  ru_changed_at :: datetime

record step_definition =
  sd_step_index :: nat
  sd_step_key :: string
  sd_step_type :: step_type
  sd_title :: string
  sd_required :: bool
  sd_dependency_keys :: "string list"
  sd_tool_name :: "string option"
  sd_tool_version :: "string option"
  sd_component_name :: "string option"
  sd_input_binding :: "(string, pyval) dict"
  sd_fanout_limit :: nat

record plan_draft =
  pd_planner_version :: version
  pd_plan_version :: version
  pd_tool_catalog_version :: string
  pd_steps :: "step_definition list"

record validated_plan = plan_draft +
  vp_plan_checksum :: checksum

record plan_record = validated_plan +
  pr_id :: uuid
  pr_run_id :: uuid
  pr_created_at :: datetime

record step_write =
  st_id :: uuid
  st_run_id :: uuid
  st_plan_id :: uuid
  st_definition :: step_definition
  st_status :: step_status
  st_skip_reason_code :: "code option"
  st_created_at :: datetime

record step_record = step_write +
  st_updated_at :: datetime
  st_terminal_at :: "datetime option"

record run_event =
  rev_id :: uuid
  rev_run_id :: uuid
  rev_sequence_number :: nat
  rev_event_type :: run_event_type
  rev_from_status :: "run_status option"
  rev_to_status :: "run_status option"
  rev_reason_code :: "code option"
  rev_safe_detail :: "(string, pyval) dict"
  rev_created_at :: datetime

section \<open>Invocations, observations, evidence\<close>

record authorized_call =
  ac_tool_name :: string
  ac_tool_version :: string
  ac_payload :: "(string, pyval) dict"
  ac_input_checksum :: checksum

record invocation_write =
  iw_id :: uuid
  iw_run_id :: uuid
  iw_step_id :: uuid
  iw_attempt_number :: nat
  iw_tool_name :: string
  iw_tool_version :: string
  iw_status :: invocation_status
  iw_redacted_input :: "(string, pyval) dict"
  iw_input_checksum :: checksum
  iw_started_at :: datetime

record invocation_completion =
  ic_status :: invocation_status
  ic_output_checksum :: "checksum option"
  ic_error_code :: "code option"
  ic_safe_error_message :: "string option"
  ic_completed_at :: datetime

record invocation_record = invocation_write +
  ir_output_checksum :: "checksum option"
  ir_error_code :: "code option"
  ir_safe_error_message :: "string option"
  ir_completed_at :: "datetime option"

record observation =
  ob_id :: uuid
  ob_run_id :: uuid
  ob_research_step_id :: uuid
  ob_invocation_id :: "uuid option"
  ob_observation_type :: observation_type
  ob_status :: observation_status
  ob_schema_version :: version
  ob_payload :: "(string, pyval) dict"
  ob_output_checksum :: checksum
  ob_security_id :: uuid
  ob_snapshot_id :: uuid
  ob_research_as_of_time :: datetime
  ob_synthetic_status :: synthetic_status
  ob_warnings :: "code list"
  ob_created_at :: datetime

record evidence =
  ev_id :: uuid
  ev_run_id :: uuid
  ev_observation_id :: uuid
  ev_evidence_type :: evidence_type
  ev_status :: evidence_status
  ev_schema_version :: version
  ev_security_id :: uuid
  ev_snapshot_id :: uuid
  ev_research_as_of_time :: datetime
  ev_source_record_type :: "string option"
  ev_source_record_id :: "uuid option"
  ev_source_checksum :: "checksum option"
  ev_published_at :: "datetime option"
  ev_citation_id :: "uuid option"
  ev_calculation_run_id :: "uuid option"
  ev_calculation_input_ids :: "uuid list"
  ev_formula_version :: "string option"
  ev_synthetic_status :: synthetic_status
  ev_payload :: "(string, pyval) dict"
  ev_warning_codes :: "code list"
  ev_created_at :: datetime

record tool_execution_result =
  ter_status :: observation_status
  ter_invocation :: invocation_record
  ter_observation :: "observation option"
  ter_budget :: run_budget
  ter_retryable :: bool

record conflict_result =
  cr_conflicting :: bool
  cr_reason_codes :: "code list"
  cr_evidence_ids :: "uuid list"

section \<open>Claims and packages\<close>

record claim_write =
  cl_id :: uuid
  cl_run_id :: uuid
  cl_claim_type :: claim_type
  cl_lifecycle_status :: claim_lifecycle
  cl_support_status :: "claim_support option"
  cl_statement_code :: code
  cl_value :: "decimal option"
  cl_unit :: "string option"
  cl_currency_code :: "string option"
  cl_period :: "string option"
  cl_as_of_time :: "datetime option"
  cl_metric_basis :: "string option"
  cl_builder_version :: version
  cl_validator_version :: "version option"
  cl_created_at :: datetime
  cl_completed_at :: "datetime option"

record claim_completion =
  cc_lifecycle_status :: claim_lifecycle
  cc_support_status :: claim_support
  cc_validator_version :: version
  cc_completed_at :: datetime

record evidence_link =
  lk_id :: uuid
  lk_run_id :: uuid
  lk_claim_id :: uuid
  lk_evidence_id :: uuid
  lk_role :: evidence_role
  lk_created_at :: datetime

record package_section =
  ps_section :: research_section
  ps_status :: section_status
  ps_claim_ids :: "uuid list"
  ps_warning_codes :: "code list"

record research_package =
  pk_id :: uuid
  pk_run_id :: uuid
  pk_request_id :: uuid
  pk_security_id :: uuid
  pk_snapshot_id :: uuid
  pk_research_as_of_time :: datetime
  pk_research_type :: research_type
  pk_policy_version :: version
  pk_planner_version :: version
  pk_tool_catalog_version :: string
  pk_evidence_version :: version
  pk_claim_version :: version
  pk_package_version :: version
  pk_status :: package_status
  pk_sections :: "package_section list"
  pk_evidence_ids :: "uuid list"
  pk_unsupported_claim_ids :: "uuid list"
  pk_conflicting_claim_ids :: "uuid list"
  pk_blocked_capabilities :: "code list"
  pk_warnings :: "code list"
  pk_checksum :: checksum
  pk_created_at :: datetime

end
