(* ===== verification/Run_State_Machine.thy ===== *)
theory Run_State_Machine
  imports Research_Types
begin

text \<open>
  The append-audited Research Run state machine (\<open>domain/research_agent/state_machine.py\<close>) and
  the persistence port it relies on (\<open>ResearchRunRepository\<close> of \<open>repositories.py\<close>). The port
  is the locale \<open>run_store\<close>: the operations the machine calls and the laws a repository
  promises. The machine's lemmas are proved in the locale; \<open>Research_Repository\<close> interprets it
  on the model of the SQLAlchemy repository.
\<close>

section \<open>The transition table\<close>

fun ALLOWED_RUN_TRANSITIONS :: "run_status \<Rightarrow> run_status list" where
  "ALLOWED_RUN_TRANSITIONS Run_CREATED = [Run_PLANNING]"
| "ALLOWED_RUN_TRANSITIONS Run_PLANNING = [Run_PLANNED, Run_BLOCKED, Run_FAILED]"
| "ALLOWED_RUN_TRANSITIONS Run_PLANNED = [Run_RUNNING]"
| "ALLOWED_RUN_TRANSITIONS Run_RUNNING =
     [Run_PAUSED, Run_PARTIAL, Run_BLOCKED, Run_COMPLETED, Run_FAILED, Run_CANCELLED]"
| "ALLOWED_RUN_TRANSITIONS Run_PAUSED = [Run_RUNNING, Run_CANCELLED]"
| "ALLOWED_RUN_TRANSITIONS _ = []"

definition TERMINAL_RUN_STATUSES :: "run_status list" where
  "TERMINAL_RUN_STATUSES = [Run_COMPLETED, Run_PARTIAL, Run_BLOCKED, Run_FAILED, Run_CANCELLED]"

abbreviation allowed_run :: "run_status \<Rightarrow> run_status \<Rightarrow> bool" where
  "allowed_run a b \<equiv> b \<in> set (ALLOWED_RUN_TRANSITIONS a)"

abbreviation terminal_run :: "run_status \<Rightarrow> bool" where
  "terminal_run a \<equiv> a \<in> set TERMINAL_RUN_STATUSES"

section \<open>The port and the transition\<close>

record 's run_repository =
  rr_get_run :: "'s \<Rightarrow> uuid \<Rightarrow> agent_run option"
  rr_update_run :: "'s \<Rightarrow> uuid \<Rightarrow> run_update \<Rightarrow> (agent_run \<times> 's) res"
  rr_append_event :: "'s \<Rightarrow> run_event \<Rightarrow> (run_event \<times> 's) res"

text \<open>
  One call of \<open>ResearchRunStateMachine.transition\<close>. The clock is read before the update, the
  event identifier and the sequence number after it. A reason that is no \<open>Code\<close> makes the
  contract that carries it raise: the update for a terminal target, the event otherwise.
\<close>

definition run_update_of :: "agent_run \<Rightarrow> run_status \<Rightarrow> code option \<Rightarrow> datetime \<Rightarrow> run_update" where
  "run_update_of r target reason t =
     \<lparr>ru_expected_status = run_status r, ru_target_status = target, ru_budget = run_budget r,
      ru_warning_codes = run_warning_codes r,
      ru_terminal_reason_code = (if terminal_run target then reason else None),
      ru_changed_at = t\<rparr>"

definition transition_event ::
  "uuid \<Rightarrow> uuid \<Rightarrow> nat \<Rightarrow> run_status \<Rightarrow> run_status \<Rightarrow> code option \<Rightarrow> datetime \<Rightarrow> run_event" where
  "transition_event eid rid n a b reason t =
     \<lparr>rev_id = eid, rev_run_id = rid, rev_sequence_number = n, rev_event_type = STATE_TRANSITION,
      rev_from_status = Some a, rev_to_status = Some b, rev_reason_code = reason,
      rev_safe_detail = [], rev_created_at = t\<rparr>"

definition transition ::
  "'s run_repository \<Rightarrow> ('s \<Rightarrow> uuid \<Rightarrow> nat) \<Rightarrow> 's \<times> env \<Rightarrow> uuid \<Rightarrow> run_status \<Rightarrow> code option
    \<Rightarrow> (agent_run \<times> 's \<times> env) res" where
  "transition R next_sequence se rid target reason =
     (case se of (s, w) \<Rightarrow>
      case rr_get_run R s rid of
        None \<Rightarrow> Inl (ResearchStateTransitionError ''RESEARCH_RUN_NOT_FOUND'')
      | Some current \<Rightarrow>
          if \<not> allowed_run (run_status current) target
          then Inl (ResearchStateTransitionError ''ILLEGAL_RUN_STATE_TRANSITION'')
          else
            let (t, w1) = next_now w; u = run_update_of current target reason t in
            if \<not> valid_code_opt (ru_terminal_reason_code u) then Inl ValidationError
            else bind_res (rr_update_run R s rid u) (\<lambda>(updated, s1).
              let (eid, w2) = next_id w1; n = next_sequence s1 rid in
              if n < 1 \<or> \<not> valid_code_opt reason then Inl ValidationError
              else bind_res
                (rr_append_event R s1
                   (transition_event eid rid n (run_status current) target reason t))
                (\<lambda>(_, s2). Inr (updated, s2, w2))))"

section \<open>Facts about the table\<close>

lemma terminal_iff_no_successor: "terminal_run a \<longleftrightarrow> ALLOWED_RUN_TRANSITIONS a = []"
  by (cases a) (simp_all add: TERMINAL_RUN_STATUSES_def)

lemma allowed_run_not_terminal: "allowed_run a b \<Longrightarrow> \<not> terminal_run a"
  by (auto simp: terminal_iff_no_successor)

lemma not_allowed_into_created: "\<not> allowed_run a Run_CREATED"
  by (cases a) simp_all

section \<open>The audit trail\<close>

text \<open>
  \<open>audit_path a es b\<close>: the events \<open>es\<close> are state transitions that lead from \<open>a\<close> to \<open>b\<close>
  through the table, each starting where the one before ended.
\<close>

fun audit_path :: "run_status \<Rightarrow> run_event list \<Rightarrow> run_status \<Rightarrow> bool" where
  "audit_path a [] b \<longleftrightarrow> a = b"
| "audit_path a (e # es) b \<longleftrightarrow>
     rev_event_type e = STATE_TRANSITION \<and> rev_from_status e = Some a \<and>
     (case rev_to_status e of None \<Rightarrow> False | Some c \<Rightarrow> allowed_run a c \<and> audit_path c es b)"

lemma audit_path_snoc:
  assumes "audit_path a es b" and "allowed_run b c" and "rev_event_type e = STATE_TRANSITION"
    and "rev_from_status e = Some b" and "rev_to_status e = Some c"
  shows "audit_path a (es @ [e]) c"
  using assms by (induction a es b rule: audit_path.induct) (auto split: option.splits)

lemma audit_path_from_terminal:
  "audit_path a es b \<Longrightarrow> terminal_run a \<Longrightarrow> es = [] \<and> a = b"
  by (cases es) (auto simp: terminal_iff_no_successor split: option.splits)

text \<open>A run and its events agree: what the state machine keeps true of every run.\<close>

definition audited :: "agent_run \<Rightarrow> run_event list \<Rightarrow> bool" where
  "audited r es \<longleftrightarrow>
     audit_path Run_CREATED es (run_status r) \<and>
     map rev_sequence_number es = [1..<Suc (length es)] \<and>
     (run_terminal_at r \<noteq> None \<longleftrightarrow> terminal_run (run_status r))"

section \<open>The contract of the port\<close>

definition apply_run_update :: "run_update \<Rightarrow> agent_run \<Rightarrow> agent_run" where
  "apply_run_update u r =
     r\<lparr>run_status := ru_target_status u, run_budget := ru_budget u,
       run_warning_codes := ru_warning_codes u,
       run_terminal_reason_code := ru_terminal_reason_code u,
       run_updated_at := ru_changed_at u,
       run_terminal_at :=
         (if terminal_run (ru_target_status u) then Some (ru_changed_at u) else None)\<rparr>"

lemma apply_run_update_simps [simp]:
  "run_status (apply_run_update u r) = ru_target_status u"
  "run_id (apply_run_update u r) = run_id r"
  "run_budget (apply_run_update u r) = ru_budget u"
  "run_terminal_at (apply_run_update u r) =
     (if terminal_run (ru_target_status u) then Some (ru_changed_at u) else None)"
  by (simp_all add: apply_run_update_def)

locale run_store =
  fixes R :: "'s run_repository"
    and next_sequence :: "'s \<Rightarrow> uuid \<Rightarrow> nat"
    and events_of :: "'s \<Rightarrow> uuid \<Rightarrow> run_event list"
    and valid :: "'s \<Rightarrow> bool"
  assumes update_run_Inr:
      "valid s \<Longrightarrow> rr_update_run R s rid u = Inr (r', s') \<Longrightarrow>
        \<exists>r. rr_get_run R s rid = Some r \<and> run_status r = ru_expected_status u \<and>
          r' = apply_run_update u r \<and>
          (\<forall>k. rr_get_run R s' k = (if k = rid then Some r' else rr_get_run R s k)) \<and>
          events_of s' = events_of s \<and> valid s'"
    and update_run_total:
      "rr_get_run R s rid = Some r \<Longrightarrow> run_status r = ru_expected_status u \<Longrightarrow>
        \<exists>x. rr_update_run R s rid u = Inr x"
    and append_event_Inr:
      "rr_append_event R s e = Inr (e', s') \<Longrightarrow>
        rr_get_run R s' = rr_get_run R s \<and>
        events_of s' = (events_of s)(rev_run_id e := events_of s (rev_run_id e) @ [e]) \<and>
        valid s' = valid s"
    and append_event_total:
      "(\<And>k. rev_id e \<notin> rev_id ` set (events_of s k)) \<Longrightarrow>
        rev_sequence_number e \<notin> rev_sequence_number ` set (events_of s (rev_run_id e)) \<Longrightarrow>
        \<exists>x. rr_append_event R s e = Inr x"
    and next_sequence_counts: "next_sequence s rid = Suc (length (events_of s rid))"
begin

text \<open>What a successful transition does, completely.\<close>

lemma transition_Inr:
  assumes "valid s" and "transition R next_sequence (s, w) rid target reason = Inr (r', s', w')"
  shows "\<exists>r e t. rr_get_run R s rid = Some r \<and> allowed_run (run_status r) target \<and>
    r' = apply_run_update (run_update_of r target reason t) r \<and>
    (\<forall>k. rr_get_run R s' k = (if k = rid then Some r' else rr_get_run R s k)) \<and>
    e = transition_event (fst (next_id w)) rid (Suc (length (events_of s rid)))
          (run_status r) target reason t \<and>
    events_of s' = (events_of s)(rid := events_of s rid @ [e]) \<and> valid s'"
proof -
  from assms(2) obtain r s1 u e' where
    get: "rr_get_run R s rid = Some r" and ok: "allowed_run (run_status r) target"
    and u: "u = run_update_of r target reason (fst (next_now w))"
    and upd: "rr_update_run R s rid u = Inr (r', s1)"
    and app: "rr_append_event R s1
        (transition_event (fst (next_id w)) rid (next_sequence s1 rid) (run_status r) target reason
          (fst (next_now w))) = Inr (e', s')"
    by (auto simp: transition_def Let_def next_now_def next_id_def
        split: option.splits if_splits prod.splits)
  from update_run_Inr [OF assms(1) upd] get have
    upd': "r' = apply_run_update u r"
      "\<forall>k. rr_get_run R s1 k = (if k = rid then Some r' else rr_get_run R s k)"
      "events_of s1 = events_of s" "valid s1"
    by auto
  from append_event_Inr [OF app] have
    "valid s' = valid s1" "rr_get_run R s' = rr_get_run R s1"
    "events_of s' = (events_of s1)(rid := events_of s1 rid @
       [transition_event (fst (next_id w)) rid (next_sequence s1 rid) (run_status r) target reason
          (fst (next_now w))])"
    by (simp_all add: transition_event_def)
  with get ok u upd' show ?thesis
    by (auto simp: next_sequence_counts)
qed

lemma transition_terminal_rejected:
  assumes "rr_get_run R s rid = Some r" and "terminal_run (run_status r)"
  shows "transition R next_sequence (s, w) rid target reason =
    Inl (ResearchStateTransitionError ''ILLEGAL_RUN_STATE_TRANSITION'')"
  using assms by (auto simp: transition_def terminal_iff_no_successor)

text \<open>The audit trail and the status agree after every transition, for every run.\<close>

lemma transition_keeps_audited:
  assumes v: "valid s"
    and tr: "transition R next_sequence (s, w) rid target reason = Inr (r', s', w')"
    and inv: "\<And>k r. rr_get_run R s k = Some r \<Longrightarrow> audited r (events_of s k)"
    and get: "rr_get_run R s' k = Some q"
  shows "audited q (events_of s' k)"
proof -
  from transition_Inr [OF v tr] obtain r e t where
    r: "rr_get_run R s rid = Some r" "allowed_run (run_status r) target"
      "r' = apply_run_update (run_update_of r target reason t) r"
    and s': "\<forall>k. rr_get_run R s' k = (if k = rid then Some r' else rr_get_run R s k)"
    and e: "e = transition_event (fst (next_id w)) rid (Suc (length (events_of s rid)))
          (run_status r) target reason t"
    and evs: "events_of s' = (events_of s)(rid := events_of s rid @ [e])"
    by blast
  show ?thesis
  proof (cases "k = rid")
    case False
    with get s' evs inv show ?thesis by simp
  next
    case True
    with get s' have q: "q = r'" by simp
    from inv [OF r(1)] have au: "audited r (events_of s rid)" .
    then have "audit_path Run_CREATED (events_of s rid @ [e]) target"
      using r(2) e by (auto simp: audited_def transition_event_def intro: audit_path_snoc)
    moreover have "map rev_sequence_number (events_of s rid @ [e]) =
        [1..<Suc (length (events_of s rid @ [e]))]"
      using au e by (simp add: audited_def transition_event_def)
    ultimately show ?thesis
      using True q evs r(3) by (simp add: audited_def run_update_of_def)
  qed
qed

lemma transition_total:
  assumes "valid s" and "rr_get_run R s rid = Some r" and "allowed_run (run_status r) target"
    and "valid_code_opt reason"
    and "\<And>k. fst (next_id w) \<notin> rev_id ` set (events_of s k)"
    and "Suc (length (events_of s rid)) \<notin> rev_sequence_number ` set (events_of s rid)"
  shows "\<exists>x. transition R next_sequence (s, w) rid target reason = Inr x"
proof -
  obtain t w1 where t: "next_now w = (t, w1)" by fastforce
  let ?u = "run_update_of r target reason t"
  obtain r1 s1 where upd: "rr_update_run R s rid ?u = Inr (r1, s1)"
    using update_run_total [OF assms(2), of ?u] by (fastforce simp: run_update_of_def)
  have same: "events_of s1 = events_of s"
    using update_run_Inr [OF assms(1) upd] by blast
  have fst_eq: "fst (next_id w1) = fst (next_id w)"
    using t by (auto simp: next_now_def next_id_def)
  let ?e = "transition_event (fst (next_id w1)) rid (Suc (length (events_of s1 rid)))
    (run_status r) target reason t"
  have "\<exists>x. rr_append_event R s1 ?e = Inr x"
    by (rule append_event_total) (use assms(5,6) same fst_eq in \<open>simp_all add: transition_event_def\<close>)
  then obtain e2 s2 where "rr_append_event R s1 ?e = Inr (e2, s2)" by auto
  moreover have "valid_code_opt (ru_terminal_reason_code ?u)"
    using assms(4) by (simp add: run_update_of_def valid_code_opt_def)
  ultimately show ?thesis
    using assms(2-4) t upd
    by (auto simp: transition_def Let_def next_sequence_counts split: prod.splits)
qed

end

end
