(* ===== verification/Research_Repository.thy ===== *)
theory Research_Repository
  imports Run_State_Machine
begin

text \<open>
  The SQLAlchemy repository of the controlled research agent
  (\<open>db/repositories/research_agent.py\<close>). A table is the list of its rows in insertion order;
  a statement is a filter, an order and a limit over it. \<open>session.flush\<close> raises
  \<open>IntegrityError\<close> when a row breaks a primary key or a unique constraint of
  \<open>db/models/research_agent.py\<close>; the enum checks of the tables hold by typing, and foreign
  keys are not modelled. Storing a contract as JSON and reading it back gives the same contract,
  so a row holds the contract itself.

  The last section interprets the port \<open>run_store\<close> on these operations.
\<close>

section \<open>Tables\<close>

record run_row = agent_run +
  rr_research_type :: research_type

record claim_row = claim_write +
  cw_claim_key :: checksum

record research_db =
  db_policies :: "research_policy list"
  db_requests :: "research_request list"
  db_runs :: "run_row list"
  db_events :: "run_event list"
  db_plans :: "plan_record list"
  db_steps :: "step_record list"
  db_invocations :: "invocation_record list"
  db_observations :: "observation list"
  db_evidence :: "evidence list"
  db_claims :: "claim_row list"
  db_links :: "evidence_link list"
  db_packages :: "research_package list"

definition empty_db :: research_db where
  "empty_db =
     \<lparr>db_policies = [], db_requests = [], db_runs = [], db_events = [], db_plans = [],
      db_steps = [], db_invocations = [], db_observations = [], db_evidence = [],
      db_claims = [], db_links = [], db_packages = []\<rparr>"

definition run_record :: "run_row \<Rightarrow> agent_run" where
  "run_record row = agent_run.truncate row"

definition claim_record :: "claim_row \<Rightarrow> claim_write" where
  "claim_record row = claim_write.truncate row"

section \<open>Policies and requests\<close>

definition get_policy :: "research_db \<Rightarrow> version \<Rightarrow> research_policy option" where
  "get_policy db v = List.find (\<lambda>p. pol_version p = v) (db_policies db)"

definition add_policy ::
  "research_db \<Rightarrow> research_policy \<Rightarrow> (research_policy \<times> research_db) res" where
  "add_policy db p =
     (case get_policy db (pol_version p) of
        Some q \<Rightarrow> if q \<noteq> p then Inl (ValueError ''POLICY_VERSION_CONFLICT'') else Inr (q, db)
      | None \<Rightarrow> Inr (p, db\<lparr>db_policies := db_policies db @ [p]\<rparr>))"

definition add_request ::
  "research_db \<Rightarrow> research_request \<Rightarrow> (research_request \<times> research_db) res" where
  "add_request db q =
     (if rq_id q \<in> set (map rq_id (db_requests db)) then Inl (IntegrityError ''research_requests'')
      else Inr (q, db\<lparr>db_requests := db_requests db @ [q]\<rparr>))"

definition get_request :: "research_db \<Rightarrow> uuid \<Rightarrow> research_request option" where
  "get_request db i = List.find (\<lambda>q. rq_id q = i) (db_requests db)"

section \<open>Runs and events\<close>

definition reusable_statuses :: "run_status list" where
  "reusable_statuses =
     [Run_CREATED, Run_PLANNING, Run_PLANNED, Run_RUNNING, Run_PAUSED, Run_COMPLETED]"

abbreviation reusable_status :: "run_status \<Rightarrow> bool" where
  "reusable_status a \<equiv> a \<in> set reusable_statuses"

definition get_run :: "research_db \<Rightarrow> uuid \<Rightarrow> agent_run option" where
  "get_run db i = map_option run_record (List.find (\<lambda>r. run_id r = i) (db_runs db))"

definition find_reusable_run :: "research_db \<Rightarrow> checksum \<Rightarrow> agent_run option" where
  "find_reusable_run db key =
     (case order_by2 run_created_at run_id
        (filter (\<lambda>r. run_idempotency_key r = key \<and> reusable_status (run_status r)) (db_runs db))
      of [] \<Rightarrow> None | r # _ \<Rightarrow> Some (run_record r))"

text \<open>
  Inserting a run row: the primary key and the partial unique index
  \<open>ux_research_agent_runs_reusable_key\<close> on the keys of reusable runs.
\<close>

definition insert_run_row :: "research_db \<Rightarrow> run_row \<Rightarrow> research_db res" where
  "insert_run_row db row =
     (if run_id row \<in> set (map run_id (db_runs db)) then Inl (IntegrityError ''research_agent_runs'')
      else if reusable_status (run_status row) \<and>
        list_ex (\<lambda>r. run_idempotency_key r = run_idempotency_key row \<and>
                   reusable_status (run_status r)) (db_runs db)
      then Inl (IntegrityError ''ux_research_agent_runs_reusable_key'')
      else Inr (db\<lparr>db_runs := db_runs db @ [row]\<rparr>))"

text \<open>
  \<open>create_run\<close> looks for a reusable run, then inserts in a nested transaction. Another session
  may commit between the two: \<open>other\<close> is what it does to the tables. On a unique violation the
  winner is looked up again, and the violation is raised when there is none.
\<close>

definition create_run ::
  "(research_db \<Rightarrow> research_db) \<Rightarrow> research_db \<Rightarrow> agent_run \<Rightarrow> (agent_run \<times> research_db) res" where
  "create_run other db value =
     (case find_reusable_run db (run_idempotency_key value) of
        Some r \<Rightarrow> Inr (r, db)
      | None \<Rightarrow>
         (case get_request db (run_request_id value) of
            None \<Rightarrow> Inl (LookupError ''RESEARCH_REQUEST_NOT_FOUND'')
          | Some q \<Rightarrow>
             (let db1 = other db;
                  row = agent_run.extend value (run_row.fields (rq_research_type q)) in
              case insert_run_row db1 row of
                Inr db2 \<Rightarrow> Inr (run_record row, db2)
              | Inl e \<Rightarrow>
                 (case find_reusable_run db1 (run_idempotency_key value) of
                    None \<Rightarrow> Inl e
                  | Some winner \<Rightarrow> Inr (winner, db1)))))"

definition run_row_update :: "run_update \<Rightarrow> run_row \<Rightarrow> run_row" where
  "run_row_update u row =
     row\<lparr>run_status := ru_target_status u, run_budget := ru_budget u,
         run_warning_codes := ru_warning_codes u,
         run_terminal_reason_code := ru_terminal_reason_code u,
         run_updated_at := ru_changed_at u,
         run_terminal_at :=
           (if terminal_run (ru_target_status u) then Some (ru_changed_at u) else None)\<rparr>"

definition update_run ::
  "research_db \<Rightarrow> uuid \<Rightarrow> run_update \<Rightarrow> (agent_run \<times> research_db) res" where
  "update_run db i u =
     (let P = (\<lambda>r. run_id r = i \<and> run_status r = ru_expected_status u) in
      case List.find P (db_runs db) of
        None \<Rightarrow> Inl (LookupError ''RESEARCH_RUN_STATE_MISMATCH'')
      | Some row \<Rightarrow>
          Inr (run_record (run_row_update u row),
               db\<lparr>db_runs := update_first P (run_row_update u) (db_runs db)\<rparr>))"

definition update_run_budget ::
  "research_db \<Rightarrow> uuid \<Rightarrow> run_budget \<Rightarrow> datetime \<Rightarrow> (agent_run \<times> research_db) res" where
  "update_run_budget db i b now =
     (let P = (\<lambda>r. run_id r = i \<and> \<not> terminal_run (run_status r));
          f = (\<lambda>row. row\<lparr>run_budget := b, run_updated_at := now\<rparr>) in
      case List.find P (db_runs db) of
        None \<Rightarrow> Inl (LookupError ''RESEARCH_RUN_NOT_MUTABLE'')
      | Some row \<Rightarrow>
          Inr (run_record (f row), db\<lparr>db_runs := update_first P f (db_runs db)\<rparr>))"

definition append_event ::
  "research_db \<Rightarrow> run_event \<Rightarrow> (run_event \<times> research_db) res" where
  "append_event db e =
     (if rev_id e \<in> set (map rev_id (db_events db)) then Inl (IntegrityError ''research_run_events'')
      else if list_ex (\<lambda>f. rev_run_id f = rev_run_id e \<and>
             rev_sequence_number f = rev_sequence_number e) (db_events db)
      then Inl (IntegrityError ''uq_research_run_events_sequence'')
      else Inr (e, db\<lparr>db_events := db_events db @ [e]\<rparr>))"

section \<open>Pages\<close>

record 'a page =
  pg_items :: "'a list"
  pg_limit :: nat
  pg_offset :: nat
  pg_total :: nat

definition page_of :: "'a list \<Rightarrow> nat \<Rightarrow> nat \<Rightarrow> 'a page" where
  "page_of rows limit offset =
     \<lparr>pg_items = take limit (drop offset rows), pg_limit = limit, pg_offset = offset,
      pg_total = length rows\<rparr>"

definition list_event_views :: "research_db \<Rightarrow> uuid \<Rightarrow> nat \<Rightarrow> nat \<Rightarrow> run_event page" where
  "list_event_views db i limit offset =
     page_of (order_by2 rev_sequence_number rev_id
       (filter (\<lambda>e. rev_run_id e = i) (db_events db))) limit offset"

text \<open>\<open>next_sequence\<close> of \<open>cli_agent._state_machine\<close>: one more than the events of the run.\<close>

definition next_event_sequence :: "research_db \<Rightarrow> uuid \<Rightarrow> nat" where
  "next_event_sequence db i = pg_total (list_event_views db i 1 0) + 1"

definition research_runs :: "research_db run_repository" where
  "research_runs =
     \<lparr>rr_get_run = get_run, rr_update_run = update_run, rr_append_event = append_event\<rparr>"

definition run_transition ::
  "research_db \<times> env \<Rightarrow> uuid \<Rightarrow> run_status \<Rightarrow> code option \<Rightarrow> (agent_run \<times> research_db \<times> env) res" where
  "run_transition = transition research_runs next_event_sequence"

section \<open>Plans and steps\<close>

definition add_plan :: "research_db \<Rightarrow> plan_record \<Rightarrow> (plan_record \<times> research_db) res" where
  "add_plan db p =
     (if pr_id p \<in> set (map pr_id (db_plans db)) then Inl (IntegrityError ''research_plans'')
      else if pr_run_id p \<in> set (map pr_run_id (db_plans db))
      then Inl (IntegrityError ''uq_research_plans_run'')
      else Inr (p, db\<lparr>db_plans := db_plans db @ [p]\<rparr>))"

definition get_plan :: "research_db \<Rightarrow> uuid \<Rightarrow> plan_record option" where
  "get_plan db i = List.find (\<lambda>p. pr_run_id p = i) (db_plans db)"

definition step_row :: "step_write \<Rightarrow> step_record" where
  "step_row v = step_write.extend v (step_record.fields (st_created_at v) None)"

definition step_conflict :: "step_record \<Rightarrow> step_record \<Rightarrow> bool" where
  "step_conflict a b \<longleftrightarrow>
     st_id a = st_id b \<or>
     (st_plan_id a = st_plan_id b \<and>
      (sd_step_index (st_definition a) = sd_step_index (st_definition b) \<or>
       sd_step_key (st_definition a) = sd_step_key (st_definition b)))"

fun add_step_rows :: "step_record list \<Rightarrow> step_record list \<Rightarrow> step_record list res" where
  "add_step_rows table [] = Inr table"
| "add_step_rows table (r # rs) =
     (if list_ex (step_conflict r) table then Inl (IntegrityError ''research_steps'')
      else add_step_rows (table @ [r]) rs)"

definition add_steps ::
  "research_db \<Rightarrow> step_write list \<Rightarrow> (step_record list \<times> research_db) res" where
  "add_steps db vs =
     (let rows = map step_row vs in
      bind_res (add_step_rows (db_steps db) rows) (\<lambda>t. Inr (rows, db\<lparr>db_steps := t\<rparr>)))"

definition list_steps :: "research_db \<Rightarrow> uuid \<Rightarrow> step_record list" where
  "list_steps db i =
     order_by2 (\<lambda>r. sd_step_index (st_definition r)) st_id
       (filter (\<lambda>r. st_plan_id r = i) (db_steps db))"

definition terminal_steps :: "step_status list" where
  "terminal_steps = [Step_PASS, Step_PARTIAL, Step_BLOCKED, Step_FAIL, Step_SKIPPED]"

abbreviation terminal_step :: "step_status \<Rightarrow> bool" where
  "terminal_step a \<equiv> a \<in> set terminal_steps"

definition transition_step ::
  "research_db \<Rightarrow> uuid \<Rightarrow> step_status \<Rightarrow> step_status \<Rightarrow> datetime \<Rightarrow> code option
    \<Rightarrow> (step_record \<times> research_db) res" where
  "transition_step db i expected target t skip =
     (let P = (\<lambda>r. st_id r = i \<and> st_status r = expected);
          f = (\<lambda>row. row\<lparr>st_status := target, st_skip_reason_code := skip, st_updated_at := t,
                 st_terminal_at := (if terminal_step target then Some t else None)\<rparr>) in
      case List.find P (db_steps db) of
        None \<Rightarrow> Inl (LookupError ''RESEARCH_STEP_STATE_MISMATCH'')
      | Some row \<Rightarrow> Inr (f row, db\<lparr>db_steps := update_first P f (db_steps db)\<rparr>))"

section \<open>Invocations, observations, evidence\<close>

definition add_invocation ::
  "research_db \<Rightarrow> invocation_write \<Rightarrow> (invocation_record \<times> research_db) res" where
  "add_invocation db v =
     (let row = invocation_write.extend v (invocation_record.fields None None None None) in
      if iw_id v \<in> set (map iw_id (db_invocations db))
      then Inl (IntegrityError ''research_tool_invocations'')
      else if list_ex (\<lambda>r. iw_step_id r = iw_step_id v \<and> iw_attempt_number r = iw_attempt_number v)
             (db_invocations db)
      then Inl (IntegrityError ''uq_research_tool_invocations_step_attempt'')
      else Inr (row, db\<lparr>db_invocations := db_invocations db @ [row]\<rparr>))"

definition complete_invocation_row ::
  "research_db \<Rightarrow> uuid \<Rightarrow> invocation_completion \<Rightarrow> (invocation_record \<times> research_db) res" where
  "complete_invocation_row db i v =
     (let P = (\<lambda>r. iw_id r = i);
          f = (\<lambda>row. row\<lparr>iw_status := ic_status v, ir_output_checksum := ic_output_checksum v,
                 ir_error_code := ic_error_code v,
                 ir_safe_error_message := ic_safe_error_message v,
                 ir_completed_at := Some (ic_completed_at v)\<rparr>) in
      case List.find P (db_invocations db) of
        None \<Rightarrow> Inl (LookupError ''RESEARCH_TOOL_INVOCATION_NOT_FOUND'')
      | Some row \<Rightarrow>
          Inr (f row, db\<lparr>db_invocations := update_first P f (db_invocations db)\<rparr>))"

definition observation_conflict :: "observation \<Rightarrow> observation \<Rightarrow> bool" where
  "observation_conflict a b \<longleftrightarrow>
     ob_id a = ob_id b \<or>
     (case ob_invocation_id a of
        Some i \<Rightarrow> ob_invocation_id b = Some i
      | None \<Rightarrow> ob_invocation_id b = None \<and> ob_research_step_id a = ob_research_step_id b)"

definition add_observation ::
  "research_db \<Rightarrow> observation \<Rightarrow> (observation \<times> research_db) res" where
  "add_observation db v =
     (if list_ex (observation_conflict v) (db_observations db)
      then Inl (IntegrityError ''research_observations'')
      else Inr (v, db\<lparr>db_observations := db_observations db @ [v]\<rparr>))"

fun add_evidence_rows :: "evidence list \<Rightarrow> evidence list \<Rightarrow> evidence list res" where
  "add_evidence_rows table [] = Inr table"
| "add_evidence_rows table (r # rs) =
     (if ev_id r \<in> set (map ev_id table) then Inl (IntegrityError ''research_evidence'')
      else add_evidence_rows (table @ [r]) rs)"

definition add_evidence ::
  "research_db \<Rightarrow> evidence list \<Rightarrow> (evidence list \<times> research_db) res" where
  "add_evidence db vs =
     bind_res (add_evidence_rows (db_evidence db) vs) (\<lambda>t. Inr (vs, db\<lparr>db_evidence := t\<rparr>))"

definition list_evidence :: "research_db \<Rightarrow> uuid \<Rightarrow> evidence list" where
  "list_evidence db i =
     order_by2 ev_created_at ev_id (filter (\<lambda>e. ev_run_id e = i) (db_evidence db))"

section \<open>Claims, links, packages\<close>

text \<open>
  The claim key is the checksum of the claim without its identifier, lifecycle, support and
  validator: claims of one run that differ in nothing else collide.
\<close>

definition opt_val :: "('a \<Rightarrow> pyval) \<Rightarrow> 'a option \<Rightarrow> pyval" where
  "opt_val f x = (case x of None \<Rightarrow> PNone | Some y \<Rightarrow> f y)"

fun claim_type_value :: "claim_type \<Rightarrow> string" where
  "claim_type_value Claim_IDENTITY = ''IDENTITY''"
| "claim_type_value Claim_FINANCIAL_FACT = ''FINANCIAL_FACT''"
| "claim_type_value Claim_FINANCIAL_METRIC = ''FINANCIAL_METRIC''"
| "claim_type_value Claim_VALUATION_METRIC = ''VALUATION_METRIC''"
| "claim_type_value Claim_DOCUMENT_DISCLOSURE = ''DOCUMENT_DISCLOSURE''"
| "claim_type_value Claim_CORPORATE_ACTION = ''CORPORATE_ACTION''"
| "claim_type_value Claim_DATA_QUALITY = ''DATA_QUALITY''"
| "claim_type_value Claim_LIMITATION = ''LIMITATION''"

definition claim_basis :: "claim_write \<Rightarrow> payload" where
  "claim_basis c =
     [(''run_id'', PUuid (cl_run_id c)), (''claim_type'', PStr (claim_type_value (cl_claim_type c))),
      (''statement_code'', PStr (cl_statement_code c)), (''value'', opt_val PDec (cl_value c)),
      (''unit'', opt_val PStr (cl_unit c)), (''currency_code'', opt_val PStr (cl_currency_code c)),
      (''period'', opt_val PStr (cl_period c)),
      (''as_of_time'', opt_val PDateTime (cl_as_of_time c)),
      (''metric_basis'', opt_val PStr (cl_metric_basis c)),
      (''builder_version'', PStr (cl_builder_version c)),
      (''created_at'', PDateTime (cl_created_at c)),
      (''completed_at'', opt_val PDateTime (cl_completed_at c))]"

definition add_claim ::
  "pylib \<Rightarrow> research_db \<Rightarrow> claim_write \<Rightarrow> (claim_write \<times> research_db) res" where
  "add_claim L db c =
     bind_res (stable_checksum L (PDict (claim_basis c))) (\<lambda>key.
       if cl_id c \<in> set (map cl_id (db_claims db)) then Inl (IntegrityError ''research_claims'')
       else if list_ex (\<lambda>r. cl_run_id r = cl_run_id c \<and> cw_claim_key r = key) (db_claims db)
       then Inl (IntegrityError ''uq_research_claims_run_key'')
       else Inr (c, db\<lparr>db_claims := db_claims db @ [claim_write.extend c (claim_row.fields key)]\<rparr>))"

fun add_link_rows :: "evidence_link list \<Rightarrow> evidence_link list \<Rightarrow> evidence_link list res" where
  "add_link_rows table [] = Inr table"
| "add_link_rows table (r # rs) =
     (if list_ex (\<lambda>l. lk_id l = lk_id r \<or>
           (lk_claim_id l = lk_claim_id r \<and> lk_evidence_id l = lk_evidence_id r)) table
      then Inl (IntegrityError ''claim_evidence_links'')
      else add_link_rows (table @ [r]) rs)"

definition add_links ::
  "research_db \<Rightarrow> evidence_link list \<Rightarrow> (evidence_link list \<times> research_db) res" where
  "add_links db vs =
     bind_res (add_link_rows (db_links db) vs) (\<lambda>t. Inr (vs, db\<lparr>db_links := t\<rparr>))"

definition complete_claim ::
  "research_db \<Rightarrow> uuid \<Rightarrow> claim_completion \<Rightarrow> (claim_write \<times> research_db) res" where
  "complete_claim db i v =
     (let P = (\<lambda>r. cl_id r = i);
          f = (\<lambda>row. row\<lparr>cl_lifecycle_status := cc_lifecycle_status v,
                 cl_support_status := Some (cc_support_status v),
                 cl_validator_version := Some (cc_validator_version v),
                 cl_completed_at := Some (cc_completed_at v)\<rparr>) in
      case List.find P (db_claims db) of
        None \<Rightarrow> Inl (LookupError ''RESEARCH_CLAIM_NOT_FOUND'')
      | Some row \<Rightarrow>
          Inr (claim_record (f row), db\<lparr>db_claims := update_first P f (db_claims db)\<rparr>))"

text \<open>The package row takes its identifier and creation time from the table's defaults.\<close>

definition add_package ::
  "uuid \<Rightarrow> datetime \<Rightarrow> research_db \<Rightarrow> research_package \<Rightarrow> (research_package \<times> research_db) res" where
  "add_package row_id now db v =
     (let row = v\<lparr>pk_id := row_id, pk_created_at := now\<rparr> in
      if row_id \<in> set (map pk_id (db_packages db)) then Inl (IntegrityError ''research_packages'')
      else if pk_run_id v \<in> set (map pk_run_id (db_packages db))
      then Inl (IntegrityError ''uq_research_packages_run'')
      else Inr (row, db\<lparr>db_packages := db_packages db @ [row]\<rparr>))"

section \<open>The repository is a run store\<close>

definition distinct_runs :: "research_db \<Rightarrow> bool" where
  "distinct_runs db \<longleftrightarrow> distinct (map run_id (db_runs db))"

definition events_of :: "research_db \<Rightarrow> uuid \<Rightarrow> run_event list" where
  "events_of db i = filter (\<lambda>e. rev_run_id e = i) (db_events db)"

lemma run_record_sel [simp]:
  "run_id (run_record r) = run_id r" "run_status (run_record r) = run_status r"
  "run_budget (run_record r) = run_budget r" "run_terminal_at (run_record r) = run_terminal_at r"
  "run_idempotency_key (run_record r) = run_idempotency_key r"
  by (cases r; simp add: run_record_def agent_run.truncate_def)+

lemma run_record_update [simp]:
  "run_record (run_row_update u row) = apply_run_update u (run_record row)"
  by (cases row)
    (simp add: run_record_def run_row_update_def apply_run_update_def agent_run.truncate_def)

lemma run_row_update_id [simp]: "run_id (run_row_update u row) = run_id row"
  by (simp add: run_row_update_def)

lemma next_event_sequence_eq: "next_event_sequence db i = Suc (length (events_of db i))"
  by (simp add: next_event_sequence_def list_event_views_def page_of_def order_by2_def
      events_of_def)

lemma update_run_Inr_iff:
  assumes "distinct_runs db" and "update_run db i u = Inr (r', db')"
  shows "\<exists>r. get_run db i = Some r \<and> run_status r = ru_expected_status u \<and>
    r' = apply_run_update u r \<and>
    (\<forall>k. get_run db' k = (if k = i then Some r' else get_run db k)) \<and>
    events_of db' = events_of db \<and> distinct_runs db'"
proof -
  let ?P = "\<lambda>r. run_id r = i \<and> run_status r = ru_expected_status u"
  from assms(2) obtain row where
    row: "List.find ?P (db_runs db) = Some row"
    and r': "r' = run_record (run_row_update u row)"
    and db': "db' = db\<lparr>db_runs := update_first ?P (run_row_update u) (db_runs db)\<rparr>"
    by (auto simp: update_run_def Let_def split: option.splits)
  have dist: "distinct (map run_id (db_runs db))"
    using assms(1) by (simp add: distinct_runs_def)
  note found = find_key_pred [OF dist row]
  have "get_run db i = Some (run_record row)"
    using found by (simp add: get_run_def)
  moreover have "run_status row = ru_expected_status u"
    using row by (auto simp: find_Some_iff)
  moreover have "get_run db' k = (if k = i then Some r' else get_run db k)" for k
    using find_key_update_first [OF dist row, of "run_row_update u" k] r' db'
    by (simp add: get_run_def)
  moreover have "distinct_runs db'"
    using dist db' by (simp add: distinct_runs_def map_key_update_first)
  ultimately show ?thesis
    using r' db' by (auto simp: events_of_def fun_eq_iff)
qed

lemma update_run_ok:
  assumes "get_run db i = Some r" and "run_status r = ru_expected_status u"
  shows "\<exists>x. update_run db i u = Inr x"
proof -
  from assms(1) obtain row where
    "List.find (\<lambda>r. run_id r = i) (db_runs db) = Some row" and "r = run_record row"
    by (auto simp: get_run_def)
  with assms(2) have
    "List.find (\<lambda>r. run_id r = i \<and> run_status r = ru_expected_status u) (db_runs db) \<noteq> None"
    by (auto simp: find_None_iff find_Some_iff)
  then show ?thesis by (auto simp: update_run_def Let_def)
qed

lemma append_event_Inr_iff:
  assumes "append_event db e = Inr (e', db')"
  shows "get_run db' = get_run db \<and>
    events_of db' = (events_of db)(rev_run_id e := events_of db (rev_run_id e) @ [e]) \<and>
    distinct_runs db' = distinct_runs db"
  using assms
  by (auto simp: append_event_def events_of_def get_run_def distinct_runs_def fun_eq_iff
      split: if_splits)

lemma append_event_ok:
  assumes "\<And>k. rev_id e \<notin> rev_id ` set (events_of db k)"
    and "rev_sequence_number e \<notin> rev_sequence_number ` set (events_of db (rev_run_id e))"
  shows "\<exists>x. append_event db e = Inr x"
proof -
  have "rev_id e \<notin> rev_id ` set (db_events db)"
  proof
    assume "rev_id e \<in> rev_id ` set (db_events db)"
    then obtain f where "f \<in> set (db_events db)" "rev_id e = rev_id f" by auto
    then have "rev_id e \<in> rev_id ` set (events_of db (rev_run_id f))"
      by (auto simp: events_of_def)
    with assms(1) show False by blast
  qed
  moreover have "\<not> list_ex (\<lambda>f. rev_run_id f = rev_run_id e \<and>
      rev_sequence_number f = rev_sequence_number e) (db_events db)"
  proof
    assume "list_ex (\<lambda>f. rev_run_id f = rev_run_id e \<and>
      rev_sequence_number f = rev_sequence_number e) (db_events db)"
    then obtain f where "f \<in> set (events_of db (rev_run_id e))"
      "rev_sequence_number e = rev_sequence_number f"
      by (auto simp: list_ex_iff events_of_def)
    with assms(2) show False by blast
  qed
  ultimately show ?thesis by (simp add: append_event_def)
qed

interpretation runs: run_store research_runs next_event_sequence events_of distinct_runs
  unfolding research_runs_def
  by (unfold_locales, unfold run_repository.select_convs)
    (fact update_run_Inr_iff update_run_ok append_event_Inr_iff append_event_ok
      next_event_sequence_eq)+

end
