(* ===== verification/Research_Policies.thy ===== *)
theory Research_Policies
  imports Research_Repository
begin

text \<open>
  The versioned Research Policy and its seeding (\<open>domain/research_agent/policies.py\<close>). The
  repository operations are \<open>get_policy\<close> and \<open>add_policy\<close> of \<open>Research_Repository\<close>.
\<close>

definition CONTROLLED_OFFLINE_POLICY_VERSION :: version where
  "CONTROLLED_OFFLINE_POLICY_VERSION = ''controlled-offline-v1''"

definition CONTROLLED_OFFLINE_TOOL_NAMES :: "string list" where
  "CONTROLLED_OFFLINE_TOOL_NAMES =
     [''get_calculation_run'', ''get_citation'', ''get_corporate_actions'',
      ''get_daily_price_history'', ''get_data_snapshot'', ''get_document_chunk'',
      ''get_document_metadata'', ''get_evidence_bundle'', ''get_financial_metrics'',
      ''get_financial_periods'', ''get_latest_close'', ''get_metric_detail'',
      ''get_metric_lineage'', ''get_normalized_financial_facts'',
      ''get_reported_financial_facts'', ''get_retrieval_run'',
      ''get_source_document_metadata'', ''list_document_versions'', ''list_snapshot_items'',
      ''list_source_documents'', ''search_document_chunks'', ''verify_citation'']"

fun research_type_value :: "research_type \<Rightarrow> string" where
  "research_type_value COMPANY_OVERVIEW = ''COMPANY_OVERVIEW''"
| "research_type_value FINANCIAL_HEALTH = ''FINANCIAL_HEALTH''"
| "research_type_value VALUATION_SNAPSHOT = ''VALUATION_SNAPSHOT''"
| "research_type_value CATALYSTS_AND_RISKS = ''CATALYSTS_AND_RISKS''"
| "research_type_value DATA_QUALITY_REVIEW = ''DATA_QUALITY_REVIEW''"
| "research_type_value FULL_RESEARCH_PACKAGE = ''FULL_RESEARCH_PACKAGE''"

fun section_value :: "research_section \<Rightarrow> string" where
  "section_value Sec_SECURITY_IDENTITY = ''SECURITY_IDENTITY''"
| "section_value Sec_DATA_AVAILABILITY = ''DATA_AVAILABILITY''"
| "section_value Sec_FINANCIAL_HEALTH = ''FINANCIAL_HEALTH''"
| "section_value Sec_VALUATION_SNAPSHOT = ''VALUATION_SNAPSHOT''"
| "section_value Sec_DOCUMENT_EVIDENCE = ''DOCUMENT_EVIDENCE''"
| "section_value Sec_CATALYST_EVIDENCE = ''CATALYST_EVIDENCE''"
| "section_value Sec_RISK_EVIDENCE = ''RISK_EVIDENCE''"
| "section_value Sec_CORPORATE_ACTIONS = ''CORPORATE_ACTIONS''"
| "section_value Sec_DATA_QUALITY = ''DATA_QUALITY''"
| "section_value Sec_LIMITATIONS = ''LIMITATIONS''"

definition offline_tool :: "string \<Rightarrow> allowed_tool" where
  "offline_tool n = \<lparr>at_tool_name = n, at_tool_version = ''1.0.0''\<rparr>"

text \<open>The provisional policy of \<open>build_controlled_offline_policy\<close>, under a given checksum.\<close>

definition offline_policy_values :: "checksum \<Rightarrow> research_policy" where
  "offline_policy_values c =
     \<lparr>pol_version = CONTROLLED_OFFLINE_POLICY_VERSION, pol_checksum = c,
      pol_allowed_research_types = all_research_types, pol_allowed_sections = all_sections,
      pol_allowed_tools = map offline_tool CONTROLLED_OFFLINE_TOOL_NAMES,
      pol_denied_tools = [], pol_max_steps = 12, pol_max_tool_calls = 24,
      pol_max_calls_per_tool = 5, pol_max_retries_per_step = 1, pol_max_duration_seconds = 120,
      pol_model_token_budget = 0, pol_require_snapshot = True, pol_require_as_of = True,
      pol_require_evidence_for_claims = True, pol_allow_synthetic_evidence = False,
      pol_allow_unknown_published_at = False, pol_allow_partial_completion = True,
      pol_reuse_partial_runs = False, pol_allow_model_planner = False,
      pol_allow_model_reasoner = False\<rparr>"

definition tool_dump :: "allowed_tool \<Rightarrow> pyval" where
  "tool_dump t = PDict [(''tool_name'', PStr (at_tool_name t)), (''tool_version'', PStr (at_tool_version t))]"

text \<open>\<open>model_dump(mode="python", exclude={"checksum"})\<close> of a policy.\<close>

definition policy_dump :: "research_policy \<Rightarrow> pyval" where
  "policy_dump p = PDict
     [(''version'', PStr (pol_version p)),
      (''allowed_research_types'',
         PTuple (map (\<lambda>t. PStr (research_type_value t)) (pol_allowed_research_types p))),
      (''allowed_sections'', PTuple (map (\<lambda>s. PStr (section_value s)) (pol_allowed_sections p))),
      (''allowed_tools'', PTuple (map tool_dump (pol_allowed_tools p))),
      (''denied_tools'', PTuple (map tool_dump (pol_denied_tools p))),
      (''max_steps'', PInt (int (pol_max_steps p))),
      (''max_tool_calls'', PInt (int (pol_max_tool_calls p))),
      (''max_calls_per_tool'', PInt (int (pol_max_calls_per_tool p))),
      (''max_retries_per_step'', PInt (int (pol_max_retries_per_step p))),
      (''max_duration_seconds'', PInt (int (pol_max_duration_seconds p))),
      (''model_token_budget'', PInt (int (pol_model_token_budget p))),
      (''require_snapshot'', PBool (pol_require_snapshot p)),
      (''require_as_of'', PBool (pol_require_as_of p)),
      (''require_evidence_for_claims'', PBool (pol_require_evidence_for_claims p)),
      (''allow_synthetic_evidence'', PBool (pol_allow_synthetic_evidence p)),
      (''allow_unknown_published_at'', PBool (pol_allow_unknown_published_at p)),
      (''allow_partial_completion'', PBool (pol_allow_partial_completion p)),
      (''reuse_partial_runs'', PBool (pol_reuse_partial_runs p)),
      (''allow_model_planner'', PBool (pol_allow_model_planner p)),
      (''allow_model_reasoner'', PBool (pol_allow_model_reasoner p))]"

text \<open>The field bounds of \<open>ResearchPolicyRecord\<close>.\<close>

definition valid_tool_version :: "string \<Rightarrow> bool" where
  "valid_tool_version s \<longleftrightarrow>
     (let a = takeWhile is_digit s; r = dropWhile is_digit s in
      a \<noteq> [] \<and> (case r of [] \<Rightarrow> False | d # r1 \<Rightarrow> d = CHR ''.'' \<and>
        (let b = takeWhile is_digit r1; r2 = dropWhile is_digit r1 in
         b \<noteq> [] \<and> (case r2 of [] \<Rightarrow> False | e # r3 \<Rightarrow> e = CHR ''.'' \<and> r3 \<noteq> [] \<and> list_all is_digit r3))))"

definition valid_allowed_tool :: "allowed_tool \<Rightarrow> bool" where
  "valid_allowed_tool t \<longleftrightarrow>
     text_within 1 128 (at_tool_name t) \<and>
     valid_tool_version (at_tool_version t)"

definition valid_policy :: "research_policy \<Rightarrow> bool" where
  "valid_policy p \<longleftrightarrow>
     valid_version (pol_version p) \<and> valid_checksum (pol_checksum p) \<and>
     1 \<le> length (pol_allowed_research_types p) \<and> length (pol_allowed_research_types p) \<le> 6 \<and>
     1 \<le> length (pol_allowed_sections p) \<and> length (pol_allowed_sections p) \<le> 10 \<and>
     1 \<le> length (pol_allowed_tools p) \<and> length (pol_allowed_tools p) \<le> 50 \<and>
     list_all valid_allowed_tool (pol_allowed_tools p) \<and>
     length (pol_denied_tools p) \<le> 50 \<and> list_all valid_allowed_tool (pol_denied_tools p) \<and>
     1 \<le> pol_max_steps p \<and> pol_max_steps p \<le> 20 \<and>
     1 \<le> pol_max_tool_calls p \<and> pol_max_tool_calls p \<le> 50 \<and>
     1 \<le> pol_max_calls_per_tool p \<and> pol_max_calls_per_tool p \<le> 5 \<and>
     pol_max_retries_per_step p \<le> 1 \<and>
     1 \<le> pol_max_duration_seconds p \<and> pol_max_duration_seconds p \<le> 600 \<and>
     pol_model_token_budget p = 0"

definition build_controlled_offline_policy :: "pylib \<Rightarrow> research_policy res" where
  "build_controlled_offline_policy L =
     (let provisional = offline_policy_values (replicate 64 (CHR ''0'')) in
      if \<not> valid_policy provisional then Inl ValidationError
      else bind_res (stable_checksum L (policy_dump provisional)) (\<lambda>c.
        if valid_policy (offline_policy_values c) then Inr (offline_policy_values c)
        else Inl ValidationError))"

definition require_policy :: "research_db \<Rightarrow> version \<Rightarrow> research_policy res" where
  "require_policy db v =
     (case get_policy db v of None \<Rightarrow> Inl (ResearchPolicyError ''POLICY_NOT_FOUND'') | Some p \<Rightarrow> Inr p)"

text \<open>\<open>seed_v1\<close>: the policy, whether it was created, and the tables after it.\<close>

definition seed_v1 :: "pylib \<Rightarrow> research_db \<Rightarrow> (research_policy \<times> bool \<times> research_db) res" where
  "seed_v1 L db =
     bind_res (build_controlled_offline_policy L) (\<lambda>expected.
       case get_policy db (pol_version expected) of
         Some existing \<Rightarrow>
           if existing \<noteq> expected then Inl (ResearchPolicyError ''POLICY_VERSION_CONFLICT'')
           else Inr (existing, False, db)
       | None \<Rightarrow> bind_res (add_policy db expected) (\<lambda>(p, db'). Inr (p, True, db')))"

section \<open>Facts\<close>

lemma offline_policy_valid: "valid_checksum c \<Longrightarrow> valid_policy (offline_policy_values c)"
  unfolding valid_policy_def offline_policy_values_def all_research_types_def all_sections_def
    CONTROLLED_OFFLINE_POLICY_VERSION_def CONTROLLED_OFFLINE_TOOL_NAMES_def
  by (simp add: offline_tool_def valid_allowed_tool_def valid_tool_version_def valid_version_def
      is_lower_def is_digit_def text_within_def text_length_def)

lemma get_policy_after_add:
  "add_policy db p = Inr (q, db') \<Longrightarrow> q = p \<and> get_policy db' (pol_version p) = Some p"
  by (auto simp: add_policy_def get_policy_def find_append split: option.splits if_splits)

lemma normalize_tool_dump: "normalize (tool_dump t) = Inr
    (JDict [(''tool_name'', JStr (at_tool_name t)), (''tool_version'', JStr (at_tool_version t))])"
  by (simp add: tool_dump_def)

lemma normalize_list_total:
  "(\<And>v. v \<in> set vs \<Longrightarrow> \<exists>j. normalize v = Inr j) \<Longrightarrow> \<exists>js. normalize_list vs = Inr js"
proof (induction vs)
  case (Cons v vs)
  then obtain j js where "normalize v = Inr j" "normalize_list vs = Inr js" by force
  then show ?case by simp
qed simp

lemma policy_dump_canonical: "\<exists>j. normalize (policy_dump p) = Inr j"
proof -
  have strs: "\<exists>js. normalize_list (map (\<lambda>x. PStr (f x)) xs) = Inr js" for f :: "'a \<Rightarrow> string" and xs
    by (rule normalize_list_total) auto
  have tools: "\<exists>js. normalize_list (map tool_dump ts) = Inr js" for ts
    by (rule normalize_list_total) (auto simp: normalize_tool_dump)
  show ?thesis
    using strs [of research_type_value "pol_allowed_research_types p"]
      strs [of section_value "pol_allowed_sections p"]
      tools [of "pol_allowed_tools p"] tools [of "pol_denied_tools p"]
    by (auto simp: policy_dump_def)
qed

text \<open>
  Seeding the controlled-offline policy works and is idempotent: on tables without that
  version it stores the policy and reports a creation; seeding again changes nothing, reports no
  creation and returns the same policy, and \<open>require\<close> then finds it. (SHA-256 is assumed to
  print 64 hexadecimal digits.)
\<close>

theorem policy_seed_idempotent:
  assumes "hexdigest_documented L" and "get_policy db CONTROLLED_OFFLINE_POLICY_VERSION = None"
  shows "\<exists>p db'. seed_v1 L db = Inr (p, True, db') \<and> valid_policy p \<and>
    seed_v1 L db' = Inr (p, False, db') \<and>
    require_policy db' CONTROLLED_OFFLINE_POLICY_VERSION = Inr p"
proof -
  have hex0: "valid_checksum (replicate 64 (CHR ''0''))"
    by (simp add: valid_checksum_def list_all_iff is_hex_def is_digit_def)
  obtain c where c: "stable_checksum L (policy_dump (offline_policy_values (replicate 64 (CHR ''0'')))) = Inr c"
    using policy_dump_canonical by (fastforce simp: stable_checksum_def canonical_json_def)
  have valid: "valid_policy (offline_policy_values c)"
    using stable_checksum_valid [OF assms(1) c] by (rule offline_policy_valid)
  have build: "build_controlled_offline_policy L = Inr (offline_policy_values c)"
    using c valid offline_policy_valid [OF hex0]
    by (simp add: build_controlled_offline_policy_def Let_def)
  have ver: "pol_version (offline_policy_values c) = CONTROLLED_OFFLINE_POLICY_VERSION"
    by (simp add: offline_policy_values_def)
  let ?db' = "db\<lparr>db_policies := db_policies db @ [offline_policy_values c]\<rparr>"
  have seed: "seed_v1 L db = Inr (offline_policy_values c, True, ?db')"
    using build assms(2) ver by (simp add: seed_v1_def add_policy_def)
  have found: "get_policy ?db' CONTROLLED_OFFLINE_POLICY_VERSION = Some (offline_policy_values c)"
    using assms(2) ver by (simp add: get_policy_def find_append)
  from seed found valid build ver show ?thesis
    by (auto simp: seed_v1_def require_policy_def)
qed

text \<open>A library in which the digest is a constant and case folding is that of ASCII.\<close>

definition demo_lib :: pylib where
  "demo_lib = \<lparr>lib_casefold = ascii_lower, lib_sha256_hex = (\<lambda>s. replicate 64 (CHR ''a'')),
     lib_decimal = (\<lambda>s. if s = ''1.5'' then Some (DFinite False 15 (-1)) else None),
     lib_fromisoformat = (\<lambda>s. if s = ''2026-01-01T00:00:00+00:00'' then Some (IsoAware 0 1767225600000000) else None)\<rparr>"

lemma demo_lib_hex: "hexdigest_documented demo_lib"
  by (simp add: hexdigest_documented_def demo_lib_def valid_checksum_def list_all_iff is_hex_def)

theorem policy_seed_idempotent_witness:
  "hexdigest_documented demo_lib \<and> get_policy empty_db CONTROLLED_OFFLINE_POLICY_VERSION = None \<and>
   (\<exists>p db'. seed_v1 demo_lib empty_db = Inr (p, True, db') \<and> valid_policy p \<and>
    seed_v1 demo_lib db' = Inr (p, False, db') \<and>
    require_policy db' CONTROLLED_OFFLINE_POLICY_VERSION = Inr p)"
proof -
  have "get_policy empty_db CONTROLLED_OFFLINE_POLICY_VERSION = None"
    by (simp add: get_policy_def empty_db_def)
  with policy_seed_idempotent [OF demo_lib_hex this] demo_lib_hex show ?thesis by simp
qed

end
