(* ===== verification/Tool_Registry.thy ===== *)
theory Tool_Registry
  imports Research_Policies "HOL-Library.Product_Lexorder"
begin

text \<open>
  The internal Tool registry (\<open>tools/registry.py\<close>, \<open>tools/permissions.py\<close>): only approved,
  read-only Tools of a canonical table can be registered, and execution turns every failure into
  one of a few fixed error codes.

  A pydantic model class is identified by its name; what pydantic computes from a class, its JSON
  schema and its validation of a mapping or of a text, is the argument \<open>pyd\<close> of the
  definitions that use it. A handler acts on the world \<open>'w\<close> outside the registry.
\<close>

section \<open>Vocabularies and records\<close>

datatype tool_permission = READ_ONLY | INTERNAL_WRITE | ADMIN_ONLY | FORBIDDEN_FOR_AGENT

datatype snapshot_behavior = SNAPSHOT_OR_AS_OF | SNAPSHOT_REQUIRED | PERSISTED_METADATA

record tool_metadata =
  tm_name :: string
  tm_version :: string
  tm_domain :: string
  tm_description :: string
  tm_input_schema :: payload
  tm_output_schema :: payload
  tm_permission :: tool_permission
  tm_read_only :: bool
  tm_requires_network :: bool
  tm_writes :: bool
  tm_snapshot_behavior :: snapshot_behavior

record 'w tool_registration =
  tr_metadata :: tool_metadata
  tr_input_model :: string
  tr_output_model :: string
  tr_handler :: "'w \<Rightarrow> pyval \<Rightarrow> pyval res \<times> 'w"

record canonical_tool =
  cn_version :: string
  cn_domain :: string
  cn_description :: string
  cn_input_model :: string
  cn_output_model :: string
  cn_snapshot_behavior :: snapshot_behavior

record pydantic_class =
  pc_schema :: payload
  pc_validate :: "pyval \<Rightarrow> pyval option"
  pc_validate_json :: "string \<Rightarrow> pyval option"

type_synonym pydantic = "string \<Rightarrow> pydantic_class"

datatype tool_input = InMapping payload | InText string

section \<open>The canonical Tools\<close>

definition canonical_def ::
  "string \<Rightarrow> string \<Rightarrow> string \<Rightarrow> string \<Rightarrow> snapshot_behavior \<Rightarrow> canonical_tool" where
  "canonical_def domain description i out sb =
     \<lparr>cn_version = ''1.0.0'', cn_domain = domain, cn_description = description,
      cn_input_model = i, cn_output_model = out, cn_snapshot_behavior = sb\<rparr>"

definition canonical_data_tools :: "(string, canonical_tool) dict" where
  "canonical_data_tools =
     [(''get_latest_close'', canonical_def ''market_data''
        ''Read one latest persisted daily close.''
        ''GetLatestCloseInput'' ''LatestCloseEnvelope'' SNAPSHOT_OR_AS_OF),
      (''get_daily_price_history'', canonical_def ''market_data''
        ''Read bounded persisted daily price history.''
        ''GetDailyPriceHistoryInput'' ''DailyPriceHistoryEnvelope'' SNAPSHOT_OR_AS_OF),
      (''get_corporate_actions'', canonical_def ''market_data''
        ''Read bounded persisted corporate actions.''
        ''GetCorporateActionsInput'' ''CorporateActionsEnvelope'' SNAPSHOT_OR_AS_OF),
      (''get_reported_financial_facts'', canonical_def ''financial_data''
        ''Read bounded raw reported financial facts.''
        ''GetReportedFinancialFactsInput'' ''ReportedFinancialFactsEnvelope'' SNAPSHOT_OR_AS_OF),
      (''list_source_documents'', canonical_def ''documents''
        ''List bounded persisted source-document metadata.''
        ''ListSourceDocumentsInput'' ''SourceDocumentsEnvelope'' SNAPSHOT_OR_AS_OF),
      (''get_source_document_metadata'', canonical_def ''documents''
        ''Read one persisted source-document metadata record.''
        ''GetSourceDocumentMetadataInput'' ''SourceDocumentMetadataEnvelope'' PERSISTED_METADATA),
      (''get_data_snapshot'', canonical_def ''snapshots''
        ''Read one exact persisted data snapshot.''
        ''GetDataSnapshotInput'' ''DataSnapshotEnvelope'' SNAPSHOT_REQUIRED),
      (''list_snapshot_items'', canonical_def ''snapshots''
        ''List exact bounded public snapshot items.''
        ''ListSnapshotItemsInput'' ''SnapshotItemsEnvelope'' SNAPSHOT_REQUIRED),
      (''get_normalized_financial_facts'', canonical_def ''financial_normalization''
        ''Read bounded persisted normalized financial facts.''
        ''GetNormalizedFinancialFactsInput'' ''NormalizedFinancialFactsEnvelope'' SNAPSHOT_REQUIRED),
      (''get_financial_periods'', canonical_def ''financial_normalization''
        ''Read bounded persisted fiscal periods.''
        ''GetFinancialPeriodsInput'' ''FinancialPeriodsEnvelope'' SNAPSHOT_REQUIRED),
      (''get_financial_metrics'', canonical_def ''financial_metrics''
        ''Read bounded persisted deterministic financial metrics.''
        ''GetFinancialMetricsInput'' ''FinancialMetricsEnvelope'' SNAPSHOT_REQUIRED),
      (''get_metric_detail'', canonical_def ''financial_metrics''
        ''Read one persisted deterministic metric detail.''
        ''GetMetricDetailInput'' ''MetricDetailEnvelope'' SNAPSHOT_REQUIRED),
      (''get_metric_lineage'', canonical_def ''financial_metrics''
        ''Read persisted calculation input lineage.''
        ''GetMetricLineageInput'' ''MetricLineageEnvelope'' PERSISTED_METADATA),
      (''get_calculation_run'', canonical_def ''financial_metrics''
        ''Read one persisted calculation run.''
        ''GetCalculationRunInput'' ''CalculationRunEnvelope'' PERSISTED_METADATA)]"

definition canonical_rag_tools :: "(string, canonical_tool) dict" where
  "canonical_rag_tools =
     [(''list_document_versions'', canonical_def ''rag''
        ''List persisted immutable document versions.''
        ''ListDocumentVersionsInput'' ''RagReadEnvelope'' SNAPSHOT_OR_AS_OF),
      (''get_document_metadata'', canonical_def ''rag''
        ''Read persisted document-version metadata.''
        ''GetDocumentMetadataInput'' ''RagReadEnvelope'' PERSISTED_METADATA),
      (''search_document_chunks'', canonical_def ''rag''
        ''Read one precomputed document retrieval result.''
        ''SearchDocumentChunksInput'' ''EvidenceBundle'' SNAPSHOT_OR_AS_OF),
      (''get_document_chunk'', canonical_def ''rag''
        ''Read one persisted bounded document chunk.''
        ''GetDocumentChunkInput'' ''RagReadEnvelope'' PERSISTED_METADATA),
      (''get_citation'', canonical_def ''rag''
        ''Read one immutable citation anchor.''
        ''GetCitationInput'' ''RagReadEnvelope'' PERSISTED_METADATA),
      (''verify_citation'', canonical_def ''rag''
        ''Verify one citation without modifying evidence.''
        ''VerifyCitationInput'' ''RagReadEnvelope'' SNAPSHOT_OR_AS_OF),
      (''get_evidence_bundle'', canonical_def ''rag''
        ''Read one persisted verified evidence bundle.''
        ''GetEvidenceBundleInput'' ''RagReadEnvelope'' PERSISTED_METADATA),
      (''get_retrieval_run'', canonical_def ''rag''
        ''Read one immutable retrieval run.''
        ''GetRetrievalRunInput'' ''RagReadEnvelope'' PERSISTED_METADATA)]"

definition canonical_research_tools :: "(string, canonical_tool) dict" where
  "canonical_research_tools =
     [(''get_research_agent_run'', canonical_def ''research_agent''
        ''Read one persisted controlled Research Agent run.''
        ''ResearchRunIdInput'' ''GetResearchAgentRunOutput'' PERSISTED_METADATA),
      (''get_research_plan'', canonical_def ''research_agent''
        ''Read one persisted immutable Research Agent plan.''
        ''ResearchRunIdInput'' ''GetResearchPlanOutput'' PERSISTED_METADATA),
      (''get_research_steps'', canonical_def ''research_agent''
        ''Read bounded persisted Research Agent steps.''
        ''ResearchRunPageInput'' ''GetResearchStepsOutput'' PERSISTED_METADATA),
      (''get_research_tool_invocations'', canonical_def ''research_agent''
        ''Read bounded persisted Research Agent Tool invocations.''
        ''ResearchRunPageInput'' ''GetResearchToolInvocationsOutput'' PERSISTED_METADATA),
      (''get_research_evidence'', canonical_def ''research_agent''
        ''Read bounded persisted validated Research Agent evidence.''
        ''ResearchRunPageInput'' ''GetResearchEvidenceOutput'' PERSISTED_METADATA),
      (''get_research_claims'', canonical_def ''research_agent''
        ''Read bounded persisted Research Agent claims.''
        ''ResearchRunPageInput'' ''GetResearchClaimsOutput'' PERSISTED_METADATA),
      (''get_research_package'', canonical_def ''research_agent''
        ''Read one persisted structured Research Package.''
        ''ResearchRunIdInput'' ''GetResearchPackageOutput'' PERSISTED_METADATA),
      (''get_research_run_events'', canonical_def ''research_agent''
        ''Read bounded append-only Research Agent run events.''
        ''ResearchRunPageInput'' ''GetResearchRunEventsOutput'' PERSISTED_METADATA)]"

definition canonical_provider_tools :: "(string, canonical_tool) dict" where
  "canonical_provider_tools =
     [(''get_provider'', canonical_def ''provider_governance''
        ''Read one persisted Provider definition summary.''
        ''ProviderCodeInput'' ''ProviderReadOutput'' PERSISTED_METADATA),
      (''list_provider_capabilities'', canonical_def ''provider_governance''
        ''List bounded persisted Provider capability summaries.''
        ''ProviderCodePageInput'' ''ProviderReadOutput'' PERSISTED_METADATA),
      (''get_provider_health'', canonical_def ''provider_governance''
        ''Read the latest persisted Provider health summary.''
        ''ProviderCodeInput'' ''ProviderReadOutput'' PERSISTED_METADATA),
      (''get_provider_license_status'', canonical_def ''provider_governance''
        ''Read one persisted safe Provider license summary.''
        ''ProviderCodeInput'' ''ProviderReadOutput'' PERSISTED_METADATA),
      (''get_provider_sync_run'', canonical_def ''provider_governance''
        ''Read one persisted Provider Sync Run summary.''
        ''ProviderRunInput'' ''ProviderReadOutput'' PERSISTED_METADATA),
      (''get_provider_sync_checkpoint'', canonical_def ''provider_governance''
        ''List bounded persisted Provider checkpoint summaries.''
        ''ProviderCodePageInput'' ''ProviderReadOutput'' PERSISTED_METADATA),
      (''list_provider_raw_artifacts'', canonical_def ''provider_governance''
        ''List bounded safe Provider raw-artifact metadata.''
        ''ProviderRunPageInput'' ''ProviderReadOutput'' PERSISTED_METADATA),
      (''list_provider_quality_issues'', canonical_def ''provider_governance''
        ''List bounded persisted Provider quality issue summaries.''
        ''ProviderRunPageInput'' ''ProviderReadOutput'' PERSISTED_METADATA),
      (''list_provider_dead_letters'', canonical_def ''provider_governance''
        ''List bounded persisted Provider dead-letter summaries.''
        ''ProviderRunPageInput'' ''ProviderReadOutput'' PERSISTED_METADATA),
      (''get_provider_readiness'', canonical_def ''provider_governance''
        ''Read persisted Provider readiness for one Security.''
        ''ProviderSecurityInput'' ''ProviderReadOutput'' PERSISTED_METADATA)]"

definition canonical_report_tools :: "(string, canonical_tool) dict" where
  "canonical_report_tools =
     [(''get_research_report'', canonical_def ''reports''
        ''Read one persisted immutable research report.''
        ''ReportIdInput'' ''ReportReadOutput'' PERSISTED_METADATA),
      (''get_report_sections'', canonical_def ''reports''
        ''List bounded persisted report sections.''
        ''ReportPageInput'' ''ReportReadOutput'' PERSISTED_METADATA),
      (''get_report_blocks'', canonical_def ''reports''
        ''List bounded persisted report blocks.''
        ''ReportPageInput'' ''ReportReadOutput'' PERSISTED_METADATA),
      (''get_report_claim_bindings'', canonical_def ''reports''
        ''List bounded persisted report Claim bindings.''
        ''ReportPageInput'' ''ReportReadOutput'' PERSISTED_METADATA),
      (''get_report_evidence_bindings'', canonical_def ''reports''
        ''List bounded persisted report Evidence bindings.''
        ''ReportPageInput'' ''ReportReadOutput'' PERSISTED_METADATA),
      (''get_report_citations'', canonical_def ''reports''
        ''List bounded persisted report Citation bindings.''
        ''ReportPageInput'' ''ReportReadOutput'' PERSISTED_METADATA),
      (''get_report_reflection_runs'', canonical_def ''reports''
        ''List bounded persisted report Reflection runs.''
        ''ReportPageInput'' ''ReportReadOutput'' PERSISTED_METADATA),
      (''get_report_reflection_findings'', canonical_def ''reports''
        ''List bounded persisted report Reflection findings.''
        ''ReportPageInput'' ''ReportReadOutput'' PERSISTED_METADATA),
      (''get_report_revision_runs'', canonical_def ''reports''
        ''List bounded persisted deterministic report revisions.''
        ''ReportPageInput'' ''ReportReadOutput'' PERSISTED_METADATA),
      (''get_report_release_gate'', canonical_def ''reports''
        ''Read one persisted internal report Release Gate.''
        ''ReportIdInput'' ''ReportReadOutput'' PERSISTED_METADATA)]"

definition STAGE7_QUERY_TOOL_NAMES :: "string list" where
  "STAGE7_QUERY_TOOL_NAMES =
     [''get_research_agent_run'', ''get_research_claims'', ''get_research_evidence'',
      ''get_research_package'', ''get_research_plan'', ''get_research_run_events'',
      ''get_research_steps'', ''get_research_tool_invocations'']"

definition STAGE8_REPORT_QUERY_TOOL_NAMES :: "string list" where
  "STAGE8_REPORT_QUERY_TOOL_NAMES =
     [''get_research_report'', ''get_report_sections'', ''get_report_blocks'',
      ''get_report_claim_bindings'', ''get_report_evidence_bindings'',
      ''get_report_citations'', ''get_report_reflection_runs'',
      ''get_report_reflection_findings'', ''get_report_revision_runs'',
      ''get_report_release_gate'']"

definition STAGE9_PROVIDER_QUERY_TOOL_NAMES :: "string list" where
  "STAGE9_PROVIDER_QUERY_TOOL_NAMES =
     [''get_provider'', ''list_provider_capabilities'', ''get_provider_health'',
      ''get_provider_license_status'', ''get_provider_sync_run'',
      ''get_provider_sync_checkpoint'', ''list_provider_raw_artifacts'',
      ''list_provider_quality_issues'', ''list_provider_dead_letters'',
      ''get_provider_readiness'']"

definition STAGE10_LIVE_EVIDENCE_QUERY_TOOL_NAMES :: "string list" where
  "STAGE10_LIVE_EVIDENCE_QUERY_TOOL_NAMES =
     [''get_live_authorization'', ''list_live_authorization_events'',
      ''list_live_authorization_consumptions'', ''get_live_execution_approval'',
      ''get_manual_evidence_import'', ''get_evidence_ingestion_manifest'',
      ''get_real_company_validation_run'', ''list_end_to_end_validations'',
      ''get_live_incident'', ''list_live_incident_events'']"

definition canonical_live_tools :: "(string, canonical_tool) dict" where
  "canonical_live_tools =
     map (\<lambda>name. (name, canonical_def ''live_evidence_governance''
            (''Read bounded persisted '' @ name @ '' governance data.'')
            ''LiveEvidenceResourceInput'' ''LiveEvidenceReadOutput'' PERSISTED_METADATA))
       STAGE10_LIVE_EVIDENCE_QUERY_TOOL_NAMES"

definition CANONICAL_TOOL_DEFINITIONS :: "(string, canonical_tool) dict" where
  "CANONICAL_TOOL_DEFINITIONS =
     canonical_data_tools @ canonical_rag_tools @ canonical_research_tools @
     canonical_provider_tools @ canonical_report_tools @ canonical_live_tools"

section \<open>The registry\<close>

type_synonym 'w tool_registry = "(string \<times> string, 'w tool_registration) dict"

text \<open>\<^verbatim>\<open>(?:0|[1-9][0-9]*)\.(?:0|[1-9][0-9]*)\.(?:0|[1-9][0-9]*)\Z\<close>\<close>

definition plain_number :: "string \<Rightarrow> bool" where
  "plain_number s \<longleftrightarrow> s \<noteq> [] \<and> list_all is_digit s \<and> (hd s = CHR ''0'' \<longrightarrow> s = ''0'')"

fun split_dots :: "string \<Rightarrow> string list" where
  "split_dots [] = [[]]"
| "split_dots (c # cs) =
     (if c = CHR ''.'' then [] # split_dots cs
      else case split_dots cs of [] \<Rightarrow> [[c]] | p # ps \<Rightarrow> (c # p) # ps)"

definition semantic_version :: "string \<Rightarrow> bool" where
  "semantic_version s \<longleftrightarrow> length (split_dots s) = 3 \<and> list_all plain_number (split_dots s)"

definition validated_metadata :: "tool_metadata \<Rightarrow> tool_metadata res" where
  "validated_metadata m =
     (if \<not> (text_within 1 128 (tm_name m) \<and> text_within 5 64 (tm_version m) \<and>
          text_within 1 64 (tm_domain m) \<and> text_within 1 512 (tm_description m))
      then Inl (ToolRegistryError INVALID_REGISTRATION)
      else if \<not> semantic_version (tm_version m) then Inl (ToolRegistryError INVALID_REGISTRATION)
      else Inr m)"

definition schema_eq :: "payload \<Rightarrow> payload \<Rightarrow> bool" where
  "schema_eq a b = py_eq (PDict a) (PDict b)"

definition register :: "pydantic \<Rightarrow> 'w tool_registry \<Rightarrow> 'w tool_registration \<Rightarrow> 'w tool_registry res" where
  "register pyd R r =
     bind_res (validated_metadata (tr_metadata r)) (\<lambda>m.
       let key = (tm_name m, tm_version m) in
       if key \<in> set (map fst R) then Inl (ToolRegistryError DUPLICATE_TOOL)
       else case map_of CANONICAL_TOOL_DEFINITIONS (tm_name m) of
         None \<Rightarrow> Inl (ToolRegistryError FORBIDDEN_REGISTRATION)
       | Some c \<Rightarrow>
           if tm_version m \<noteq> cn_version c \<or> tm_domain m \<noteq> cn_domain c \<or>
              tm_description m \<noteq> cn_description c \<or> tr_input_model r \<noteq> cn_input_model c \<or>
              tr_output_model r \<noteq> cn_output_model c \<or>
              tm_snapshot_behavior m \<noteq> cn_snapshot_behavior c
           then Inl (ToolRegistryError INVALID_REGISTRATION)
           else if tm_permission m \<noteq> READ_ONLY \<or> \<not> tm_read_only m \<or> tm_requires_network m \<or>
              tm_writes m
           then Inl (ToolRegistryError FORBIDDEN_REGISTRATION)
           else if \<not> schema_eq (tm_input_schema m) (pc_schema (pyd (tr_input_model r))) \<or>
              \<not> schema_eq (tm_output_schema m) (pc_schema (pyd (tr_output_model r)))
           then Inl (ToolRegistryError INVALID_REGISTRATION)
           else Inr (R @ [(key, r)]))"

definition registry_list :: "'w tool_registry \<Rightarrow> tool_metadata list" where
  "registry_list R = map (\<lambda>kr. tr_metadata (snd kr)) (sort_key fst R)"

definition registration :: "'w tool_registry \<Rightarrow> string \<Rightarrow> string \<Rightarrow> 'w tool_registration res" where
  "registration R name version =
     (case map_of R (name, version) of
        None \<Rightarrow> Inl (ToolRegistryError TOOL_NOT_FOUND) | Some r \<Rightarrow> Inr r)"

definition describe :: "'w tool_registry \<Rightarrow> string \<Rightarrow> string \<Rightarrow> tool_metadata res" where
  "describe R name version =
     bind_res (registration R name version) (\<lambda>r. Inr (tr_metadata r))"

definition validate_input :: "pydantic \<Rightarrow> string \<Rightarrow> tool_input \<Rightarrow> pyval option" where
  "validate_input pyd cls p =
     (case p of InText t \<Rightarrow> pc_validate_json (pyd cls) t
      | InMapping d \<Rightarrow> pc_validate (pyd cls) (PDict d))"

definition execute ::
  "pydantic \<Rightarrow> 'w tool_registry \<Rightarrow> 'w \<Rightarrow> string \<Rightarrow> string \<Rightarrow> tool_input \<Rightarrow> pyval res \<times> 'w" where
  "execute pyd R w name version p =
     (case registration R name version of
        Inl e \<Rightarrow> (Inl e, w)
      | Inr r \<Rightarrow>
         (case validate_input pyd (tr_input_model r) p of
            None \<Rightarrow> (Inl (ToolRegistryError INVALID_INPUT), w)
          | Some v \<Rightarrow>
             (case tr_handler r w v of
                (Inl (ToolRegistryError c), w') \<Rightarrow> (Inl (ToolRegistryError c), w')
              | (Inl _, w') \<Rightarrow> (Inl (ToolRegistryError EXECUTION_FAILED), w')
              | (Inr result, w') \<Rightarrow>
                 (case pc_validate (pyd (tr_output_model r)) result of
                    None \<Rightarrow> (Inl (ToolRegistryError INVALID_OUTPUT), w')
                  | Some out \<Rightarrow> (Inr out, w')))))"

section \<open>The metadata registry\<close>

definition tool_metadata_of :: "pydantic \<Rightarrow> string \<Rightarrow> canonical_tool \<Rightarrow> tool_metadata" where
  "tool_metadata_of pyd name c =
     \<lparr>tm_name = name, tm_version = ''1.0.0'', tm_domain = cn_domain c,
      tm_description = cn_description c, tm_input_schema = pc_schema (pyd (cn_input_model c)),
      tm_output_schema = pc_schema (pyd (cn_output_model c)), tm_permission = READ_ONLY,
      tm_read_only = True, tm_requires_network = False, tm_writes = False,
      tm_snapshot_behavior = cn_snapshot_behavior c\<rparr>"

definition metadata_registration :: "pydantic \<Rightarrow> string \<Rightarrow> canonical_tool \<Rightarrow> 'w tool_registration" where
  "metadata_registration pyd name c =
     \<lparr>tr_metadata = tool_metadata_of pyd name c, tr_input_model = cn_input_model c,
      tr_output_model = cn_output_model c,
      tr_handler = (\<lambda>w _. (Inl (ToolRegistryError EXECUTION_FAILED), w))\<rparr>"

definition later_stage_tools :: "string list" where
  "later_stage_tools =
     STAGE7_QUERY_TOOL_NAMES @ STAGE8_REPORT_QUERY_TOOL_NAMES @
     STAGE9_PROVIDER_QUERY_TOOL_NAMES @ STAGE10_LIVE_EVIDENCE_QUERY_TOOL_NAMES"

definition create_tool_metadata_registry :: "pydantic \<Rightarrow> 'w tool_registry res" where
  "create_tool_metadata_registry pyd =
     fold_res (\<lambda>(name, c) R.
         if name \<in> set later_stage_tools then Inr R
         else register pyd R (metadata_registration pyd name c))
       CANONICAL_TOOL_DEFINITIONS []"

section \<open>What a registry holds\<close>

definition approved :: "'w tool_registration \<Rightarrow> bool" where
  "approved r \<longleftrightarrow>
     (let m = tr_metadata r in
      validated_metadata m = Inr m \<and>
      tm_permission m = READ_ONLY \<and> tm_read_only m \<and> \<not> tm_requires_network m \<and> \<not> tm_writes m \<and>
      (case map_of CANONICAL_TOOL_DEFINITIONS (tm_name m) of
         None \<Rightarrow> False
       | Some c \<Rightarrow> tm_version m = cn_version c \<and> tm_domain m = cn_domain c \<and>
           tm_description m = cn_description c \<and> tm_snapshot_behavior m = cn_snapshot_behavior c \<and>
           tr_input_model r = cn_input_model c \<and> tr_output_model r = cn_output_model c))"

definition metadata_key :: "tool_metadata \<Rightarrow> string \<times> string" where
  "metadata_key m = (tm_name m, tm_version m)"

definition registry_ok :: "'w tool_registry \<Rightarrow> bool" where
  "registry_ok R \<longleftrightarrow>
     distinct (map fst R) \<and>
     list_all (\<lambda>(k, r). k = metadata_key (tr_metadata r) \<and> approved r) R"

lemma validated_metadata_id: "validated_metadata m = Inr n \<Longrightarrow> n = m"
  by (simp add: validated_metadata_def split: if_splits)

lemma register_Inr:
  assumes "register pyd R r = Inr R'"
  shows "approved r \<and> metadata_key (tr_metadata r) \<notin> set (map fst R) \<and>
    R' = R @ [(metadata_key (tr_metadata r), r)]"
  using assms
  by (auto simp: register_def approved_def metadata_key_def Let_def
      dest!: validated_metadata_id split: option.splits if_splits)

lemma register_keeps_ok: "registry_ok R \<Longrightarrow> register pyd R r = Inr R' \<Longrightarrow> registry_ok R'"
  by (drule register_Inr) (auto simp: registry_ok_def)

text \<open>A sequence of registrations in which a rejected one leaves the registry as it was.\<close>

fun register_all :: "pydantic \<Rightarrow> 'w tool_registration list \<Rightarrow> 'w tool_registry \<Rightarrow> 'w tool_registry" where
  "register_all pyd [] R = R"
| "register_all pyd (r # rs) R =
     register_all pyd rs (case register pyd R r of Inl _ \<Rightarrow> R | Inr R' \<Rightarrow> R')"

lemma register_all_ok: "registry_ok R \<Longrightarrow> registry_ok (register_all pyd rs R)"
proof (induction rs arbitrary: R)
  case (Cons r rs)
  then show ?case by (auto intro: register_keeps_ok split: sum.splits)
qed simp

lemma registry_ok_Nil [simp]: "registry_ok []"
  by (simp add: registry_ok_def)

lemma registry_list_keys:
  "registry_ok R \<Longrightarrow> map metadata_key (registry_list R) = sort (map fst R)"
proof -
  assume ok: "registry_ok R"
  have "map metadata_key (registry_list R) = map fst (sort_key fst R)"
    using ok by (auto simp: registry_list_def registry_ok_def list_all_iff)
  also have "\<dots> = sort (map fst R)"
    by (rule map_sort_key)
  finally show ?thesis .
qed

lemma sort_map_pair:
  fixes c :: "'b :: linorder"
  shows "sort (map (\<lambda>n. (n, c)) xs) = map (\<lambda>n. (n, c)) (sort xs)"
proof -
  have ins: "insort (n, c) (map (\<lambda>n. (n, c)) ys) = map (\<lambda>n. (n, c)) (insort n ys)" for n ys
    by (induction ys) auto
  show ?thesis by (induction xs) (simp_all add: ins)
qed

section \<open>The canonical table\<close>

definition canonical_entry_ok :: "string \<times> canonical_tool \<Rightarrow> bool" where
  "canonical_entry_ok nc \<longleftrightarrow>
     text_within 1 128 (fst nc) \<and> cn_version (snd nc) = ''1.0.0'' \<and>
     text_within 1 64 (cn_domain (snd nc)) \<and> text_within 1 512 (cn_description (snd nc))"

lemma canonical_names_distinct: "distinct (map fst CANONICAL_TOOL_DEFINITIONS)"
  by code_simp

lemma canonical_entries_ok: "list_all canonical_entry_ok CANONICAL_TOOL_DEFINITIONS"
  by code_simp

lemma canonical_offline_names:
  "sort (map fst (filter (\<lambda>nc. fst nc \<notin> set later_stage_tools) CANONICAL_TOOL_DEFINITIONS)) =
   CONTROLLED_OFFLINE_TOOL_NAMES"
  by code_simp

lemma semantic_version_1: "semantic_version ''1.0.0''" "text_within 5 64 ''1.0.0''"
  by code_simp+

text \<open>A dictionary equals itself: what the registry relies on when it compares two schemas.\<close>

definition schemas_reflexive :: "pydantic \<Rightarrow> bool" where
  "schemas_reflexive pyd \<longleftrightarrow> (\<forall>n. schema_eq (pc_schema (pyd n)) (pc_schema (pyd n)))"

lemma metadata_registration_key:
  "metadata_key (tr_metadata (metadata_registration pyd n c)) = (n, ''1.0.0'')"
  by (simp add: metadata_key_def metadata_registration_def tool_metadata_of_def)

lemma register_metadata:
  assumes refl: "schemas_reflexive pyd" and mem: "(n, c) \<in> set CANONICAL_TOOL_DEFINITIONS"
    and fresh: "(n, ''1.0.0'') \<notin> set (map fst R)"
  shows "register pyd R (metadata_registration pyd n c) =
    Inr (R @ [((n, ''1.0.0''), metadata_registration pyd n c)])"
proof -
  have "canonical_entry_ok (n, c)"
    using canonical_entries_ok mem by (simp add: list_all_iff)
  then have "validated_metadata (tool_metadata_of pyd n c) = Inr (tool_metadata_of pyd n c)"
    using semantic_version_1
    by (simp add: validated_metadata_def canonical_entry_ok_def tool_metadata_of_def)
  moreover have "map_of CANONICAL_TOOL_DEFINITIONS n = Some c"
    using canonical_names_distinct mem by simp
  moreover have "cn_version c = ''1.0.0''"
    using \<open>canonical_entry_ok (n, c)\<close> by (simp add: canonical_entry_ok_def)
  ultimately show ?thesis
    using refl fresh
    by (simp add: register_def metadata_registration_def tool_metadata_of_def schemas_reflexive_def)
qed

definition metadata_entries :: "pydantic \<Rightarrow> (string, canonical_tool) dict \<Rightarrow> 'w tool_registry" where
  "metadata_entries pyd xs =
     map (\<lambda>(n, c). ((n, ''1.0.0''), metadata_registration pyd n c))
       (filter (\<lambda>nc. fst nc \<notin> set later_stage_tools) xs)"

lemma fold_register_metadata:
  assumes "schemas_reflexive pyd" and "set xs \<subseteq> set CANONICAL_TOOL_DEFINITIONS"
    and "distinct (map fst xs)"
    and "\<And>n. n \<in> fst ` set xs \<Longrightarrow> (n, ''1.0.0'') \<notin> set (map fst R)"
  shows "fold_res (\<lambda>(name, c) R.
        if name \<in> set later_stage_tools then Inr R
        else register pyd R (metadata_registration pyd name c)) xs R =
    Inr (R @ metadata_entries pyd xs)"
  using assms
proof (induction xs arbitrary: R)
  case Nil
  then show ?case by (simp add: metadata_entries_def)
next
  case (Cons x xs)
  obtain n c where x: "x = (n, c)" by (cases x)
  show ?case
  proof (cases "n \<in> set later_stage_tools")
    case True
    have "fold_res (\<lambda>(name, c) R.
        if name \<in> set later_stage_tools then Inr R
        else register pyd R (metadata_registration pyd name c)) xs R =
      Inr (R @ metadata_entries pyd xs)"
      by (rule Cons.IH) (use Cons.prems in auto)
    with True x show ?thesis by (simp add: metadata_entries_def)
  next
    case False
    let ?R = "R @ [((n, ''1.0.0''), metadata_registration pyd n c)]"
    have step: "register pyd R (metadata_registration pyd n c) = Inr ?R"
      by (rule register_metadata) (use Cons.prems x in auto)
    have "n \<notin> fst ` set xs" using Cons.prems(3) x by simp
    then have "fold_res (\<lambda>(name, c) R.
        if name \<in> set later_stage_tools then Inr R
        else register pyd R (metadata_registration pyd name c)) xs ?R =
      Inr (?R @ metadata_entries pyd xs)"
      by (intro Cons.IH) (use Cons.prems x in auto)
    with False x step show ?thesis by (simp add: metadata_entries_def)
  qed
qed

lemma metadata_registry_total:
  "schemas_reflexive pyd \<Longrightarrow>
   create_tool_metadata_registry pyd = Inr (metadata_entries pyd CANONICAL_TOOL_DEFINITIONS)"
  unfolding create_tool_metadata_registry_def
  by (subst fold_register_metadata) (simp_all add: canonical_names_distinct)

lemma metadata_registry_ok:
  assumes "schemas_reflexive pyd"
  shows "registry_ok (metadata_entries pyd CANONICAL_TOOL_DEFINITIONS)"
proof (rule fold_res_invariant [where I = registry_ok])
  show "fold_res (\<lambda>(name, c) R.
        if name \<in> set later_stage_tools then Inr R
        else register pyd R (metadata_registration pyd name c)) CANONICAL_TOOL_DEFINITIONS [] =
      Inr (metadata_entries pyd CANONICAL_TOOL_DEFINITIONS)"
    using metadata_registry_total [OF assms] by (simp add: create_tool_metadata_registry_def)
qed (auto intro: register_keeps_ok split: if_splits)

lemma metadata_registry_is_offline_keys:
  assumes "schemas_reflexive pyd"
  shows "map metadata_key (registry_list (metadata_entries pyd CANONICAL_TOOL_DEFINITIONS)) =
    map tool_key (pol_allowed_tools (offline_policy_values c))"
proof -
  let ?names = "map fst (filter (\<lambda>nc. fst nc \<notin> set later_stage_tools) CANONICAL_TOOL_DEFINITIONS)"
  have "map metadata_key (registry_list (metadata_entries pyd CANONICAL_TOOL_DEFINITIONS)) =
      sort (map (\<lambda>n. (n, ''1.0.0'')) ?names)"
    using registry_list_keys [OF metadata_registry_ok [OF assms]]
    by (simp add: metadata_entries_def split_def comp_def)
  also have "\<dots> = map (\<lambda>n. (n, ''1.0.0'')) (sort ?names)"
    by (rule sort_map_pair)
  finally show ?thesis
    using canonical_offline_names
    by (simp add: offline_policy_values_def offline_tool_def tool_key_def comp_def)
qed

section \<open>Properties\<close>

text \<open>
  C5. Whatever registrations are attempted, in whatever order, the registry only ever lists
  read-only Tools that use no network, each under the version, domain, description and snapshot
  behaviour of the canonical table, strictly sorted by name and version.
\<close>

theorem registry_only_read_only:
  "list_all (\<lambda>m. tm_permission m = READ_ONLY \<and> tm_read_only m \<and> \<not> tm_requires_network m \<and>
       \<not> tm_writes m \<and>
       (\<exists>c. map_of CANONICAL_TOOL_DEFINITIONS (tm_name m) = Some c \<and> tm_version m = cn_version c \<and>
          tm_domain m = cn_domain c \<and> tm_description m = cn_description c \<and>
          tm_snapshot_behavior m = cn_snapshot_behavior c))
     (registry_list (register_all pyd rs [])) \<and>
   sorted_wrt (<) (map metadata_key (registry_list (register_all pyd rs [])))"
proof
  let ?R = "register_all pyd rs []"
  have ok: "registry_ok ?R" by (rule register_all_ok) simp
  then show "list_all (\<lambda>m. tm_permission m = READ_ONLY \<and> tm_read_only m \<and>
      \<not> tm_requires_network m \<and> \<not> tm_writes m \<and>
      (\<exists>c. map_of CANONICAL_TOOL_DEFINITIONS (tm_name m) = Some c \<and> tm_version m = cn_version c \<and>
          tm_domain m = cn_domain c \<and> tm_description m = cn_description c \<and>
          tm_snapshot_behavior m = cn_snapshot_behavior c)) (registry_list ?R)"
    by (auto simp: registry_list_def registry_ok_def list_all_iff approved_def Let_def
        split: option.splits)
  show "sorted_wrt (<) (map metadata_key (registry_list ?R))"
    using ok by (simp add: registry_list_keys registry_ok_def strict_sorted_iff)
qed

text \<open>
  C6. Execution fails closed: its only errors are registry errors; the outside world is touched
  only through the handler of a registered Tool on an input that the Tool's input model accepted;
  and a returned value is one that the Tool's output model accepted.
\<close>

theorem execute_fails_closed:
  "(case execute pyd R w name version p of
      (Inl e, w') \<Rightarrow> (\<exists>c. e = ToolRegistryError c) \<and>
        (w' = w \<or> (\<exists>r v. map_of R (name, version) = Some r \<and>
           validate_input pyd (tr_input_model r) p = Some v \<and> w' = snd (tr_handler r w v)))
    | (Inr out, w') \<Rightarrow> \<exists>r v result. map_of R (name, version) = Some r \<and>
        validate_input pyd (tr_input_model r) p = Some v \<and> tr_handler r w v = (Inr result, w') \<and>
        pc_validate (pyd (tr_output_model r)) result = Some out)"
  by (auto simp: execute_def registration_def
      split: option.splits sum.splits prod.splits exn.splits)

text \<open>
  The metadata registry can always be built, and it holds exactly the Tools that the
  controlled-offline policy allows, in the same order and versions. (The hypothesis is that the
  schema pydantic prints for a class equals itself.)
\<close>

theorem metadata_registry_is_offline_policy:
  assumes "schemas_reflexive pyd"
  shows "\<exists>R. create_tool_metadata_registry pyd = Inr R \<and>
    map metadata_key (registry_list R) = map tool_key (pol_allowed_tools (offline_policy_values c))"
  using metadata_registry_total [OF assms] metadata_registry_is_offline_keys [OF assms] by blast

text \<open>A class table with an empty schema and permissive validation.\<close>

definition demo_pydantic :: pydantic where
  "demo_pydantic n = \<lparr>pc_schema = [(''title'', PStr n)], pc_validate = Some,
     pc_validate_json = (\<lambda>s. Some (PStr s))\<rparr>"

lemma demo_schemas_reflexive: "schemas_reflexive demo_pydantic"
  by (simp add: schemas_reflexive_def demo_pydantic_def schema_eq_def)

theorem metadata_registry_is_offline_policy_witness:
  "schemas_reflexive demo_pydantic \<and>
   (\<exists>R. create_tool_metadata_registry demo_pydantic = Inr R \<and>
     map metadata_key (registry_list R) = map tool_key (pol_allowed_tools (offline_policy_values [])))"
  using metadata_registry_is_offline_policy [OF demo_schemas_reflexive] demo_schemas_reflexive
  by simp

end
