(* ===== verification/Tool_Policy.thy ===== *)
theory Tool_Policy
  imports Tool_Registry
begin

text \<open>
  The fingerprint of the approved Tools (\<open>domain/research_agent/tool_catalog.py\<close>) and the
  deny-by-default authorization of a step's Tool (\<open>domain/research_agent/tool_policy.py\<close>).
\<close>

section \<open>The catalog\<close>

record tool_catalog_entry =
  ce_tool_name :: string
  ce_tool_version :: string
  ce_permission :: tool_permission
  ce_read_only :: bool
  ce_writes :: bool
  ce_requires_network :: bool
  ce_input_schema_version :: checksum
  ce_output_schema_version :: checksum
  ce_data_domain :: string
  ce_description :: string
  ce_snapshot_behavior :: snapshot_behavior

record tool_catalog_snapshot =
  tcs_catalog_version :: string
  tcs_catalog_checksum :: checksum
  tcs_entry_count :: nat
  tcs_entries :: "tool_catalog_entry list"

definition entry_key :: "tool_catalog_entry \<Rightarrow> string \<times> string" where
  "entry_key e = (ce_tool_name e, ce_tool_version e)"

definition valid_catalog_entry :: "tool_catalog_entry \<Rightarrow> bool" where
  "valid_catalog_entry e \<longleftrightarrow>
     text_within 1 128 (ce_tool_name e) \<and> text_within 1 64 (ce_tool_version e) \<and>
     ce_permission e = READ_ONLY \<and> ce_read_only e \<and> \<not> ce_writes e \<and> \<not> ce_requires_network e \<and>
     valid_checksum (ce_input_schema_version e) \<and> valid_checksum (ce_output_schema_version e) \<and>
     text_within 1 64 (ce_data_domain e) \<and> text_within 1 512 (ce_description e)"

fun permission_value :: "tool_permission \<Rightarrow> string" where
  "permission_value READ_ONLY = ''READ_ONLY''"
| "permission_value INTERNAL_WRITE = ''INTERNAL_WRITE''"
| "permission_value ADMIN_ONLY = ''ADMIN_ONLY''"
| "permission_value FORBIDDEN_FOR_AGENT = ''FORBIDDEN_FOR_AGENT''"

fun snapshot_behavior_value :: "snapshot_behavior \<Rightarrow> string" where
  "snapshot_behavior_value SNAPSHOT_OR_AS_OF = ''SNAPSHOT_OR_AS_OF''"
| "snapshot_behavior_value SNAPSHOT_REQUIRED = ''SNAPSHOT_REQUIRED''"
| "snapshot_behavior_value PERSISTED_METADATA = ''PERSISTED_METADATA''"

definition entry_dump :: "tool_catalog_entry \<Rightarrow> pyval" where
  "entry_dump e = PDict
     [(''tool_name'', PStr (ce_tool_name e)), (''tool_version'', PStr (ce_tool_version e)),
      (''permission'', PStr (permission_value (ce_permission e))),
      (''read_only'', PBool (ce_read_only e)), (''writes'', PBool (ce_writes e)),
      (''requires_network'', PBool (ce_requires_network e)),
      (''input_schema_version'', PStr (ce_input_schema_version e)),
      (''output_schema_version'', PStr (ce_output_schema_version e)),
      (''data_domain'', PStr (ce_data_domain e)), (''description'', PStr (ce_description e)),
      (''snapshot_behavior'', PStr (snapshot_behavior_value (ce_snapshot_behavior e)))]"

text \<open>One round of the loop over \<open>registry.list()\<close>: the entry is checked and appended.\<close>

definition catalog_entry :: "pylib \<Rightarrow> tool_metadata \<Rightarrow> tool_catalog_entry res" where
  "catalog_entry L m =
     (if tm_permission m \<noteq> READ_ONLY \<or> \<not> tm_read_only m \<or> tm_writes m \<or> tm_requires_network m
      then Inl (ValueError ''TOOL_CATALOG_NOT_READ_ONLY'')
      else bind_res (stable_checksum L (PDict (tm_input_schema m))) (\<lambda>i.
        bind_res (stable_checksum L (PDict (tm_output_schema m))) (\<lambda>out.
          let e = \<lparr>ce_tool_name = tm_name m, ce_tool_version = tm_version m,
                   ce_permission = READ_ONLY, ce_read_only = True, ce_writes = False,
                   ce_requires_network = False, ce_input_schema_version = i,
                   ce_output_schema_version = out, ce_data_domain = tm_domain m,
                   ce_description = tm_description m,
                   ce_snapshot_behavior = tm_snapshot_behavior m\<rparr> in
          if valid_catalog_entry e then Inr e else Inl ValidationError)))"

definition build_tool_catalog_snapshot :: "pylib \<Rightarrow> 'w tool_registry \<Rightarrow> tool_catalog_snapshot res" where
  "build_tool_catalog_snapshot L R =
     bind_res (fold_res (\<lambda>m es. bind_res (catalog_entry L m) (\<lambda>e. Inr (es @ [e])))
       (registry_list R) [])
     (\<lambda>entries. bind_res (stable_checksum L (PTuple (map entry_dump entries))) (\<lambda>c.
        let version = ''tool-catalog-v1:'' @ c in
        if length version = 80 \<and> valid_checksum c \<and> 1 \<le> length entries \<and> length entries \<le> 256
        then Inr \<lparr>tcs_catalog_version = version, tcs_catalog_checksum = c,
                  tcs_entry_count = length entries, tcs_entries = entries\<rparr>
        else Inl ValidationError))"

section \<open>Authorization\<close>

definition authorize ::
  "pylib \<Rightarrow> run_context \<Rightarrow> step_record \<Rightarrow> tool_catalog_snapshot \<Rightarrow> research_policy \<Rightarrow>
   authorized_call res" where
  "authorize L ctx step cat pol =
     (if ctx_tool_catalog_version ctx \<noteq> tcs_catalog_version cat
      then Inl (ResearchToolAuthorizationError ''TOOL_CATALOG_VERSION_MISMATCH'')
      else if ctx_policy_version ctx \<noteq> pol_version pol
      then Inl (ResearchToolAuthorizationError ''POLICY_VERSION_MISMATCH'')
      else if st_run_id step \<noteq> ctx_run_id ctx
      then Inl (ResearchToolAuthorizationError ''STEP_RUN_MISMATCH'')
      else case (sd_tool_name (st_definition step), sd_tool_version (st_definition step)) of
        (Some name, Some version) \<Rightarrow>
          let same_name = filter (\<lambda>e. ce_tool_name e = name) (tcs_entries cat) in
          if same_name = []
          then Inl (ResearchToolAuthorizationError ''TOOL_NOT_IN_CATALOG'')
          else (case List.find (\<lambda>e. ce_tool_version e = version) same_name of
            None \<Rightarrow> Inl (ResearchToolAuthorizationError ''TOOL_VERSION_NOT_IN_CATALOG'')
          | Some e \<Rightarrow>
              if ce_permission e \<noteq> READ_ONLY \<or> \<not> ce_read_only e \<or> ce_writes e \<or>
                 ce_requires_network e
              then Inl (ResearchToolAuthorizationError ''TOOL_PERMISSION_DENIED'')
              else if (name, version) \<in> set (map tool_key (pol_denied_tools pol))
              then Inl (ResearchToolAuthorizationError ''TOOL_DENIED_BY_POLICY'')
              else if (name, version) \<notin> set (map tool_key (pol_allowed_tools pol))
              then Inl (ResearchToolAuthorizationError ''TOOL_NOT_ALLOWED_BY_POLICY'')
              else
                let payload = sd_input_binding (st_definition step) in
                bind_res (stable_checksum L (PDict payload)) (\<lambda>c.
                  Inr \<lparr>ac_tool_name = name, ac_tool_version = version, ac_payload = payload,
                       ac_input_checksum = c\<rparr>))
      | _ \<Rightarrow> Inl (ResearchToolAuthorizationError ''STEP_HAS_NO_TOOL''))"

section \<open>Facts\<close>

definition entry_of :: "tool_metadata \<Rightarrow> tool_catalog_entry \<Rightarrow> bool" where
  "entry_of m e \<longleftrightarrow> entry_key e = metadata_key m \<and> valid_catalog_entry e"

lemma catalog_entry_Inr: "catalog_entry L m = Inr e \<Longrightarrow> entry_of m e"
  by (auto simp: catalog_entry_def entry_of_def entry_key_def metadata_key_def Let_def
      split: if_splits)

lemma fold_catalog_entries:
  "fold_res (\<lambda>m es. bind_res (catalog_entry L m) (\<lambda>e. Inr (es @ [e]))) ms acc = Inr es \<Longrightarrow>
   \<exists>new. es = acc @ new \<and> list_all2 entry_of ms new"
proof (induction ms arbitrary: acc)
  case (Cons m ms)
  from Cons.prems obtain e where e: "catalog_entry L m = Inr e"
    and rest: "fold_res (\<lambda>m es. bind_res (catalog_entry L m) (\<lambda>e. Inr (es @ [e]))) ms (acc @ [e]) = Inr es"
    by auto
  from Cons.IH [OF rest] catalog_entry_Inr [OF e] show ?case by auto
qed simp

lemma entry_of_keys: "list_all2 entry_of ms es \<Longrightarrow> map entry_key es = map metadata_key ms"
  by (induction rule: list_all2_induct) (simp_all add: entry_of_def)

lemma catalog_Inr:
  assumes "build_tool_catalog_snapshot L R = Inr cat"
  shows "list_all2 entry_of (registry_list R) (tcs_entries cat) \<and>
    tcs_entry_count cat = length (tcs_entries cat) \<and>
    length (tcs_catalog_version cat) = 80 \<and> valid_checksum (tcs_catalog_checksum cat)"
  using assms
  by (auto simp: build_tool_catalog_snapshot_def Let_def dest!: fold_catalog_entries
      split: if_splits)

lemma authorize_Inr:
  assumes "authorize L ctx step cat pol = Inr call"
  shows "ctx_tool_catalog_version ctx = tcs_catalog_version cat \<and>
    ctx_policy_version ctx = pol_version pol \<and> st_run_id step = ctx_run_id ctx \<and>
    sd_tool_name (st_definition step) = Some (ac_tool_name call) \<and>
    sd_tool_version (st_definition step) = Some (ac_tool_version call) \<and>
    ac_payload call = sd_input_binding (st_definition step) \<and>
    stable_checksum L (PDict (ac_payload call)) = Inr (ac_input_checksum call) \<and>
    (ac_tool_name call, ac_tool_version call) \<in> set (map tool_key (pol_allowed_tools pol)) \<and>
    (ac_tool_name call, ac_tool_version call) \<notin> set (map tool_key (pol_denied_tools pol)) \<and>
    (\<exists>e \<in> set (tcs_entries cat). entry_key e = (ac_tool_name call, ac_tool_version call) \<and>
       ce_permission e = READ_ONLY \<and> ce_read_only e \<and> \<not> ce_writes e \<and> \<not> ce_requires_network e)"
  using assms
  by (auto simp: authorize_def Let_def entry_key_def split: if_splits option.splits
      dest!: find_SomeD)

lemma built_catalog_keys:
  assumes "build_tool_catalog_snapshot L R = Inr cat" and "registry_ok R"
  shows "set (map entry_key (tcs_entries cat)) = set (map fst R)"
    and "\<And>e. e \<in> set (tcs_entries cat) \<Longrightarrow> valid_catalog_entry e"
proof -
  have l2: "list_all2 entry_of (registry_list R) (tcs_entries cat)"
    using catalog_Inr [OF assms(1)] by simp
  show "set (map entry_key (tcs_entries cat)) = set (map fst R)"
    using entry_of_keys [OF l2] registry_list_keys [OF assms(2)] by (metis set_sort)
  show "valid_catalog_entry e" if "e \<in> set (tcs_entries cat)" for e
    using l2 that by (auto simp: list_all2_conv_all_nth in_set_conv_nth entry_of_def)
qed

lemma find_entry:
  "(n, v) \<in> set (map entry_key es) \<Longrightarrow>
   \<exists>e. List.find (\<lambda>e. ce_tool_version e = v) (filter (\<lambda>e. ce_tool_name e = n) es) = Some e \<and>
     e \<in> set es"
  by (induction es) (auto simp: entry_key_def)

lemma authorize_ok:
  assumes "build_tool_catalog_snapshot L R = Inr cat" and "registry_ok R"
    and "ctx_tool_catalog_version ctx = tcs_catalog_version cat"
    and "ctx_policy_version ctx = pol_version pol" and "st_run_id step = ctx_run_id ctx"
    and "sd_tool_name (st_definition step) = Some n" and "sd_tool_version (st_definition step) = Some v"
    and "(n, v) \<in> set (map fst R)" and "(n, v) \<in> set (map tool_key (pol_allowed_tools pol))"
    and "(n, v) \<notin> set (map tool_key (pol_denied_tools pol))"
    and "stable_checksum L (PDict (sd_input_binding (st_definition step))) = Inr c"
  shows "\<exists>call. authorize L ctx step cat pol = Inr call"
proof -
  have "(n, v) \<in> set (map entry_key (tcs_entries cat))"
    using built_catalog_keys(1) [OF assms(1,2)] assms(8) by simp
  from find_entry [OF this] obtain e where
    e: "List.find (\<lambda>e. ce_tool_version e = v) (filter (\<lambda>e. ce_tool_name e = n) (tcs_entries cat)) = Some e"
      "e \<in> set (tcs_entries cat)" by blast
  moreover have "filter (\<lambda>e. ce_tool_name e = n) (tcs_entries cat) \<noteq> []"
    using e(1) by (metis find.simps(1) option.distinct(1))
  moreover have "valid_catalog_entry e"
    using built_catalog_keys(2) [OF assms(1,2)] e(2) .
  ultimately show ?thesis
    using assms(3-7,9-11) by (simp add: authorize_def Let_def valid_catalog_entry_def)
qed

text \<open>Every schema that pydantic prints has a canonical text: it holds no binary float.\<close>

definition schemas_canonical :: "pydantic \<Rightarrow> bool" where
  "schemas_canonical pyd \<longleftrightarrow> (\<forall>n. \<exists>j. normalize (PDict (pc_schema (pyd n))) = Inr j)"

lemma stable_checksum_total: "normalize v = Inr j \<Longrightarrow> \<exists>c. stable_checksum L v = Inr c"
  by (simp add: stable_checksum_def canonical_json_def)

lemma catalog_entry_total:
  assumes "hexdigest_documented L" and "schemas_canonical pyd" and "canonical_entry_ok (n, c)"
  shows "\<exists>e. catalog_entry L (tool_metadata_of pyd n c) = Inr e"
proof -
  obtain i where i: "stable_checksum L (PDict (pc_schema (pyd (cn_input_model c)))) = Inr i"
    using assms(2) stable_checksum_total unfolding schemas_canonical_def by meson
  obtain out where out: "stable_checksum L (PDict (pc_schema (pyd (cn_output_model c)))) = Inr out"
    using assms(2) stable_checksum_total unfolding schemas_canonical_def by meson
  have "text_within 1 64 ''1.0.0''"
    by code_simp
  with i out assms(3) stable_checksum_valid [OF assms(1) i] stable_checksum_valid [OF assms(1) out]
  show ?thesis
    by (simp add: catalog_entry_def tool_metadata_of_def Let_def valid_catalog_entry_def
        canonical_entry_ok_def)
qed

lemma fold_catalog_total:
  "(\<And>m. m \<in> set ms \<Longrightarrow> \<exists>e. catalog_entry L m = Inr e) \<Longrightarrow>
   \<exists>es. fold_res (\<lambda>m es. bind_res (catalog_entry L m) (\<lambda>e. Inr (es @ [e]))) ms acc = Inr es"
proof (induction ms arbitrary: acc)
  case (Cons m ms)
  then obtain e where "catalog_entry L m = Inr e" by auto
  then show ?case using Cons by simp
qed simp

lemma normalize_entries: "\<exists>j. normalize (PTuple (map entry_dump es)) = Inr j"
proof -
  have "\<exists>js. normalize_list (map entry_dump es) = Inr js"
    by (rule normalize_list_total) (auto simp: entry_dump_def)
  then show ?thesis by auto
qed

lemma offline_tool_count: "length (pol_allowed_tools (offline_policy_values c)) = 22"
  by (simp add: offline_policy_values_def CONTROLLED_OFFLINE_TOOL_NAMES_def)

lemma offline_catalog_built:
  assumes "hexdigest_documented L" and "schemas_reflexive pyd" and "schemas_canonical pyd"
  shows "\<exists>cat. build_tool_catalog_snapshot L
      (metadata_entries pyd CANONICAL_TOOL_DEFINITIONS :: 'w tool_registry) = Inr cat \<and>
    map entry_key (tcs_entries cat) = map tool_key (pol_allowed_tools (offline_policy_values c)) \<and>
    length (tcs_catalog_version cat) = 80 \<and> tcs_entry_count cat = 22 \<and>
    stable_checksum L (PTuple (map entry_dump (tcs_entries cat))) = Inr (tcs_catalog_checksum cat)"
proof -
  let ?R = "metadata_entries pyd CANONICAL_TOOL_DEFINITIONS :: 'w tool_registry"
  note ok = metadata_registry_ok [OF assms(2)]
  have ex: "\<exists>e. catalog_entry L m = Inr e" if "m \<in> set (registry_list ?R)" for m
  proof -
    from that obtain n t where m: "m = tool_metadata_of pyd n t"
      and mem: "(n, t) \<in> set CANONICAL_TOOL_DEFINITIONS"
      by (auto simp: registry_list_def metadata_entries_def metadata_registration_def)
    then show ?thesis
      using catalog_entry_total [OF assms(1,3)] canonical_entries_ok by (simp add: list_all_iff)
  qed
  obtain es where es: "fold_res (\<lambda>m es. bind_res (catalog_entry L m) (\<lambda>e. Inr (es @ [e])))
      (registry_list ?R) [] = Inr es"
    using fold_catalog_total [OF ex] by blast
  then have l2: "list_all2 entry_of (registry_list ?R) es"
    using fold_catalog_entries [OF es] by simp
  have keys: "map entry_key es = map tool_key (pol_allowed_tools (offline_policy_values c))"
    using entry_of_keys [OF l2] metadata_registry_is_offline_keys [OF assms(2)] by simp
  then have len: "length es = 22"
    by (metis (no_types) length_map offline_tool_count)
  obtain k where k: "stable_checksum L (PTuple (map entry_dump es)) = Inr k"
    using normalize_entries stable_checksum_total by blast
  have "valid_checksum k" by (rule stable_checksum_valid [OF assms(1) k])
  then have "build_tool_catalog_snapshot L ?R = Inr \<lparr>tcs_catalog_version = ''tool-catalog-v1:'' @ k,
      tcs_catalog_checksum = k, tcs_entry_count = length es, tcs_entries = es\<rparr>"
    using es k len by (simp add: build_tool_catalog_snapshot_def Let_def valid_checksum_def)
  with keys len k \<open>valid_checksum k\<close> show ?thesis
    by (auto simp: valid_checksum_def)
qed

section \<open>Properties\<close>

text \<open>
  C7. Authorization is deny-by-default. Against a catalog built from any registry, a step's Tool
  call is authorized exactly when the catalog and policy versions are those the run is bound to,
  the step belongs to the run, the step names a Tool and a version that the registry holds, the
  policy allows that pair and does not deny it, and the input has a canonical text. The authorized
  call then names a registered read-only Tool and carries the step's input and its checksum.
\<close>

theorem authorize_deny_by_default:
  assumes "build_tool_catalog_snapshot L (register_all pyd rs []) = Inr cat"
  shows "((\<exists>call. authorize L ctx step cat pol = Inr call) \<longleftrightarrow>
      ctx_tool_catalog_version ctx = tcs_catalog_version cat \<and>
      ctx_policy_version ctx = pol_version pol \<and> st_run_id step = ctx_run_id ctx \<and>
      (\<exists>n v. sd_tool_name (st_definition step) = Some n \<and>
         sd_tool_version (st_definition step) = Some v \<and>
         (n, v) \<in> set (map fst (register_all pyd rs [])) \<and>
         (n, v) \<in> set (map tool_key (pol_allowed_tools pol)) \<and>
         (n, v) \<notin> set (map tool_key (pol_denied_tools pol))) \<and>
      (\<exists>c. stable_checksum L (PDict (sd_input_binding (st_definition step))) = Inr c)) \<and>
    (\<forall>call. authorize L ctx step cat pol = Inr call \<longrightarrow>
      (\<exists>r. map_of (register_all pyd rs []) (ac_tool_name call, ac_tool_version call) = Some r \<and>
         approved r) \<and>
      ac_payload call = sd_input_binding (st_definition step) \<and>
      stable_checksum L (PDict (ac_payload call)) = Inr (ac_input_checksum call))"
    (is "(?lhs \<longleftrightarrow> ?rhs) \<and> ?registered")
proof (intro conjI)
  let ?R = "register_all pyd rs []"
  have ok: "registry_ok ?R" by (rule register_all_ok) simp
  note keys = built_catalog_keys(1) [OF assms ok]
  have reg: "(ac_tool_name call, ac_tool_version call) \<in> set (map fst ?R)"
    if "authorize L ctx step cat pol = Inr call" for call
    using authorize_Inr [OF that] keys by (metis image_eqI set_map)
  show "?lhs \<longleftrightarrow> ?rhs"
  proof
    assume ?lhs
    then obtain call where call: "authorize L ctx step cat pol = Inr call" by blast
    from authorize_Inr [OF call] reg [OF call] show ?rhs by auto
  next
    assume ?rhs
    then show ?lhs using authorize_ok [OF assms ok] by blast
  qed
  show ?registered
  proof (intro allI impI)
    fix call
    assume call: "authorize L ctx step cat pol = Inr call"
    from reg [OF call] obtain r where r: "map_of ?R (ac_tool_name call, ac_tool_version call) = Some r"
      using weak_map_of_SomeI by fastforce
    then have "approved r"
      using ok map_of_SomeD [OF r] by (auto simp: registry_ok_def list_all_iff)
    with r authorize_Inr [OF call]
    show "(\<exists>r. map_of ?R (ac_tool_name call, ac_tool_version call) = Some r \<and> approved r) \<and>
        ac_payload call = sd_input_binding (st_definition step) \<and>
        stable_checksum L (PDict (ac_payload call)) = Inr (ac_input_checksum call)"
      by blast
  qed
qed

text \<open>One registered Tool, its catalog, and a step of a run that calls it.\<close>

definition demo_registrations :: "unit tool_registration list" where
  "demo_registrations = map (\<lambda>(n, c). metadata_registration demo_pydantic n c)
     (filter (\<lambda>nc. fst nc = ''get_data_snapshot'') canonical_data_tools)"

definition demo_catalog :: "tool_catalog_snapshot res" where
  "demo_catalog = build_tool_catalog_snapshot demo_lib (register_all demo_pydantic demo_registrations [])"

definition demo_tool_step :: step_record where
  "demo_tool_step = \<lparr>st_id = ''s1'', st_run_id = ''r1'', st_plan_id = ''p1'', st_definition =
      \<lparr>sd_step_index = 1, sd_step_key = ''get_data_snapshot'', sd_step_type = LOAD_SNAPSHOT,
       sd_title = ''Get Data Snapshot'', sd_required = True, sd_dependency_keys = [],
       sd_tool_name = Some ''get_data_snapshot'', sd_tool_version = Some ''1.0.0'',
       sd_component_name = None, sd_input_binding = [], sd_fanout_limit = 1\<rparr>,
     st_status = Step_RUNNING, st_skip_reason_code = None, st_created_at = 0,
     st_updated_at = 0, st_terminal_at = None\<rparr>"

definition demo_context :: "string \<Rightarrow> run_context" where
  "demo_context catalog_version = \<lparr>ctx_security_id = ''sec'', ctx_snapshot_id = ''snap'',
     ctx_research_as_of_time = 1000, ctx_run_id = ''r1'', ctx_request_id = ''q1'',
     ctx_policy_version = CONTROLLED_OFFLINE_POLICY_VERSION,
     ctx_tool_catalog_version = catalog_version\<rparr>"

theorem authorize_deny_by_default_witness:
  "\<exists>cat. build_tool_catalog_snapshot demo_lib (register_all demo_pydantic demo_registrations []) = Inr cat \<and>
     (\<exists>call. authorize demo_lib (demo_context (tcs_catalog_version cat)) demo_tool_step cat
        (offline_policy_values []) = Inr call)"
proof -
  have built: "case demo_catalog of Inl _ \<Rightarrow> False | Inr cat \<Rightarrow>
      map fst (register_all demo_pydantic demo_registrations []) = [(''get_data_snapshot'', ''1.0.0'')]"
    by code_simp
  then obtain cat where cat: "build_tool_catalog_snapshot demo_lib
      (register_all demo_pydantic demo_registrations []) = Inr cat"
    and keys: "map fst (register_all demo_pydantic demo_registrations []) = [(''get_data_snapshot'', ''1.0.0'')]"
    by (auto simp: demo_catalog_def split: sum.splits)
  have allowed: "(''get_data_snapshot'', ''1.0.0'') \<in> set (map tool_key (pol_allowed_tools (offline_policy_values [])))"
    by code_simp
  have "\<exists>c. stable_checksum demo_lib (PDict (sd_input_binding (st_definition demo_tool_step))) = Inr c"
    by (simp add: demo_tool_step_def stable_checksum_def canonical_json_def)
  with authorize_deny_by_default [OF cat, of "demo_context (tcs_catalog_version cat)" demo_tool_step
      "offline_policy_values []"] allowed keys
  have "\<exists>call. authorize demo_lib (demo_context (tcs_catalog_version cat)) demo_tool_step cat
      (offline_policy_values []) = Inr call"
    by (simp add: demo_context_def demo_tool_step_def offline_policy_values_def)
  with cat show ?thesis by blast
qed

text \<open>
  The catalog of the metadata registry can always be built; its entries are exactly the Tools
  of the controlled-offline policy, in order, and its version is the prefix \<open>tool-catalog-v1:\<close>
  with the checksum of the entries, 80 characters long. (SHA-256 prints 64 hexadecimal digits; the
  schemas equal themselves and hold no binary float.)
\<close>

theorem offline_catalog_total:
  assumes "hexdigest_documented L" and "schemas_reflexive pyd" and "schemas_canonical pyd"
  shows "\<exists>(R :: 'w tool_registry) cat. create_tool_metadata_registry pyd = Inr R \<and>
    build_tool_catalog_snapshot L R = Inr cat \<and>
    map entry_key (tcs_entries cat) = map tool_key (pol_allowed_tools (offline_policy_values c)) \<and>
    length (tcs_catalog_version cat) = 80 \<and> tcs_entry_count cat = 22 \<and>
    stable_checksum L (PTuple (map entry_dump (tcs_entries cat))) = Inr (tcs_catalog_checksum cat)"
  using offline_catalog_built [OF assms] metadata_registry_total [OF assms(2)] by blast

lemma demo_schemas_canonical: "schemas_canonical demo_pydantic"
  by (simp add: schemas_canonical_def demo_pydantic_def)

theorem offline_catalog_total_witness:
  "hexdigest_documented demo_lib \<and> schemas_reflexive demo_pydantic \<and> schemas_canonical demo_pydantic \<and>
   (\<exists>(R :: unit tool_registry) cat. create_tool_metadata_registry demo_pydantic = Inr R \<and>
     build_tool_catalog_snapshot demo_lib R = Inr cat \<and> tcs_entry_count cat = 22)"
  using offline_catalog_total [OF demo_lib_hex demo_schemas_reflexive demo_schemas_canonical]
    demo_lib_hex demo_schemas_reflexive demo_schemas_canonical by blast

end
