(* ===== verification/Tool_Context.thy ===== *)
theory Tool_Context
  imports Tool_Policy
begin

text \<open>
  Binding of a Tool call to the immutable scope of its run, and the check that a Tool's output
  stays in that scope (\<open>domain/research_agent/tool_context.py\<close>). Unicode case folding is a
  function of the library argument \<open>L\<close>.
\<close>

section \<open>Reserved keys and Tool groups\<close>

definition CONTROLLED_KEYS :: "string list" where
  "CONTROLLED_KEYS =
     [''security_id'', ''snapshot_id'', ''research_as_of_time'', ''research_agent_run_id'',
      ''research_request_id'', ''policy_version'', ''tool_catalog_version'']"

definition FORBIDDEN_KEYS :: "string list" where
  "FORBIDDEN_KEYS =
     [''budget'', ''command'', ''env'', ''environment'', ''file'', ''file_path'', ''model'', ''path'',
      ''provider'', ''shell'', ''shell_command'', ''sql'', ''uri'', ''url'']"

definition SECURITY_AND_SNAPSHOT_TOOLS :: "string list" where
  "SECURITY_AND_SNAPSHOT_TOOLS =
     [''get_corporate_actions'', ''get_daily_price_history'', ''get_financial_metrics'',
      ''get_financial_periods'', ''get_latest_close'', ''get_metric_detail'',
      ''get_normalized_financial_facts'', ''get_reported_financial_facts'',
      ''get_source_document_metadata'', ''list_document_versions'', ''list_source_documents'',
      ''search_document_chunks'']"

definition SNAPSHOT_TOOLS :: "string list" where
  "SNAPSHOT_TOOLS = [''get_data_snapshot'', ''list_snapshot_items'', ''verify_citation'']"

definition context_reject :: "code \<Rightarrow> 'a res" where
  "context_reject c = Inl (ResearchToolContextError c)"

section \<open>Untrusted input\<close>

text \<open>Comparing a naive with an aware \<open>datetime\<close> raises \<open>TypeError\<close>.\<close>

fun validate_untrusted :: "pylib \<Rightarrow> run_context \<Rightarrow> pyval \<Rightarrow> unit res"
and validate_untrusted_items :: "pylib \<Rightarrow> run_context \<Rightarrow> (string \<times> pyval) list \<Rightarrow> unit res"
and validate_untrusted_list :: "pylib \<Rightarrow> run_context \<Rightarrow> pyval list \<Rightarrow> unit res" where
  "validate_untrusted L ctx (PDateTime t) =
     (if t > ctx_research_as_of_time ctx then context_reject ''FUTURE_DATA'' else Inr ())"
| "validate_untrusted L ctx (PNaive t) = Inl (TypeError ''NAIVE_DATETIME'')"
| "validate_untrusted L ctx (PDict kvs) = validate_untrusted_items L ctx kvs"
| "validate_untrusted L ctx (PList vs) = validate_untrusted_list L ctx vs"
| "validate_untrusted L ctx (PTuple vs) = validate_untrusted_list L ctx vs"
| "validate_untrusted L ctx _ = Inr ()"
| "validate_untrusted_items L ctx [] = Inr ()"
| "validate_untrusted_items L ctx ((k, v) # kvs) =
     (if lib_casefold L k \<in> set CONTROLLED_KEYS then context_reject ''CONTROLLED_CONTEXT_OVERRIDE''
      else if lib_casefold L k \<in> set FORBIDDEN_KEYS then context_reject ''FORBIDDEN_TOOL_ARGUMENT''
      else bind_res (validate_untrusted L ctx v) (\<lambda>_. validate_untrusted_items L ctx kvs))"
| "validate_untrusted_list L ctx [] = Inr ()"
| "validate_untrusted_list L ctx (v # vs) =
     bind_res (validate_untrusted L ctx v) (\<lambda>_. validate_untrusted_list L ctx vs)"

fun bind_arguments :: "payload \<Rightarrow> payload \<Rightarrow> payload res" where
  "bind_arguments bound [] = Inr bound"
| "bind_arguments bound ((k, v) # kvs) =
     (if k \<in> set (map fst bound) \<and> \<not> py_eq v (payload_get bound k)
      then context_reject ''PLAN_BINDING_EXPANSION''
      else bind_arguments (AList.update k v bound) kvs)"

definition bind_scope :: "run_context \<Rightarrow> string \<Rightarrow> payload \<Rightarrow> payload" where
  "bind_scope ctx tool bound =
     (if tool \<in> set SECURITY_AND_SNAPSHOT_TOOLS
      then AList.update ''snapshot_id'' (PUuid (ctx_snapshot_id ctx))
             (AList.update ''security_id'' (PUuid (ctx_security_id ctx)) bound)
      else if tool \<in> set SNAPSHOT_TOOLS
      then AList.update ''snapshot_id'' (PUuid (ctx_snapshot_id ctx)) bound
      else bound)"

definition bind_tool_input ::
  "pylib \<Rightarrow> run_context \<Rightarrow> authorized_call \<Rightarrow> payload \<Rightarrow> payload res" where
  "bind_tool_input L ctx call arguments =
     bind_res (validate_untrusted L ctx (PDict (ac_payload call))) (\<lambda>_.
     bind_res (validate_untrusted L ctx (PDict arguments)) (\<lambda>_.
     bind_res (bind_arguments (ac_payload call) arguments) (\<lambda>bound.
       Inr (bind_scope ctx (ac_tool_name call) bound))))"

section \<open>Output scope\<close>

definition check_result_item :: "run_context \<Rightarrow> bool \<Rightarrow> string \<Rightarrow> pyval \<Rightarrow> unit res" where
  "check_result_item ctx exact_snapshot_scope key item =
     (if key = ''security_id'' \<and> \<not> py_eq item (PUuid (ctx_security_id ctx))
      then context_reject ''SECURITY_SCOPE_MISMATCH''
      else if key = ''snapshot_id'' \<and> \<not> py_eq item (PUuid (ctx_snapshot_id ctx))
      then context_reject ''SNAPSHOT_SCOPE_MISMATCH''
      else if key = ''research_agent_run_id'' \<and> \<not> py_eq item (PUuid (ctx_run_id ctx))
      then context_reject ''RUN_SCOPE_MISMATCH''
      else if key = ''research_request_id'' \<and> \<not> py_eq item (PUuid (ctx_request_id ctx))
      then context_reject ''REQUEST_SCOPE_MISMATCH''
      else if key = ''research_as_of_time'' \<and>
              \<not> py_eq item (PDateTime (ctx_research_as_of_time ctx)) \<and> \<not> exact_snapshot_scope
      then context_reject ''AS_OF_SCOPE_MISMATCH''
      else if key = ''published_at''
      then (case item of
              PDateTime t \<Rightarrow> if t > ctx_research_as_of_time ctx then context_reject ''FUTURE_DATA'' else Inr ()
            | PNaive t \<Rightarrow> Inl (TypeError ''NAIVE_DATETIME'')
            | _ \<Rightarrow> Inr ())
      else Inr ())"

definition exact_snapshot :: "run_context \<Rightarrow> payload \<Rightarrow> bool" where
  "exact_snapshot ctx kvs \<longleftrightarrow>
     py_eq (payload_get kvs ''snapshot_id'') (PUuid (ctx_snapshot_id ctx)) \<and>
     payload_get kvs ''research_as_of_time'' = PNone"

fun validate_result :: "run_context \<Rightarrow> pyval \<Rightarrow> unit res"
and validate_result_items :: "run_context \<Rightarrow> bool \<Rightarrow> (string \<times> pyval) list \<Rightarrow> unit res"
and validate_result_list :: "run_context \<Rightarrow> pyval list \<Rightarrow> unit res" where
  "validate_result ctx (PDict kvs) = validate_result_items ctx (exact_snapshot ctx kvs) kvs"
| "validate_result ctx (PList vs) = validate_result_list ctx vs"
| "validate_result ctx (PTuple vs) = validate_result_list ctx vs"
| "validate_result ctx _ = Inr ()"
| "validate_result_items ctx ex [] = Inr ()"
| "validate_result_items ctx ex ((k, v) # kvs) =
     bind_res (check_result_item ctx ex k v) (\<lambda>_.
     bind_res (validate_result ctx v) (\<lambda>_. validate_result_items ctx ex kvs))"
| "validate_result_list ctx [] = Inr ()"
| "validate_result_list ctx (v # vs) =
     bind_res (validate_result ctx v) (\<lambda>_. validate_result_list ctx vs)"

definition validate_output_scope :: "run_context \<Rightarrow> pyval \<Rightarrow> unit res" where
  "validate_output_scope ctx result = validate_result ctx result"

section \<open>Nested values\<close>

text \<open>Every value inside a value, itself included.\<close>

fun subvalues :: "pyval \<Rightarrow> pyval set" where
  "subvalues (PDict kvs) = insert (PDict kvs) (\<Union>kv \<in> set kvs. subvalues (snd kv))"
| "subvalues (PList vs) = insert (PList vs) (\<Union>v \<in> set vs. subvalues v)"
| "subvalues (PTuple vs) = insert (PTuple vs) (\<Union>v \<in> set vs. subvalues v)"
| "subvalues v = {v}"

lemma subvalues_refl [simp]: "v \<in> subvalues v"
  by (cases v) auto

text \<open>What untrusted input may hold: no reserved key at any depth and no time after the as-of time.\<close>

definition trusted_key :: "pylib \<Rightarrow> string \<Rightarrow> bool" where
  "trusted_key L k \<longleftrightarrow> lib_casefold L k \<notin> set CONTROLLED_KEYS \<and> lib_casefold L k \<notin> set FORBIDDEN_KEYS"

definition trusted_value :: "pylib \<Rightarrow> run_context \<Rightarrow> pyval \<Rightarrow> bool" where
  "trusted_value L ctx v \<longleftrightarrow>
     (\<forall>x \<in> subvalues v.
        (\<forall>t. x = PDateTime t \<longrightarrow> t \<le> ctx_research_as_of_time ctx) \<and> (\<forall>t. x \<noteq> PNaive t) \<and>
        (\<forall>kvs. x = PDict kvs \<longrightarrow> (\<forall>kv \<in> set kvs. trusted_key L (fst kv))))"

lemma trusted_value_simps [simp]:
  "trusted_value L ctx (PDict kvs) \<longleftrightarrow>
     (\<forall>kv \<in> set kvs. trusted_key L (fst kv) \<and> trusted_value L ctx (snd kv))"
  "trusted_value L ctx (PList vs) \<longleftrightarrow> (\<forall>v \<in> set vs. trusted_value L ctx v)"
  "trusted_value L ctx (PTuple vs) \<longleftrightarrow> (\<forall>v \<in> set vs. trusted_value L ctx v)"
  "trusted_value L ctx (PDateTime t) \<longleftrightarrow> t \<le> ctx_research_as_of_time ctx"
  "\<not> trusted_value L ctx (PNaive t)"
  "trusted_value L ctx PNone" "trusted_value L ctx (PBool b)" "trusted_value L ctx (PInt i)"
  "trusted_value L ctx (PFloat r)" "trusted_value L ctx (PStr s)" "trusted_value L ctx (PDec d)"
  "trusted_value L ctx (PUuid u)" "trusted_value L ctx (PDate n)"
  by (simp_all add: trusted_value_def ball_Un ball_conj_distrib) blast

lemma validate_untrusted_iff:
  "validate_untrusted L ctx v = Inr () \<longleftrightarrow> trusted_value L ctx v"
  "validate_untrusted_items L ctx kvs = Inr () \<longleftrightarrow>
     (\<forall>kv \<in> set kvs. trusted_key L (fst kv) \<and> trusted_value L ctx (snd kv))"
  "validate_untrusted_list L ctx vs = Inr () \<longleftrightarrow> (\<forall>v \<in> set vs. trusted_value L ctx v)"
  by (induction L ctx v and L ctx kvs and L ctx vs
      rule: validate_untrusted_validate_untrusted_items_validate_untrusted_list.induct)
    (auto simp: context_reject_def trusted_key_def not_less)

text \<open>What a scoped output is: every nested dictionary agrees with the run's scope.\<close>

definition scoped_item :: "run_context \<Rightarrow> payload \<Rightarrow> string \<Rightarrow> pyval \<Rightarrow> bool" where
  "scoped_item ctx kvs k v \<longleftrightarrow>
     (k = ''security_id'' \<longrightarrow> v = PUuid (ctx_security_id ctx)) \<and>
     (k = ''snapshot_id'' \<longrightarrow> v = PUuid (ctx_snapshot_id ctx)) \<and>
     (k = ''research_agent_run_id'' \<longrightarrow> v = PUuid (ctx_run_id ctx)) \<and>
     (k = ''research_request_id'' \<longrightarrow> v = PUuid (ctx_request_id ctx)) \<and>
     (k = ''research_as_of_time'' \<longrightarrow> v = PDateTime (ctx_research_as_of_time ctx) \<or>
        (payload_get kvs ''snapshot_id'' = PUuid (ctx_snapshot_id ctx) \<and>
         payload_get kvs ''research_as_of_time'' = PNone)) \<and>
     (k = ''published_at'' \<longrightarrow>
        (\<forall>t. v = PDateTime t \<longrightarrow> t \<le> ctx_research_as_of_time ctx) \<and> (\<forall>t. v \<noteq> PNaive t))"

definition scoped_value :: "run_context \<Rightarrow> pyval \<Rightarrow> bool" where
  "scoped_value ctx v \<longleftrightarrow>
     (\<forall>kvs. PDict kvs \<in> subvalues v \<longrightarrow> (\<forall>kv \<in> set kvs. scoped_item ctx kvs (fst kv) (snd kv)))"

lemma py_eq_PUuid [simp]: "py_eq v (PUuid u) \<longleftrightarrow> v = PUuid u"
  by (cases v) auto

lemma py_eq_PDateTime [simp]: "py_eq v (PDateTime t) \<longleftrightarrow> v = PDateTime t"
  by (cases v) auto

lemma check_result_item_iff:
  "check_result_item ctx (exact_snapshot ctx kvs) k v = Inr () \<longleftrightarrow> scoped_item ctx kvs k v"
  unfolding check_result_item_def scoped_item_def exact_snapshot_def context_reject_def
  by (cases v) auto

lemma scoped_value_simps [simp]:
  "scoped_value ctx (PDict kvs) \<longleftrightarrow>
     (\<forall>kv \<in> set kvs. scoped_item ctx kvs (fst kv) (snd kv) \<and> scoped_value ctx (snd kv))"
  "scoped_value ctx (PList vs) \<longleftrightarrow> (\<forall>v \<in> set vs. scoped_value ctx v)"
  "scoped_value ctx (PTuple vs) \<longleftrightarrow> (\<forall>v \<in> set vs. scoped_value ctx v)"
  "scoped_value ctx (PDateTime t)" "scoped_value ctx (PNaive t)"
  "scoped_value ctx PNone" "scoped_value ctx (PBool b)" "scoped_value ctx (PInt i)"
  "scoped_value ctx (PFloat r)" "scoped_value ctx (PStr s)" "scoped_value ctx (PDec d)"
  "scoped_value ctx (PUuid u)" "scoped_value ctx (PDate n)"
  by (auto simp: scoped_value_def)

lemma validate_result_iff:
  "validate_result ctx v = Inr () \<longleftrightarrow> scoped_value ctx v"
  "validate_result_items ctx ex kvs = Inr () \<longleftrightarrow>
     (\<forall>kv \<in> set kvs. check_result_item ctx ex (fst kv) (snd kv) = Inr () \<and> scoped_value ctx (snd kv))"
  "validate_result_list ctx vs = Inr () \<longleftrightarrow> (\<forall>v \<in> set vs. scoped_value ctx v)"
  by (induction ctx v and ctx ex kvs and ctx vs
      rule: validate_result_validate_result_items_validate_result_list.induct)
    (auto simp: check_result_item_iff)

lemma validate_result_errors:
  "validate_result ctx v \<noteq> Inl (ResearchToolExecutionError code)"
  "validate_result_items ctx ex kvs \<noteq> Inl (ResearchToolExecutionError code)"
  "validate_result_list ctx vs \<noteq> Inl (ResearchToolExecutionError code)"
  by (induction ctx v and ctx ex kvs and ctx vs
      rule: validate_result_validate_result_items_validate_result_list.induct)
    (auto simp: bind_res_eq_Inl check_result_item_def context_reject_def
      split: if_splits pyval.splits)

section \<open>What binding keeps\<close>

lemma set_AList_update:
  "kv \<in> set (AList.update k v d) \<Longrightarrow> kv = (k, v) \<or> kv \<in> set d"
  by (induction d) (auto split: if_splits)

lemma bind_arguments_Inr:
  assumes "bind_arguments bound args = Inr out"
  shows "set out \<subseteq> set bound \<union> set args \<and> set (map fst bound) \<subseteq> set (map fst out) \<and>
    (\<forall>k. k \<notin> set (map fst args) \<longrightarrow> payload_get out k = payload_get bound k)"
  using assms
proof (induction bound args rule: bind_arguments.induct)
  case (2 bound k v kvs)
  then have rest: "bind_arguments (AList.update k v bound) kvs = Inr out"
    by (auto simp: context_reject_def split: if_splits)
  then have ih: "set out \<subseteq> set (AList.update k v bound) \<union> set kvs"
    "set (map fst (AList.update k v bound)) \<subseteq> set (map fst out)"
    "\<forall>j. j \<notin> set (map fst kvs) \<longrightarrow> payload_get out j = payload_get (AList.update k v bound) j"
    using 2 by (auto simp: context_reject_def split: if_splits)
  have "set (AList.update k v bound) \<subseteq> insert (k, v) (set bound)"
    using set_AList_update [of _ k v bound] by blast
  with ih(1) have "set out \<subseteq> set bound \<union> set ((k, v) # kvs)" by auto
  moreover have "set (map fst bound) \<subseteq> set (map fst (AList.update k v bound))"
    by (auto simp: update_keys)
  with ih(2) have "set (map fst bound) \<subseteq> set (map fst out)" by blast
  ultimately show ?case
    using ih(3) by (simp add: payload_get_def)
qed simp

text \<open>
  An argument can only repeat what the plan binds: when the arguments have distinct keys, every
  planned input keeps a value equal to the planned one.
\<close>

lemma bind_arguments_planned:
  assumes "bind_arguments bound args = Inr out" and "distinct (map fst args)"
    and "k \<in> set (map fst bound)"
  shows "payload_get out k = payload_get bound k \<or> py_eq (payload_get out k) (payload_get bound k)"
  using assms
proof (induction bound args rule: bind_arguments.induct)
  case (2 bound k' v kvs)
  then have rest: "bind_arguments (AList.update k' v bound) kvs = Inr out"
    and eq: "k' \<in> set (map fst bound) \<Longrightarrow> py_eq v (payload_get bound k')"
    by (auto simp: context_reject_def split: if_splits)
  show ?case
  proof (cases "k = k'")
    case True
    then have "payload_get out k = v"
      using bind_arguments_Inr [OF rest] "2.prems"(2) by (simp add: payload_get_def)
    with True eq "2.prems"(3) show ?thesis by auto
  next
    case False
    have "payload_get (AList.update k' v bound) k = payload_get bound k"
      using False by (simp add: payload_get_def)
    moreover have "payload_get out k = payload_get (AList.update k' v bound) k \<or>
        py_eq (payload_get out k) (payload_get (AList.update k' v bound) k)"
      by (rule "2.IH") (use 2 rest False in \<open>auto simp: update_keys context_reject_def split: if_splits\<close>)
    ultimately show ?thesis by simp
  qed
qed simp

lemma bind_scope_get:
  "payload_get (bind_scope ctx tool bound) k =
     (if k = ''snapshot_id'' \<and> tool \<in> set (SECURITY_AND_SNAPSHOT_TOOLS @ SNAPSHOT_TOOLS)
      then PUuid (ctx_snapshot_id ctx)
      else if k = ''security_id'' \<and> tool \<in> set SECURITY_AND_SNAPSHOT_TOOLS
      then PUuid (ctx_security_id ctx)
      else payload_get bound k)"
  by (simp add: bind_scope_def payload_get_def)

lemma bind_scope_subset:
  "kv \<in> set (bind_scope ctx tool bound) \<Longrightarrow>
   kv \<in> set bound \<or> kv = (''snapshot_id'', PUuid (ctx_snapshot_id ctx)) \<or>
   kv = (''security_id'', PUuid (ctx_security_id ctx))"
  by (auto simp: bind_scope_def split: if_splits dest!: set_AList_update)

lemma bind_tool_input_Inr:
  assumes "bind_tool_input L ctx call args = Inr bound"
  shows "\<exists>out. bind_arguments (ac_payload call) args = Inr out \<and>
    bound = bind_scope ctx (ac_tool_name call) out \<and>
    trusted_value L ctx (PDict (ac_payload call)) \<and> trusted_value L ctx (PDict args)"
  using assms by (auto simp: bind_tool_input_def simp flip: validate_untrusted_iff(1))

section \<open>Properties\<close>

text \<open>
  C11. A bound Tool input stays in the run's scope. Its \<open>snapshot_id\<close> and \<open>security_id\<close> are
  those of the run for the Tools that take them; every other entry comes from the plan or from the
  arguments, has a key that is neither controlled nor forbidden, at any depth and up to case
  folding, and holds no time after the as-of time; and no argument replaces a planned input by a
  different value.
\<close>

theorem bound_input_in_scope:
  assumes "bind_tool_input L ctx call args = Inr bound" and "distinct (map fst args)"
  shows "(ac_tool_name call \<in> set (SECURITY_AND_SNAPSHOT_TOOLS @ SNAPSHOT_TOOLS) \<longrightarrow>
       payload_get bound ''snapshot_id'' = PUuid (ctx_snapshot_id ctx)) \<and>
     (ac_tool_name call \<in> set SECURITY_AND_SNAPSHOT_TOOLS \<longrightarrow>
       payload_get bound ''security_id'' = PUuid (ctx_security_id ctx)) \<and>
     (\<forall>kv \<in> set bound.
        kv = (''snapshot_id'', PUuid (ctx_snapshot_id ctx)) \<or>
        kv = (''security_id'', PUuid (ctx_security_id ctx)) \<or>
        kv \<in> set (ac_payload call) \<union> set args \<and> trusted_key L (fst kv) \<and>
        trusted_value L ctx (snd kv)) \<and>
     (\<forall>k \<in> set (map fst (ac_payload call)). k \<noteq> ''snapshot_id'' \<longrightarrow> k \<noteq> ''security_id'' \<longrightarrow>
        payload_get bound k = payload_get (ac_payload call) k \<or>
        py_eq (payload_get bound k) (payload_get (ac_payload call) k))"
proof -
  from bind_tool_input_Inr [OF assms(1)] obtain out where
    out: "bind_arguments (ac_payload call) args = Inr out"
    and b: "bound = bind_scope ctx (ac_tool_name call) out"
    and tr: "trusted_value L ctx (PDict (ac_payload call))" "trusted_value L ctx (PDict args)" by blast
  have entry: "kv \<in> set (ac_payload call) \<union> set args \<and> trusted_key L (fst kv) \<and> trusted_value L ctx (snd kv)"
    if "kv \<in> set out" for kv
    using that bind_arguments_Inr [OF out] tr by auto
  have "kv = (''snapshot_id'', PUuid (ctx_snapshot_id ctx)) \<or>
        kv = (''security_id'', PUuid (ctx_security_id ctx)) \<or>
        kv \<in> set (ac_payload call) \<union> set args \<and> trusted_key L (fst kv) \<and> trusted_value L ctx (snd kv)"
    if "kv \<in> set bound" for kv
    using bind_scope_subset [of kv] that b entry by blast
  moreover have "payload_get bound k = payload_get (ac_payload call) k \<or>
      py_eq (payload_get bound k) (payload_get (ac_payload call) k)"
    if "k \<in> set (map fst (ac_payload call))" "k \<noteq> ''snapshot_id''" "k \<noteq> ''security_id''" for k
    using bind_arguments_planned [OF out assms(2) that(1)] that(2,3) b by (simp add: bind_scope_get)
  ultimately show ?thesis
    using b by (simp add: bind_scope_get)
qed

theorem bound_input_in_scope_witness:
  "\<exists>bound. bind_tool_input demo_lib (demo_context [])
      \<lparr>ac_tool_name = ''get_latest_close'', ac_tool_version = ''1.0.0'',
       ac_payload = [(''limit'', PInt 5)], ac_input_checksum = []\<rparr>
      [(''limit'', PInt 5), (''since'', PDateTime 999)] = Inr bound \<and>
    payload_get bound ''snapshot_id'' = PUuid ''snap''"
proof -
  let ?call = "\<lparr>ac_tool_name = ''get_latest_close'', ac_tool_version = ''1.0.0'',
       ac_payload = [(''limit'', PInt 5)], ac_input_checksum = []\<rparr>"
  let ?b = "[(''limit'', PInt 5), (''since'', PDateTime 999), (''security_id'', PUuid ''sec''),
     (''snapshot_id'', PUuid ''snap'')]"
  have run: "bind_tool_input demo_lib (demo_context []) ?call
      [(''limit'', PInt 5), (''since'', PDateTime 999)] = Inr ?b"
    by code_simp
  have tool: "ac_tool_name ?call \<in> set (SECURITY_AND_SNAPSHOT_TOOLS @ SNAPSHOT_TOOLS)"
    by (simp add: SECURITY_AND_SNAPSHOT_TOOLS_def)
  have "payload_get ?b ''snapshot_id'' = PUuid (ctx_snapshot_id (demo_context []))"
    using bound_input_in_scope [THEN conjunct1, OF run] tool by (simp only: list.map distinct.simps) simp
  with run show ?thesis by (auto simp: demo_context_def)
qed

text \<open>
  C12. An output passes the scope check exactly when, in every dictionary nested anywhere in it,
  the security, snapshot, run and request identifiers are those of the run, the as-of time is that
  of the run (or absent next to the run's exact snapshot), and no publication time is later than
  the as-of time.
\<close>

theorem output_scope_exact:
  "validate_output_scope ctx result = Inr () \<longleftrightarrow>
   (\<forall>kvs. PDict kvs \<in> subvalues result \<longrightarrow>
      (\<forall>kv \<in> set kvs. scoped_item ctx kvs (fst kv) (snd kv)))"
  by (simp add: validate_output_scope_def validate_result_iff scoped_value_def)

definition demo_output :: pyval where
  "demo_output = PDict [(''status'', PStr ''PASS''), (''snapshot_id'', PUuid ''snap''),
     (''records'', PList [PDict [(''published_at'', PDateTime 1001)]])]"

theorem output_scope_exact_witness:
  "validate_output_scope (demo_context []) demo_output = context_reject ''FUTURE_DATA'' \<and>
   \<not> (\<forall>kvs. PDict kvs \<in> subvalues demo_output \<longrightarrow>
      (\<forall>kv \<in> set kvs. scoped_item (demo_context []) kvs (fst kv) (snd kv)))"
proof -
  have run: "validate_output_scope (demo_context []) demo_output = context_reject ''FUTURE_DATA''"
    by code_simp
  then have "validate_output_scope (demo_context []) demo_output \<noteq> Inr ()"
    by (simp add: context_reject_def)
  with output_scope_exact [of "demo_context []" demo_output] run show ?thesis by blast
qed

end
