(* ===== verification/Invocations.thy ===== *)
theory Invocations
  imports Tool_Context
begin

text \<open>
  The redacted lifecycle records of Tool attempts (\<open>domain/research_agent/invocations.py\<close>) and the
  observations built from validated outputs (\<open>domain/research_agent/observations.py\<close>).
\<close>

section \<open>Redaction\<close>

definition MAX_INPUT_BYTES :: int where
  "MAX_INPUT_BYTES = 8192"

definition SENSITIVE_KEY_PARTS :: "string list" where
  "SENSITIVE_KEY_PARTS =
     [''api_key'', ''authorization'', ''cookie'', ''credential'', ''header'', ''password'', ''path'',
      ''secret'', ''token'']"

fun has_part :: "string \<Rightarrow> string \<Rightarrow> bool" where
  "has_part part [] = (part = [])"
| "has_part part (c # cs) = (take (length part) (c # cs) = part \<or> has_part part cs)"

definition sensitive_key :: "pylib \<Rightarrow> string \<Rightarrow> bool" where
  "sensitive_key L key =
     (let normalized = map (\<lambda>c. if c = CHR ''-'' then CHR ''_'' else c) (lib_casefold L key) in
      list_ex (\<lambda>part. has_part part normalized) SENSITIVE_KEY_PARTS)"

text \<open>
  The result dictionary is filled key by key; the keys of a dictionary are distinct, so each
  entry takes its own place.
\<close>

fun redact :: "pylib \<Rightarrow> pyval \<Rightarrow> pyval" where
  "redact L (PDict kvs) =
     PDict (map (\<lambda>kv. (fst kv, if sensitive_key L (fst kv) then PStr ''[REDACTED]'' else redact L (snd kv))) kvs)"
| "redact L (PList vs) = PList (map (redact L) vs)"
| "redact L (PTuple vs) = PList (map (redact L) vs)"
| "redact L v = v"

definition invocation_reject :: "code \<Rightarrow> 'a res" where
  "invocation_reject c = Inl (ResearchInvocationError c)"

definition redact_tool_payload :: "pylib \<Rightarrow> payload \<Rightarrow> payload res" where
  "redact_tool_payload L p =
     bind_res (canonical_json (PDict p)) (\<lambda>encoded.
       if int (length encoded) > MAX_INPUT_BYTES then invocation_reject ''INVOCATION_INPUT_TOO_LARGE''
       else bind_res (normalize (redact L (PDict p))) (\<lambda>j.
         case json_loads j of PDict d \<Rightarrow> Inr d | _ \<Rightarrow> invocation_reject ''INVALID_INVOCATION_INPUT''))"

section \<open>Start and completion\<close>

definition start_invocation ::
  "pylib \<Rightarrow> uuid \<Rightarrow> run_context \<Rightarrow> uuid \<Rightarrow> authorized_call \<Rightarrow> payload \<Rightarrow> nat \<Rightarrow> datetime \<Rightarrow>
   invocation_write res" where
  "start_invocation L iid ctx step_id call bound attempt started =
     (if attempt \<notin> {1, 2} then invocation_reject ''INVALID_ATTEMPT_NUMBER''
      else bind_res (redact_tool_payload L bound) (\<lambda>red.
        bind_res (stable_checksum L (PDict bound)) (\<lambda>c.
          Inr \<lparr>iw_id = iid, iw_run_id = ctx_run_id ctx, iw_step_id = step_id,
               iw_attempt_number = attempt, iw_tool_name = ac_tool_name call,
               iw_tool_version = ac_tool_version call, iw_status = Inv_RUNNING,
               iw_redacted_input = red, iw_input_checksum = c, iw_started_at = started\<rparr>)))"

definition terminal_invocation :: "invocation_status \<Rightarrow> bool" where
  "terminal_invocation s \<longleftrightarrow> s \<in> set [Inv_PASS, Inv_PARTIAL, Inv_BLOCKED, Inv_FAIL]"

text \<open>
  \<open>_safe_message\<close> on ASCII text: runs of control characters become a space, the words are
  joined by single spaces, and 256 characters are kept.
\<close>

fun split_words :: "string \<Rightarrow> string \<Rightarrow> string list" where
  "split_words w [] = (if w = [] then [] else [w])"
| "split_words w (c # cs) =
     (if c = CHR '' '' then (if w = [] then split_words [] cs else w # split_words [] cs)
      else split_words (w @ [c]) cs)"

fun join_words :: "string list \<Rightarrow> string" where
  "join_words [] = []"
| "join_words [w] = w"
| "join_words (w # ws) = w @ CHR '' '' # join_words ws"

definition control_char :: "char \<Rightarrow> bool" where
  "control_char c \<longleftrightarrow> c < CHR '' '' \<or> c = CHR 0x7F"

definition safe_message :: "string option \<Rightarrow> string option" where
  "safe_message m =
     map_option (\<lambda>s. take 256 (join_words (split_words []
       (map (\<lambda>c. if control_char c then CHR '' '' else c) s)))) m"

definition complete_invocation ::
  "pylib \<Rightarrow> invocation_write \<Rightarrow> invocation_status \<Rightarrow> datetime \<Rightarrow> pyval option \<Rightarrow> code option \<Rightarrow>
   string option \<Rightarrow> invocation_completion res" where
  "complete_invocation L invoc status completed output error_code message =
     (let successful = (status = Inv_PASS \<or> status = Inv_PARTIAL) in
      if \<not> terminal_invocation status then invocation_reject ''INVOCATION_NOT_TERMINAL''
      else if completed < iw_started_at invoc then invocation_reject ''INVALID_COMPLETION_TIME''
      else if successful \<and> (output = None \<or> error_code \<noteq> None)
      then invocation_reject ''INVALID_COMPLETION_SHAPE''
      else if \<not> successful \<and> (output \<noteq> None \<or> error_code = None)
      then invocation_reject ''INVALID_COMPLETION_SHAPE''
      else bind_res
        (case output of None \<Rightarrow> Inr None | Some v \<Rightarrow> bind_res (stable_checksum L v) (\<lambda>c. Inr (Some c)))
        (\<lambda>c. if \<not> valid_code_opt error_code then Inl ValidationError
          else Inr \<lparr>ic_status = status, ic_output_checksum = c, ic_error_code = error_code,
                    ic_safe_error_message = safe_message message, ic_completed_at = completed\<rparr>))"

text \<open>\<open>_invocation_record\<close>: the fields of the start, overwritten by those of the completion.\<close>

definition invocation_record_of :: "invocation_write \<Rightarrow> invocation_completion \<Rightarrow> invocation_record" where
  "invocation_record_of invoc completion =
     invocation_write.extend (invoc\<lparr>iw_status := ic_status completion\<rparr>)
       (invocation_record.fields (ic_output_checksum completion) (ic_error_code completion)
         (ic_safe_error_message completion) (Some (ic_completed_at completion)))"

section \<open>Observations\<close>

definition MAX_OBSERVATION_BYTES :: int where
  "MAX_OBSERVATION_BYTES = 262144"

definition observation_reject :: "code \<Rightarrow> 'a res" where
  "observation_reject c = Inl (ResearchObservationError c)"

definition valid_observation :: "version \<Rightarrow> payload \<Rightarrow> code list \<Rightarrow> bool" where
  "valid_observation schema_version p warnings \<longleftrightarrow>
     valid_version schema_version \<and> length warnings \<le> 100 \<and> list_all valid_code warnings \<and>
     (case canonical_json (PDict p) of Inl _ \<Rightarrow> False | Inr t \<Rightarrow> int (length t) \<le> MAX_OBSERVATION_BYTES)"

definition build_observation ::
  "pylib \<Rightarrow> uuid \<Rightarrow> run_context \<Rightarrow> uuid \<Rightarrow> uuid option \<Rightarrow> observation_type \<Rightarrow> observation_status \<Rightarrow>
   version \<Rightarrow> payload \<Rightarrow> synthetic_status \<Rightarrow> code list \<Rightarrow> datetime \<Rightarrow> observation res" where
  "build_observation L oid ctx step_id inv_id otype status schema_version p synthetic warnings created =
     (if otype = ObsT_TOOL_ERROR \<and> status \<noteq> Obs_FAIL
      then observation_reject ''INVALID_TOOL_ERROR_OBSERVATION''
      else if otype = ObsT_BLOCKED_CAPABILITY \<and>
              (status \<noteq> Obs_BLOCKED \<or> ''capability_code'' \<notin> set (map fst p))
      then observation_reject ''INVALID_BLOCKED_OBSERVATION''
      else case normalize (PDict p) of
        Inl _ \<Rightarrow> observation_reject ''INVALID_OBSERVATION_OUTPUT''
      | Inr j \<Rightarrow>
          if int (length (json_dumps j)) > MAX_OBSERVATION_BYTES
          then observation_reject ''OBSERVATION_OUTPUT_TOO_LARGE''
          else case json_loads j of
            PDict normalized \<Rightarrow>
              bind_res (stable_checksum L (PDict p)) (\<lambda>c.
                if valid_observation schema_version normalized warnings
                then Inr \<lparr>ob_id = oid, ob_run_id = ctx_run_id ctx, ob_research_step_id = step_id,
                          ob_invocation_id = inv_id, ob_observation_type = otype, ob_status = status,
                          ob_schema_version = schema_version, ob_payload = normalized,
                          ob_output_checksum = c, ob_security_id = ctx_security_id ctx,
                          ob_snapshot_id = ctx_snapshot_id ctx,
                          ob_research_as_of_time = ctx_research_as_of_time ctx,
                          ob_synthetic_status = synthetic, ob_warnings = warnings,
                          ob_created_at = created\<rparr>
                else observation_reject ''INVALID_OBSERVATION_OUTPUT'')
          | _ \<Rightarrow> observation_reject ''INVALID_OBSERVATION_OUTPUT'')"

section \<open>Canonical text is read back to the same canonical text\<close>

lemma insort_key_fst_map:
  "insort_key fst (fst x, f (snd x)) (map (\<lambda>p. (fst p, f (snd p))) xs) =
   map (\<lambda>p. (fst p, f (snd p))) (insort_key fst x xs)"
  by (induction xs) auto

lemma sort_key_fst_map:
  "sort_key fst (map (\<lambda>p. (fst p, f (snd p))) xs) = map (\<lambda>p. (fst p, f (snd p))) (sort_key fst xs)"
  by (induction xs) (simp_all add: insort_key_fst_map)

lemma sort_key_fst_idem [simp]: "sort_key fst (sort_key fst xs) = sort_key fst xs"
  by (simp add: sort_key_id_if_sorted)

fun sorted_json :: "json \<Rightarrow> json" where
  "sorted_json (JList js) = JList (map sorted_json js)"
| "sorted_json (JDict kjs) = JDict (sort_key fst (map (\<lambda>kj. (fst kj, sorted_json (snd kj))) kjs))"
| "sorted_json j = j"

lemma normalize_list_Inr:
  "(\<And>x. x \<in> set xs \<Longrightarrow> normalize (f x) = Inr (g x)) \<Longrightarrow> normalize_list (map f xs) = Inr (map g xs)"
  by (induction xs) auto

lemma normalize_items_Inr:
  "(\<And>x. x \<in> set xs \<Longrightarrow> normalize (f x) = Inr (g x)) \<Longrightarrow>
   normalize_items (map (\<lambda>x. (h x, f x)) xs) = Inr (map (\<lambda>x. (h x, g x)) xs)"
  by (induction xs) auto

lemma normalize_json_loads: "normalize (json_loads j) = Inr (sorted_json j)"
proof (induction j)
  case (JList js)
  then show ?case by (simp add: normalize_list_Inr)
next
  case (JDict kjs)
  have "normalize_items (map (\<lambda>p. (fst p, json_loads (snd p))) (sort_key fst kjs)) =
      Inr (map (\<lambda>p. (fst p, sorted_json (snd p))) (sort_key fst kjs))"
    by (rule normalize_items_Inr) (use JDict in \<open>force intro: prod_set_simps snds.intros\<close>)
  then show ?case by (simp add: sort_key_fst_map)
qed simp_all

lemma json_dumps_sorted: "json_dumps (sorted_json j) = json_dumps j"
proof (induction j)
  case (JList js)
  then show ?case by (simp add: comp_def cong: map_cong)
next
  case (JDict kjs)
  have "map (\<lambda>p. (fst p, json_dumps (sorted_json (snd p)))) (sort_key fst kjs) =
      map (\<lambda>p. (fst p, json_dumps (snd p))) (sort_key fst kjs)"
    using JDict by (auto intro: snds.intros)
  then show ?case
    using sort_key_fst_map [of "\<lambda>j. json_dumps (sorted_json j)" "sort_key fst kjs"]
      sort_key_fst_map [of json_dumps kjs] sort_key_fst_map [of sorted_json kjs]
    by (simp add: comp_def, intro arg_cong [where f = intersperse_comma] map_cong refl) simp
qed simp_all

lemma canonical_json_loads:
  "normalize v = Inr j \<Longrightarrow> canonical_json (json_loads j) = canonical_json v"
  by (simp add: canonical_json_def normalize_json_loads json_dumps_sorted)

section \<open>Canonical text does not depend on insertion order\<close>

lemma normalize_items_map:
  "normalize_items kvs = Inr js \<longleftrightarrow>
   (\<forall>kv \<in> set kvs. \<exists>j. normalize (snd kv) = Inr j) \<and>
   js = map (\<lambda>kv. (fst kv, projr (normalize (snd kv)))) kvs"
proof (induction kvs arbitrary: js)
  case (Cons kv kvs)
  show ?case
  proof (cases kv)
    case (Pair k v)
    then show ?thesis using Cons.IH by (cases "normalize v") auto
  qed
qed auto

lemma canonical_json_reorder:
  assumes "distinct (map fst d)" and "distinct (map fst e)" and "set d = set e"
    and "canonical_json (PDict d) = Inr s"
  shows "canonical_json (PDict e) = Inr s"
proof -
  let ?f = "\<lambda>kv. (fst kv, projr (normalize (snd kv)))"
  from assms(4) have ok: "\<forall>kv \<in> set d. \<exists>j. normalize (snd kv) = Inr j"
    and s: "s = json_dumps (JDict (map ?f d))"
    by (auto simp: canonical_json_def normalize_items_map)
  have "normalize_items e = Inr (map ?f e)"
    using ok assms(3) by (simp add: normalize_items_map)
  moreover have "sort_key fst (map (\<lambda>kj. (fst kj, json_dumps (snd kj))) (map ?f d)) =
      sort_key fst (map (\<lambda>kj. (fst kj, json_dumps (snd kj))) (map ?f e))"
    by (rule sort_key_fst_unique) (use assms in \<open>simp_all add: comp_def\<close>)
  ultimately show ?thesis using s by (simp add: canonical_json_def)
qed

section \<open>Redacted values\<close>

definition redacted_value :: "pylib \<Rightarrow> pyval \<Rightarrow> bool" where
  "redacted_value L v \<longleftrightarrow>
     (\<forall>d. PDict d \<in> subvalues v \<longrightarrow>
        (\<forall>kv \<in> set d. sensitive_key L (fst kv) \<longrightarrow> snd kv = PStr ''[REDACTED]''))"

lemma redacted_value_simps [simp]:
  "redacted_value L (PDict kvs) \<longleftrightarrow>
     (\<forall>kv \<in> set kvs. (sensitive_key L (fst kv) \<longrightarrow> snd kv = PStr ''[REDACTED]'') \<and> redacted_value L (snd kv))"
  "redacted_value L (PList vs) \<longleftrightarrow> (\<forall>v \<in> set vs. redacted_value L v)"
  "redacted_value L (PTuple vs) \<longleftrightarrow> (\<forall>v \<in> set vs. redacted_value L v)"
  "redacted_value L (PDateTime t)" "redacted_value L (PNaive t)"
  "redacted_value L PNone" "redacted_value L (PBool b)" "redacted_value L (PInt i)"
  "redacted_value L (PFloat r)" "redacted_value L (PStr s)" "redacted_value L (PDec dc)"
  "redacted_value L (PUuid u)" "redacted_value L (PDate n)"
  by (auto simp: redacted_value_def)

lemma redact_redacted: "redacted_value L (redact L v)"
  by (induction L v rule: redact.induct) (auto split: if_splits)

lemma normalize_redacted:
  "normalize v = Inr j \<Longrightarrow> redacted_value L v \<Longrightarrow> redacted_value L (json_loads j)"
  "normalize_list vs = Inr js \<Longrightarrow> \<forall>v \<in> set vs. redacted_value L v \<Longrightarrow>
     \<forall>j \<in> set js. redacted_value L (json_loads j)"
  "normalize_items kvs = Inr kjs \<Longrightarrow>
     \<forall>kv \<in> set kvs. (sensitive_key L (fst kv) \<longrightarrow> snd kv = PStr ''[REDACTED]'') \<and> redacted_value L (snd kv) \<Longrightarrow>
     \<forall>kj \<in> set kjs. (sensitive_key L (fst kj) \<longrightarrow> json_loads (snd kj) = PStr ''[REDACTED]'') \<and>
       redacted_value L (json_loads (snd kj))"
proof (induction v and vs and kvs arbitrary: j and js and kjs
    rule: normalize_normalize_list_normalize_items.induct)
  case (6 d)
  then show ?case by (cases d) auto
qed (auto; fastforce)+

lemma redact_tool_payload_Inr:
  assumes "redact_tool_payload L p = Inr d"
  shows "redacted_value L (PDict d)"
proof -
  from assms obtain j where j: "normalize (redact L (PDict p)) = Inr j"
    and d: "(case json_loads j of PDict d \<Rightarrow> Inr d | _ \<Rightarrow> invocation_reject ''INVALID_INVOCATION_INPUT'') = Inr d"
    by (auto simp: redact_tool_payload_def invocation_reject_def simp del: redact.simps normalize.simps
        split: if_splits)
  from d have "json_loads j = PDict d"
    by (cases "json_loads j") (simp_all add: invocation_reject_def)
  with normalize_redacted(1) [OF j redact_redacted] show ?thesis by simp
qed

section \<open>Properties\<close>


text \<open>
  The canonical text, and with it every checksum, does not depend on the order in which a
  dictionary was filled: two dictionaries with distinct keys and the same entries have the same
  canonical text, or neither has one.
\<close>

theorem canonical_json_order_independent:
  assumes "distinct (map fst d)" and "distinct (map fst e)" and "set d = set e"
  shows "canonical_json (PDict d) = Inr s \<longleftrightarrow> canonical_json (PDict e) = Inr s"
  using canonical_json_reorder [OF assms] canonical_json_reorder [OF assms(2,1) assms(3) [symmetric]]
  by blast

theorem canonical_json_order_independent_witness:
  "canonical_json (PDict [(''b'', PInt 1), (''a'', PDec (DFinite False 150 (-2)))]) =
   canonical_json (PDict [(''a'', PDec (DFinite False 150 (-2))), (''b'', PInt 1)])"
proof -
  obtain s where s: "canonical_json (PDict [(''b'', PInt 1), (''a'', PDec (DFinite False 150 (-2)))]) = Inr s"
    by (simp add: canonical_json_def)
  then have "canonical_json (PDict [(''a'', PDec (DFinite False 150 (-2))), (''b'', PInt 1)]) = Inr s"
    by (subst canonical_json_order_independent [symmetric,
          of "[(''b'', PInt 1), (''a'', PDec (DFinite False 150 (-2)))]"]) auto
  with s show ?thesis by simp
qed

text \<open>
  C14. What an invocation stores is redacted: in every dictionary nested anywhere in the stored
  input, the value of a key that, folded to lower case, contains a sensitive part is the marker.
  The stored checksum is that of the input before redaction.
\<close>

theorem stored_input_redacted:
  assumes "start_invocation L iid ctx step_id call bound attempt started = Inr invoc"
    and "PDict d \<in> subvalues (PDict (iw_redacted_input invoc))" and "(k, v) \<in> set d"
    and "sensitive_key L k"
  shows "v = PStr ''[REDACTED]'' \<and> stable_checksum L (PDict bound) = Inr (iw_input_checksum invoc)"
proof -
  from assms(1) have "redact_tool_payload L bound = Inr (iw_redacted_input invoc)"
    and c: "stable_checksum L (PDict bound) = Inr (iw_input_checksum invoc)"
    by (auto simp: start_invocation_def invocation_reject_def split: if_splits)
  from redact_tool_payload_Inr [OF this(1)] assms(2-4) c show ?thesis
    unfolding redacted_value_def by fastforce
qed

definition demo_call :: authorized_call where
  "demo_call = \<lparr>ac_tool_name = ''get_data_snapshot'', ac_tool_version = ''1.0.0'', ac_payload = [],
     ac_input_checksum = []\<rparr>"

lemma demo_redaction_run:
  "\<exists>v invoc. start_invocation demo_lib ''i'' (demo_context []) ''s'' demo_call
      [(''nested'', PList [PDict [(''X-API-Key'', PStr ''k'')]])] 1 0 = Inr invoc \<and>
    iw_redacted_input invoc = [(''nested'', PList [PDict [(''X-API-Key'', v)]])]"
proof -
  have "case start_invocation demo_lib ''i'' (demo_context []) ''s'' demo_call
      [(''nested'', PList [PDict [(''X-API-Key'', PStr ''k'')]])] 1 0 of
    Inl _ \<Rightarrow> False
  | Inr invoc \<Rightarrow> iw_redacted_input invoc = [(''nested'', PList [PDict [(''X-API-Key'', PStr ''[REDACTED]'')]])]"
    by code_simp
  then show ?thesis by (auto split: sum.splits)
qed

theorem stored_input_redacted_witness:
  "\<exists>invoc. start_invocation demo_lib ''i'' (demo_context []) ''s'' demo_call
      [(''nested'', PList [PDict [(''X-API-Key'', PStr ''k'')]])] 1 0 = Inr invoc \<and>
    iw_redacted_input invoc = [(''nested'', PList [PDict [(''X-API-Key'', PStr ''[REDACTED]'')]])]"
proof -
  let ?b = "[(''nested'', PList [PDict [(''X-API-Key'', PStr ''k'')]])]"
  have key: "sensitive_key demo_lib ''X-API-Key''" by code_simp
  obtain v invoc where run: "start_invocation demo_lib ''i'' (demo_context []) ''s'' demo_call ?b 1 0 = Inr invoc"
    and shape: "iw_redacted_input invoc = [(''nested'', PList [PDict [(''X-API-Key'', v)]])]"
    using demo_redaction_run by blast
  have "PDict [(''X-API-Key'', v)] \<in> subvalues (PDict (iw_redacted_input invoc))"
    using shape by simp
  then have "v = PStr ''[REDACTED]''"
    using stored_input_redacted [OF run _ _ key, of _ v] by simp
  with run shape show ?thesis by blast
qed

end
