(* ===== verification/Run_Budgets.thy ===== *)
theory Run_Budgets
  imports Research_Policies
begin

text \<open>
  Hard cumulative execution budgets (\<open>domain/research_agent/budgets.py\<close>) and the budget a run
  starts with (\<open>cli_agent._budget\<close>). The invariant \<open>budget_ok\<close> says that the counters agree
  with each other and stay within their limits; every operation keeps it or raises.
\<close>

section \<open>Operations\<close>

definition consume_step :: "run_budget \<Rightarrow> run_budget res" where
  "consume_step b =
     (if bud_consumed_steps b \<ge> bud_max_steps b
      then Inl (ResearchBudgetError ''STEP_BUDGET_EXCEEDED'')
      else Inr (b\<lparr>bud_consumed_steps := bud_consumed_steps b + 1\<rparr>))"

definition consume_tool_call :: "run_budget \<Rightarrow> string \<Rightarrow> run_budget res" where
  "consume_tool_call b tool =
     (if bud_consumed_tool_calls b \<ge> bud_max_tool_calls b
      then Inl (ResearchBudgetError ''TOOL_CALL_BUDGET_EXCEEDED'')
      else
        let current = dict_get (bud_calls_per_tool b) tool 0 in
        if current \<ge> bud_max_calls_per_tool b
        then Inl (ResearchBudgetError ''TOOL_LIMIT_EXCEEDED'')
        else Inr (b\<lparr>bud_consumed_tool_calls := bud_consumed_tool_calls b + 1,
                    bud_calls_per_tool := AList.update tool (current + 1) (bud_calls_per_tool b)\<rparr>))"

definition consume_retry :: "run_budget \<Rightarrow> string \<Rightarrow> run_budget res" where
  "consume_retry b step_key =
     (let current = dict_get (bud_retries_per_step b) step_key 0 in
      if current \<ge> bud_max_retries_per_step b
      then Inl (ResearchBudgetError ''RETRY_BUDGET_EXCEEDED'')
      else Inr (b\<lparr>bud_retries_per_step :=
                     AList.update step_key (current + 1) (bud_retries_per_step b)\<rparr>))"

text \<open>Ordering a NaN raises \<open>InvalidOperation\<close>.\<close>

definition dec_gt_int :: "decimal \<Rightarrow> int \<Rightarrow> bool res" where
  "dec_gt_int d n =
     (case d of DFinite s c e \<Rightarrow> Inr (dec_scaled s c e (min e 0) > n * 10 ^ nat (- min e 0))
      | DInf s \<Rightarrow> Inr (\<not> s) | DNaN \<Rightarrow> Inl InvalidOperation | DSNaN \<Rightarrow> Inl InvalidOperation)"

definition ensure_duration :: "run_budget \<Rightarrow> decimal \<Rightarrow> unit res" where
  "ensure_duration b elapsed =
     bind_res (dec_gt_int elapsed (int (bud_max_duration_seconds b))) (\<lambda>late.
       if late then Inl (ResearchBudgetError ''DURATION_BUDGET_EXCEEDED'') else Inr ())"

definition consume_model_tokens :: "run_budget \<Rightarrow> int \<Rightarrow> run_budget res" where
  "consume_model_tokens b token_count =
     (if token_count \<noteq> 0 \<or> bud_model_token_budget b = 0
      then Inl (ResearchBudgetError ''MODEL_BUDGET_UNAVAILABLE'') else Inr b)"

definition initial_budget :: "research_policy \<Rightarrow> run_budget" where
  "initial_budget p =
     \<lparr>bud_max_steps = pol_max_steps p, bud_max_tool_calls = pol_max_tool_calls p,
      bud_max_calls_per_tool = pol_max_calls_per_tool p,
      bud_max_retries_per_step = pol_max_retries_per_step p,
      bud_max_duration_seconds = pol_max_duration_seconds p, bud_model_token_budget = 0,
      bud_consumed_steps = 0, bud_consumed_tool_calls = 0, bud_consumed_model_tokens = 0,
      bud_elapsed_seconds = DFinite False 0 0, bud_calls_per_tool = [],
      bud_retries_per_step = []\<rparr>"

section \<open>The invariant\<close>

definition budget_ok :: "run_budget \<Rightarrow> bool" where
  "budget_ok b \<longleftrightarrow>
     bud_consumed_steps b \<le> bud_max_steps b \<and>
     bud_consumed_tool_calls b \<le> bud_max_tool_calls b \<and>
     well_formed_dict (bud_calls_per_tool b) \<and> well_formed_dict (bud_retries_per_step b) \<and>
     dict_total (bud_calls_per_tool b) = bud_consumed_tool_calls b \<and>
     list_all (\<lambda>kv. snd kv \<le> bud_max_calls_per_tool b) (bud_calls_per_tool b) \<and>
     list_all (\<lambda>kv. snd kv \<le> bud_max_retries_per_step b) (bud_retries_per_step b)"

definition same_limits :: "run_budget \<Rightarrow> run_budget \<Rightarrow> bool" where
  "same_limits b c \<longleftrightarrow>
     bud_max_steps c = bud_max_steps b \<and> bud_max_tool_calls c = bud_max_tool_calls b \<and>
     bud_max_calls_per_tool c = bud_max_calls_per_tool b \<and>
     bud_max_retries_per_step c = bud_max_retries_per_step b \<and>
     bud_max_duration_seconds c = bud_max_duration_seconds b \<and>
     bud_model_token_budget c = bud_model_token_budget b"

lemma same_limits_refl [simp]: "same_limits b b"
  by (simp add: same_limits_def)

lemma same_limits_trans: "same_limits a b \<Longrightarrow> same_limits b c \<Longrightarrow> same_limits a c"
  by (simp add: same_limits_def)

lemma list_all_update:
  "list_all (\<lambda>kv. snd kv \<le> m) d \<Longrightarrow> n \<le> m \<Longrightarrow> list_all (\<lambda>kv. snd kv \<le> m) (AList.update k n d)"
  by (induction d) auto

lemma initial_budget_ok: "budget_ok (initial_budget p)"
  by (simp add: budget_ok_def initial_budget_def well_formed_dict_def dict_total_def)

lemma consume_tool_call_ok:
  assumes "budget_ok b" and "consume_tool_call b tool = Inr c"
  shows "budget_ok c \<and> same_limits b c \<and>
    bud_consumed_tool_calls c = bud_consumed_tool_calls b + 1 \<and>
    bud_consumed_tool_calls c \<le> bud_max_tool_calls c \<and>
    dict_get (bud_calls_per_tool c) tool 0 = dict_get (bud_calls_per_tool b) tool 0 + 1 \<and>
    bud_consumed_steps c = bud_consumed_steps b \<and>
    bud_retries_per_step c = bud_retries_per_step b"
  using assms dict_total_update [of "bud_calls_per_tool b" tool 1]
  by (auto simp: consume_tool_call_def budget_ok_def same_limits_def Let_def
      intro!: list_all_update split: if_splits)

lemma consume_retry_ok:
  assumes "budget_ok b" and "consume_retry b k = Inr c"
  shows "budget_ok c \<and> same_limits b c \<and>
    bud_consumed_tool_calls c = bud_consumed_tool_calls b \<and>
    bud_consumed_steps c = bud_consumed_steps b \<and>
    bud_calls_per_tool c = bud_calls_per_tool b \<and>
    dict_get (bud_retries_per_step c) k 0 = dict_get (bud_retries_per_step b) k 0 + 1"
  using assms
  by (auto simp: consume_retry_def budget_ok_def same_limits_def Let_def
      intro!: list_all_update split: if_splits)

lemma consume_step_ok:
  assumes "budget_ok b" and "consume_step b = Inr c"
  shows "budget_ok c \<and> same_limits b c \<and> bud_consumed_steps c = bud_consumed_steps b + 1"
  using assms by (auto simp: consume_step_def budget_ok_def same_limits_def split: if_splits)

section \<open>Sequences of operations\<close>

datatype budget_op = OpStep | OpToolCall string | OpRetry string | OpModelTokens int

fun apply_budget_op :: "budget_op \<Rightarrow> run_budget \<Rightarrow> run_budget res" where
  "apply_budget_op OpStep b = consume_step b"
| "apply_budget_op (OpToolCall t) b = consume_tool_call b t"
| "apply_budget_op (OpRetry k) b = consume_retry b k"
| "apply_budget_op (OpModelTokens n) b = consume_model_tokens b n"

lemma apply_budget_op_ok:
  assumes "budget_ok b" and "apply_budget_op op b = Inr c"
  shows "budget_ok c \<and> same_limits b c"
proof (cases op)
  case OpStep
  with assms show ?thesis using consume_step_ok [of b c] by simp
next
  case (OpToolCall t)
  with assms show ?thesis using consume_tool_call_ok [of b t c] by simp
next
  case (OpRetry k)
  with assms show ?thesis using consume_retry_ok [of b k c] by simp
next
  case (OpModelTokens n)
  with assms show ?thesis by (auto simp: consume_model_tokens_def split: if_splits)
qed

text \<open>
  C4. Budgets are hard: whatever sequence of step, Tool call, retry and model-token requests a run
  makes against the budget its policy gives it, the limits never change and the counters never
  pass them; the per-Tool counters add up to the number of Tool calls, and no Tool and no step
  exceeds its own limit.
\<close>

theorem budget_never_exceeded:
  assumes "fold_res apply_budget_op ops (initial_budget p) = Inr b"
  shows "bud_consumed_steps b \<le> pol_max_steps p \<and>
    bud_consumed_tool_calls b \<le> pol_max_tool_calls p \<and>
    dict_total (bud_calls_per_tool b) = bud_consumed_tool_calls b \<and>
    dict_get (bud_calls_per_tool b) tool 0 \<le> pol_max_calls_per_tool p \<and>
    dict_get (bud_retries_per_step b) key 0 \<le> pol_max_retries_per_step p"
proof -
  have get_le: "dict_get d k 0 \<le> m" if "list_all (\<lambda>kv. snd kv \<le> m) d"
    for d :: "(string, nat) dict" and k m
    using that by (force simp: dict_get_def list_all_iff dest: map_of_SomeD split: option.splits)
  have "budget_ok b \<and> same_limits (initial_budget p) b"
    using fold_res_invariant [where I = "\<lambda>b. budget_ok b \<and> same_limits (initial_budget p) b",
        OF assms] initial_budget_ok apply_budget_op_ok same_limits_trans
    by (metis same_limits_refl)
  then have ok: "budget_ok b" and lim: "bud_max_steps b = pol_max_steps p"
      "bud_max_tool_calls b = pol_max_tool_calls p"
      "bud_max_calls_per_tool b = pol_max_calls_per_tool p"
      "bud_max_retries_per_step b = pol_max_retries_per_step p"
    by (simp_all add: same_limits_def initial_budget_def)
  from ok lim get_le show ?thesis by (simp add: budget_ok_def)
qed

definition demo_budget_ops :: "budget_op list" where
  "demo_budget_ops =
     [OpStep, OpToolCall ''get_data_snapshot'', OpRetry ''get_data_snapshot'',
      OpToolCall ''get_data_snapshot'']"

theorem budget_never_exceeded_witness:
  "\<exists>b. fold_res apply_budget_op demo_budget_ops (initial_budget (offline_policy_values [])) = Inr b \<and>
     bud_consumed_tool_calls b = 2 \<and> dict_get (bud_calls_per_tool b) ''get_data_snapshot'' 0 \<le> 5"
proof -
  let ?b = "(initial_budget (offline_policy_values []))\<lparr>bud_consumed_steps := 1, bud_consumed_tool_calls := 2,
     bud_calls_per_tool := [(''get_data_snapshot'', 2)], bud_retries_per_step := [(''get_data_snapshot'', 1)]\<rparr>"
  have run: "fold_res apply_budget_op demo_budget_ops (initial_budget (offline_policy_values [])) = Inr ?b"
    by (simp add: demo_budget_ops_def consume_step_def consume_tool_call_def consume_retry_def
        initial_budget_def offline_policy_values_def dict_get_def)
  from budget_never_exceeded [OF run, of "''get_data_snapshot''"] run show ?thesis
    by (auto simp: offline_policy_values_def)
qed

end
