(* ===== verification/Tool_Execution.thy ===== *)
theory Tool_Execution
  imports Invocations Run_Budgets
begin

text \<open>
  The finite, policy-gated execution of one Tool step
  (\<open>domain/research_agent/tool_execution.py\<close>). The Tool registry is the port \<open>ToolInvoker\<close>:
  a function on the outside world \<open>'w\<close>. The executor's lemmas hold for every such function; what
  holds when the port keeps the contract of the registry is proved in the locale
  \<open>tool_invoker\<close>, which is interpreted on \<open>execute\<close> of \<open>Tool_Registry\<close>.
\<close>

section \<open>The executor\<close>

type_synonym 'w invoker = "'w \<Rightarrow> string \<Rightarrow> string \<Rightarrow> payload \<Rightarrow> pyval res \<times> 'w"

definition BLOCKED_CODES :: "code list" where
  "BLOCKED_CODES =
     [''BLOCKED'', ''FUTURE_DATA'', ''INVALID_CITATION'', ''INVALID_QUERY'', ''NOT_FOUND'',
      ''PERMISSION_DENIED'', ''SCHEMA_ERROR'']"

fun registry_error_code :: "tool_error_code \<Rightarrow> code" where
  "registry_error_code INVALID_INPUT = ''SCHEMA_ERROR''"
| "registry_error_code INVALID_OUTPUT = ''SCHEMA_ERROR''"
| "registry_error_code TOOL_NOT_FOUND = ''PERMISSION_DENIED''"
| "registry_error_code _ = ''TOOL_EXECUTION_FAILED''"

text \<open>\<open>ObservationStatus(str(value))\<close>, or \<open>PASS\<close> when the text names no status.\<close>

definition observation_status_of :: "pyval \<Rightarrow> observation_status" where
  "observation_status_of v =
     (if v = PStr ''PARTIAL'' then Obs_PARTIAL else if v = PStr ''BLOCKED'' then Obs_BLOCKED
      else if v = PStr ''FAIL'' then Obs_FAIL else Obs_PASS)"

record tool_call_args =
  tc_context :: run_context
  tc_step :: step_record
  tc_call :: authorized_call
  tc_bound :: payload
  tc_observation_type :: observation_type
  tc_synthetic_status :: synthetic_status

definition failed_result ::
  "pylib \<Rightarrow> invocation_write \<Rightarrow> run_budget \<Rightarrow> code \<Rightarrow> env \<Rightarrow> tool_execution_result res \<times> env" where
  "failed_result L invoc budget error_code w =
     (let blocked = error_code \<in> set BLOCKED_CODES;
          status = (if blocked then Inv_BLOCKED else Inv_FAIL);
          (t, w1) = next_now w in
      (bind_res (complete_invocation L invoc status t None (Some error_code) (Some error_code))
         (\<lambda>c. Inr \<lparr>ter_status = (if blocked then Obs_BLOCKED else Obs_FAIL),
                  ter_invocation = invocation_record_of invoc c, ter_observation = None,
                  ter_budget = budget, ter_retryable = False\<rparr>), w1))"

definition passed_result ::
  "pylib \<Rightarrow> tool_call_args \<Rightarrow> invocation_write \<Rightarrow> run_budget \<Rightarrow> pyval \<Rightarrow> env \<Rightarrow>
   tool_execution_result res \<times> env" where
  "passed_result L A invoc budget output w =
     (case output of
        PDict payload \<Rightarrow>
          (let status = observation_status_of (payload_get payload ''status'');
               (t, w1) = next_now w in
           case complete_invocation L invoc Inv_PASS t (Some (PDict payload)) None None of
             Inl e \<Rightarrow> (Inl e, w1)
           | Inr c \<Rightarrow>
               (let rec = invocation_record_of invoc c; (oid, w2) = next_id w1; (t2, w3) = next_now w2 in
                (bind_res (build_observation L oid (tc_context A) (st_id (tc_step A)) (Some (iw_id rec))
                     (tc_observation_type A) status ''observation-v1'' payload
                     (tc_synthetic_status A) [] t2)
                   (\<lambda>ob. Inr \<lparr>ter_status = status, ter_invocation = rec, ter_observation = Some ob,
                             ter_budget = budget, ter_retryable = False\<rparr>), w3)))
      | _ \<Rightarrow> (Inl (TypeError ''MODEL_DUMP''), w))"

text \<open>The call of the registry and the check of the output, inside the \<open>try\<close>.\<close>

definition call_tool :: "'w invoker \<Rightarrow> tool_call_args \<Rightarrow> 'w \<Rightarrow> pyval res \<times> 'w" where
  "call_tool invoke A u =
     (case invoke u (ac_tool_name (tc_call A)) (ac_tool_version (tc_call A)) (tc_bound A) of
        (r, u') \<Rightarrow> (bind_res r (\<lambda>output.
           bind_res (validate_output_scope (tc_context A) output) (\<lambda>_. Inr output)), u'))"

text \<open>The budget of a retry; the budget to report when a part of it is refused.\<close>

definition retry_budget :: "run_budget \<Rightarrow> string \<Rightarrow> string \<Rightarrow> (run_budget \<times> code) + run_budget" where
  "retry_budget b step_key tool =
     (case consume_retry b step_key of
        Inl (ResearchBudgetError c) \<Rightarrow> Inl (b, c)
      | Inl _ \<Rightarrow> Inl (b, [])
      | Inr b1 \<Rightarrow>
         (case consume_tool_call b1 tool of
            Inl (ResearchBudgetError c) \<Rightarrow> Inl (b1, c)
          | Inl _ \<Rightarrow> Inl (b1, [])
          | Inr b2 \<Rightarrow> Inr b2))"

function tool_attempts ::
  "pylib \<Rightarrow> 'w invoker \<Rightarrow> tool_call_args \<Rightarrow> nat \<Rightarrow> run_budget \<Rightarrow> 'w \<Rightarrow> env \<Rightarrow>
   tool_execution_result res \<times> 'w \<times> env" where
  "tool_attempts L invoke A attempt b u w =
     (let (started, w1) = next_now w; (iid, w2) = next_id w1 in
      case start_invocation L iid (tc_context A) (st_id (tc_step A)) (tc_call A) (tc_bound A)
             attempt started of
        Inl e \<Rightarrow> (Inl e, u, w2)
      | Inr invoc \<Rightarrow>
          (let (result, u1) = call_tool invoke A u;
               fail = (\<lambda>budget code. let (r, w3) = failed_result L invoc budget code w2 in (r, u1, w3)) in
           case result of
             Inr output \<Rightarrow> (let (r, w3) = passed_result L A invoc b output w2 in (r, u1, w3))
           | Inl (ResearchToolExecutionError code) \<Rightarrow>
               if code = ''TRANSIENT_INTERNAL'' \<and> attempt = 1
               then (case retry_budget b (sd_step_key (st_definition (tc_step A)))
                       (ac_tool_name (tc_call A)) of
                       Inl (b', c) \<Rightarrow> fail b' c
                     | Inr b' \<Rightarrow> tool_attempts L invoke A 2 b' u1 w2)
               else fail b code
           | Inl (ToolRegistryError c) \<Rightarrow> fail b (registry_error_code c)
           | Inl (ResearchToolContextError code) \<Rightarrow> fail b code
           | Inl e \<Rightarrow> (Inl e, u1, w2)))"
  by pat_completeness auto
termination
  by (relation "measure (\<lambda>(_, _, _, attempt, _). 2 - attempt)") auto

definition execute_tool ::
  "pylib \<Rightarrow> 'w invoker \<Rightarrow> run_context \<Rightarrow> step_record \<Rightarrow> tool_catalog_snapshot \<Rightarrow> research_policy \<Rightarrow>
   run_budget \<Rightarrow> payload \<Rightarrow> observation_type \<Rightarrow> synthetic_status \<Rightarrow> 'w \<Rightarrow> env \<Rightarrow>
   tool_execution_result res \<times> 'w \<times> env" where
  "execute_tool L invoke ctx step catalog policy budget arguments otype synthetic u w =
     (case bind_res (authorize L ctx step catalog policy) (\<lambda>call.
             bind_res (bind_tool_input L ctx call arguments) (\<lambda>bound.
               bind_res (consume_tool_call budget (ac_tool_name call)) (\<lambda>b. Inr (call, bound, b)))) of
        Inl (ResearchBudgetError c) \<Rightarrow> (Inl (ResearchToolExecutionError c), u, w)
      | Inl (ResearchToolAuthorizationError c) \<Rightarrow> (Inl (ResearchToolExecutionError c), u, w)
      | Inl (ResearchToolContextError c) \<Rightarrow> (Inl (ResearchToolExecutionError c), u, w)
      | Inl e \<Rightarrow> (Inl e, u, w)
      | Inr (call, bound, b) \<Rightarrow>
          tool_attempts L invoke
            \<lparr>tc_context = ctx, tc_step = step, tc_call = call, tc_bound = bound,
             tc_observation_type = otype, tc_synthetic_status = synthetic\<rparr> 1 b u w)"

declare tool_attempts.simps [simp del]

section \<open>Counting the calls\<close>

definition counted :: "'w invoker \<Rightarrow> ('w \<times> nat) invoker" where
  "counted invoke = (\<lambda>(u, n) name version p.
     case invoke u name version p of (r, u') \<Rightarrow> (r, (u', Suc n)))"

lemma call_tool_counted:
  "call_tool (counted invoke) A (u, n) =
     (fst (call_tool invoke A u), (snd (call_tool invoke A u), Suc n))"
  by (simp add: call_tool_def counted_def split: prod.splits)

lemma consume_errors:
  "consume_retry b k = Inl e \<Longrightarrow> e = ResearchBudgetError ''RETRY_BUDGET_EXCEEDED''"
  "consume_tool_call b t = Inl e \<Longrightarrow>
     e \<in> {ResearchBudgetError ''TOOL_CALL_BUDGET_EXCEEDED'', ResearchBudgetError ''TOOL_LIMIT_EXCEEDED''}"
  by (auto simp: consume_retry_def consume_tool_call_def Let_def split: if_splits)

text \<open>What a budget of a run has become after \<open>n\<close> Tool calls.\<close>

definition charged :: "run_budget \<Rightarrow> nat \<Rightarrow> run_budget \<Rightarrow> bool" where
  "charged b n c \<longleftrightarrow>
     budget_ok c \<and> same_limits b c \<and> bud_consumed_tool_calls c = bud_consumed_tool_calls b + n"

lemma charged_tool_call:
  "budget_ok b \<Longrightarrow> consume_tool_call b t = Inr c \<Longrightarrow> charged b 1 c"
  using consume_tool_call_ok [of b t c] by (simp add: charged_def)

lemma charged_trans: "charged a m b \<Longrightarrow> charged b n c \<Longrightarrow> charged a (m + n) c"
  using same_limits_trans by (auto simp: charged_def)

lemma retry_budget_ok:
  assumes "budget_ok b"
  shows "case retry_budget b k t of Inl (b', c) \<Rightarrow> charged b 0 b' | Inr b' \<Rightarrow> charged b 1 b'"
proof (cases "consume_retry b k")
  case (Inl e)
  with consume_errors(1) [OF Inl] assms show ?thesis by (simp add: retry_budget_def charged_def)
next
  case (Inr b1)
  note ok = consume_retry_ok [OF assms Inr]
  then have z: "charged b 0 b1" by (simp add: charged_def)
  show ?thesis
  proof (cases "consume_tool_call b1 t")
    case (Inl e)
    with consume_errors(2) [OF Inl] Inr z show ?thesis by (auto simp: retry_budget_def)
  next
    case (Inr b2)
    with charged_tool_call ok z charged_trans [of b 0 b1 1 b2] \<open>consume_retry b k = Inr b1\<close>
    show ?thesis by (auto simp: retry_budget_def)
  qed
qed

section \<open>The shape of a result\<close>

lemma invocation_record_of_sel [simp]:
  "iw_id (invocation_record_of i c) = iw_id i"
  "iw_run_id (invocation_record_of i c) = iw_run_id i"
  "iw_status (invocation_record_of i c) = ic_status c"
  "iw_attempt_number (invocation_record_of i c) = iw_attempt_number i"
  "ir_error_code (invocation_record_of i c) = ic_error_code c"
  "ir_output_checksum (invocation_record_of i c) = ic_output_checksum c"
  by (cases i; simp add: invocation_record_of_def invocation_write.extend_def
      invocation_record.fields_def)+

text \<open>
  A result without an observation carries an error code and is blocked or failed by that code; a
  result with one has a passed invocation, and the observation has the result's status, the run's
  scope and the checksum of an output that stayed in that scope.
\<close>

definition result_shape :: "pylib \<Rightarrow> run_context \<Rightarrow> tool_execution_result \<Rightarrow> bool" where
  "result_shape L ctx r \<longleftrightarrow>
     (case ter_observation r of
        None \<Rightarrow> \<exists>code. ir_error_code (ter_invocation r) = Some code \<and>
          ir_output_checksum (ter_invocation r) = None \<and>
          (if code \<in> set BLOCKED_CODES
           then ter_status r = Obs_BLOCKED \<and> iw_status (ter_invocation r) = Inv_BLOCKED
           else ter_status r = Obs_FAIL \<and> iw_status (ter_invocation r) = Inv_FAIL)
      | Some ob \<Rightarrow> iw_status (ter_invocation r) = Inv_PASS \<and>
          ir_error_code (ter_invocation r) = None \<and>
          ob_status ob = ter_status r \<and> ob_invocation_id ob = Some (iw_id (ter_invocation r)) \<and>
          ob_run_id ob = ctx_run_id ctx \<and> ob_security_id ob = ctx_security_id ctx \<and>
          ob_snapshot_id ob = ctx_snapshot_id ctx \<and>
          ob_research_as_of_time ob = ctx_research_as_of_time ctx \<and>
          ir_output_checksum (ter_invocation r) = Some (ob_output_checksum ob) \<and>
          (\<exists>out. scoped_value ctx (PDict out) \<and>
             stable_checksum L (PDict out) = Inr (ob_output_checksum ob)))"

lemma complete_invocation_Inr:
  assumes "complete_invocation L i status t output err msg = Inr c"
  shows "ic_status c = status \<and> ic_error_code c = err \<and>
    (case output of None \<Rightarrow> ic_output_checksum c = None
     | Some v \<Rightarrow> \<exists>k. stable_checksum L v = Inr k \<and> ic_output_checksum c = Some k)"
  using assms
  by (auto simp: complete_invocation_def invocation_reject_def Let_def
      split: if_splits option.splits)

lemma build_observation_Inr:
  assumes "build_observation L oid ctx sid iid ot st ver p syn ws t = Inr ob"
  shows "ob_status ob = st \<and> ob_invocation_id ob = iid \<and> ob_run_id ob = ctx_run_id ctx \<and>
    ob_security_id ob = ctx_security_id ctx \<and> ob_snapshot_id ob = ctx_snapshot_id ctx \<and>
    ob_research_as_of_time ob = ctx_research_as_of_time ctx \<and>
    ob_observation_type ob = ot \<and> ob_research_step_id ob = sid \<and> ob_id ob = oid \<and>
    stable_checksum L (PDict p) = Inr (ob_output_checksum ob)"
  using assms
  by (auto simp: build_observation_def observation_reject_def
      simp del: normalize.simps split: if_splits sum.splits pyval.splits)

lemma failed_result_Inr:
  "failed_result L i b code w = (Inr r, w') \<Longrightarrow> ter_budget r = b \<and> result_shape L ctx r"
  by (auto simp: failed_result_def Let_def result_shape_def next_now_def
      dest!: complete_invocation_Inr split: prod.splits)

lemma passed_result_Inr:
  assumes "passed_result L A i b output w = (Inr r, w')" and "scoped_value (tc_context A) output"
  shows "ter_budget r = b \<and> result_shape L (tc_context A) r"
proof -
  from assms(1) obtain p where p: "output = PDict p"
    by (auto simp: passed_result_def split: pyval.splits)
  let ?st = "observation_status_of (payload_get p ''status'')"
  from assms(1) p obtain t c oid t2 ob where
    c: "complete_invocation L i Inv_PASS t (Some (PDict p)) None None = Inr c"
    and ob: "build_observation L oid (tc_context A) (st_id (tc_step A))
        (Some (iw_id (invocation_record_of i c))) (tc_observation_type A) ?st ''observation-v1'' p
        (tc_synthetic_status A) [] t2 = Inr ob"
    and r: "r = \<lparr>ter_status = ?st, ter_invocation = invocation_record_of i c,
        ter_observation = Some ob, ter_budget = b, ter_retryable = False\<rparr>"
    by (auto simp: passed_result_def Let_def next_now_def next_id_def split: sum.splits prod.splits)
  from complete_invocation_Inr [OF c] build_observation_Inr [OF ob] assms(2) p r show ?thesis
    by (auto simp: result_shape_def)
qed

lemma call_tool_scoped:
  "call_tool invoke A u = (Inr output, u') \<Longrightarrow> scoped_value (tc_context A) output"
  by (auto simp: call_tool_def validate_output_scope_def validate_result_iff(1) split: prod.splits)

text \<open>One iteration of the loop, seen from the calls of a counted port.\<close>

lemma attempt_cases:
  assumes "tool_attempts L (counted invoke) A attempt b (u, n) w = (res, (u', n'), w')"
  obtains
    (not_started) e where "res = Inl e" "n' = n"
  | (retried) b' w2 where "attempt = 1"
      "retry_budget b (sd_step_key (st_definition (tc_step A))) (ac_tool_name (tc_call A)) = Inr b'"
      "fst (call_tool invoke A u) = Inl (ResearchToolExecutionError ''TRANSIENT_INTERNAL'')"
      "tool_attempts L (counted invoke) A 2 b' (snd (call_tool invoke A u), Suc n) w2 = (res, (u', n'), w')"
  | (raised) e where "res = Inl e" "n' = Suc n"
  | (returned) r where "res = Inr r" "n' = Suc n" "result_shape L (tc_context A) r"
      "ter_budget r = b \<or> (\<exists>c. attempt = 1 \<and>
         fst (call_tool invoke A u) = Inl (ResearchToolExecutionError ''TRANSIENT_INTERNAL'') \<and>
         retry_budget b (sd_step_key (st_definition (tc_step A))) (ac_tool_name (tc_call A)) =
           Inl (ter_budget r, c))"
proof -
  obtain started w1 where t: "next_now w = (started, w1)" by fastforce
  obtain iid w2 where i: "next_id w1 = (iid, w2)" by fastforce
  show ?thesis
  proof (cases "start_invocation L iid (tc_context A) (st_id (tc_step A)) (tc_call A) (tc_bound A)
      attempt started")
    case (Inl e)
    with assms t i show ?thesis
      by (intro not_started [of e]) (simp_all add: tool_attempts.simps)
  next
    case started: (Inr invoc)
    obtain result u1 where call: "call_tool invoke A u = (result, u1)" by fastforce
    note unfolded = assms [unfolded tool_attempts.simps [of L "counted invoke" A attempt b "(u, n)" w],
        unfolded t i call_tool_counted call Let_def prod.case fst_conv snd_conv started sum.case]
    have fail: thesis if "(let (r, w3) = failed_result L invoc b1 code w2 in (r, (u1, Suc n), w3)) =
        (res, (u', n'), w')" and "b1 = b \<or> (\<exists>c. attempt = 1 \<and>
          result = Inl (ResearchToolExecutionError ''TRANSIENT_INTERNAL'') \<and>
          retry_budget b (sd_step_key (st_definition (tc_step A))) (ac_tool_name (tc_call A)) =
           Inl (b1, c))" for b1 code
    proof (cases res)
      case (Inl e)
      with that(1) show ?thesis by (intro raised) (auto split: prod.splits)
    next
      case (Inr r)
      with that(1) have f: "failed_result L invoc b1 code w2 = (Inr r, w')" "n' = Suc n"
        by (auto split: prod.splits)
      from failed_result_Inr [OF f(1)] Inr f(2) that(2) call show ?thesis
        by (intro returned) auto
    qed
    show ?thesis
    proof (cases result)
      case (Inr out)
      show ?thesis
      proof (cases res)
        case (Inl e)
        with unfolded \<open>result = Inr out\<close> show ?thesis by (intro raised) (auto split: prod.splits)
      next
        case r: (Inr r)
        with unfolded Inr have p: "passed_result L A invoc b out w2 = (Inr r, w')" "n' = Suc n"
          by (auto split: prod.splits)
        have "scoped_value (tc_context A) out"
          using call_tool_scoped [of invoke A u out u1] call Inr by simp
        from passed_result_Inr [OF p(1) this] r p(2) show ?thesis
          by (intro returned) auto
      qed
    next
      case err: (Inl e)
      show ?thesis
      proof (cases "\<exists>code. e = ResearchToolExecutionError code")
        case True
        then obtain code where e: "e = ResearchToolExecutionError code" by blast
        show ?thesis
        proof (cases "code = ''TRANSIENT_INTERNAL'' \<and> attempt = 1")
          case False
          with unfolded err e show ?thesis by (intro fail [of b code]) auto
        next
          case first: True
          show ?thesis
          proof (cases "retry_budget b (sd_step_key (st_definition (tc_step A))) (ac_tool_name (tc_call A))")
            case (Inl bc)
            obtain b1 c where "bc = (b1, c)" by fastforce
            with Inl unfolded err e first show ?thesis by (intro fail [of b1 c]) auto
          next
            case (Inr b')
            with unfolded err e first call show ?thesis by (intro retried [of b' w2]) auto
          qed
        qed
      next
        case False
        have "(\<exists>code. (let (r, w3) = failed_result L invoc b code w2 in (r, (u1, Suc n), w3)) =
            (res, (u', n'), w')) \<or> res = Inl e \<and> n' = Suc n"
          using unfolded err False by (cases e) auto
        then show ?thesis using fail raised by blast
      qed
    qed
  qed
qed

lemma second_attempt:
  assumes "tool_attempts L (counted invoke) A 2 b (u, n) w = (res, (u', n'), w')"
  shows "n' \<le> Suc n \<and> (\<forall>r. res = Inr r \<longrightarrow>
    n' = Suc n \<and> ter_budget r = b \<and> result_shape L (tc_context A) r)"
  using assms by (cases rule: attempt_cases) auto

lemma first_attempt:
  assumes "budget_ok b" and "tool_attempts L (counted invoke) A 1 b (u, n) w = (res, (u', n'), w')"
  shows "n' \<le> n + 2 \<and> (\<forall>r. res = Inr r \<longrightarrow>
    n < n' \<and> charged b (n' - Suc n) (ter_budget r) \<and> result_shape L (tc_context A) r)"
  using assms(2)
proof (cases rule: attempt_cases)
  case (retried b' w2)
  have "charged b 1 b'" using retry_budget_ok [OF assms(1)] retried(2) by (metis sum.case(2))
  with second_attempt [OF retried(4)] show ?thesis by auto
next
  case (returned r)
  have "charged b 0 (ter_budget r)"
    using returned(4)
  proof
    assume "ter_budget r = b"
    with assms(1) show ?thesis by (simp add: charged_def)
  next
    assume "\<exists>c. 1 = (1 :: nat) \<and>
        fst (call_tool invoke A u) = Inl (ResearchToolExecutionError ''TRANSIENT_INTERNAL'') \<and>
        retry_budget b (sd_step_key (st_definition (tc_step A))) (ac_tool_name (tc_call A)) =
          Inl (ter_budget r, c)"
    then show ?thesis using retry_budget_ok [OF assms(1)] by (metis sum.case(1) prod.case)
  qed
  with returned show ?thesis by auto
qed auto

lemma execute_tool_cases:
  assumes "execute_tool L invoke ctx step cat pol b args ot syn u w = (res, u', w')"
  obtains (refused) e where "res = Inl e" "u' = u"
  | (attempted) call bound b1 where "authorize L ctx step cat pol = Inr call"
      "bind_tool_input L ctx call args = Inr bound"
      "consume_tool_call b (ac_tool_name call) = Inr b1"
      "tool_attempts L invoke \<lparr>tc_context = ctx, tc_step = step, tc_call = call, tc_bound = bound,
         tc_observation_type = ot, tc_synthetic_status = syn\<rparr> 1 b1 u w = (res, u', w')"
  using assms unfolding execute_tool_def
  by (auto simp: bind_res_eq_Inl split: sum.splits exn.splits prod.splits)

section \<open>The contract of the registry\<close>

text \<open>A port whose only errors are registry errors, as the Tool registry promises.\<close>

locale tool_invoker =
  fixes invoke :: "'w invoker"
  assumes registry_errors: "invoke u name version p = (Inl e, u') \<Longrightarrow> \<exists>c. e = ToolRegistryError c"
begin

lemma never_transient: "fst (call_tool invoke A u) \<noteq> Inl (ResearchToolExecutionError code)"
proof
  assume a: "fst (call_tool invoke A u) = Inl (ResearchToolExecutionError code)"
  obtain r u' where r: "invoke u (ac_tool_name (tc_call A)) (ac_tool_version (tc_call A)) (tc_bound A) = (r, u')"
    by fastforce
  show False
  proof (cases r)
    case (Inl e)
    with registry_errors r a show False by (fastforce simp: call_tool_def)
  next
    case (Inr out)
    with a r have "validate_result (tc_context A) out = Inl (ResearchToolExecutionError code)"
      by (simp add: call_tool_def validate_output_scope_def bind_res_eq_Inl)
    then show False using validate_result_errors(1) by blast
  qed
qed

lemma single_attempt:
  assumes "tool_attempts L (counted invoke) A 1 b (u, n) w = (res, (u', n'), w')"
  shows "n' \<le> Suc n \<and> (\<forall>r. res = Inr r \<longrightarrow>
    n' = Suc n \<and> ter_budget r = b \<and> result_shape L (tc_context A) r)"
  using assms
proof (cases rule: attempt_cases)
  case (retried b' w2)
  with never_transient show ?thesis by blast
next
  case (returned r)
  with never_transient show ?thesis by auto
qed auto

lemma executes_once:
  assumes "execute_tool L (counted invoke) ctx step cat pol b args ot syn (u, 0) w = (res, (u', n), w')"
  shows "n \<le> 1 \<and> (\<forall>r. res = Inr r \<longrightarrow> n = 1 \<and> bud_retries_per_step (ter_budget r) = bud_retries_per_step b)"
  using assms
proof (cases rule: execute_tool_cases)
  case (attempted call bound b1)
  then have "bud_retries_per_step b1 = bud_retries_per_step b"
    by (auto simp: consume_tool_call_def Let_def split: if_splits)
  with single_attempt [OF attempted(4)] show ?thesis by auto
qed auto

end

lemma execute_registry_errors:
  "execute pyd R u name version p = (Inl e, u') \<Longrightarrow> \<exists>c. e = ToolRegistryError c"
  by (auto simp: execute_def registration_def split: option.splits sum.splits prod.splits exn.splits)

interpretation registry: tool_invoker "\<lambda>u name version p. execute pyd R u name version (InMapping p)"
  for pyd R
  by unfold_locales (rule execute_registry_errors)

section \<open>Properties\<close>

text \<open>
  C15. One Tool step is finite and paid for. Whatever the registry does, the executor calls it at
  most twice. When it returns a result, every call has been charged to the run's budget, which
  stays within its limits; and the result is either a blocked or failed invocation with an error
  code and no observation, or a passed invocation with an observation that carries the run's scope
  and the checksum of an output whose nested scopes and times were all checked.
\<close>

theorem tool_execution_bounded:
  assumes "budget_ok b"
    and "execute_tool L (counted invoke) ctx step cat pol b args ot syn (u, 0) w = (res, (u', n), w')"
  shows "n \<le> 2 \<and> (\<forall>r. res = Inr r \<longrightarrow>
    1 \<le> n \<and> budget_ok (ter_budget r) \<and> same_limits b (ter_budget r) \<and>
    bud_consumed_tool_calls (ter_budget r) = bud_consumed_tool_calls b + n \<and> result_shape L ctx r)"
  using assms(2)
proof (cases rule: execute_tool_cases)
  case (attempted call bound b1)
  have c1: "charged b 1 b1" by (rule charged_tool_call [OF assms(1) attempted(3)])
  then have "budget_ok b1" by (simp add: charged_def)
  note first = first_attempt [OF this attempted(4)]
  moreover have "charged b n (ter_budget r)" if "res = Inr r" for r
    using first that charged_trans [OF c1, of "n - 1" "ter_budget r"] by auto
  ultimately show ?thesis by (auto simp: charged_def)
qed auto

lemma run_Inr:
  assumes "case fst x of Inl _ \<Rightarrow> False | Inr r \<Rightarrow> P r"
  shows "\<exists>r. x = (Inr r, snd x) \<and> P r"
proof (cases "fst x")
  case (Inl e)
  with assms show ?thesis by simp
next
  case (Inr r)
  with assms show ?thesis by (metis prod.collapse sum.case(2))
qed

text \<open>A catalog with one Tool, and a port that fails once with a transient error.\<close>

definition demo_cat :: tool_catalog_snapshot where
  "demo_cat = \<lparr>tcs_catalog_version = ''v'', tcs_catalog_checksum = [], tcs_entry_count = 1,
     tcs_entries = [\<lparr>ce_tool_name = ''get_data_snapshot'', ce_tool_version = ''1.0.0'',
       ce_permission = READ_ONLY, ce_read_only = True, ce_writes = False, ce_requires_network = False,
       ce_input_schema_version = [], ce_output_schema_version = [], ce_data_domain = ''snapshots'',
       ce_description = ''Read one exact persisted data snapshot.'',
       ce_snapshot_behavior = SNAPSHOT_REQUIRED\<rparr>]\<rparr>"

definition demo_flaky :: "bool invoker" where
  "demo_flaky = (\<lambda>healthy name version p.
     if healthy then (Inr (PDict [(''status'', PStr ''PARTIAL''), (''snapshot_id'', PUuid ''snap'')]), True)
     else (Inl (ResearchToolExecutionError ''TRANSIENT_INTERNAL''), True))"

definition demo_clock :: env where
  "demo_clock = \<lparr>env_id = (\<lambda>n. ''id'' @ nat_str n), env_now = int, env_i = 0, env_t = 0\<rparr>"

definition demo_execution :: "tool_execution_result res \<times> (bool \<times> nat) \<times> env" where
  "demo_execution = execute_tool demo_lib (counted demo_flaky) (demo_context ''v'') demo_tool_step demo_cat
     (offline_policy_values []) (initial_budget (offline_policy_values [])) [] ObsT_DATA_QUALITY
     REAL_VERIFIED (False, 0) demo_clock"

theorem tool_execution_bounded_witness:
  "\<exists>r w'. demo_execution = (Inr r, (True, 2), w') \<and> ter_status r = Obs_PARTIAL \<and>
     bud_consumed_tool_calls (ter_budget r) = 2 \<and> result_shape demo_lib (demo_context ''v'') r"
proof -
  have "(case fst demo_execution of Inl _ \<Rightarrow> False | Inr r \<Rightarrow> ter_status r = Obs_PARTIAL) \<and>
      fst (snd demo_execution) = (True, 2)"
    by code_simp
  then obtain r where r: "demo_execution = (Inr r, snd demo_execution)"
    and st: "ter_status r = Obs_PARTIAL" and n: "fst (snd demo_execution) = (True, 2)"
    using run_Inr by blast
  then obtain w' where run: "demo_execution = (Inr r, (True, 2), w')"
    by (metis prod.collapse)
  have "bud_consumed_tool_calls (ter_budget r) = 2" "result_shape demo_lib (demo_context ''v'') r"
    using tool_execution_bounded [OF initial_budget_ok run [unfolded demo_execution_def]]
    by (simp_all add: initial_budget_def)
  with run st show ?thesis by blast
qed

text \<open>
  With the Tool registry as the port, a step calls it at most once and never spends a retry:
  the registry turns every failure of a handler into a registry error, so the executor's retry of
  \<open>TRANSIENT_INTERNAL\<close> is not reached.
\<close>

theorem registry_never_retried:
  assumes "execute_tool L (counted (\<lambda>u name version p. execute pyd R u name version (InMapping p)))
      ctx step cat pol b args ot syn (u, 0) w = (res, (u', n), w')"
  shows "n \<le> 1 \<and> (\<forall>r. res = Inr r \<longrightarrow> n = 1 \<and>
    bud_retries_per_step (ter_budget r) = bud_retries_per_step b)"
  by (rule registry.executes_once [OF assms])

definition demo_registry_execution :: "tool_execution_result res \<times> (unit \<times> nat) \<times> env" where
  "demo_registry_execution = execute_tool demo_lib
     (counted (\<lambda>u name version p. execute demo_pydantic (register_all demo_pydantic demo_registrations [])
        u name version (InMapping p))) (demo_context ''v'') demo_tool_step demo_cat
     (offline_policy_values []) (initial_budget (offline_policy_values [])) [] ObsT_DATA_QUALITY
     REAL_VERIFIED ((), 0) demo_clock"

theorem registry_never_retried_witness:
  "\<exists>r w'. demo_registry_execution = (Inr r, ((), 1), w') \<and> ter_status r = Obs_FAIL \<and>
     bud_retries_per_step (ter_budget r) = []"
proof -
  have "case demo_registry_execution of (res, (u, n), w') \<Rightarrow>
      (case res of Inl _ \<Rightarrow> False | Inr r \<Rightarrow> ter_status r = Obs_FAIL)"
    by code_simp
  then obtain r n w' where run: "demo_registry_execution = (Inr r, ((), n), w')"
    and st: "ter_status r = Obs_FAIL"
    by (cases demo_registry_execution) (auto split: sum.split_asm)
  from registry_never_retried [OF run [unfolded demo_registry_execution_def]] run st
  show ?thesis by (auto simp: initial_budget_def)
qed

end
