(* ===== verification/Evidence_Ledger.thy ===== *)
theory Evidence_Ledger
  imports Tool_Execution
begin

text \<open>
  The point-in-time evidence ledger (\<open>domain/research_agent/evidence.py\<close>), the fail-closed mapping
  from observations to evidence (\<open>domain/research_agent/evidence_adapters.py\<close>) and the detection of
  conflicting evidence (\<open>domain/research_agent/conflicts.py\<close>). The snapshot table and the security
  master are read-only lookups: functions passed to the definitions that read them.
\<close>

section \<open>Sources\<close>

record evidence_source =
  src_record_type :: string
  src_record_id :: uuid
  src_checksum :: checksum
  src_expected_checksum :: checksum
  src_exists :: bool
  src_security_id :: uuid
  src_snapshot_id :: uuid
  src_published_at :: "datetime option"
  src_citation_id :: "uuid option"
  src_citation_valid :: "bool option"
  src_calculation_run_id :: "uuid option"
  src_calculation_input_ids :: "uuid list"
  src_formula_version :: "string option"
  src_metric_lineage_valid :: "bool option"
  src_payload :: payload

text \<open>The field constraints of \<open>EvidenceSource\<close>, checked when a source is built.\<close>

definition valid_source :: "evidence_source \<Rightarrow> bool" where
  "valid_source s \<longleftrightarrow>
     text_within 1 128 (src_record_type s) \<and> valid_checksum (src_checksum s) \<and>
     valid_checksum (src_expected_checksum s) \<and> length (src_calculation_input_ids s) \<le> 100 \<and>
     (case src_formula_version s of None \<Rightarrow> True | Some v \<Rightarrow> text_within 0 128 v)"

definition checked_source :: "evidence_source \<Rightarrow> evidence_source res" where
  "checked_source s = (if valid_source s then Inr s else Inl ValidationError)"

section \<open>The ledger\<close>

definition classify ::
  "run_context \<Rightarrow> observation \<Rightarrow> evidence_type \<Rightarrow> evidence_source \<Rightarrow> synthetic_status \<Rightarrow> bool \<Rightarrow>
   evidence_status \<times> code list" where
  "classify ctx ob et src syn real_research =
     (if et = BLOCKED_CAPABILITY_EVIDENCE then (Ev_BLOCKED, [''BLOCKED_CAPABILITY''])
      else if ob_run_id ob \<noteq> ctx_run_id ctx then (Ev_INVALID, [''OBSERVATION_RUN_MISMATCH''])
      else if ob_security_id ob \<noteq> ctx_security_id ctx then (Ev_INVALID, [''OBSERVATION_SECURITY_MISMATCH''])
      else if ob_snapshot_id ob \<noteq> ctx_snapshot_id ctx then (Ev_INVALID, [''OBSERVATION_SNAPSHOT_MISMATCH''])
      else if ob_research_as_of_time ob \<noteq> ctx_research_as_of_time ctx
      then (Ev_INVALID, [''OBSERVATION_AS_OF_MISMATCH''])
      else if real_research \<and> (syn = SYNTHETIC_TEST_ONLY \<or> syn = Synthetic_UNKNOWN)
      then (Ev_INVALID, [''SYNTHETIC_EVIDENCE_FOR_REAL_RUN''])
      else if \<not> src_exists src then (Ev_SOURCE_MISSING, [''SOURCE_RECORD_MISSING''])
      else if src_checksum src \<noteq> src_expected_checksum src then (Ev_INVALID, [''SOURCE_CHECKSUM_MISMATCH''])
      else if src_security_id src \<noteq> ctx_security_id ctx then (Ev_INVALID, [''EVIDENCE_SECURITY_MISMATCH''])
      else if src_snapshot_id src \<noteq> ctx_snapshot_id ctx then (Ev_INVALID, [''EVIDENCE_SNAPSHOT_MISMATCH''])
      else if (case src_published_at src of None \<Rightarrow> False | Some t \<Rightarrow> t > ctx_research_as_of_time ctx)
      then (Ev_FUTURE_DATA, [''FUTURE_DATA''])
      else if et = DOCUMENT_CITATION_EVIDENCE \<and> src_citation_id src = None
      then (Ev_INVALID, [''CITATION_MISSING''])
      else if et = DOCUMENT_CITATION_EVIDENCE \<and> src_citation_valid src \<noteq> Some True
      then (Ev_INVALID, [''INVALID_CITATION''])
      else if et = DOCUMENT_CITATION_EVIDENCE \<and> src_published_at src = None
      then (Ev_INVALID, [''PUBLISHED_AT_UNKNOWN''])
      else if (et = DERIVED_METRIC_EVIDENCE \<or> et = METRIC_LINEAGE_EVIDENCE) \<and>
              (src_calculation_run_id src = None \<or> src_calculation_input_ids src = [] \<or>
               src_formula_version src = None \<or> src_metric_lineage_valid src \<noteq> Some True)
      then (Ev_INVALID, [''INVALID_METRIC_LINEAGE''])
      else (Ev_VALID, []))"

definition ledger_admit ::
  "uuid \<Rightarrow> run_context \<Rightarrow> observation \<Rightarrow> evidence_type \<Rightarrow> evidence_source \<Rightarrow> synthetic_status \<Rightarrow> bool \<Rightarrow>
   datetime \<Rightarrow> evidence" where
  "ledger_admit eid ctx ob et src syn real_research created =
     (let (status, warnings) = classify ctx ob et src syn real_research in
      \<lparr>ev_id = eid, ev_run_id = ctx_run_id ctx, ev_observation_id = ob_id ob,
       ev_evidence_type = et, ev_status = status, ev_schema_version = ''evidence-v1'',
       ev_security_id = ctx_security_id ctx, ev_snapshot_id = ctx_snapshot_id ctx,
       ev_research_as_of_time = ctx_research_as_of_time ctx,
       ev_source_record_type = Some (src_record_type src),
       ev_source_record_id = Some (src_record_id src), ev_source_checksum = Some (src_checksum src),
       ev_published_at = src_published_at src, ev_citation_id = src_citation_id src,
       ev_calculation_run_id = src_calculation_run_id src,
       ev_calculation_input_ids = src_calculation_input_ids src,
       ev_formula_version = src_formula_version src, ev_synthetic_status = syn,
       ev_payload = src_payload src, ev_warning_codes = warnings, ev_created_at = created\<rparr>)"

section \<open>The adapter\<close>

datatype snapshot_status = Sn_BUILDING | Sn_COMPLETE | Sn_PARTIAL | Sn_FAILED | Sn_SUPERSEDED

fun snapshot_status_value :: "snapshot_status \<Rightarrow> string" where
  "snapshot_status_value Sn_BUILDING = ''BUILDING''"
| "snapshot_status_value Sn_COMPLETE = ''COMPLETE''"
| "snapshot_status_value Sn_PARTIAL = ''PARTIAL''"
| "snapshot_status_value Sn_FAILED = ''FAILED''"
| "snapshot_status_value Sn_SUPERSEDED = ''SUPERSEDED''"

record data_snapshot =
  sn_id :: uuid
  sn_security_id :: uuid
  sn_research_as_of_time :: datetime
  sn_status :: snapshot_status
  sn_checksum :: "checksum option"

record security_detail =
  det_security_id :: uuid
  det_issuer_id :: uuid
  det_issuer_legal_name :: string
  det_symbol :: string
  det_exchange_mic :: string

fun FACTUAL_EVIDENCE_TYPES :: "string \<Rightarrow> evidence_type option" where
  "FACTUAL_EVIDENCE_TYPES n =
     map_of [(''get_normalized_financial_facts'', STRUCTURED_FACT_EVIDENCE),
             (''get_financial_metrics'', DERIVED_METRIC_EVIDENCE),
             (''get_metric_lineage'', METRIC_LINEAGE_EVIDENCE),
             (''get_corporate_actions'', CORPORATE_ACTION_EVIDENCE),
             (''search_document_chunks'', DOCUMENT_CITATION_EVIDENCE)] n"

definition first_warning :: "observation \<Rightarrow> code option" where
  "first_warning ob = (case ob_warnings ob of [] \<Rightarrow> None | c # _ \<Rightarrow> Some c)"

text \<open>\<open>_first_warning(...) or default\<close>: an empty text also gives the default.\<close>

definition warning_or :: "observation \<Rightarrow> string \<Rightarrow> string" where
  "warning_or ob d = (case first_warning ob of None \<Rightarrow> d | Some c \<Rightarrow> if c = [] then d else c)"

definition capability_code :: "string \<Rightarrow> observation \<Rightarrow> code" where
  "capability_code tool ob = warning_or ob (map ascii_upper_char tool @ ''_BLOCKED'')"

definition quality_code :: "string \<Rightarrow> observation \<Rightarrow> code" where
  "quality_code tool ob = warning_or ob (map ascii_upper_char tool @ ''_PARTIAL'')"

definition plain_source ::
  "string \<Rightarrow> uuid \<Rightarrow> checksum \<Rightarrow> checksum \<Rightarrow> bool \<Rightarrow> uuid \<Rightarrow> uuid \<Rightarrow> payload \<Rightarrow> evidence_source" where
  "plain_source rtype rid c expected ex sec snap p =
     \<lparr>src_record_type = rtype, src_record_id = rid, src_checksum = c, src_expected_checksum = expected,
      src_exists = ex, src_security_id = sec, src_snapshot_id = snap, src_published_at = None,
      src_citation_id = None, src_citation_valid = None, src_calculation_run_id = None,
      src_calculation_input_ids = [], src_formula_version = None, src_metric_lineage_valid = None,
      src_payload = p\<rparr>"

definition observation_source :: "pylib \<Rightarrow> observation \<Rightarrow> payload \<Rightarrow> evidence_source res" where
  "observation_source L ob p =
     bind_res (stable_checksum L (PDict (ob_payload ob))) (\<lambda>c.
       checked_source (plain_source ''research_observations'' (ob_id ob) (ob_output_checksum ob) c True
         (ob_security_id ob) (ob_snapshot_id ob) p))"

text \<open>
  \<open>UUID(str(x))\<close>: the prefixes \<open>urn:\<close> and \<open>uuid:\<close>, surrounding braces and hyphens are removed;
  what is left must be 32 characters that \<open>int(_, 16)\<close> reads: blanks around it, a sign, a prefix
  \<open>0x\<close> and single underscores between digits are accepted.
\<close>

fun remove_text :: "string \<Rightarrow> string \<Rightarrow> string" where
  "remove_text t [] = []"
| "remove_text t (c # cs) =
     (if t \<noteq> [] \<and> take (length t) (c # cs) = t then remove_text t (drop (length t - 1) cs)
      else c # remove_text t cs)"

definition strip_chars :: "char list \<Rightarrow> string \<Rightarrow> string" where
  "strip_chars cs s = rev (dropWhile (\<lambda>c. c \<in> set cs) (rev (dropWhile (\<lambda>c. c \<in> set cs) s)))"

fun hex_digits :: "bool \<Rightarrow> string \<Rightarrow> string option" where
  "hex_digits after_digit [] = (if after_digit then Some [] else None)"
| "hex_digits after_digit (c # cs) =
     (if c = CHR ''_'' then (if after_digit then hex_digits False cs else None)
      else if is_hex (ascii_lower_char c) then map_option (Cons (ascii_lower_char c)) (hex_digits True cs)
      else None)"

definition int16_digits :: "string \<Rightarrow> (bool \<times> string) option" where
  "int16_digits s =
     (let t = strip_chars '' '' s;
          neg = (case t of c # _ \<Rightarrow> c = CHR ''-'' | [] \<Rightarrow> False);
          u = (case t of c # cs \<Rightarrow> if c = CHR ''-'' \<or> c = CHR ''+'' then cs else t | [] \<Rightarrow> t);
          v = (case u of a # b # r \<Rightarrow> if a = CHR ''0'' \<and> ascii_lower_char b = CHR ''x''
                 then (case r of c # cs \<Rightarrow> if c = CHR ''_'' then cs else r | [] \<Rightarrow> r) else u
               | _ \<Rightarrow> u) in
      map_option (\<lambda>d. (neg, d)) (hex_digits False v))"

definition uuid_text :: "string \<Rightarrow> uuid" where
  "uuid_text d =
     (let h = (if length d < 32 then replicate (32 - length d) (CHR ''0'') @ d else d) in
      take 8 h @ ''-'' @ take 4 (drop 8 h) @ ''-'' @ take 4 (drop 12 h) @ ''-'' @
      take 4 (drop 16 h) @ ''-'' @ drop 20 h)"

definition parse_uuid :: "string \<Rightarrow> uuid option" where
  "parse_uuid s =
     (let h = remove_text ''-'' (strip_chars ''{}'' (remove_text ''uuid:'' (remove_text ''urn:'' s))) in
      if length h \<noteq> 32 then None
      else case int16_digits h of
        None \<Rightarrow> None
      | Some (neg, d) \<Rightarrow> if neg \<and> list_ex (\<lambda>c. c \<noteq> CHR ''0'') d then None else Some (uuid_text d))"

definition source_id_of :: "observation \<Rightarrow> uuid" where
  "source_id_of ob =
     (case payload_get (ob_payload ob) ''source_record_ids'' of
        PList (x # _) \<Rightarrow>
          (case (case x of PStr s \<Rightarrow> parse_uuid s | PInt i \<Rightarrow> parse_uuid (int_str i) | _ \<Rightarrow> None) of
             None \<Rightarrow> ob_id ob | Some u \<Rightarrow> u)
      | _ \<Rightarrow> ob_id ob)"

definition missing_source :: "pylib \<Rightarrow> string \<Rightarrow> observation \<Rightarrow> evidence_source res" where
  "missing_source L tool ob =
     bind_res (stable_checksum L (PDict (ob_payload ob))) (\<lambda>c.
       checked_source (plain_source (tool @ ''_source'') (source_id_of ob) (ob_output_checksum ob) c False
         (ob_security_id ob) (ob_snapshot_id ob) [(''tool_name'', PStr tool)]))"

definition snapshot_checksum :: "payload \<Rightarrow> string option" where
  "snapshot_checksum p =
     (case payload_get p ''data'' of
        PList [PDict d] \<Rightarrow> (case payload_get d ''checksum'' of PStr s \<Rightarrow> Some s | _ \<Rightarrow> None)
      | _ \<Rightarrow> None)"

definition snapshot_source ::
  "pylib \<Rightarrow> (uuid \<Rightarrow> data_snapshot option) \<Rightarrow> observation \<Rightarrow> evidence_source res" where
  "snapshot_source L snapshots ob =
     (case (snapshots (ob_snapshot_id ob), snapshot_checksum (ob_payload ob)) of
        (Some sn, Some expected) \<Rightarrow>
          (case sn_checksum sn of
             None \<Rightarrow> missing_source L ''get_data_snapshot'' ob
           | Some c \<Rightarrow> checked_source (plain_source ''data_snapshots'' (sn_id sn) c expected True
               (sn_security_id sn) (sn_id sn)
               [(''snapshot_id'', PStr (sn_id sn)),
                (''snapshot_status'', PStr (snapshot_status_value (sn_status sn))),
                (''quality_code'', PStr (if sn_status sn = Sn_PARTIAL then ''SNAPSHOT_PARTIAL''
                   else ''SNAPSHOT_COMPLETE''))]))
      | _ \<Rightarrow> missing_source L ''get_data_snapshot'' ob)"

definition candidate ::
  "pylib \<Rightarrow> (uuid \<Rightarrow> data_snapshot option) \<Rightarrow> string \<Rightarrow> observation \<Rightarrow>
   (evidence_type \<times> evidence_source \<times> synthetic_status) res" where
  "candidate L snapshots tool ob =
     (if ob_status ob = Obs_BLOCKED
      then bind_res (observation_source L ob
             [(''capability_code'', PStr (capability_code tool ob)), (''tool_name'', PStr tool)])
             (\<lambda>s. Inr (BLOCKED_CAPABILITY_EVIDENCE, s, ob_synthetic_status ob))
      else if tool = ''get_data_snapshot''
      then bind_res (snapshot_source L snapshots ob) (\<lambda>s. Inr (SNAPSHOT_EVIDENCE, s, ob_synthetic_status ob))
      else if ob_status ob = Obs_PARTIAL
      then bind_res (observation_source L ob
             [(''quality_code'', PStr (quality_code tool ob)), (''tool_name'', PStr tool)])
             (\<lambda>s. Inr (DATA_QUALITY_EVIDENCE, s, ob_synthetic_status ob))
      else bind_res (missing_source L tool ob) (\<lambda>s.
             Inr (case FACTUAL_EVIDENCE_TYPES tool of None \<Rightarrow> DATA_QUALITY_EVIDENCE | Some t \<Rightarrow> t,
                  s, ob_synthetic_status ob)))"

definition adapter_admit ::
  "pylib \<Rightarrow> (uuid \<Rightarrow> data_snapshot option) \<Rightarrow> run_context \<Rightarrow> string \<Rightarrow> observation \<Rightarrow> bool \<Rightarrow> env \<Rightarrow>
   (evidence \<times> env) res" where
  "adapter_admit L snapshots ctx tool ob real_research w =
     bind_res (candidate L snapshots tool ob) (\<lambda>(et, src, syn).
       let (eid, w1) = next_id w; (t, w2) = next_now w1 in
       Inr (ledger_admit eid ctx ob et src syn real_research t, w2))"

section \<open>The security identity\<close>

definition SECURITY_MASTER_IDENTITY_SOURCE_RECORD_TYPE :: string where
  "SECURITY_MASTER_IDENTITY_SOURCE_RECORD_TYPE = ''SECURITY_MASTER_IDENTITY_V1''"

definition security_master_identity_projection :: "security_detail \<Rightarrow> payload" where
  "security_master_identity_projection d =
     [(''security_id'', PStr (det_security_id d)), (''issuer_id'', PStr (det_issuer_id d)),
      (''issuer'', PStr (det_issuer_legal_name d)), (''symbol'', PStr (det_symbol d)),
      (''exchange_mic'', PStr (det_exchange_mic d)), (''exchange'', PStr (det_exchange_mic d))]"

definition security_master_identity_checksum :: "pylib \<Rightarrow> payload \<Rightarrow> checksum res" where
  "security_master_identity_checksum L projection =
     stable_checksum L (PDict
       [(''source_record_type'', PStr SECURITY_MASTER_IDENTITY_SOURCE_RECORD_TYPE),
        (''projection'', PDict projection)])"

definition security_identity_source ::
  "pylib \<Rightarrow> run_context \<Rightarrow> observation \<Rightarrow> security_detail option \<Rightarrow> evidence_source res" where
  "security_identity_source L ctx ob detail =
     (case detail of
        None \<Rightarrow> bind_res (security_master_identity_checksum L (ob_payload ob)) (\<lambda>c.
          checked_source (plain_source SECURITY_MASTER_IDENTITY_SOURCE_RECORD_TYPE (ctx_security_id ctx)
            c c False (ctx_security_id ctx) (ctx_snapshot_id ctx) []))
      | Some d \<Rightarrow>
          let projection = security_master_identity_projection d in
          bind_res (security_master_identity_checksum L (ob_payload ob)) (\<lambda>e1.
          bind_res (stable_checksum L (PDict (ob_payload ob))) (\<lambda>pc.
          bind_res (if ob_output_checksum ob \<noteq> pc
                    then stable_checksum L (PDict
                      [(''invalid_observation_checksum'', PStr (ob_output_checksum ob)),
                       (''projection'', PDict (ob_payload ob))])
                    else Inr e1) (\<lambda>expected.
          bind_res (security_master_identity_checksum L projection) (\<lambda>c.
            checked_source (plain_source SECURITY_MASTER_IDENTITY_SOURCE_RECORD_TYPE (det_security_id d)
              c expected True (det_security_id d) (ctx_snapshot_id ctx) projection))))))"

definition admit_security_identity ::
  "pylib \<Rightarrow> (uuid \<Rightarrow> security_detail option) \<Rightarrow> run_context \<Rightarrow> observation \<Rightarrow> bool \<Rightarrow> env \<Rightarrow>
   (evidence \<times> env) res" where
  "admit_security_identity L security_master ctx ob real_research w =
     bind_res (security_identity_source L ctx ob (security_master (ctx_security_id ctx))) (\<lambda>src.
       let (eid, w1) = next_id w; (t, w2) = next_now w1 in
       Inr (ledger_admit eid ctx ob SECURITY_MASTER_EVIDENCE src (ob_synthetic_status ob)
              real_research t, w2))"

section \<open>Conflicts\<close>

definition REASON_ORDER :: "code list" where
  "REASON_ORDER =
     [''SECURITY_CONFLICT'', ''SNAPSHOT_CONFLICT'', ''FUTURE_DATA_CONFLICT'', ''SYNTHETIC_REAL_CONFLICT'',
      ''CURRENCY_CONFLICT'', ''UNIT_CONFLICT'', ''VALUE_CONFLICT'', ''PROVIDER_CONFLICT'',
      ''RESTATEMENT_CONFLICT'', ''DOCUMENT_ASSERTION_CONFLICT'']"

definition COMPARISONS :: "(string \<times> code) list" where
  "COMPARISONS =
     [(''currency_code'', ''CURRENCY_CONFLICT''), (''unit'', ''UNIT_CONFLICT''),
      (''value'', ''VALUE_CONFLICT''), (''provider'', ''PROVIDER_CONFLICT''),
      (''restatement_version'', ''RESTATEMENT_CONFLICT''),
      (''document_assertion'', ''DOCUMENT_ASSERTION_CONFLICT'')]"

definition same_subject :: "evidence \<Rightarrow> evidence \<Rightarrow> bool" where
  "same_subject l r \<longleftrightarrow>
     py_eq (payload_get (ev_payload l) ''metric_code'') (payload_get (ev_payload r) ''metric_code'') \<and>
     py_eq (payload_get (ev_payload l) ''period'') (payload_get (ev_payload r) ''period'')"

definition field_conflict :: "string \<Rightarrow> evidence \<Rightarrow> evidence \<Rightarrow> bool" where
  "field_conflict f l r \<longleftrightarrow>
     (let a = payload_get (ev_payload l) f; b = payload_get (ev_payload r) f in
      a \<noteq> PNone \<and> b \<noteq> PNone \<and> \<not> py_eq a b)"

definition compare_payload :: "evidence \<Rightarrow> evidence \<Rightarrow> code list" where
  "compare_payload l r = map snd (filter (\<lambda>fr. field_conflict (fst fr) l r) COMPARISONS)"

fun combinations2 :: "'a list \<Rightarrow> ('a \<times> 'a) list" where
  "combinations2 [] = []"
| "combinations2 (x # xs) = map (Pair x) xs @ combinations2 xs"

definition set_reasons :: "evidence list \<Rightarrow> code list" where
  "set_reasons es =
     (if length (remdups (map ev_security_id es)) > 1 then [''SECURITY_CONFLICT''] else []) @
     (if length (remdups (map ev_snapshot_id es)) > 1 then [''SNAPSHOT_CONFLICT''] else []) @
     (if list_ex (\<lambda>e. ev_status e = Ev_FUTURE_DATA) es then [''FUTURE_DATA_CONFLICT''] else []) @
     (if (REAL_VERIFIED \<in> set (map ev_synthetic_status es) \<or>
          FIXTURE_REAL_EXCERPT \<in> set (map ev_synthetic_status es)) \<and>
         SYNTHETIC_TEST_ONLY \<in> set (map ev_synthetic_status es)
      then [''SYNTHETIC_REAL_CONFLICT''] else [])"

definition pair_reasons :: "evidence list \<Rightarrow> code list" where
  "pair_reasons es =
     concat (map (\<lambda>lr. if same_subject (fst lr) (snd lr) then compare_payload (fst lr) (snd lr) else [])
       (combinations2 es))"

definition conflict_reasons :: "evidence list \<Rightarrow> code list" where
  "conflict_reasons es = set_reasons es @ pair_reasons es"

definition detect :: "evidence list \<Rightarrow> conflict_result res" where
  "detect es =
     (let ordered = filter (\<lambda>c. c \<in> set (conflict_reasons es)) REASON_ORDER;
          ids = (if ordered = [] then [] else sort (map ev_id es)) in
      if length ids > 100 then Inl ValidationError
      else Inr \<lparr>cr_conflicting = (ordered \<noteq> []), cr_reason_codes = ordered, cr_evidence_ids = ids\<rparr>)"

section \<open>Facts\<close>

definition admissible ::
  "run_context \<Rightarrow> observation \<Rightarrow> evidence_type \<Rightarrow> evidence_source \<Rightarrow> synthetic_status \<Rightarrow> bool \<Rightarrow> bool" where
  "admissible ctx ob et src syn real_research \<longleftrightarrow>
     et \<noteq> BLOCKED_CAPABILITY_EVIDENCE \<and>
     ob_run_id ob = ctx_run_id ctx \<and> ob_security_id ob = ctx_security_id ctx \<and>
     ob_snapshot_id ob = ctx_snapshot_id ctx \<and> ob_research_as_of_time ob = ctx_research_as_of_time ctx \<and>
     (real_research \<longrightarrow> syn = REAL_VERIFIED \<or> syn = FIXTURE_REAL_EXCERPT) \<and>
     src_exists src \<and> src_checksum src = src_expected_checksum src \<and>
     src_security_id src = ctx_security_id ctx \<and> src_snapshot_id src = ctx_snapshot_id ctx \<and>
     (\<forall>t. src_published_at src = Some t \<longrightarrow> t \<le> ctx_research_as_of_time ctx) \<and>
     (et = DOCUMENT_CITATION_EVIDENCE \<longrightarrow>
        src_citation_id src \<noteq> None \<and> src_citation_valid src = Some True \<and> src_published_at src \<noteq> None) \<and>
     (et \<in> {DERIVED_METRIC_EVIDENCE, METRIC_LINEAGE_EVIDENCE} \<longrightarrow>
        src_calculation_run_id src \<noteq> None \<and> src_calculation_input_ids src \<noteq> [] \<and>
        src_formula_version src \<noteq> None \<and> src_metric_lineage_valid src = Some True)"

lemma classify_valid:
  "fst (classify ctx ob et src syn live) = Ev_VALID \<longleftrightarrow> admissible ctx ob et src syn live"
  unfolding classify_def admissible_def
  by (cases syn) (auto split: option.splits)

lemma ledger_admit_sel [simp]:
  "ev_status (ledger_admit eid ctx ob et src syn live t) = fst (classify ctx ob et src syn live)"
  "ev_evidence_type (ledger_admit eid ctx ob et src syn live t) = et"
  "ev_security_id (ledger_admit eid ctx ob et src syn live t) = ctx_security_id ctx"
  "ev_snapshot_id (ledger_admit eid ctx ob et src syn live t) = ctx_snapshot_id ctx"
  "ev_run_id (ledger_admit eid ctx ob et src syn live t) = ctx_run_id ctx"
  "ev_observation_id (ledger_admit eid ctx ob et src syn live t) = ob_id ob"
  "ev_payload (ledger_admit eid ctx ob et src syn live t) = src_payload src"
  "ev_id (ledger_admit eid ctx ob et src syn live t) = eid"
  "ev_published_at (ledger_admit eid ctx ob et src syn live t) = src_published_at src"
  "ev_synthetic_status (ledger_admit eid ctx ob et src syn live t) = syn"
  by (simp_all add: ledger_admit_def split_def Let_def)

lemma checked_source_Inr [simp]: "checked_source s = Inr t \<longleftrightarrow> valid_source s \<and> t = s"
  by (auto simp: checked_source_def)

lemma plain_source_sel [simp]:
  "src_exists (plain_source rt rid c e ex sec snap p) = ex"
  "src_checksum (plain_source rt rid c e ex sec snap p) = c"
  "src_expected_checksum (plain_source rt rid c e ex sec snap p) = e"
  "src_security_id (plain_source rt rid c e ex sec snap p) = sec"
  "src_snapshot_id (plain_source rt rid c e ex sec snap p) = snap"
  "src_record_id (plain_source rt rid c e ex sec snap p) = rid"
  "src_payload (plain_source rt rid c e ex sec snap p) = p"
  "src_published_at (plain_source rt rid c e ex sec snap p) = None"
  by (simp_all add: plain_source_def)

lemma missing_source_exists: "missing_source L tool ob = Inr s \<Longrightarrow> \<not> src_exists s"
  by (auto simp: missing_source_def)

lemma snapshot_source_exists:
  assumes "snapshot_source L snapshots ob = Inr s" and "src_exists s"
  shows "\<exists>sn c. snapshots (ob_snapshot_id ob) = Some sn \<and> sn_checksum sn = Some c \<and>
    src_checksum s = c \<and> snapshot_checksum (ob_payload ob) = Some (src_expected_checksum s) \<and>
    src_security_id s = sn_security_id sn \<and> src_snapshot_id s = sn_id sn"
  using assms missing_source_exists
  by (auto simp: snapshot_source_def split: option.splits)

lemma candidate_exists:
  assumes "candidate L snapshots tool ob = Inr (et, src, syn)" and "src_exists src"
    and "et \<noteq> BLOCKED_CAPABILITY_EVIDENCE"
  shows "syn = ob_synthetic_status ob \<and>
    (et = SNAPSHOT_EVIDENCE \<and> snapshot_source L snapshots ob = Inr src \<or>
     et = DATA_QUALITY_EVIDENCE \<and> ob_status ob = Obs_PARTIAL \<and>
       src_checksum src = ob_output_checksum ob \<and>
       stable_checksum L (PDict (ob_payload ob)) = Inr (src_expected_checksum src))"
  using assms missing_source_exists
  by (auto simp: candidate_def observation_source_def split: if_splits)

text \<open>Pairs of positions: what \<open>itertools.combinations(_, 2)\<close> enumerates.\<close>

lemma set_combinations2:
  "set (combinations2 xs) = {(xs ! i, xs ! j) | i j. i < j \<and> j < length xs}"
proof (induction xs)
  case (Cons x xs)
  have "set (combinations2 (x # xs)) = {((x # xs) ! 0, (x # xs) ! Suc j) | j. j < length xs} \<union>
      {((x # xs) ! Suc i, (x # xs) ! Suc j) | i j. i < j \<and> j < length xs}"
    (is "_ = ?H \<union> _")
  proof -
    have "Pair x ` set xs = ?H" by (auto simp: set_conv_nth)
    with Cons.IH show ?thesis by simp
  qed
  also have "\<dots> = {((x # xs) ! i, (x # xs) ! j) | i j. i < j \<and> j < length (x # xs)}"
    (is "?A \<union> ?B = ?C")
  proof
    show "?A \<union> ?B \<subseteq> ?C"
    proof (intro Un_least subsetI)
      fix p assume "p \<in> ?A"
      then obtain j where "p = ((x # xs) ! 0, (x # xs) ! Suc j)" "j < length xs" by auto
      then show "p \<in> ?C" by (intro CollectI exI [of _ 0] exI [of _ "Suc j"]) simp
    next
      fix p assume "p \<in> ?B"
      then obtain i j where "p = ((x # xs) ! Suc i, (x # xs) ! Suc j)" "i < j" "j < length xs" by auto
      then show "p \<in> ?C" by (intro CollectI exI [of _ "Suc i"] exI [of _ "Suc j"]) simp
    qed
    show "?C \<subseteq> ?A \<union> ?B"
    proof
      fix p assume "p \<in> ?C"
      then obtain i j where p: "p = ((x # xs) ! i, (x # xs) ! j)" "i < j" "j < length (x # xs)" by blast
      then obtain j' where j: "j = Suc j'" by (cases j) auto
      show "p \<in> ?A \<union> ?B"
      proof (cases i)
        case 0
        with p j show ?thesis by auto
      next
        case (Suc i')
        with p j show ?thesis by auto
      qed
    qed
  qed
  finally show ?case .
qed simp

lemma mem_image_iff: "c \<in> f ` S \<longleftrightarrow> (\<exists>x \<in> S. f x = c)"
  by auto

lemma length_remdups_gt1: "length (remdups xs) > 1 \<longleftrightarrow> (\<exists>a \<in> set xs. \<exists>b \<in> set xs. a \<noteq> b)"
proof -
  have "length (remdups xs) = card (set xs)" by (simp add: length_remdups_card_conv)
  moreover have "card (set xs) > 1 \<longleftrightarrow> (\<exists>a \<in> set xs. \<exists>b \<in> set xs. a \<noteq> b)"
    using card_le_Suc0_iff_eq [of "set xs"] by (auto simp: not_le [symmetric])
  ultimately show ?thesis by simp
qed

definition SET_REASONS :: "code list" where
  "SET_REASONS =
     [''SECURITY_CONFLICT'', ''SNAPSHOT_CONFLICT'', ''FUTURE_DATA_CONFLICT'', ''SYNTHETIC_REAL_CONFLICT'']"

lemma reason_tables:
  "distinct (map snd COMPARISONS)" "set (map snd COMPARISONS) \<inter> set SET_REASONS = {}"
  "set (SET_REASONS @ map snd COMPARISONS) = set REASON_ORDER"
  by code_simp+

lemma compare_payload_mem:
  assumes "(f, c) \<in> set COMPARISONS"
  shows "c \<in> set (compare_payload l r) \<longleftrightarrow> field_conflict f l r"
proof -
  have uniq: "g = f" if "(g, c) \<in> set COMPARISONS" for g
  proof -
    have "inj_on snd (set COMPARISONS)" using reason_tables(1) by (simp add: distinct_map)
    from inj_onD [OF this, of "(g, c)" "(f, c)"] assms that show ?thesis by simp
  qed
  have "c \<in> set (compare_payload l r) \<longleftrightarrow> (\<exists>g. (g, c) \<in> set COMPARISONS \<and> field_conflict g l r)"
    by (auto simp: compare_payload_def image_iff)
  with assms uniq show ?thesis by blast
qed

lemma set_reasons_subset: "set (set_reasons es) \<subseteq> set SET_REASONS"
  by (auto simp: set_reasons_def SET_REASONS_def)

lemma pair_reasons_mem:
  "c \<in> set (pair_reasons es) \<longleftrightarrow>
   (\<exists>lr \<in> set (combinations2 es). same_subject (fst lr) (snd lr) \<and> c \<in> set (compare_payload (fst lr) (snd lr)))"
  by (auto simp: pair_reasons_def split: if_splits)

lemma pair_reasons_subset: "set (pair_reasons es) \<subseteq> set (map snd COMPARISONS)"
proof
  fix c assume "c \<in> set (pair_reasons es)"
  then obtain lr where "c \<in> set (compare_payload (fst lr) (snd lr))" unfolding pair_reasons_mem by blast
  then show "c \<in> set (map snd COMPARISONS)" by (auto simp: compare_payload_def)
qed

lemma REASON_ORDER_reasons: "set (conflict_reasons es) \<subseteq> set REASON_ORDER"
  using set_reasons_subset [of es] pair_reasons_subset [of es] reason_tables(3)
  unfolding conflict_reasons_def set_append by blast

lemma field_reason:
  assumes "(f, c) \<in> set COMPARISONS"
  shows "c \<in> set (conflict_reasons es) \<longleftrightarrow>
    (\<exists>i j. i < j \<and> j < length es \<and> same_subject (es ! i) (es ! j) \<and> field_conflict f (es ! i) (es ! j))"
proof -
  have "c \<in> set (map snd COMPARISONS)" using assms by force
  then have "c \<notin> set (set_reasons es)" using reason_tables(2) set_reasons_subset [of es] by blast
  then have "c \<in> set (conflict_reasons es) \<longleftrightarrow> c \<in> set (pair_reasons es)"
    by (simp add: conflict_reasons_def)
  then show ?thesis
    unfolding pair_reasons_mem set_combinations2 compare_payload_mem [OF assms] by auto
qed

lemma set_reason:
  assumes "c \<in> set SET_REASONS"
  shows "c \<in> set (conflict_reasons es) \<longleftrightarrow> c \<in> set (set_reasons es)"
  using assms reason_tables(2) pair_reasons_subset [of es] unfolding conflict_reasons_def set_append
  by blast

lemma set_reasons_mem:
  "''SECURITY_CONFLICT'' \<in> set (set_reasons es) \<longleftrightarrow> length (remdups (map ev_security_id es)) > 1"
  "''SNAPSHOT_CONFLICT'' \<in> set (set_reasons es) \<longleftrightarrow> length (remdups (map ev_snapshot_id es)) > 1"
  "''FUTURE_DATA_CONFLICT'' \<in> set (set_reasons es) \<longleftrightarrow> (\<exists>a \<in> set es. ev_status a = Ev_FUTURE_DATA)"
  "''SYNTHETIC_REAL_CONFLICT'' \<in> set (set_reasons es) \<longleftrightarrow>
     (\<exists>a \<in> set es. \<exists>b \<in> set es. ev_synthetic_status a \<in> {REAL_VERIFIED, FIXTURE_REAL_EXCERPT} \<and>
        ev_synthetic_status b = SYNTHETIC_TEST_ONLY)"
  by (simp_all add: set_reasons_def list_ex_iff mem_image_iff) blast

section \<open>Properties\<close>

text \<open>
  C16. The ledger marks evidence valid exactly when it is admissible: the observation and the
  source belong to the run's security and snapshot (the observation also to the run and its as-of
  time), the source exists with the expected checksum, nothing was published after the as-of time,
  a real run uses no synthetic or unknown data, a citation is present, verified and dated, and a
  metric has its calculation, inputs, formula and verified lineage.
\<close>

theorem valid_evidence_exact:
  "ev_status (ledger_admit eid ctx ob et src syn real_research t) = Ev_VALID \<longleftrightarrow>
   admissible ctx ob et src syn real_research"
  by (simp add: classify_valid)

definition demo_observation :: "observation_status \<Rightarrow> observation" where
  "demo_observation st = \<lparr>ob_id = ''o1'', ob_run_id = ''r1'', ob_research_step_id = ''s1'',
     ob_invocation_id = Some ''i1'', ob_observation_type = ObsT_DATA_QUALITY, ob_status = st,
     ob_schema_version = ''observation-v1'', ob_payload = [], ob_output_checksum = replicate 64 (CHR ''a''),
     ob_security_id = ''sec'', ob_snapshot_id = ''snap'', ob_research_as_of_time = 1000,
     ob_synthetic_status = REAL_VERIFIED, ob_warnings = [], ob_created_at = 0\<rparr>"

text \<open>
  C17. Tool success alone never makes evidence valid. Whatever a Tool returned, the production
  adapter admits valid evidence only in two cases: snapshot evidence whose stored snapshot exists,
  belongs to the run's security and has the checksum the Tool reported; and data-quality evidence
  of a partial observation whose stored payload still has its recorded checksum. Facts, metrics,
  lineage, corporate actions and citations are never admitted as valid this way, and no valid
  evidence of a real run is synthetic.
\<close>

theorem adapter_fails_closed:
  assumes "adapter_admit L snapshots ctx tool ob real_research w = Inr (ev, w')"
    and "ev_status ev = Ev_VALID"
  shows "(ev_evidence_type ev = SNAPSHOT_EVIDENCE \<and>
       (\<exists>sn c. snapshots (ctx_snapshot_id ctx) = Some sn \<and> sn_id sn = ctx_snapshot_id ctx \<and>
          sn_security_id sn = ctx_security_id ctx \<and> sn_checksum sn = Some c \<and>
          snapshot_checksum (ob_payload ob) = Some c) \<or>
     ev_evidence_type ev = DATA_QUALITY_EVIDENCE \<and> ob_status ob = Obs_PARTIAL \<and>
       stable_checksum L (PDict (ob_payload ob)) = Inr (ob_output_checksum ob)) \<and>
     ob_run_id ob = ctx_run_id ctx \<and> ob_security_id ob = ctx_security_id ctx \<and>
     (real_research \<longrightarrow> ev_synthetic_status ev \<in> {REAL_VERIFIED, FIXTURE_REAL_EXCERPT})"
proof -
  from assms(1) obtain et src syn eid t where
    c: "candidate L snapshots tool ob = Inr (et, src, syn)"
    and ev: "ev = ledger_admit eid ctx ob et src syn real_research t"
    by (auto simp: adapter_admit_def Let_def next_id_def next_now_def)
  from assms(2) ev have adm: "admissible ctx ob et src syn real_research" by (simp add: classify_valid)
  then have "src_exists src" "et \<noteq> BLOCKED_CAPABILITY_EVIDENCE" by (simp_all add: admissible_def)
  note cand = candidate_exists [OF c this]
  show ?thesis
  proof (cases "et = SNAPSHOT_EVIDENCE")
    case True
    with cand have "snapshot_source L snapshots ob = Inr src" by auto
    from snapshot_source_exists [OF this \<open>src_exists src\<close>] adm ev True show ?thesis
      by (auto simp: admissible_def)
  next
    case False
    with cand adm ev show ?thesis by (auto simp: admissible_def)
  qed
qed

theorem adapter_fails_closed_witness:
  "\<exists>ev w'. adapter_admit demo_lib (\<lambda>_. None) (demo_context []) ''get_financial_metrics''
      (demo_observation Obs_PARTIAL) True demo_clock = Inr (ev, w') \<and> ev_status ev = Ev_VALID \<and>
    ev_evidence_type ev = DATA_QUALITY_EVIDENCE"
proof -
  have "case adapter_admit demo_lib (\<lambda>_. None) (demo_context []) ''get_financial_metrics''
      (demo_observation Obs_PARTIAL) True demo_clock of
    Inl _ \<Rightarrow> False | Inr r \<Rightarrow> ev_status (fst r) = Ev_VALID"
    by code_simp
  then obtain ev w' where run: "adapter_admit demo_lib (\<lambda>_. None) (demo_context []) ''get_financial_metrics''
      (demo_observation Obs_PARTIAL) True demo_clock = Inr (ev, w')" and v: "ev_status ev = Ev_VALID"
    by (auto split: sum.split_asm)
  from adapter_fails_closed [OF run v] run v show ?thesis by auto
qed

text \<open>
  A stored observation keeps its checksum: the evidence of a partial observation built by the
  observation builder in the run's own scope is admitted as valid, because the checksum recomputed
  from the stored payload is the one recorded for the original output.
\<close>

theorem built_observation_admitted:
  assumes "hexdigest_documented L"
    and "build_observation L oid ctx sid iid ot Obs_PARTIAL ver p syn ws t = Inr ob"
    and "tool \<noteq> ''get_data_snapshot''" and "real_research \<longrightarrow> syn \<in> {REAL_VERIFIED, FIXTURE_REAL_EXCERPT}"
  shows "\<exists>ev w'. adapter_admit L snapshots ctx tool ob real_research w = Inr (ev, w') \<and>
    ev_status ev = Ev_VALID \<and> ev_evidence_type ev = DATA_QUALITY_EVIDENCE \<and>
    ev_observation_id ev = oid"
proof -
  note ob = build_observation_Inr [OF assms(2)]
  have syn: "ob_synthetic_status ob = syn"
    and stored: "\<exists>j. normalize (PDict p) = Inr j \<and> json_loads j = PDict (ob_payload ob)"
    using assms(2)
    by (auto simp: build_observation_def observation_reject_def simp del: normalize.simps
        split: if_splits sum.splits pyval.splits)
  from stored have same: "stable_checksum L (PDict (ob_payload ob)) = Inr (ob_output_checksum ob)"
    using ob canonical_json_loads by (metis stable_checksum_def)
  have "valid_checksum (ob_output_checksum ob)" by (rule stable_checksum_valid [OF assms(1) same])
  then have src: "observation_source L ob q = Inr (plain_source ''research_observations'' (ob_id ob)
      (ob_output_checksum ob) (ob_output_checksum ob) True (ob_security_id ob) (ob_snapshot_id ob) q)" for q
    using same by (simp add: observation_source_def checked_source_def valid_source_def plain_source_def
        text_within_def text_length_def)
  obtain eid w1 t1 w2 where env: "next_id w = (eid, w1)" "next_now w1 = (t1, w2)" by fastforce
  let ?src = "plain_source ''research_observations'' (ob_id ob) (ob_output_checksum ob)
      (ob_output_checksum ob) True (ob_security_id ob) (ob_snapshot_id ob)
      [(''quality_code'', PStr (quality_code tool ob)), (''tool_name'', PStr tool)]"
  have "adapter_admit L snapshots ctx tool ob real_research w =
      Inr (ledger_admit eid ctx ob DATA_QUALITY_EVIDENCE ?src syn real_research t1, w2)"
    using assms(3) ob syn src env by (simp add: adapter_admit_def candidate_def)
  moreover have "admissible ctx ob DATA_QUALITY_EVIDENCE ?src syn real_research"
    using ob assms(4) by (auto simp: admissible_def)
  ultimately show ?thesis using ob by (simp add: classify_valid)
qed

theorem built_observation_admitted_witness:
  "\<exists>ob ev w'. build_observation demo_lib ''o'' (demo_context []) ''s'' None ObsT_DATA_QUALITY Obs_PARTIAL
      ''observation-v1'' [(''b'', PInt 1), (''a'', PTuple [PBool True])] REAL_VERIFIED [] 0 = Inr ob \<and>
    adapter_admit demo_lib (\<lambda>_. None) (demo_context []) ''get_latest_close'' ob True demo_clock = Inr (ev, w') \<and>
    ev_status ev = Ev_VALID"
proof -
  have "case build_observation demo_lib ''o'' (demo_context []) ''s'' None ObsT_DATA_QUALITY Obs_PARTIAL
      ''observation-v1'' [(''b'', PInt 1), (''a'', PTuple [PBool True])] REAL_VERIFIED [] 0 of
    Inl _ \<Rightarrow> False | Inr _ \<Rightarrow> True"
    by code_simp
  then obtain ob where ob: "build_observation demo_lib ''o'' (demo_context []) ''s'' None ObsT_DATA_QUALITY
      Obs_PARTIAL ''observation-v1'' [(''b'', PInt 1), (''a'', PTuple [PBool True])] REAL_VERIFIED [] 0 = Inr ob"
    by (auto split: sum.split_asm)
  from built_observation_admitted [OF demo_lib_hex ob, of "''get_latest_close''" True "\<lambda>_. None" demo_clock] ob
  show ?thesis by auto
qed

text \<open>
  Conflict detection is exact and loses nothing. A field conflict is reported exactly when
  two records of the same metric and period both have the field with different values; a scope
  conflict exactly when two records differ in security or snapshot; future data and a mix of real
  with synthetic data are reported too. The reasons are listed in the fixed order, and a conflict
  lists the identifiers of all the records, sorted. (More than 100 conflicting records do not fit
  the result and raise.)
\<close>

theorem conflict_detection_exact:
  assumes "detect es = Inr r"
  shows "(\<forall>(f, c) \<in> set COMPARISONS. c \<in> set (cr_reason_codes r) \<longleftrightarrow>
       (\<exists>i j. i < j \<and> j < length es \<and> same_subject (es ! i) (es ! j) \<and> field_conflict f (es ! i) (es ! j))) \<and>
     (''SECURITY_CONFLICT'' \<in> set (cr_reason_codes r) \<longleftrightarrow>
       (\<exists>a \<in> set es. \<exists>b \<in> set es. ev_security_id a \<noteq> ev_security_id b)) \<and>
     (''SNAPSHOT_CONFLICT'' \<in> set (cr_reason_codes r) \<longleftrightarrow>
       (\<exists>a \<in> set es. \<exists>b \<in> set es. ev_snapshot_id a \<noteq> ev_snapshot_id b)) \<and>
     (''FUTURE_DATA_CONFLICT'' \<in> set (cr_reason_codes r) \<longleftrightarrow> (\<exists>a \<in> set es. ev_status a = Ev_FUTURE_DATA)) \<and>
     (''SYNTHETIC_REAL_CONFLICT'' \<in> set (cr_reason_codes r) \<longleftrightarrow>
       (\<exists>a \<in> set es. \<exists>b \<in> set es. ev_synthetic_status a \<in> {REAL_VERIFIED, FIXTURE_REAL_EXCERPT} \<and>
          ev_synthetic_status b = SYNTHETIC_TEST_ONLY)) \<and>
     (cr_conflicting r \<longleftrightarrow> cr_reason_codes r \<noteq> []) \<and>
     cr_reason_codes r = filter (\<lambda>c. c \<in> set (cr_reason_codes r)) REASON_ORDER \<and>
     cr_evidence_ids r = (if cr_conflicting r then sort (map ev_id es) else [])"
proof -
  from assms have r: "cr_reason_codes r = filter (\<lambda>c. c \<in> set (conflict_reasons es)) REASON_ORDER"
    "cr_conflicting r \<longleftrightarrow> cr_reason_codes r \<noteq> []"
    "cr_evidence_ids r = (if cr_conflicting r then sort (map ev_id es) else [])"
    by (auto simp: detect_def Let_def split: if_splits)
  then have mem: "c \<in> set (cr_reason_codes r) \<longleftrightarrow> c \<in> set (conflict_reasons es)" for c
    using REASON_ORDER_reasons [of es] by auto
  have two: "length (remdups (map f es)) > 1 \<longleftrightarrow> (\<exists>a \<in> set es. \<exists>b \<in> set es. f a \<noteq> f b)"
    for f :: "evidence \<Rightarrow> uuid"
    using length_remdups_gt1 [of "map f es"] by auto
  have scope: "''SECURITY_CONFLICT'' \<in> set (cr_reason_codes r) \<longleftrightarrow>
       (\<exists>a \<in> set es. \<exists>b \<in> set es. ev_security_id a \<noteq> ev_security_id b)"
    "''SNAPSHOT_CONFLICT'' \<in> set (cr_reason_codes r) \<longleftrightarrow>
       (\<exists>a \<in> set es. \<exists>b \<in> set es. ev_snapshot_id a \<noteq> ev_snapshot_id b)"
    "''FUTURE_DATA_CONFLICT'' \<in> set (cr_reason_codes r) \<longleftrightarrow> (\<exists>a \<in> set es. ev_status a = Ev_FUTURE_DATA)"
    "''SYNTHETIC_REAL_CONFLICT'' \<in> set (cr_reason_codes r) \<longleftrightarrow>
       (\<exists>a \<in> set es. \<exists>b \<in> set es. ev_synthetic_status a \<in> {REAL_VERIFIED, FIXTURE_REAL_EXCERPT} \<and>
          ev_synthetic_status b = SYNTHETIC_TEST_ONLY)"
    unfolding mem using set_reason [of _ es] set_reasons_mem [of es] two
    by (simp_all add: SET_REASONS_def)
  have fields: "\<forall>(f, c) \<in> set COMPARISONS. c \<in> set (cr_reason_codes r) \<longleftrightarrow>
      (\<exists>i j. i < j \<and> j < length es \<and> same_subject (es ! i) (es ! j) \<and> field_conflict f (es ! i) (es ! j))"
    unfolding mem using field_reason by blast
  have order: "cr_reason_codes r = filter (\<lambda>c. c \<in> set (cr_reason_codes r)) REASON_ORDER"
    unfolding mem by (rule r(1))
  from fields scope r(2,3) order show ?thesis by blast
qed

definition demo_fact :: "uuid \<Rightarrow> int \<Rightarrow> evidence" where
  "demo_fact i v = ledger_admit i (demo_context []) (demo_observation Obs_PASS) STRUCTURED_FACT_EVIDENCE
     (plain_source ''facts'' i [] [] True ''sec'' ''snap''
       [(''metric_code'', PStr ''REVENUE''), (''period'', PStr ''2025''), (''value'', PInt v)])
     REAL_VERIFIED True 0"

theorem conflict_detection_exact_witness:
  "\<exists>r. detect [demo_fact ''e2'' 1, demo_fact ''e1'' 2] = Inr r \<and> cr_conflicting r \<and>
     cr_reason_codes r = [''VALUE_CONFLICT''] \<and> cr_evidence_ids r = [''e1'', ''e2'']"
proof -
  have "detect [demo_fact ''e2'' 1, demo_fact ''e1'' 2] =
      Inr \<lparr>cr_conflicting = True, cr_reason_codes = [''VALUE_CONFLICT''], cr_evidence_ids = [''e1'', ''e2'']\<rparr>"
    by code_simp
  from conflict_detection_exact [OF this] this show ?thesis by auto
qed

end
