(* ===== verification/Claims.thy ===== *)
theory Claims
  imports Evidence_Ledger
begin

text \<open>
  Deterministic claims (\<open>domain/research_agent/claims.py\<close>): the builder that proposes a candidate
  claim for a piece of evidence, the validator that alone assigns support, and the pipeline that
  persists both (\<open>domain/research_agent/claim_pipeline.py\<close>). The repository of the pipeline is
  the SQLAlchemy one.
\<close>

section \<open>Contracts\<close>

record claim_proposal = claim_write +
  cp_proposed_evidence_ids :: "uuid list"

record claim_validation =
  cv_completion :: claim_completion
  cv_links :: "evidence_link list"

definition numeric_claim :: "claim_type \<Rightarrow> bool" where
  "numeric_claim t \<longleftrightarrow> t \<in> {Claim_FINANCIAL_FACT, Claim_FINANCIAL_METRIC, Claim_VALUATION_METRIC}"

text \<open>The field constraints of \<open>ResearchClaimWrite\<close> and its \<open>validate_numeric_shape\<close>.\<close>

definition valid_currency :: "string \<Rightarrow> bool" where
  "valid_currency s \<longleftrightarrow> length s = 3 \<and> list_all is_upper s"

definition at_most :: "nat \<Rightarrow> string option \<Rightarrow> bool" where
  "at_most n s \<longleftrightarrow> (case s of None \<Rightarrow> True | Some x \<Rightarrow> text_length x \<le> n)"

definition valid_claim :: "'a claim_write_scheme \<Rightarrow> bool" where
  "valid_claim c \<longleftrightarrow>
     valid_code (cl_statement_code c) \<and>
     (case cl_value c of None \<Rightarrow> True | Some d \<Rightarrow> dec_is_finite d) \<and>
     at_most 32 (cl_unit c) \<and>
     (case cl_currency_code c of None \<Rightarrow> True | Some s \<Rightarrow> valid_currency s) \<and>
     at_most 64 (cl_period c) \<and> at_most 128 (cl_metric_basis c) \<and>
     (numeric_claim (cl_claim_type c) \<longrightarrow>
        cl_value c \<noteq> None \<and> cl_unit c \<noteq> None \<and> cl_period c \<noteq> None \<and> cl_as_of_time c \<noteq> None \<and>
        cl_metric_basis c \<noteq> None) \<and>
     (cl_lifecycle_status c = CANDIDATE \<longrightarrow> cl_support_status c = None)"

section \<open>The builder\<close>

definition payload_text :: "payload \<Rightarrow> string \<Rightarrow> string option" where
  "payload_text p k = (case map_of p k of Some (PStr s) \<Rightarrow> Some s | _ \<Rightarrow> None)"

text \<open>
  \<^verbatim>\<open>str(payload.get(key, default))\<close> as a statement code: the \<open>str\<close> of a JSON value other than a
  string does not match the pattern of \<open>Code\<close>, and neither does the empty text.
\<close>

definition code_text :: "payload \<Rightarrow> string \<Rightarrow> code \<Rightarrow> string" where
  "code_text p k d = (case map_of p k of None \<Rightarrow> d | Some (PStr s) \<Rightarrow> s | Some _ \<Rightarrow> [])"

fun replace_z :: "string \<Rightarrow> string" where
  "replace_z [] = []"
| "replace_z (c # cs) = (if c = CHR ''Z'' then ''+00:00'' @ replace_z cs else c # replace_z cs)"

definition IDENTITY_KEYS :: "string list" where
  "IDENTITY_KEYS = [''security_id'', ''issuer'', ''symbol'', ''exchange'']"

definition identity_fields :: "payload \<Rightarrow> bool" where
  "identity_fields p \<longleftrightarrow> list_all (\<lambda>k. k \<in> set (map fst p)) IDENTITY_KEYS"

definition candidate_claim ::
  "env \<Rightarrow> evidence \<Rightarrow> datetime \<Rightarrow> claim_type \<Rightarrow> string \<Rightarrow> claim_proposal \<times> env" where
  "candidate_claim w ev created ct statement =
     (let (i, w1) = next_id w in
      (\<lparr>cl_id = i, cl_run_id = ev_run_id ev, cl_claim_type = ct, cl_lifecycle_status = CANDIDATE,
        cl_support_status = None, cl_statement_code = statement, cl_value = None, cl_unit = None,
        cl_currency_code = None, cl_period = None, cl_as_of_time = None, cl_metric_basis = None,
        cl_builder_version = ''deterministic-claim-builder-v1'', cl_validator_version = None,
        cl_created_at = created, cl_completed_at = None,
        cp_proposed_evidence_ids = [ev_id ev]\<rparr>, w1))"

definition checked_proposal :: "claim_proposal \<times> env \<Rightarrow> (claim_proposal \<times> env) res" where
  "checked_proposal pw =
     (if valid_claim (fst pw) \<and> length (cp_proposed_evidence_ids (fst pw)) \<le> 100 then Inr pw
      else Inl ValidationError)"

definition basic_claim ::
  "env \<Rightarrow> evidence \<Rightarrow> datetime \<Rightarrow> claim_type \<Rightarrow> string \<Rightarrow> (claim_proposal \<times> env) res" where
  "basic_claim w ev created ct statement = checked_proposal (candidate_claim w ev created ct statement)"

text \<open>
  \<open>_numeric\<close>: a missing or non-text input, a text that is not a decimal, a value that is not
  finite or a text that is not a time give no numeric claim. A time that is naive or not in UTC is
  only seen by the contract, which raises.
\<close>

record numeric_inputs =
  ni_value :: decimal
  ni_unit :: string
  ni_period :: string
  ni_as_of :: iso_time
  ni_basis :: string
  ni_code :: string

definition numeric_inputs_of :: "pylib \<Rightarrow> payload \<Rightarrow> numeric_inputs option" where
  "numeric_inputs_of L p =
     (case (payload_text p ''value'', payload_text p ''unit'', payload_text p ''period'',
            payload_text p ''as_of_time'', payload_text p ''metric_basis'', payload_text p ''metric_code'') of
        (Some v, Some u, Some pe, Some a, Some b, Some c) \<Rightarrow>
          (case lib_decimal L v of None \<Rightarrow> None
           | Some d \<Rightarrow>
              if \<not> dec_is_finite d then None
              else (case lib_fromisoformat L (replace_z a) of None \<Rightarrow> None
                    | Some t \<Rightarrow> Some \<lparr>ni_value = d, ni_unit = u, ni_period = pe, ni_as_of = t,
                                     ni_basis = b, ni_code = c\<rparr>))
      | _ \<Rightarrow> None)"

definition numeric_claim_of ::
  "pylib \<Rightarrow> env \<Rightarrow> evidence \<Rightarrow> datetime \<Rightarrow> (claim_proposal \<times> env) res option" where
  "numeric_claim_of L w ev created =
     (case numeric_inputs_of L (ev_payload ev) of None \<Rightarrow> None
      | Some n \<Rightarrow> Some
         (let ct = (if ev_evidence_type ev = DERIVED_METRIC_EVIDENCE then Claim_FINANCIAL_METRIC
                    else Claim_FINANCIAL_FACT);
              (c, w1) = candidate_claim w ev created ct (ni_code n) in
          case ni_as_of n of
            IsoAware off t \<Rightarrow>
              if off \<noteq> 0 then Inl ValidationError
              else checked_proposal
                (c\<lparr>cl_value := Some (ni_value n), cl_unit := Some (ni_unit n),
                   cl_currency_code := payload_text (ev_payload ev) ''currency_code'',
                   cl_period := Some (ni_period n), cl_as_of_time := Some t,
                   cl_metric_basis := Some (ni_basis n)\<rparr>, w1)
          | IsoNaive _ \<Rightarrow> Inl ValidationError))"

definition some_claim :: "(claim_proposal \<times> env) res \<Rightarrow> (claim_proposal option \<times> env) res" where
  "some_claim r = bind_res r (\<lambda>(c, w). Inr (Some c, w))"

definition propose ::
  "pylib \<Rightarrow> env \<Rightarrow> evidence \<Rightarrow> datetime \<Rightarrow> research_mode \<Rightarrow> (claim_proposal option \<times> env) res" where
  "propose L w ev created mode =
     (if ev_evidence_type ev = BLOCKED_CAPABILITY_EVIDENCE
      then some_claim (basic_claim w ev created Claim_LIMITATION
             (code_text (ev_payload ev) ''capability_code'' ''CAPABILITY_BLOCKED''))
      else if ev_status ev \<noteq> Ev_VALID then Inr (None, w)
      else if ev_synthetic_status ev = Synthetic_UNKNOWN \<or>
        (ev_synthetic_status ev = SYNTHETIC_TEST_ONLY \<and> mode \<noteq> Mode_SYNTHETIC_TEST_ONLY)
      then Inr (None, w)
      else (case ev_evidence_type ev of
        SECURITY_MASTER_EVIDENCE \<Rightarrow>
          if identity_fields (ev_payload ev)
          then some_claim (basic_claim w ev created Claim_IDENTITY ''SECURITY_IDENTITY'') else Inr (None, w)
      | DATA_QUALITY_EVIDENCE \<Rightarrow>
          some_claim (basic_claim w ev created Claim_DATA_QUALITY
            (code_text (ev_payload ev) ''quality_code'' ''DATA_QUALITY_LIMITATION''))
      | DERIVED_METRIC_EVIDENCE \<Rightarrow>
          some_claim (case numeric_claim_of L w ev created of Some r \<Rightarrow> r
            | None \<Rightarrow> basic_claim w ev created Claim_LIMITATION ''METRIC_INPUT_INCOMPLETE'')
      | STRUCTURED_FACT_EVIDENCE \<Rightarrow>
          some_claim (case numeric_claim_of L w ev created of Some r \<Rightarrow> r
            | None \<Rightarrow> basic_claim w ev created Claim_LIMITATION ''METRIC_INPUT_INCOMPLETE'')
      | DOCUMENT_CITATION_EVIDENCE \<Rightarrow>
          (case payload_text (ev_payload ev) ''disclosure_code'' of None \<Rightarrow> Inr (None, w)
           | Some c \<Rightarrow> some_claim (basic_claim w ev created Claim_DOCUMENT_DISCLOSURE c))
      | CORPORATE_ACTION_EVIDENCE \<Rightarrow>
          (case payload_text (ev_payload ev) ''action_code'' of None \<Rightarrow> Inr (None, w)
           | Some c \<Rightarrow> some_claim (basic_claim w ev created Claim_CORPORATE_ACTION c))
      | _ \<Rightarrow> Inr (None, w)))"

fun propose_claims ::
  "pylib \<Rightarrow> env \<Rightarrow> uuid \<Rightarrow> evidence list \<Rightarrow> datetime \<Rightarrow> research_mode
    \<Rightarrow> (claim_proposal list \<times> env) res" where
  "propose_claims L w run [] created mode = Inr ([], w)"
| "propose_claims L w run (e # es) created mode =
     (if ev_run_id e \<noteq> run then propose_claims L w run es created mode
      else bind_res (propose L w e created mode) (\<lambda>(c, w1).
        bind_res (propose_claims L w1 run es created mode) (\<lambda>(cs, w2).
          Inr (case c of None \<Rightarrow> cs | Some p \<Rightarrow> p # cs, w2))))"

section \<open>The support validator\<close>

text \<open>\<open>_metric_matches_claim\<close>: comparing a signaling NaN with a number raises.\<close>

definition metric_matches_claim :: "pylib \<Rightarrow> claim_proposal \<Rightarrow> evidence \<Rightarrow> bool res" where
  "metric_matches_claim L c ev =
     (if ev_evidence_type ev \<notin> {DERIVED_METRIC_EVIDENCE, STRUCTURED_FACT_EVIDENCE} then Inr False
      else if cl_claim_type c \<in> {Claim_FINANCIAL_METRIC, Claim_VALUATION_METRIC} \<and>
        (ev_calculation_run_id ev = None \<or> ev_calculation_input_ids ev = [] \<or> ev_formula_version ev = None)
      then Inr False
      else (case (payload_text (ev_payload ev) ''value'', payload_text (ev_payload ev) ''as_of_time'') of
        (Some v, Some a) \<Rightarrow>
          (case (lib_decimal L v, lib_fromisoformat L (replace_z a)) of
             (Some d, Some t) \<Rightarrow>
               if d = DSNaN \<and> cl_value c \<noteq> None then Inl InvalidOperation
               else Inr
                 ((case cl_value c of None \<Rightarrow> False | Some x \<Rightarrow> dec_eq d x) \<and>
                  py_eq (payload_get (ev_payload ev) ''unit'') (opt_val PStr (cl_unit c)) \<and>
                  py_eq (payload_get (ev_payload ev) ''period'') (opt_val PStr (cl_period c)) \<and>
                  (case t of IsoNaive _ \<Rightarrow> False | IsoAware _ instant \<Rightarrow> cl_as_of_time c = Some instant) \<and>
                  py_eq (payload_get (ev_payload ev) ''metric_basis'') (opt_val PStr (cl_metric_basis c)) \<and>
                  (cl_claim_type c = Claim_FINANCIAL_FACT \<or> ev_formula_version ev = cl_metric_basis c))
           | _ \<Rightarrow> Inr False)
      | _ \<Rightarrow> Inr False))"

fun any_res :: "('a \<Rightarrow> bool res) \<Rightarrow> 'a list \<Rightarrow> bool res" where
  "any_res f [] = Inr False"
| "any_res f (x # xs) = bind_res (f x) (\<lambda>b. if b then Inr True else any_res f xs)"

definition claim_blocked_by :: "evidence \<Rightarrow> bool" where
  "claim_blocked_by e \<longleftrightarrow> ev_evidence_type e = BLOCKED_CAPABILITY_EVIDENCE \<or> ev_status e = Ev_BLOCKED"

definition documents :: "evidence list \<Rightarrow> evidence list" where
  "documents es = filter (\<lambda>e. ev_evidence_type e = DOCUMENT_CITATION_EVIDENCE) es"

definition support :: "pylib \<Rightarrow> claim_proposal \<Rightarrow> evidence list \<Rightarrow> bool \<Rightarrow> (claim_support \<times> evidence_role) res" where
  "support L c es real_research =
     (if es = [] then Inr (UNSUPPORTED, CONTEXT)
      else if list_ex (\<lambda>e. ev_status e = Ev_CONFLICTING) es then Inr (CONFLICTING, CONTRADICTING)
      else if list_ex claim_blocked_by es then
        Inr (if cl_claim_type c \<in> {Claim_DATA_QUALITY, Claim_LIMITATION} then (BLOCKED, LIMITATION)
             else (UNSUPPORTED, CONTEXT))
      else if list_ex (\<lambda>e. ev_status e \<noteq> Ev_VALID) es then Inr (UNSUPPORTED, CONTEXT)
      else if real_research \<and>
        list_ex (\<lambda>e. ev_synthetic_status e \<in> {SYNTHETIC_TEST_ONLY, Synthetic_UNKNOWN}) es
      then Inr (UNSUPPORTED, CONTEXT)
      else if cl_claim_type c = Claim_IDENTITY then
        Inr (if list_ex (\<lambda>e. ev_evidence_type e = SECURITY_MASTER_EVIDENCE \<and> identity_fields (ev_payload e)) es
             then SUPPORTED else UNSUPPORTED, PRIMARY)
      else if numeric_claim (cl_claim_type c) then
        bind_res (any_res (metric_matches_claim L c) es) (\<lambda>b.
          Inr (if b then (SUPPORTED, PRIMARY) else (PARTIALLY_SUPPORTED, CONTEXT)))
      else if cl_claim_type c = Claim_DOCUMENT_DISCLOSURE then
        (if list_ex (\<lambda>e. ev_published_at e = None) (documents es) then Inr (BLOCKED, LIMITATION)
         else Inr (if list_ex (\<lambda>e. ev_citation_id e \<noteq> None \<and>
                py_eq (payload_get (ev_payload e) ''disclosure_code'') (PStr (cl_statement_code c))) (documents es)
              then SUPPORTED else UNSUPPORTED, PRIMARY))
      else if cl_claim_type c \<in> {Claim_DATA_QUALITY, Claim_LIMITATION} then Inr (SUPPORTED, PRIMARY)
      else Inr (UNSUPPORTED, CONTEXT))"

definition linkable :: "evidence \<Rightarrow> claim_support \<Rightarrow> claim_type \<Rightarrow> bool" where
  "linkable e s ct =
     (if s = SUPPORTED then ev_status e = Ev_VALID
      else if s \<in> {CONFLICTING, BLOCKED} then True
      else ct \<in> {Claim_DATA_QUALITY, Claim_LIMITATION})"

text \<open>The dictionary filled by \<open>setdefault\<close>: the first evidence of each identifier, in order.\<close>

fun unique_by_id :: "evidence list \<Rightarrow> evidence list" where
  "unique_by_id [] = []"
| "unique_by_id (e # es) = e # filter (\<lambda>f. ev_id f \<noteq> ev_id e) (unique_by_id es)"

definition selected_evidence :: "claim_proposal \<Rightarrow> evidence list \<Rightarrow> evidence list" where
  "selected_evidence c es =
     unique_by_id (filter (\<lambda>e. ev_run_id e = cl_run_id c \<and> ev_id e \<in> set (cp_proposed_evidence_ids c)) es)"

fun make_links ::
  "env \<Rightarrow> claim_proposal \<Rightarrow> evidence_role \<Rightarrow> datetime \<Rightarrow> evidence list \<Rightarrow> evidence_link list \<times> env" where
  "make_links w c role t [] = ([], w)"
| "make_links w c role t (e # es) =
     (let (i, w1) = next_id w; (ls, w2) = make_links w1 c role t es in
      (\<lparr>lk_id = i, lk_run_id = cl_run_id c, lk_claim_id = cl_id c, lk_evidence_id = ev_id e,
        lk_role = role, lk_created_at = t\<rparr> # ls, w2))"

definition validate_claim ::
  "pylib \<Rightarrow> env \<Rightarrow> claim_proposal \<Rightarrow> evidence list \<Rightarrow> datetime \<Rightarrow> bool \<Rightarrow> (claim_validation \<times> env) res" where
  "validate_claim L w c es t real_research =
     (let selected = selected_evidence c es in
      bind_res (support L c selected real_research) (\<lambda>(s, role).
        let (links, w1) = make_links w c role t (filter (\<lambda>e. linkable e s (cl_claim_type c)) selected) in
        if length links > 100 then Inl ValidationError
        else Inr (\<lparr>cv_completion = \<lparr>cc_lifecycle_status = VALIDATED, cc_support_status = s,
                     cc_validator_version = ''claim-support-validator-v1'', cc_completed_at = t\<rparr>,
                   cv_links = links\<rparr>, w1)))"

section \<open>The pipeline\<close>

definition persist_links :: "research_db \<Rightarrow> evidence_link list \<Rightarrow> research_db res" where
  "persist_links db ls =
     (if ls = [] then Inr db else bind_res (add_links db ls) (\<lambda>(_, db1). Inr db1))"

definition complete_proposal ::
  "pylib \<Rightarrow> evidence list \<Rightarrow> research_mode \<Rightarrow> claim_proposal \<Rightarrow> research_db \<times> env
    \<Rightarrow> (claim_write \<times> research_db \<times> env) res" where
  "complete_proposal L es mode p dbw =
     bind_res (add_claim L (fst dbw) (claim_write.truncate p)) (\<lambda>(_, db1).
       let (t, w1) = next_now (snd dbw) in
       bind_res (validate_claim L w1 p es t (mode = REAL_RESEARCH)) (\<lambda>(v, w2).
         bind_res (persist_links db1 (cv_links v)) (\<lambda>db2.
           bind_res (complete_claim db2 (cl_id p) (cv_completion v)) (\<lambda>(r, db3).
             Inr (r, db3, w2)))))"

fun complete_proposals ::
  "pylib \<Rightarrow> evidence list \<Rightarrow> research_mode \<Rightarrow> claim_proposal list \<Rightarrow> research_db \<times> env
    \<Rightarrow> (claim_write list \<times> research_db \<times> env) res" where
  "complete_proposals L es mode [] dbw = Inr ([], dbw)"
| "complete_proposals L es mode (p # ps) dbw =
     bind_res (complete_proposal L es mode p dbw) (\<lambda>(r, dbw1).
       bind_res (complete_proposals L es mode ps dbw1) (\<lambda>(rs, dbw2). Inr (r # rs, dbw2)))"

definition build_and_validate ::
  "pylib \<Rightarrow> research_db \<times> env \<Rightarrow> uuid \<Rightarrow> research_mode \<Rightarrow> (claim_write list \<times> research_db \<times> env) res" where
  "build_and_validate L dbw run mode =
     (let es = list_evidence (fst dbw) run; (t, w1) = next_now (snd dbw) in
      bind_res (propose_claims L w1 run es t mode) (\<lambda>(ps, w2).
        complete_proposals L es mode ps (fst dbw, w2)))"

section \<open>What support means\<close>

text \<open>
  Evidence backs a numeric claim: a fact or a metric whose value is numerically the claim's, with
  the same unit, period, instant and basis; a metric claim also needs the calculation, its inputs,
  and a formula version that is the claim's basis.
\<close>

definition numeric_backing :: "pylib \<Rightarrow> claim_proposal \<Rightarrow> evidence \<Rightarrow> bool" where
  "numeric_backing L c e \<longleftrightarrow>
     ev_evidence_type e \<in> {DERIVED_METRIC_EVIDENCE, STRUCTURED_FACT_EVIDENCE} \<and>
     (cl_claim_type c \<noteq> Claim_FINANCIAL_FACT \<longrightarrow>
        ev_calculation_run_id e \<noteq> None \<and> ev_calculation_input_ids e \<noteq> [] \<and>
        ev_formula_version e \<noteq> None \<and> ev_formula_version e = cl_metric_basis c) \<and>
     (\<exists>v a d x off t. payload_text (ev_payload e) ''value'' = Some v \<and> lib_decimal L v = Some d \<and>
        cl_value c = Some x \<and> dec_eq d x \<and>
        payload_text (ev_payload e) ''as_of_time'' = Some a \<and>
        lib_fromisoformat L (replace_z a) = Some (IsoAware off t) \<and> cl_as_of_time c = Some t) \<and>
     py_eq (payload_get (ev_payload e) ''unit'') (opt_val PStr (cl_unit c)) \<and>
     py_eq (payload_get (ev_payload e) ''period'') (opt_val PStr (cl_period c)) \<and>
     py_eq (payload_get (ev_payload e) ''metric_basis'') (opt_val PStr (cl_metric_basis c))"

definition identity_backing :: "evidence \<Rightarrow> bool" where
  "identity_backing e \<longleftrightarrow>
     ev_evidence_type e = SECURITY_MASTER_EVIDENCE \<and> identity_fields (ev_payload e)"

definition disclosure_backing :: "claim_proposal \<Rightarrow> evidence \<Rightarrow> bool" where
  "disclosure_backing c e \<longleftrightarrow>
     ev_evidence_type e = DOCUMENT_CITATION_EVIDENCE \<and> ev_citation_id e \<noteq> None \<and>
     ev_published_at e \<noteq> None \<and>
     map_of (ev_payload e) ''disclosure_code'' = Some (PStr (cl_statement_code c))"

definition usable_evidence :: "bool \<Rightarrow> evidence \<Rightarrow> bool" where
  "usable_evidence real_research e \<longleftrightarrow>
     ev_status e = Ev_VALID \<and> ev_evidence_type e \<noteq> BLOCKED_CAPABILITY_EVIDENCE \<and>
     (real_research \<longrightarrow> ev_synthetic_status e \<in> {REAL_VERIFIED, FIXTURE_REAL_EXCERPT})"

fun claim_backed :: "pylib \<Rightarrow> claim_proposal \<Rightarrow> claim_type \<Rightarrow> evidence list \<Rightarrow> bool" where
  "claim_backed L c Claim_IDENTITY es = list_ex identity_backing es"
| "claim_backed L c Claim_DOCUMENT_DISCLOSURE es =
     (list_ex (disclosure_backing c) es \<and>
      list_all (\<lambda>e. ev_evidence_type e = DOCUMENT_CITATION_EVIDENCE \<longrightarrow> ev_published_at e \<noteq> None) es)"
| "claim_backed L c Claim_CORPORATE_ACTION es = False"
| "claim_backed L c Claim_DATA_QUALITY es = True"
| "claim_backed L c Claim_LIMITATION es = True"
| "claim_backed L c _ es = list_ex (numeric_backing L c) es"

lemma dec_eq_not_signaling: "dec_eq d x \<Longrightarrow> d \<noteq> DSNaN"
  by (cases d) auto

lemma metric_matches_exact:
  assumes "metric_matches_claim L c e = Inr b" and "numeric_claim (cl_claim_type c)"
  shows "b \<longleftrightarrow> numeric_backing L c e"
  using assms
  by (auto simp: metric_matches_claim_def numeric_backing_def numeric_claim_def
      split: if_splits option.splits iso_time.splits)

lemma any_res_exact: "any_res f xs = Inr b \<Longrightarrow> (\<And>x b. x \<in> set xs \<Longrightarrow> f x = Inr b \<Longrightarrow> b = P x) \<Longrightarrow>
   b \<longleftrightarrow> list_ex P xs"
  by (induction xs) (auto split: if_splits)

lemma py_eq_text: "py_eq v (PStr s) \<longleftrightarrow> v = PStr s"
  by (cases v) auto

lemma payload_get_text: "payload_get p k = PStr s \<longleftrightarrow> map_of p k = Some (PStr s)"
  by (auto simp: payload_get_def dict_get_def split: option.splits)

lemma document_backed_eq:
  "claim_backed L c Claim_DOCUMENT_DISCLOSURE es \<longleftrightarrow>
   \<not> list_ex (\<lambda>e. ev_published_at e = None) (documents es) \<and>
   list_ex (\<lambda>e. ev_citation_id e \<noteq> None \<and>
     py_eq (payload_get (ev_payload e) ''disclosure_code'') (PStr (cl_statement_code c))) (documents es)"
  by (auto simp: list_ex_iff list_all_iff documents_def disclosure_backing_def py_eq_text payload_get_text)

lemma support_exact:
  assumes "support L c es real_research = Inr (s, role)"
  shows "s = SUPPORTED \<longleftrightarrow>
    es \<noteq> [] \<and> list_all (usable_evidence real_research) es \<and> claim_backed L c (cl_claim_type c) es"
proof -
  have syn: "x \<in> {REAL_VERIFIED, FIXTURE_REAL_EXCERPT} \<longleftrightarrow> x \<notin> {SYNTHETIC_TEST_ONLY, Synthetic_UNKNOWN}" for x
    by (cases x) auto
  have usable: "list_all (usable_evidence real_research) es \<longleftrightarrow>
      \<not> list_ex (\<lambda>e. ev_status e = Ev_CONFLICTING) es \<and> \<not> list_ex claim_blocked_by es \<and>
      \<not> list_ex (\<lambda>e. ev_status e \<noteq> Ev_VALID) es \<and>
      \<not> (real_research \<and> list_ex (\<lambda>e. ev_synthetic_status e \<in> {SYNTHETIC_TEST_ONLY, Synthetic_UNKNOWN}) es)"
    unfolding list_all_iff list_ex_iff usable_evidence_def claim_blocked_by_def syn by auto
  have num: "b \<longleftrightarrow> list_ex (numeric_backing L c) es"
    if "any_res (metric_matches_claim L c) es = Inr b" "numeric_claim (cl_claim_type c)" for b
    by (rule any_res_exact [OF that(1)]) (auto dest: metric_matches_exact [OF _ that(2)])
  show ?thesis
  proof (cases "es \<noteq> [] \<and> list_all (usable_evidence real_research) es")
    case False
    then show ?thesis using assms unfolding usable
      by (auto simp: support_def split: if_splits)
  next
    case True
    moreover have "list_ex identity_backing es \<longleftrightarrow> list_ex (\<lambda>e. ev_evidence_type e = SECURITY_MASTER_EVIDENCE \<and>
        identity_fields (ev_payload e)) es"
      by (simp add: list_ex_iff identity_backing_def)
    ultimately show ?thesis
      using assms num unfolding usable
      by (cases "cl_claim_type c")
        (auto simp: support_def numeric_claim_def document_backed_eq simp del: claim_backed.simps(2)
          split: if_splits)
  qed
qed

section \<open>Links\<close>

lemma make_links_ids: "map lk_evidence_id (fst (make_links w c role t es)) = map ev_id es"
  by (induction es arbitrary: w) (auto simp: Let_def case_prod_beta)

lemma make_links_shape:
  "l \<in> set (fst (make_links w c role t es)) \<Longrightarrow>
   lk_claim_id l = cl_id c \<and> lk_run_id l = cl_run_id c \<and> lk_role l = role"
  by (induction es arbitrary: w) (auto simp: Let_def case_prod_beta)

lemma set_unique_by_id: "set (unique_by_id es) \<subseteq> set es"
  by (induction es) auto

lemma distinct_unique_by_id: "distinct (map ev_id (unique_by_id es))"
  by (induction es) (auto simp: distinct_map_filter)

lemma selected_evidence_mem:
  "e \<in> set (selected_evidence c es) \<Longrightarrow>
   e \<in> set es \<and> ev_run_id e = cl_run_id c \<and> ev_id e \<in> set (cp_proposed_evidence_ids c)"
  unfolding selected_evidence_def using set_unique_by_id by fastforce

lemma validate_claim_Inr:
  assumes "validate_claim L w c es t real_research = Inr (v, w')"
  shows "\<exists>role. support L c (selected_evidence c es) real_research =
      Inr (cc_support_status (cv_completion v), role) \<and>
    cv_links v = fst (make_links w c role t
      (filter (\<lambda>e. linkable e (cc_support_status (cv_completion v)) (cl_claim_type c)) (selected_evidence c es))) \<and>
    cc_lifecycle_status (cv_completion v) = VALIDATED"
  using assms by (auto simp: validate_claim_def Let_def case_prod_beta split: if_splits)

lemma supported_links_cover:
  assumes "validate_claim L w c es t real_research = Inr (v, w')"
    and "cc_support_status (cv_completion v) = SUPPORTED"
  shows "map lk_evidence_id (cv_links v) = map ev_id (selected_evidence c es) \<and>
    selected_evidence c es \<noteq> [] \<and> list_all (usable_evidence real_research) (selected_evidence c es)"
proof -
  from validate_claim_Inr [OF assms(1)] obtain role where
    s: "support L c (selected_evidence c es) real_research = Inr (SUPPORTED, role)" and
    l: "cv_links v = fst (make_links w c role t
      (filter (\<lambda>e. linkable e SUPPORTED (cl_claim_type c)) (selected_evidence c es)))"
    using assms(2) by auto
  from support_exact [OF s] have ok: "selected_evidence c es \<noteq> []"
    "list_all (usable_evidence real_research) (selected_evidence c es)" by auto
  then have "filter (\<lambda>e. linkable e SUPPORTED (cl_claim_type c)) (selected_evidence c es) = selected_evidence c es"
    by (auto simp: filter_id_conv list_all_iff linkable_def usable_evidence_def)
  with l ok show ?thesis by (simp add: make_links_ids)
qed

lemma validate_claim_links:
  assumes "validate_claim L w c es t real_research = Inr (v, w')"
  shows "\<forall>l \<in> set (cv_links v). lk_claim_id l = cl_id c \<and> lk_run_id l = cl_run_id c"
  using validate_claim_Inr [OF assms] make_links_shape by metis


definition demo_metric :: evidence where
  "demo_metric = \<lparr>ev_id = ''e1'', ev_run_id = ''r1'', ev_observation_id = ''o1'',
     ev_evidence_type = DERIVED_METRIC_EVIDENCE, ev_status = Ev_VALID, ev_schema_version = ''evidence-v1'',
     ev_security_id = ''sec'', ev_snapshot_id = ''snap'', ev_research_as_of_time = 1000,
     ev_source_record_type = None, ev_source_record_id = None, ev_source_checksum = None,
     ev_published_at = None, ev_citation_id = None, ev_calculation_run_id = Some ''c1'',
     ev_calculation_input_ids = [''f1''], ev_formula_version = Some ''roe-v1'',
     ev_synthetic_status = REAL_VERIFIED,
     ev_payload = [(''value'', PStr ''1.5''), (''unit'', PStr ''RATIO''), (''period'', PStr ''2025FY''),
       (''as_of_time'', PStr ''2026-01-01T00:00:00Z''), (''metric_basis'', PStr ''roe-v1''),
       (''metric_code'', PStr ''ROE'')],
     ev_warning_codes = [], ev_created_at = 0\<rparr>"


section \<open>What the pipeline leaves behind\<close>

lemma claim_record_sel [simp]:
  "cl_id (claim_record r) = cl_id r" "cl_run_id (claim_record r) = cl_run_id r"
  "cl_lifecycle_status (claim_record r) = cl_lifecycle_status r"
  "cl_support_status (claim_record r) = cl_support_status r"
  "cl_claim_type (claim_record r) = cl_claim_type r"
  by (cases r; simp add: claim_record_def claim_write.truncate_def)+

lemma find_update_last:
  "\<not> list_ex P xs \<Longrightarrow> P y \<Longrightarrow> List.find P (xs @ [y]) = Some y \<and> update_first P f (xs @ [y]) = xs @ [f y]"
  by (induction xs) auto

lemma add_link_rows_eq: "add_link_rows table ls = Inr t \<Longrightarrow> t = table @ ls"
  by (induction table ls rule: add_link_rows.induct) (auto split: if_splits)

lemma list_evidence_mem: "e \<in> set (list_evidence db run) \<longleftrightarrow> e \<in> set (db_evidence db) \<and> ev_run_id e = run"
  by (auto simp: list_evidence_def order_by2_def)

lemma add_claim_Inr:
  "add_claim L db c = Inr (c', db') \<Longrightarrow>
   c' = c \<and> (\<forall>x \<in> set (db_claims db). cl_id x \<noteq> cl_id c) \<and>
   (\<exists>key. db' = db\<lparr>db_claims := db_claims db @ [claim_write.extend c (claim_row.fields key)]\<rparr>)"
  by (force simp: add_claim_def image_iff split: if_splits)

lemma truncate_claim_id [simp]: "cl_id (claim_write.truncate p) = cl_id p"
  by (simp add: claim_write.truncate_def)

text \<open>A stored claim, and the evidence a supported one is linked to.\<close>

definition recorded_claim ::
  "evidence list \<Rightarrow> bool \<Rightarrow> research_db \<Rightarrow> claim_write \<Rightarrow> bool" where
  "recorded_claim es real_research db r \<longleftrightarrow>
     cl_lifecycle_status r = VALIDATED \<and> r \<in> claim_record ` set (db_claims db) \<and>
     (cl_support_status r = Some SUPPORTED \<longrightarrow>
        (\<exists>l \<in> set (db_links db). lk_claim_id l = cl_id r \<and>
           (\<exists>e \<in> set es. ev_id e = lk_evidence_id l \<and> ev_run_id e = cl_run_id r \<and>
              usable_evidence real_research e)))"

lemma complete_proposal_effect:
  assumes "complete_proposal L es mode p (db, w) = Inr (r, db', w')"
  shows "cl_run_id r = cl_run_id p \<and> cl_id r = cl_id p \<and> cl_claim_type r = cl_claim_type p \<and>
    recorded_claim es (mode = REAL_RESEARCH) db' r \<and>
    (\<exists>row ls. db' = db\<lparr>db_claims := db_claims db @ [row], db_links := db_links db @ ls\<rparr>)"
proof -
  from assms obtain db1 t w1 v db2 c1 where
    a: "add_claim L db (claim_write.truncate p) = Inr (c1, db1)" and
    v: "validate_claim L w1 p es t (mode = REAL_RESEARCH) = Inr (v, w')" and
    l: "persist_links db1 (cv_links v) = Inr db2" and
    c: "complete_claim db2 (cl_id p) (cv_completion v) = Inr (r, db')"
    by (auto simp: complete_proposal_def Let_def case_prod_beta)
  from a obtain key where fresh: "\<not> list_ex (\<lambda>x. cl_id x = cl_id p) (db_claims db)" and
    db1: "db1 = db\<lparr>db_claims := db_claims db @ [claim_write.extend (claim_write.truncate p) (claim_row.fields key)]\<rparr>"
    using add_claim_Inr by (fastforce simp: list_ex_iff)
  from l have db2: "db2 = db1\<lparr>db_links := db_links db1 @ cv_links v\<rparr>"
    by (auto simp: persist_links_def add_links_def dest: add_link_rows_eq split: if_splits)
  let ?row = "claim_write.extend (claim_write.truncate p) (claim_row.fields key) :: claim_row"
  let ?new = "?row\<lparr>cl_lifecycle_status := cc_lifecycle_status (cv_completion v),
     cl_support_status := Some (cc_support_status (cv_completion v)),
     cl_validator_version := Some (cc_validator_version (cv_completion v)),
     cl_completed_at := Some (cc_completed_at (cv_completion v))\<rparr>"
  have "cl_id ?row = cl_id p" by (simp add: claim_write.extend_def claim_write.truncate_def)
  from find_update_last [OF fresh, of ?row] this c have
    r: "r = claim_record ?new" and db': "db' = db2\<lparr>db_claims := db_claims db @ [?new]\<rparr>"
    by (auto simp: complete_claim_def Let_def db1 db2)
  have id: "cl_id r = cl_id p" "cl_run_id r = cl_run_id p" "cl_claim_type r = cl_claim_type p"
    "cl_support_status r = Some (cc_support_status (cv_completion v))"
    "cl_lifecycle_status r = VALIDATED"
    using validate_claim_Inr [OF v] unfolding r
    by (auto simp: claim_write.extend_def claim_write.truncate_def)
  have link: "\<exists>l \<in> set (db_links db'). lk_claim_id l = cl_id r \<and>
      (\<exists>e \<in> set es. ev_id e = lk_evidence_id l \<and> ev_run_id e = cl_run_id r \<and> usable_evidence (mode = REAL_RESEARCH) e)"
    if s: "cc_support_status (cv_completion v) = SUPPORTED"
  proof -
    from supported_links_cover [OF v s] obtain e where e: "e \<in> set (selected_evidence p es)"
      "usable_evidence (mode = REAL_RESEARCH) e" "ev_id e \<in> set (map lk_evidence_id (cv_links v))"
      by (cases "selected_evidence p es") auto
    then obtain l where "l \<in> set (cv_links v)" "lk_evidence_id l = ev_id e" by auto
    moreover from this validate_claim_links [OF v] have "lk_claim_id l = cl_id p" by blast
    moreover have "set (cv_links v) \<subseteq> set (db_links db')" unfolding db' db2 by auto
    ultimately show ?thesis using e(2) selected_evidence_mem [OF e(1)] id(1,2) by (metis subsetD)
  qed
  have "r \<in> claim_record ` set (db_claims db')" unfolding r db' by simp
  then have "recorded_claim es (mode = REAL_RESEARCH) db' r"
    using link id by (auto simp: recorded_claim_def)
  moreover have "db' = db\<lparr>db_claims := db_claims db @ [?new], db_links := db_links db @ cv_links v\<rparr>"
    unfolding db' db2 db1 by simp
  ultimately show ?thesis using id by blast
qed

lemma recorded_claim_mono:
  "recorded_claim es real_research db r \<Longrightarrow>
   set (db_claims db) \<subseteq> set (db_claims db') \<Longrightarrow> set (db_links db) \<subseteq> set (db_links db') \<Longrightarrow>
   recorded_claim es real_research db' r"
  unfolding recorded_claim_def by blast

lemma complete_proposals_effect:
  assumes "complete_proposals L es mode ps (db, w) = Inr (rs, db', w')"
  shows "map cl_id rs = map cl_id ps \<and> map cl_claim_type rs = map cl_claim_type ps \<and>
    map cl_run_id rs = map cl_run_id ps \<and>
    list_all (recorded_claim es (mode = REAL_RESEARCH) db') rs \<and>
    (\<exists>rows ls. db' = db\<lparr>db_claims := db_claims db @ rows, db_links := db_links db @ ls\<rparr>)"
  using assms
proof (induction ps arbitrary: db w rs)
  case Nil
  then show ?case by (auto intro!: exI [of _ "[]"])
next
  case (Cons p ps)
  then obtain r db1 w1 rs' where one: "complete_proposal L es mode p (db, w) = Inr (r, db1, w1)"
    and rest: "complete_proposals L es mode ps (db1, w1) = Inr (rs', db', w')" and rs: "rs = r # rs'"
    by (auto simp: case_prod_beta)
  note IH = Cons.IH [OF rest] and e1 = complete_proposal_effect [OF one]
  then obtain row ls rows ls' where d1: "db1 = db\<lparr>db_claims := db_claims db @ [row], db_links := db_links db @ ls\<rparr>"
    and d2: "db' = db1\<lparr>db_claims := db_claims db1 @ rows, db_links := db_links db1 @ ls'\<rparr>" by blast
  then have db': "db' = db\<lparr>db_claims := db_claims db @ (row # rows), db_links := db_links db @ (ls @ ls')\<rparr>"
    by simp
  have "recorded_claim es (mode = REAL_RESEARCH) db' r"
    using e1 d2 by (auto intro: recorded_claim_mono)
  then show ?case using IH e1 rs db' by auto
qed

lemma checked_proposal_Inr: "checked_proposal pw = Inr r \<Longrightarrow> r = pw \<and> valid_claim (fst pw)"
  by (auto simp: checked_proposal_def split: if_splits)

lemma candidate_claim_sel [simp]:
  "cl_run_id (fst (candidate_claim w ev t ct s)) = ev_run_id ev"
  "cp_proposed_evidence_ids (fst (candidate_claim w ev t ct s)) = [ev_id ev]"
  "cl_claim_type (fst (candidate_claim w ev t ct s)) = ct"
  by (simp_all add: candidate_claim_def Let_def case_prod_beta)

text \<open>Every proposal is about one piece of evidence of its own run.\<close>

definition proposed_from :: "evidence \<Rightarrow> claim_proposal \<Rightarrow> bool" where
  "proposed_from e p \<longleftrightarrow> cl_run_id p = ev_run_id e \<and> cp_proposed_evidence_ids p = [ev_id e] \<and> valid_claim p"

lemma basic_claim_from: "basic_claim w ev t ct s = Inr (p, w') \<Longrightarrow> proposed_from ev p"
  unfolding basic_claim_def proposed_from_def
  by (drule checked_proposal_Inr) (metis candidate_claim_sel(1,2) fst_conv)

lemma numeric_claim_from: "numeric_claim_of L w ev t = Some (Inr (p, w')) \<Longrightarrow> proposed_from ev p"
  unfolding numeric_claim_of_def proposed_from_def
  by (auto simp: Let_def case_prod_beta dest!: checked_proposal_Inr
      split: option.splits iso_time.splits if_splits)

lemma some_claim_Inr:
  "some_claim r = Inr (c, w) \<Longrightarrow> (\<And>p w'. r = Inr (p, w') \<Longrightarrow> proposed_from e p) \<Longrightarrow>
   case c of None \<Rightarrow> True | Some p \<Rightarrow> proposed_from e p"
  by (auto simp: some_claim_def)

lemma propose_from:
  assumes "propose L w ev t mode = Inr (Some p, w')"
  shows "proposed_from ev p"
proof -
  have num: "proposed_from ev q" if
    "(case numeric_claim_of L w ev t of Some r \<Rightarrow> r | None \<Rightarrow> basic_claim w ev t Claim_LIMITATION ''METRIC_INPUT_INCOMPLETE'')
       = Inr (q, w2)" for q w2
    using that basic_claim_from numeric_claim_from by (auto split: option.splits)
  have "case Some p of None \<Rightarrow> True | Some p \<Rightarrow> proposed_from ev p" if "some_claim r = Inr (Some p, w')"
    "\<And>q w2. r = Inr (q, w2) \<Longrightarrow> proposed_from ev q" for r
    by (rule some_claim_Inr [OF that])
  with num basic_claim_from show ?thesis
    using assms unfolding propose_def
    by (auto simp del: some_claim_def split: if_splits evidence_type.splits option.splits)
qed

lemma propose_claims_from:
  "propose_claims L w run es t mode = Inr (ps, w') \<Longrightarrow> p \<in> set ps \<Longrightarrow>
   \<exists>e \<in> set es. ev_run_id e = run \<and> proposed_from e p"
proof (induction es arbitrary: w ps)
  case Nil
  then show ?case by simp
next
  case (Cons e es)
  then show ?case
    by (fastforce simp: case_prod_beta dest: propose_from split: if_splits option.splits)
qed

lemma propose_claims_length:
  "propose_claims L w run es t mode = Inr (ps, w') \<Longrightarrow> length ps \<le> length es"
  by (induction es arbitrary: w ps) (fastforce simp: case_prod_beta split: if_splits option.splits)+

lemma pipeline_recorded:
  assumes "build_and_validate L (db, w) run mode = Inr (rs, db', w')"
  shows "(\<forall>r \<in> set rs. cl_run_id r = run \<and> cl_lifecycle_status r = VALIDATED \<and>
       r \<in> claim_record ` set (db_claims db') \<and>
       (cl_support_status r = Some SUPPORTED \<longrightarrow>
          (\<exists>l \<in> set (db_links db'). lk_claim_id l = cl_id r \<and>
             (\<exists>e \<in> set (db_evidence db). ev_id e = lk_evidence_id l \<and> ev_run_id e = run \<and>
                usable_evidence (mode = REAL_RESEARCH) e)))) \<and>
     length rs \<le> length (list_evidence db run) \<and>
     (\<exists>rows ls. db' = db\<lparr>db_claims := db_claims db @ rows, db_links := db_links db @ ls\<rparr>)"
proof -
  from assms obtain ps t w1 w2 where ps: "propose_claims L w1 run (list_evidence db run) t mode = Inr (ps, w2)"
    and run: "complete_proposals L (list_evidence db run) mode ps (db, w2) = Inr (rs, db', w')"
    by (auto simp: build_and_validate_def Let_def case_prod_beta)
  note eff = complete_proposals_effect [OF run]
  have "cl_run_id p = run" if "p \<in> set ps" for p
    using propose_claims_from [OF ps that] by (auto simp: proposed_from_def)
  then have ids: "cl_run_id r = run" if "r \<in> set rs" for r
    using eff that by (metis image_eqI image_set imageE)
  have rec: "recorded_claim (list_evidence db run) (mode = REAL_RESEARCH) db' r" if "r \<in> set rs" for r
    using eff that by (simp add: list_all_iff)
  have len: "length rs = length ps" using eff by (metis length_map)
  have "length ps \<le> length (list_evidence db run)" by (rule propose_claims_length [OF ps])
  moreover have "cl_lifecycle_status r = VALIDATED \<and> r \<in> claim_record ` set (db_claims db') \<and>
      (cl_support_status r = Some SUPPORTED \<longrightarrow>
         (\<exists>l \<in> set (db_links db'). lk_claim_id l = cl_id r \<and>
            (\<exists>e \<in> set (db_evidence db). ev_id e = lk_evidence_id l \<and> ev_run_id e = run \<and>
               usable_evidence (mode = REAL_RESEARCH) e)))" if "r \<in> set rs" for r
    using rec [OF that] ids [OF that] unfolding recorded_claim_def Bex_def list_evidence_mem by blast
  ultimately show ?thesis using ids len eff by (metis (no_types, lifting))
qed

text \<open>
  C19. When the pipeline returns, it returns one completed claim per proposal, each about one piece
  of evidence of the run. Every returned claim is stored as validated; a supported claim is stored
  with a link to evidence of the run that is valid and, in a real run, not synthetic or of unknown
  origin. The evidence table and all other tables are unchanged, and no stored claim or link is
  changed or removed.
\<close>

theorem pipeline_claims_recorded:
  assumes "build_and_validate L (db, w) run mode = Inr (rs, db', w')"
  shows "(\<forall>r \<in> set rs. cl_run_id r = run \<and> cl_lifecycle_status r = VALIDATED \<and>
       r \<in> claim_record ` set (db_claims db') \<and>
       (cl_support_status r = Some SUPPORTED \<longrightarrow>
          (\<exists>l \<in> set (db_links db'). lk_claim_id l = cl_id r \<and>
             (\<exists>e \<in> set (db_evidence db). ev_id e = lk_evidence_id l \<and> ev_run_id e = run \<and>
                usable_evidence (mode = REAL_RESEARCH) e)))) \<and>
     length rs \<le> length (list_evidence db run) \<and>
     (\<exists>rows ls. db' = db\<lparr>db_claims := db_claims db @ rows, db_links := db_links db @ ls\<rparr>)"
  by (rule pipeline_recorded [OF assms])

definition demo_claim_run :: "(claim_write list \<times> research_db \<times> env) res" where
  "demo_claim_run =
     build_and_validate demo_lib (empty_db\<lparr>db_evidence := [demo_metric]\<rparr>, demo_clock) ''r1'' REAL_RESEARCH"

theorem pipeline_claims_recorded_witness:
  "\<exists>rs db' w'. demo_claim_run = Inr (rs, db', w') \<and> map cl_support_status rs = [Some SUPPORTED] \<and>
     (\<exists>l \<in> set (db_links db'). lk_evidence_id l = ''e1'')"
proof -
  have "case demo_claim_run of Inl _ \<Rightarrow> False
    | Inr r \<Rightarrow> map cl_support_status (fst r) = [Some SUPPORTED]"
    by code_simp
  then obtain rs db' w' where run: "demo_claim_run = Inr (rs, db', w')"
    and sup: "map cl_support_status rs = [Some SUPPORTED]"
    by (auto split: sum.split_asm)
  from sup obtain r where r: "r \<in> set rs" "cl_support_status r = Some SUPPORTED" by (cases rs) auto
  have "db_evidence (empty_db\<lparr>db_evidence := [demo_metric]\<rparr>) = [demo_metric]" by simp
  moreover from pipeline_claims_recorded [OF run [unfolded demo_claim_run_def]] r
  have "\<exists>l \<in> set (db_links db'). \<exists>e \<in> set (db_evidence (empty_db\<lparr>db_evidence := [demo_metric]\<rparr>)).
      ev_id e = lk_evidence_id l" by blast
  ultimately have "\<exists>l \<in> set (db_links db'). lk_evidence_id l = ev_id demo_metric" by fastforce
  then have "\<exists>l \<in> set (db_links db'). lk_evidence_id l = ''e1''" by (simp add: demo_metric_def)
  with run sup show ?thesis by (intro exI [of _ rs] exI [of _ db'] exI [of _ w'] conjI)
qed

end
