(* ===== verification/Packages.thy ===== *)
theory Packages
  imports Claims
begin

text \<open>
  The research package (\<open>domain/research_agent/packages.py\<close>): validated claims are sorted into the
  sections that the request asked for, and the sections give the status of the package. The
  assembler keeps identifiers, states and codes, and writes no text of its own.
\<close>

definition starts_with :: "string \<Rightarrow> string \<Rightarrow> bool" where
  "starts_with p s \<longleftrightarrow> take (length p) s = p"

definition claim_section :: "claim_write \<Rightarrow> research_section" where
  "claim_section c =
     (case cl_claim_type c of
        Claim_IDENTITY \<Rightarrow> Sec_SECURITY_IDENTITY
      | Claim_FINANCIAL_FACT \<Rightarrow> Sec_FINANCIAL_HEALTH
      | Claim_FINANCIAL_METRIC \<Rightarrow> Sec_FINANCIAL_HEALTH
      | Claim_VALUATION_METRIC \<Rightarrow> Sec_VALUATION_SNAPSHOT
      | Claim_DOCUMENT_DISCLOSURE \<Rightarrow>
          if starts_with ''CATALYST_'' (cl_statement_code c) then Sec_CATALYST_EVIDENCE
          else if starts_with ''RISK_'' (cl_statement_code c) then Sec_RISK_EVIDENCE
          else Sec_DOCUMENT_EVIDENCE
      | Claim_CORPORATE_ACTION \<Rightarrow> Sec_CORPORATE_ACTIONS
      | Claim_DATA_QUALITY \<Rightarrow> Sec_DATA_QUALITY
      | Claim_LIMITATION \<Rightarrow> Sec_LIMITATIONS)"

text \<open>A section may hold at most 100 claims; the contract raises on more.\<close>

definition section_outcome :: "claim_support option set \<Rightarrow> section_status \<times> code list" where
  "section_outcome found =
     (if found = {Some SUPPORTED} then (Ps_PASS, [])
      else if found \<subseteq> {Some BLOCKED} then (Ps_BLOCKED, [''BLOCKED_CLAIMS''])
      else (Ps_PARTIAL,
        if Some CONFLICTING \<in> found then [''CONFLICTING_CLAIMS'']
        else if Some UNSUPPORTED \<in> found then [''UNSUPPORTED_CLAIMS'']
        else if Some BLOCKED \<in> found then [''BLOCKED_CLAIMS'']
        else [''PARTIALLY_SUPPORTED_CLAIMS'']))"

definition section_claims :: "research_section \<Rightarrow> claim_write list \<Rightarrow> claim_write list" where
  "section_claims sec claims = sort_key cl_id (filter (\<lambda>c. claim_section c = sec) claims)"

definition section_of ::
  "research_section list \<Rightarrow> claim_write list \<Rightarrow> research_section \<Rightarrow> package_section res" where
  "section_of requested claims sec =
     (if sec \<notin> set requested
      then Inr \<lparr>ps_section = sec, ps_status = Ps_NOT_REQUESTED, ps_claim_ids = [], ps_warning_codes = []\<rparr>
      else let selected = section_claims sec claims in
        if selected = []
        then Inr \<lparr>ps_section = sec, ps_status = Ps_NO_EVIDENCE, ps_claim_ids = [], ps_warning_codes = []\<rparr>
        else if length selected > 100 then Inl ValidationError
        else let (status, warnings) = section_outcome (set (map cl_support_status selected)) in
          Inr \<lparr>ps_section = sec, ps_status = status, ps_claim_ids = map cl_id selected,
               ps_warning_codes = warnings\<rparr>)"

definition package_status_of ::
  "package_section list \<Rightarrow> research_section list \<Rightarrow> bool \<Rightarrow> package_status" where
  "package_status_of sections requested run_failed =
     (if run_failed then Pkg_FAILED
      else let active = map ps_status (filter (\<lambda>s. ps_section s \<in> set requested) sections) in
        if active \<noteq> [] \<and> list_all (\<lambda>s. s = Ps_PASS) active then Pkg_COMPLETE
        else if active \<noteq> [] \<and> list_all (\<lambda>s. s \<in> {Ps_BLOCKED, Ps_NO_EVIDENCE}) active then Pkg_BLOCKED
        else Pkg_PARTIAL)"

fun map_res :: "('a \<Rightarrow> 'b res) \<Rightarrow> 'a list \<Rightarrow> 'b list res" where
  "map_res f [] = Inr []"
| "map_res f (x # xs) = bind_res (f x) (\<lambda>y. bind_res (map_res f xs) (\<lambda>ys. Inr (y # ys)))"

section \<open>The checksum\<close>

fun section_status_value :: "section_status \<Rightarrow> string" where
  "section_status_value Ps_PASS = ''PASS''"
| "section_status_value Ps_NOT_REQUESTED = ''NOT_REQUESTED''"
| "section_status_value Ps_NO_EVIDENCE = ''NO_EVIDENCE''"
| "section_status_value Ps_BLOCKED = ''BLOCKED''"
| "section_status_value Ps_PARTIAL = ''PARTIAL''"

fun package_status_value :: "package_status \<Rightarrow> string" where
  "package_status_value Pkg_COMPLETE = ''COMPLETE''"
| "package_status_value Pkg_PARTIAL = ''PARTIAL''"
| "package_status_value Pkg_BLOCKED = ''BLOCKED''"
| "package_status_value Pkg_FAILED = ''FAILED''"

definition section_dump :: "package_section \<Rightarrow> pyval" where
  "section_dump s = PDict
     [(''section'', PStr (section_value (ps_section s))),
      (''status'', PStr (section_status_value (ps_status s))),
      (''claim_ids'', PTuple (map PUuid (ps_claim_ids s))),
      (''warning_codes'', PTuple (map PStr (ps_warning_codes s)))]"

definition package_values :: "research_package \<Rightarrow> payload" where
  "package_values p =
     [(''run_id'', PUuid (pk_run_id p)), (''request_id'', PUuid (pk_request_id p)),
      (''security_id'', PUuid (pk_security_id p)), (''snapshot_id'', PUuid (pk_snapshot_id p)),
      (''research_as_of_time'', PDateTime (pk_research_as_of_time p)),
      (''research_type'', PStr (research_type_value (pk_research_type p))),
      (''policy_version'', PStr (pk_policy_version p)), (''planner_version'', PStr (pk_planner_version p)),
      (''tool_catalog_version'', PStr (pk_tool_catalog_version p)),
      (''evidence_version'', PStr (pk_evidence_version p)), (''claim_version'', PStr (pk_claim_version p)),
      (''package_version'', PStr (pk_package_version p)),
      (''status'', PStr (package_status_value (pk_status p))),
      (''sections'', PTuple (map section_dump (pk_sections p))),
      (''evidence_ids'', PTuple (map PUuid (pk_evidence_ids p))),
      (''unsupported_claim_ids'', PTuple (map PUuid (pk_unsupported_claim_ids p))),
      (''conflicting_claim_ids'', PTuple (map PUuid (pk_conflicting_claim_ids p))),
      (''blocked_capabilities'', PTuple (map PStr (pk_blocked_capabilities p))),
      (''warnings'', PTuple (map PStr (pk_warnings p)))]"

section \<open>Assembly\<close>

record package_scope =
  sc_run_id :: uuid
  sc_request_id :: uuid
  sc_security_id :: uuid
  sc_snapshot_id :: uuid
  sc_research_as_of_time :: datetime
  sc_research_type :: research_type
  sc_policy_version :: version
  sc_planner_version :: version
  sc_tool_catalog_version :: string

definition claims_with :: "claim_support \<Rightarrow> claim_write list \<Rightarrow> uuid list" where
  "claims_with s claims = sort (map cl_id (filter (\<lambda>c. cl_support_status c = Some s) claims))"

text \<open>The bounds of \<open>ResearchPackageWrite\<close> on computed fields.\<close>

definition valid_package :: "research_package \<Rightarrow> bool" where
  "valid_package p \<longleftrightarrow>
     valid_version (pk_policy_version p) \<and> valid_version (pk_planner_version p) \<and>
     text_length (pk_tool_catalog_version p) = 80 \<and>
     1 \<le> length (pk_sections p) \<and> length (pk_sections p) \<le> 10 \<and>
     length (pk_evidence_ids p) \<le> 500 \<and> length (pk_unsupported_claim_ids p) \<le> 100 \<and>
     length (pk_conflicting_claim_ids p) \<le> 100 \<and>
     length (pk_blocked_capabilities p) \<le> 100 \<and> list_all valid_code (pk_blocked_capabilities p) \<and>
     length (pk_warnings p) \<le> 100 \<and> list_all valid_code (pk_warnings p) \<and>
     valid_checksum (pk_checksum p)"

definition assemble ::
  "pylib \<Rightarrow> uuid \<Rightarrow> package_scope \<Rightarrow> research_section list \<Rightarrow> claim_write list \<Rightarrow> evidence list
    \<Rightarrow> code list \<Rightarrow> code list \<Rightarrow> bool \<Rightarrow> datetime \<Rightarrow> research_package res" where
  "assemble L package_id sc requested claims es blocked warnings run_failed created =
     bind_res (map_res (section_of requested claims) all_sections) (\<lambda>sections.
       let draft = \<lparr>pk_id = package_id, pk_run_id = sc_run_id sc, pk_request_id = sc_request_id sc,
             pk_security_id = sc_security_id sc, pk_snapshot_id = sc_snapshot_id sc,
             pk_research_as_of_time = sc_research_as_of_time sc, pk_research_type = sc_research_type sc,
             pk_policy_version = sc_policy_version sc, pk_planner_version = sc_planner_version sc,
             pk_tool_catalog_version = sc_tool_catalog_version sc, pk_evidence_version = ''evidence-v1'',
             pk_claim_version = ''claim-v1'', pk_package_version = ''research-package-v1'',
             pk_status = package_status_of sections requested run_failed, pk_sections = sections,
             pk_evidence_ids = sort (remdups (map ev_id es)),
             pk_unsupported_claim_ids = claims_with UNSUPPORTED claims,
             pk_conflicting_claim_ids = claims_with CONFLICTING claims,
             pk_blocked_capabilities = blocked, pk_warnings = warnings, pk_checksum = [],
             pk_created_at = created\<rparr> in
       bind_res (stable_checksum L (PDict (package_values draft))) (\<lambda>sum.
         let p = draft\<lparr>pk_checksum := sum\<rparr> in if valid_package p then Inr p else Inl ValidationError))"

section \<open>What a package says\<close>

lemma map_res_length: "map_res f xs = Inr ys \<Longrightarrow> length ys = length xs"
  by (induction xs arbitrary: ys) auto

lemma map_res_nth: "map_res f xs = Inr ys \<Longrightarrow> i < length xs \<Longrightarrow> f (xs ! i) = Inr (ys ! i)"
  by (induction xs arbitrary: ys i) (auto simp: nth_Cons split: nat.splits)

lemma section_of_section: "section_of requested claims sec = Inr s \<Longrightarrow> ps_section s = sec"
  by (auto simp: section_of_def Let_def case_prod_beta split: if_splits)

lemma map_section_of:
  assumes "map_res (section_of requested claims) secs = Inr ss"
  shows "map ps_section ss = secs \<and> (\<forall>s \<in> set ss. section_of requested claims (ps_section s) = Inr s)"
proof -
  have "ps_section (ss ! i) = secs ! i" "section_of requested claims (secs ! i) = Inr (ss ! i)"
    if "i < length secs" for i
    using map_res_nth [OF assms that] section_of_section by auto
  moreover note map_res_length [OF assms]
  ultimately show ?thesis by (auto simp: list_eq_iff_nth_eq in_set_conv_nth)
qed

lemma section_of_unrequested:
  "section_of requested claims sec = Inr s \<Longrightarrow> sec \<notin> set requested \<Longrightarrow> ps_claim_ids s = []"
  by (auto simp: section_of_def)

definition all_support :: "claim_support \<Rightarrow> claim_write list \<Rightarrow> bool" where
  "all_support s cs \<longleftrightarrow> (\<forall>c \<in> set cs. cl_support_status c = Some s)"

lemma support_singleton:
  "cs \<noteq> [] \<Longrightarrow> set (map cl_support_status cs) = {Some s} \<longleftrightarrow> all_support s cs"
  by (cases cs) (auto simp: all_support_def)

lemma section_status_exact:
  assumes "section_of requested claims sec = Inr s" and "sec \<in> set requested"
  shows "(ps_status s = Ps_PASS \<longleftrightarrow>
      section_claims sec claims \<noteq> [] \<and> all_support SUPPORTED (section_claims sec claims)) \<and>
    (ps_status s \<in> {Ps_BLOCKED, Ps_NO_EVIDENCE} \<longleftrightarrow> all_support BLOCKED (section_claims sec claims)) \<and>
    ps_claim_ids s = map cl_id (section_claims sec claims)"
proof (cases "section_claims sec claims = []")
  case True
  with assms show ?thesis by (auto simp: section_of_def all_support_def)
next
  case False
  let ?cs = "section_claims sec claims"
  from assms False have s: "ps_claim_ids s = map cl_id ?cs"
    "ps_status s = fst (section_outcome (set (map cl_support_status ?cs)))"
    by (auto simp: section_of_def Let_def case_prod_beta split: if_splits)
  have "set (map cl_support_status ?cs) \<subseteq> {Some BLOCKED} \<longleftrightarrow> all_support BLOCKED ?cs"
    by (auto simp: all_support_def)
  with s False support_singleton [OF False] show ?thesis
    by (auto simp: section_outcome_def all_support_def neq_Nil_conv)
qed

lemma assemble_Inr:
  assumes "assemble L i sc requested claims es blocked warnings failed t = Inr p"
  shows "map_res (section_of requested claims) all_sections = Inr (pk_sections p) \<and>
    pk_status p = package_status_of (pk_sections p) requested failed \<and>
    stable_checksum L (PDict (package_values p)) = Inr (pk_checksum p) \<and>
    pk_evidence_ids p = sort (remdups (map ev_id es)) \<and>
    pk_unsupported_claim_ids p = claims_with UNSUPPORTED claims \<and>
    pk_conflicting_claim_ids p = claims_with CONFLICTING claims \<and> pk_run_id p = sc_run_id sc \<and>
    pk_blocked_capabilities p = blocked \<and> pk_warnings p = warnings"
  using assms by (auto simp: assemble_def package_values_def Let_def split: if_splits)

text \<open>The claims of one requested section, as the package lists them.\<close>

lemma requested_section:
  assumes "map_res (section_of requested claims) all_sections = Inr ss" and "sec \<in> set requested"
  shows "\<exists>s \<in> set ss. ps_section s = sec \<and> section_of requested claims sec = Inr s"
proof -
  have "set (map ps_section ss) = UNIV" using map_section_of [OF assms(1)] set_all_sections by metis
  then have "sec \<in> ps_section ` set ss" by simp
  then show ?thesis using map_section_of [OF assms(1)] by auto
qed

lemma active_sections:
  assumes "map_res (section_of requested claims) all_sections = Inr ss"
    and "\<And>s. section_of requested claims (ps_section s) = Inr s \<Longrightarrow> ps_section s \<in> set requested \<Longrightarrow>
      P (ps_status s) = Q (ps_section s)"
  shows "list_all P (map ps_status (filter (\<lambda>s. ps_section s \<in> set requested) ss)) \<longleftrightarrow>
    (\<forall>sec \<in> set requested. Q sec)"
proof -
  have "P (ps_status s) = Q (ps_section s)" if "s \<in> set ss" "ps_section s \<in> set requested" for s
    using assms(2) map_section_of [OF assms(1)] that by blast
  then show ?thesis using requested_section [OF assms(1)] by (fastforce simp: list_all_iff)
qed

lemma package_exact:
  assumes "assemble L i sc requested claims es blocked warnings failed t = Inr p"
  shows "(pk_status p = Pkg_FAILED \<longleftrightarrow> failed) \<and>
     (pk_status p = Pkg_COMPLETE \<longleftrightarrow> \<not> failed \<and> requested \<noteq> [] \<and>
        (\<forall>sec \<in> set requested. section_claims sec claims \<noteq> [] \<and>
           all_support SUPPORTED (section_claims sec claims))) \<and>
     (pk_status p = Pkg_BLOCKED \<longleftrightarrow> \<not> failed \<and> requested \<noteq> [] \<and>
        (\<forall>sec \<in> set requested. all_support BLOCKED (section_claims sec claims))) \<and>
     map ps_section (pk_sections p) = all_sections \<and>
     (\<forall>s \<in> set (pk_sections p). ps_claim_ids s =
        (if ps_section s \<in> set requested then map cl_id (section_claims (ps_section s) claims) else [])) \<and>
     stable_checksum L (PDict (package_values p)) = Inr (pk_checksum p)"
proof -
  let ?active = "map ps_status (filter (\<lambda>s. ps_section s \<in> set requested) (pk_sections p))"
  note p = assemble_Inr [OF assms]
  then have ss: "map_res (section_of requested claims) all_sections = Inr (pk_sections p)" by blast
  note secs = map_section_of [OF ss]
  have pass: "list_all (\<lambda>s. s = Ps_PASS) ?active \<longleftrightarrow> (\<forall>sec \<in> set requested.
      section_claims sec claims \<noteq> [] \<and> all_support SUPPORTED (section_claims sec claims))"
    by (rule active_sections [OF ss]) (use section_status_exact in blast)
  have block: "list_all (\<lambda>s. s \<in> {Ps_BLOCKED, Ps_NO_EVIDENCE}) ?active \<longleftrightarrow>
      (\<forall>sec \<in> set requested. all_support BLOCKED (section_claims sec claims))"
    by (rule active_sections [OF ss]) (use section_status_exact in blast)
  have nonempty: "?active = [] \<longleftrightarrow> requested = []"
    using requested_section [OF ss] by (cases requested) (fastforce simp: filter_empty_conv)+
  have excl: "\<not> list_all (\<lambda>s. s = Ps_PASS) ?active" if "?active \<noteq> []"
    "list_all (\<lambda>s. s \<in> {Ps_BLOCKED, Ps_NO_EVIDENCE}) ?active"
    using that by (cases ?active) auto
  have status: "(pk_status p = Pkg_FAILED \<longleftrightarrow> failed) \<and>
     (pk_status p = Pkg_COMPLETE \<longleftrightarrow> \<not> failed \<and> ?active \<noteq> [] \<and> list_all (\<lambda>s. s = Ps_PASS) ?active) \<and>
     (pk_status p = Pkg_BLOCKED \<longleftrightarrow> \<not> failed \<and> ?active \<noteq> [] \<and>
        list_all (\<lambda>s. s \<in> {Ps_BLOCKED, Ps_NO_EVIDENCE}) ?active)"
    using p excl unfolding package_status_of_def Let_def by (simp only: split: if_split) blast
  have ids: "ps_claim_ids s =
      (if ps_section s \<in> set requested then map cl_id (section_claims (ps_section s) claims) else [])"
    if "s \<in> set (pk_sections p)" for s
  proof (cases "ps_section s \<in> set requested")
    case True
    with secs that section_status_exact show ?thesis by auto
  next
    case False
    with secs that have "section_of requested claims (ps_section s) = Inr s" by blast
    with False section_of_unrequested show ?thesis by auto
  qed
  from status pass block nonempty secs ids p show ?thesis by (simp only:) blast
qed

text \<open>
  The status of a package says what its claims say. It is failed exactly when the run failed;
  otherwise complete exactly when something was requested and every requested section has claims,
  all of them supported; and blocked exactly when something was requested and every claim of every
  requested section is blocked. A requested section lists the identifiers of exactly its claims,
  in order, and a section that was not requested lists none.
  The checksum stored in the package is the checksum of its stored values.
\<close>

theorem package_status_exact:
  assumes "assemble L i sc requested claims es blocked warnings failed t = Inr p"
  shows "(pk_status p = Pkg_FAILED \<longleftrightarrow> failed) \<and>
     (pk_status p = Pkg_COMPLETE \<longleftrightarrow> \<not> failed \<and> requested \<noteq> [] \<and>
        (\<forall>sec \<in> set requested. section_claims sec claims \<noteq> [] \<and>
           all_support SUPPORTED (section_claims sec claims))) \<and>
     (pk_status p = Pkg_BLOCKED \<longleftrightarrow> \<not> failed \<and> requested \<noteq> [] \<and>
        (\<forall>sec \<in> set requested. all_support BLOCKED (section_claims sec claims))) \<and>
     map ps_section (pk_sections p) = all_sections \<and>
     (\<forall>s \<in> set (pk_sections p). ps_claim_ids s =
        (if ps_section s \<in> set requested then map cl_id (section_claims (ps_section s) claims) else [])) \<and>
     stable_checksum L (PDict (package_values p)) = Inr (pk_checksum p)"
  by (rule package_exact [OF assms])

text \<open>The values of a package always have a canonical text.\<close>

lemma normalize_map_total: "(\<And>x. x \<in> set xs \<Longrightarrow> \<exists>j. normalize (f x) = Inr j) \<Longrightarrow> \<exists>js. normalize_list (map f xs) = Inr js"
proof (induction xs)
  case Nil
  show ?case by simp
next
  case (Cons x xs)
  then obtain j js where "normalize (f x) = Inr j" "normalize_list (map f xs) = Inr js" by fastforce
  then show ?case by simp
qed

lemma package_values_canonical: "\<exists>c. stable_checksum L (PDict (package_values p)) = Inr c"
proof -
  have ids: "\<exists>js. normalize_list (map PUuid xs) = Inr js" "\<exists>js. normalize_list (map PStr xs) = Inr js" for xs
    by (rule normalize_map_total, simp)+
  have "\<exists>j. normalize (section_dump s) = Inr j" for s
    using ids(1) [of "ps_claim_ids s"] ids(2) [of "ps_warning_codes s"] by (auto simp: section_dump_def)
  then have "\<exists>js. normalize_list (map section_dump (pk_sections p)) = Inr js"
    by (intro normalize_map_total)
  then show ?thesis
    using ids(1) [of "pk_evidence_ids p"] ids(1) [of "pk_unsupported_claim_ids p"]
      ids(1) [of "pk_conflicting_claim_ids p"] ids(2) [of "pk_blocked_capabilities p"] ids(2) [of "pk_warnings p"]
    by (auto simp: stable_checksum_def canonical_json_def package_values_def)
qed

lemma assemble_total:
  assumes "hexdigest_documented L" and "map_res (section_of requested claims) all_sections = Inr ss"
    and "valid_version (sc_policy_version sc)" and "valid_version (sc_planner_version sc)"
    and "text_length (sc_tool_catalog_version sc) = 80"
    and "length (remdups (map ev_id es)) \<le> 500" and "length (claims_with UNSUPPORTED claims) \<le> 100"
    and "length (claims_with CONFLICTING claims) \<le> 100"
    and "length blocked \<le> 100" and "list_all valid_code blocked"
    and "length warnings \<le> 100" and "list_all valid_code warnings"
  shows "\<exists>p. assemble L i sc requested claims es blocked warnings failed t = Inr p"
proof -
  have len: "length ss = 10"
    using map_res_length [OF assms(2)] by (simp add: all_sections_def)
  define d where "d = \<lparr>pk_id = i, pk_run_id = sc_run_id sc, pk_request_id = sc_request_id sc,
             pk_security_id = sc_security_id sc, pk_snapshot_id = sc_snapshot_id sc,
             pk_research_as_of_time = sc_research_as_of_time sc, pk_research_type = sc_research_type sc,
             pk_policy_version = sc_policy_version sc, pk_planner_version = sc_planner_version sc,
             pk_tool_catalog_version = sc_tool_catalog_version sc, pk_evidence_version = ''evidence-v1'',
             pk_claim_version = ''claim-v1'', pk_package_version = ''research-package-v1'',
             pk_status = package_status_of ss requested failed, pk_sections = ss,
             pk_evidence_ids = sort (remdups (map ev_id es)),
             pk_unsupported_claim_ids = claims_with UNSUPPORTED claims,
             pk_conflicting_claim_ids = claims_with CONFLICTING claims,
             pk_blocked_capabilities = blocked, pk_warnings = warnings, pk_checksum = [],
             pk_created_at = t\<rparr>"
  obtain c where c: "stable_checksum L (PDict (package_values d)) = Inr c"
    using package_values_canonical by blast
  have "valid_package (d\<lparr>pk_checksum := c\<rparr>)"
    using assms len stable_checksum_valid [OF assms(1) c] unfolding valid_package_def by (simp add: d_def)
  then have "assemble L i sc requested claims es blocked warnings failed t = Inr (d\<lparr>pk_checksum := c\<rparr>)"
    unfolding assemble_def assms(2) bind_res.simps Let_def d_def [symmetric] c by simp
  then show ?thesis by blast
qed

definition demo_scope :: package_scope where
  "demo_scope = \<lparr>sc_run_id = ''r1'', sc_request_id = ''q1'', sc_security_id = ''sec'', sc_snapshot_id = ''snap'',
     sc_research_as_of_time = 0, sc_research_type = COMPANY_OVERVIEW,
     sc_policy_version = CONTROLLED_OFFLINE_POLICY_VERSION, sc_planner_version = ''deterministic-template-v1'',
     sc_tool_catalog_version = replicate 80 (CHR ''c'')\<rparr>"

definition demo_limitation :: "claim_support \<Rightarrow> claim_write" where
  "demo_limitation s = claim_write.truncate
     ((fst (candidate_claim demo_clock demo_metric 0 Claim_LIMITATION ''METRIC_INPUT_INCOMPLETE''))
        \<lparr>cl_support_status := Some s\<rparr>)"

lemma demo_scope_valid:
  "valid_version (sc_policy_version demo_scope) \<and> valid_version (sc_planner_version demo_scope) \<and>
   text_length (sc_tool_catalog_version demo_scope) = 80"
  by code_simp

lemma demo_sections:
  "\<exists>ss. map_res (section_of [Sec_LIMITATIONS] [demo_limitation SUPPORTED]) all_sections = Inr ss"
proof -
  have "case map_res (section_of [Sec_LIMITATIONS] [demo_limitation SUPPORTED]) all_sections of
    Inl _ \<Rightarrow> False | Inr ss \<Rightarrow> True" by code_simp
  then show ?thesis by (auto split: sum.split_asm)
qed

theorem package_status_exact_witness:
  "\<exists>p. assemble demo_lib ''p1'' demo_scope [Sec_LIMITATIONS] [demo_limitation SUPPORTED] [demo_metric] [] [] False 0
       = Inr p \<and> pk_status p = Pkg_COMPLETE"
proof -
  have sup: "section_claims Sec_LIMITATIONS [demo_limitation SUPPORTED] = [demo_limitation SUPPORTED]"
    "all_support SUPPORTED [demo_limitation SUPPORTED]"
    by (simp_all add: section_claims_def claim_section_def demo_limitation_def candidate_claim_def all_support_def
        claim_write.truncate_def Let_def case_prod_beta)
  have "claims_with s [demo_limitation SUPPORTED] = []" if "s \<noteq> SUPPORTED" for s
    using sup(2) that by (simp add: claims_with_def all_support_def)
  with demo_scope_valid obtain p where p: "assemble demo_lib ''p1'' demo_scope [Sec_LIMITATIONS]
      [demo_limitation SUPPORTED] [demo_metric] [] [] False 0 = Inr p"
    using assemble_total [OF demo_lib_hex, of "[Sec_LIMITATIONS]" "[demo_limitation SUPPORTED]" _ demo_scope
      "[demo_metric]" "[]" "[]" "''p1''" False 0] demo_sections by auto
  from package_status_exact [OF p] sup have "pk_status p = Pkg_COMPLETE" by simp
  with p show ?thesis by (intro exI [of _ p] conjI)
qed

end
