(* ===== verification/Planning.thy ===== *)
theory Planning
  imports Tool_Policy
begin

text \<open>
  The deterministic template planner (\<open>domain/research_agent/planning.py\<close>).
\<close>

definition PLANNER_VERSION :: version where
  "PLANNER_VERSION = ''deterministic-template-v1''"

definition PLAN_VERSION :: version where
  "PLAN_VERSION = ''research-plan-v1''"

definition DOCUMENT_TOOLS :: "string list" where
  "DOCUMENT_TOOLS = [''list_document_versions'', ''search_document_chunks'']"

fun TEMPLATES :: "research_type \<Rightarrow> string list" where
  "TEMPLATES COMPANY_OVERVIEW =
     [''list_snapshot_items'', ''list_document_versions'', ''search_document_chunks'']"
| "TEMPLATES FINANCIAL_HEALTH =
     [''get_financial_periods'', ''get_normalized_financial_facts'', ''get_financial_metrics'',
      ''get_metric_lineage'']"
| "TEMPLATES VALUATION_SNAPSHOT =
     [''get_latest_close'', ''get_financial_metrics'', ''get_metric_detail'', ''get_metric_lineage'']"
| "TEMPLATES CATALYSTS_AND_RISKS =
     [''get_corporate_actions'', ''list_document_versions'', ''search_document_chunks'']"
| "TEMPLATES DATA_QUALITY_REVIEW =
     [''list_snapshot_items'', ''get_normalized_financial_facts'', ''list_document_versions'']"
| "TEMPLATES FULL_RESEARCH_PACKAGE =
     [''get_financial_periods'', ''get_normalized_financial_facts'', ''get_financial_metrics'',
      ''get_metric_lineage'', ''get_corporate_actions'', ''search_document_chunks'']"

section \<open>Step builders\<close>

text \<open>
  \<^verbatim>\<open>key.replace("_", " ").title()\<close> on ASCII text: a letter is upper case exactly when no letter
  comes before it.
\<close>

fun title_from :: "bool \<Rightarrow> string \<Rightarrow> string" where
  "title_from after_letter [] = []"
| "title_from after_letter (c # cs) =
     (if is_lower c \<or> is_upper c
      then (if after_letter then ascii_lower_char c else ascii_upper_char c) # title_from True cs
      else c # title_from False cs)"

definition step_title :: "string \<Rightarrow> string" where
  "step_title key = title_from False (map (\<lambda>c. if c = CHR ''_'' then CHR '' '' else c) key)"

definition tool_step :: "nat \<Rightarrow> string \<Rightarrow> step_type \<Rightarrow> string list \<Rightarrow> step_definition" where
  "tool_step index tool_name stype dependencies =
     \<lparr>sd_step_index = index, sd_step_key = tool_name, sd_step_type = stype,
      sd_title = step_title tool_name, sd_required = True, sd_dependency_keys = dependencies,
      sd_tool_name = Some tool_name, sd_tool_version = Some ''1.0.0'', sd_component_name = None,
      sd_input_binding =
        (if tool_name = ''search_document_chunks''
         then [(''query_template'', PStr ''company_disclosures_bilingual-v1'')] else []),
      sd_fanout_limit = (if tool_name = ''get_metric_lineage'' then 5 else 1)\<rparr>"

definition component_step ::
  "nat \<Rightarrow> string \<Rightarrow> step_type \<Rightarrow> string list \<Rightarrow> string \<Rightarrow> step_definition" where
  "component_step index key stype dependencies component_name =
     \<lparr>sd_step_index = index, sd_step_key = key, sd_step_type = stype, sd_title = step_title key,
      sd_required = True, sd_dependency_keys = dependencies, sd_tool_name = None,
      sd_tool_version = None, sd_component_name = Some component_name, sd_input_binding = [],
      sd_fanout_limit = 1\<rparr>"

section \<open>The plan\<close>

definition data_dependency :: "string list \<Rightarrow> string \<Rightarrow> string list" where
  "data_dependency data_keys tool_name =
     (if tool_name = ''get_metric_lineage'' then [''get_financial_metrics'']
      else if tool_name = ''search_document_chunks'' \<and> ''list_document_versions'' \<in> set data_keys
      then [''list_document_versions'']
      else [''get_data_snapshot''])"

fun add_data_steps ::
  "string list \<Rightarrow> step_definition list \<Rightarrow> string list \<Rightarrow> step_definition list \<times> string list" where
  "add_data_steps [] steps data_keys = (steps, data_keys)"
| "add_data_steps (t # ts) steps data_keys =
     add_data_steps ts
       (steps @ [tool_step (length steps) t
          (if t \<in> set DOCUMENT_TOOLS then QUERY_DOCUMENT_EVIDENCE else QUERY_STRUCTURED_DATA)
          (data_dependency data_keys t)])
       (data_keys @ [t])"

definition plan_steps :: "research_type \<Rightarrow> step_definition list" where
  "plan_steps rt =
     (let (steps, data_keys) = add_data_steps (TEMPLATES rt)
            [component_step 0 ''resolve_security'' RESOLVE_SECURITY [] ''security-resolution-v1'',
             tool_step 1 ''get_data_snapshot'' LOAD_SNAPSHOT [''resolve_security'']] [];
          n = length steps in
      steps @
      [component_step n ''validate_evidence'' VALIDATE_EVIDENCE (sort data_keys) ''evidence-ledger-v1'',
       component_step (n + 1) ''build_claims'' BUILD_CLAIMS [''validate_evidence'']
         ''deterministic-claim-builder-v1'',
       component_step (n + 2) ''validate_claims'' VALIDATE_CLAIMS [''build_claims''] ''claim-support-v1'',
       component_step (n + 3) ''assemble_package'' ASSEMBLE_PACKAGE [''validate_claims'']
         ''research-package-v1''])"

definition create_plan ::
  "research_request \<Rightarrow> research_policy \<Rightarrow> tool_catalog_snapshot \<Rightarrow> plan_draft res" where
  "create_plan request policy catalog =
     (if rq_planner_version request \<noteq> PLANNER_VERSION
      then Inl (ValueError ''PLANNER_VERSION_MISMATCH'')
      else if rq_tool_catalog_version request \<noteq> tcs_catalog_version catalog \<or>
              rq_tool_catalog_checksum request \<noteq> tcs_catalog_checksum catalog
      then Inl (ValueError ''TOOL_CATALOG_VERSION_MISMATCH'')
      else if rq_policy_version request \<noteq> pol_version policy
      then Inl (ValueError ''POLICY_VERSION_MISMATCH'')
      else if rq_research_type request \<notin> set (pol_allowed_research_types policy)
      then Inl (ValueError ''RESEARCH_TYPE_NOT_ALLOWED'')
      else Inr \<lparr>pd_planner_version = PLANNER_VERSION, pd_plan_version = PLAN_VERSION,
                pd_tool_catalog_version = tcs_catalog_version catalog,
                pd_steps = plan_steps (rq_research_type request)\<rparr>)"

section \<open>The plan checksum\<close>

fun step_type_value :: "step_type \<Rightarrow> string" where
  "step_type_value RESOLVE_SECURITY = ''RESOLVE_SECURITY''"
| "step_type_value LOAD_SNAPSHOT = ''LOAD_SNAPSHOT''"
| "step_type_value QUERY_STRUCTURED_DATA = ''QUERY_STRUCTURED_DATA''"
| "step_type_value QUERY_DOCUMENT_EVIDENCE = ''QUERY_DOCUMENT_EVIDENCE''"
| "step_type_value VALIDATE_EVIDENCE = ''VALIDATE_EVIDENCE''"
| "step_type_value BUILD_CLAIMS = ''BUILD_CLAIMS''"
| "step_type_value VALIDATE_CLAIMS = ''VALIDATE_CLAIMS''"
| "step_type_value ASSEMBLE_PACKAGE = ''ASSEMBLE_PACKAGE''"

definition step_dump :: "step_definition \<Rightarrow> pyval" where
  "step_dump s = PDict
     [(''step_index'', PInt (int (sd_step_index s))), (''step_key'', PStr (sd_step_key s)),
      (''step_type'', PStr (step_type_value (sd_step_type s))), (''title'', PStr (sd_title s)),
      (''required'', PBool (sd_required s)),
      (''dependency_keys'', PTuple (map PStr (sd_dependency_keys s))),
      (''tool_name'', opt_val PStr (sd_tool_name s)),
      (''tool_version'', opt_val PStr (sd_tool_version s)),
      (''component_name'', opt_val PStr (sd_component_name s)),
      (''input_binding'', PDict (sd_input_binding s)),
      (''fanout_limit'', PInt (int (sd_fanout_limit s)))]"

definition draft_dump :: "plan_draft \<Rightarrow> pyval" where
  "draft_dump d = PDict
     [(''planner_version'', PStr (pd_planner_version d)), (''plan_version'', PStr (pd_plan_version d)),
      (''tool_catalog_version'', PStr (pd_tool_catalog_version d)),
      (''steps'', PTuple (map step_dump (pd_steps d)))]"

definition plan_checksum :: "pylib \<Rightarrow> plan_draft \<Rightarrow> checksum res" where
  "plan_checksum L d = stable_checksum L (draft_dump d)"

section \<open>Facts\<close>

text \<open>A plan has a canonical text when the inputs of its steps have one.\<close>

lemma step_dump_canonical:
  assumes "normalize (PDict (sd_input_binding s)) = Inr j"
  shows "\<exists>k. normalize (step_dump s) = Inr k"
proof -
  have "\<exists>js. normalize_list (map PStr (sd_dependency_keys s)) = Inr js"
    by (rule normalize_list_total) auto
  moreover have "\<exists>k. normalize (opt_val PStr x) = Inr k" for x
    by (cases x) (simp_all add: opt_val_def)
  then obtain a b c where "normalize (opt_val PStr (sd_tool_name s)) = Inr a"
    "normalize (opt_val PStr (sd_tool_version s)) = Inr b"
    "normalize (opt_val PStr (sd_component_name s)) = Inr c" by meson
  ultimately show ?thesis using assms by (auto simp: step_dump_def)
qed

lemma plan_checksum_total:
  assumes "\<And>s. s \<in> set (pd_steps d) \<Longrightarrow> \<exists>j. normalize (PDict (sd_input_binding s)) = Inr j"
  shows "\<exists>c. plan_checksum L d = Inr c"
proof -
  have "\<exists>js. normalize_list (map step_dump (pd_steps d)) = Inr js"
    by (rule normalize_list_total) (use assms step_dump_canonical in fastforce)
  then have "\<exists>j. normalize (draft_dump d) = Inr j" by (auto simp: draft_dump_def)
  then show ?thesis unfolding plan_checksum_def using stable_checksum_total by blast
qed

end
