(* ===== verification/Plan_Validation.thy ===== *)
theory Plan_Validation
  imports Planning
begin

text \<open>
  Fail-closed validation of research plans (\<open>domain/research_agent/plan_validation.py\<close>). The two
  depth-first searches of the source are executable definitions with termination proofs; they are
  related to the dependency relation of the plan: \<open>_reject_cycles\<close> passes exactly the acyclic
  plans and \<open>_has_ancestor\<close> decides reachability.
\<close>

section \<open>The searches\<close>

definition step_at :: "step_definition list \<Rightarrow> string \<Rightarrow> step_definition option" where
  "step_at steps k = List.find (\<lambda>s. sd_step_key s = k) (rev steps)"

definition plan_reject :: "code \<Rightarrow> 'a res" where
  "plan_reject c = Inl (ResearchPlanValidationError c)"

definition step_keys :: "step_definition list \<Rightarrow> string set" where
  "step_keys steps = set (map sd_step_key steps)"

lemma finite_step_keys [simp]: "finite (step_keys steps)"
  by (simp add: step_keys_def)

lemma step_at_Some: "step_at steps k = Some s \<Longrightarrow> s \<in> set steps \<and> sd_step_key s = k"
  by (auto simp: step_at_def dest: find_SomeD)

lemma step_at_key: "step_at steps k = Some s \<Longrightarrow> k \<in> step_keys steps"
  using step_at_Some [of steps k s] by (auto simp: step_keys_def)

text \<open>
  \<open>visit\<close>: the set \<open>visiting\<close> is as it was when a call returns, so it is passed down; the
  set \<open>visited\<close> is threaded through the calls. \<open>by_key[key]\<close> of an unknown key is a
  \<open>KeyError\<close>.
\<close>

function visit ::
  "step_definition list \<Rightarrow> string list \<Rightarrow> string list \<Rightarrow> string \<Rightarrow> string list res"
and visit_all ::
  "step_definition list \<Rightarrow> string list \<Rightarrow> string list \<Rightarrow> string list \<Rightarrow> string list res" where
  "visit steps visiting visited key =
     (if key \<in> set visiting then plan_reject ''CYCLIC_PLAN''
      else if key \<in> set visited then Inr visited
      else case step_at steps key of
        None \<Rightarrow> Inl (LookupError key)
      | Some s \<Rightarrow>
          bind_res (visit_all steps (key # visiting) visited (sd_dependency_keys s))
            (\<lambda>v. Inr (key # v)))"
| "visit_all steps visiting visited [] = Inr visited"
| "visit_all steps visiting visited (d # ds) =
     bind_res (visit steps visiting visited d) (\<lambda>v. visit_all steps visiting v ds)"
  by pat_completeness auto
termination
proof (relation "measures
    [\<lambda>x. case x of Inl (steps, visiting, _) \<Rightarrow> card (step_keys steps - set visiting)
           | Inr (steps, visiting, _) \<Rightarrow> card (step_keys steps - set visiting),
     \<lambda>x. case x of Inl _ \<Rightarrow> 0 | Inr (_, _, _, ds) \<Rightarrow> Suc (length ds)]", goal_cases)
  case (2 steps visiting visited key s)
  then have "step_keys steps - set (key # visiting) \<subset> step_keys steps - set visiting"
    using step_at_key by auto
  then show ?case by (simp add: psubset_card_mono)
qed auto

fun visit_steps :: "step_definition list \<Rightarrow> string list \<Rightarrow> step_definition list \<Rightarrow> string list res" where
  "visit_steps steps visited [] = Inr visited"
| "visit_steps steps visited (s # ss) =
     bind_res (visit steps [] visited (sd_step_key s)) (\<lambda>v. visit_steps steps v ss)"

definition reject_cycles :: "step_definition list \<Rightarrow> unit res" where
  "reject_cycles steps = bind_res (visit_steps steps [] steps) (\<lambda>_. Inr ())"

text \<open>
  \<open>_has_ancestor\<close>: the loop over the dependencies of a step, with the mutable set \<open>visited\<close>
  threaded through the loop and the recursive calls.
\<close>

function has_ancestor ::
  "step_definition list \<Rightarrow> string list \<Rightarrow> string list \<Rightarrow> string list \<Rightarrow> (bool \<times> string list) res" where
  "has_ancestor steps required visited [] = Inr (False, visited)"
| "has_ancestor steps required visited (k # ks) =
     (if k \<in> set required then Inr (True, visited)
      else if k \<in> set visited then has_ancestor steps required visited ks
      else case step_at steps k of
        None \<Rightarrow> Inl (LookupError k)
      | Some s \<Rightarrow>
          (case has_ancestor steps required (k # visited) (sd_dependency_keys s) of
             Inl e \<Rightarrow> Inl e
           | Inr found \<Rightarrow>
               if fst found then Inr found else has_ancestor steps required (snd found) ks))"
  by pat_completeness auto

lemma has_ancestor_grows:
  "has_ancestor_dom (steps, required, visited, ks) \<Longrightarrow>
   has_ancestor steps required visited ks = Inr r \<Longrightarrow> set visited \<subseteq> set (snd r)"
proof (induction arbitrary: r rule: has_ancestor.pinduct)
  case (1 steps required visited)
  then show ?case by (auto simp: has_ancestor.psimps)
next
  case (2 steps required visited k ks)
  consider "k \<in> set required" | "k \<notin> set required" "k \<in> set visited"
    | "k \<notin> set required" "k \<notin> set visited" by blast
  then show ?case
  proof cases
    case 1
    with 2 show ?thesis by (auto simp: has_ancestor.psimps)
  next
    case c: 2
    with "2.prems" "2.hyps" have "has_ancestor steps required visited ks = Inr r"
      by (simp add: has_ancestor.psimps)
    with "2.IH"(1) c show ?thesis by simp
  next
    case c: 3
    with "2.prems" "2.hyps" obtain s found where s: "step_at steps k = Some s"
      and f: "has_ancestor steps required (k # visited) (sd_dependency_keys s) = Inr found"
      by (auto simp: has_ancestor.psimps split: option.splits sum.splits)
    have sub: "set (k # visited) \<subseteq> set (snd found)"
      using "2.IH"(2) [OF c s f] .
    show ?thesis
    proof (cases "fst found")
      case True
      with "2.prems" "2.hyps" c s f sub show ?thesis by (auto simp: has_ancestor.psimps)
    next
      case False
      with "2.prems" "2.hyps" c s f have "has_ancestor steps required (snd found) ks = Inr r"
        by (simp add: has_ancestor.psimps)
      then have "set (snd found) \<subseteq> set (snd r)"
        using "2.IH"(3) [OF c s f False] by simp
      with sub show ?thesis by auto
    qed
  qed
qed

termination has_ancestor
proof (relation "measures
    [\<lambda>(steps, _, visited, _). card (step_keys steps - set visited),
     \<lambda>(_, _, _, ks). length ks]", goal_cases)
  case (3 steps required visited k ks s)
  then have "step_keys steps - set (k # visited) \<subset> step_keys steps - set visited"
    using step_at_key by auto
  then show ?case by (simp add: psubset_card_mono)
next
  case (4 steps required visited k ks s found)
  then have "set (k # visited) \<subseteq> set (snd found)" using has_ancestor_grows by blast
  then have "card (step_keys steps - set (snd found)) \<le> card (step_keys steps - set visited)"
    by (intro card_mono) auto
  then show ?case by auto
qed auto

section \<open>The validator\<close>

definition has_required_ancestor ::
  "step_definition list \<Rightarrow> string list \<Rightarrow> step_definition \<Rightarrow> bool res" where
  "has_required_ancestor steps required target =
     bind_res (has_ancestor steps required [] (sd_dependency_keys target)) (\<lambda>r. Inr (fst r))"

definition require_order ::
  "step_definition list \<Rightarrow> step_type \<Rightarrow> step_type \<Rightarrow> code \<Rightarrow> unit res" where
  "require_order steps target_type required_ancestor_type code =
     (let targets = filter (\<lambda>s. sd_step_type s = target_type) steps;
          ancestors = remdups (map sd_step_key
            (filter (\<lambda>s. sd_step_type s = required_ancestor_type) steps)) in
      if length targets \<noteq> 1 \<or> length ancestors \<noteq> 1 then plan_reject code
      else bind_res (has_required_ancestor steps ancestors (hd targets)) (\<lambda>found.
        if found then Inr () else plan_reject code))"

fun validate_tools ::
  "step_definition list \<Rightarrow> research_policy \<Rightarrow> tool_catalog_snapshot \<Rightarrow> unit res" where
  "validate_tools [] policy catalog = Inr ()"
| "validate_tools (s # ss) policy catalog =
     (case (sd_tool_name s, sd_tool_version s) of
        (Some n, Some v) \<Rightarrow>
          if (n, v) \<notin> set (map entry_key (tcs_entries catalog)) then plan_reject ''TOOL_NOT_IN_CATALOG''
          else if (n, v) \<notin> set (map tool_key (pol_allowed_tools policy)) \<or>
                  (n, v) \<in> set (map tool_key (pol_denied_tools policy))
          then plan_reject ''TOOL_NOT_ALLOWED_BY_POLICY''
          else validate_tools ss policy catalog
      | _ \<Rightarrow> validate_tools ss policy catalog)"

definition check_step :: "step_definition list \<Rightarrow> step_definition \<Rightarrow> unit res" where
  "check_step steps s =
     (if (sd_tool_name s = None) = (sd_component_name s = None) then plan_reject ''INVALID_STEP_TARGET''
      else if sd_tool_name s = None \<and> sd_tool_version s \<noteq> None then plan_reject ''INVALID_STEP_TARGET''
      else if sd_tool_name s \<noteq> None \<and> sd_tool_version s = None then plan_reject ''INVALID_STEP_TARGET''
      else if sd_step_key s \<in> set (sd_dependency_keys s) then plan_reject ''SELF_STEP_DEPENDENCY''
      else if \<exists>k \<in> set (sd_dependency_keys s). k \<notin> set (map sd_step_key steps)
      then plan_reject ''UNKNOWN_STEP_DEPENDENCY''
      else Inr ())"

definition validate ::
  "pylib \<Rightarrow> plan_draft \<Rightarrow> research_policy \<Rightarrow> tool_catalog_snapshot \<Rightarrow> validated_plan res" where
  "validate L draft policy catalog =
     (let steps = pd_steps draft in
      if pd_tool_catalog_version draft \<noteq> tcs_catalog_version catalog
      then plan_reject ''TOOL_CATALOG_VERSION_MISMATCH''
      else if length steps > pol_max_steps policy then plan_reject ''STEP_BUDGET_EXCEEDED''
      else if \<not> distinct (map sd_step_key steps) then plan_reject ''DUPLICATE_STEP_KEY''
      else if map sd_step_index steps \<noteq> [0..<length steps] then plan_reject ''NON_CONTIGUOUS_STEP_INDEX''
      else if RESOLVE_SECURITY \<notin> set (map sd_step_type steps)
      then plan_reject ''REQUIRED_IDENTITY_STEP_MISSING''
      else if LOAD_SNAPSHOT \<notin> set (map sd_step_type steps)
      then plan_reject ''REQUIRED_SNAPSHOT_STEP_MISSING''
      else
        bind_res (fold_res (\<lambda>s _. check_step steps s) steps ()) (\<lambda>_.
        bind_res (reject_cycles steps) (\<lambda>_.
        bind_res (validate_tools steps policy catalog) (\<lambda>_.
        bind_res (require_order steps BUILD_CLAIMS VALIDATE_EVIDENCE ''INVALID_CLAIM_BUILD_ORDER'') (\<lambda>_.
        bind_res (require_order steps VALIDATE_CLAIMS BUILD_CLAIMS ''INVALID_CLAIM_VALIDATION_ORDER'') (\<lambda>_.
        bind_res (require_order steps ASSEMBLE_PACKAGE VALIDATE_CLAIMS ''INVALID_PACKAGE_ORDER'') (\<lambda>_.
        bind_res (plan_checksum L draft) (\<lambda>c.
          Inr (plan_draft.extend draft (validated_plan.fields c))))))))))"

section \<open>The dependency relation\<close>

definition depends :: "step_definition list \<Rightarrow> (string \<times> string) set" where
  "depends steps = {(d, k). \<exists>s \<in> set steps. sd_step_key s = k \<and> d \<in> set (sd_dependency_keys s)}"

definition closed_plan :: "step_definition list \<Rightarrow> bool" where
  "closed_plan steps \<longleftrightarrow>
     distinct (map sd_step_key steps) \<and>
     (\<forall>s \<in> set steps. set (sd_dependency_keys s) \<subseteq> step_keys steps)"

lemma step_at_member:
  assumes "distinct (map sd_step_key steps)" and "s \<in> set steps"
  shows "step_at steps (sd_step_key s) = Some s"
proof -
  obtain t where t: "step_at steps (sd_step_key s) = Some t"
    using assms(2) by (cases "step_at steps (sd_step_key s)") (auto simp: step_at_def find_None_iff)
  have "t \<in> set steps" "sd_step_key t = sd_step_key s" using step_at_Some [OF t] by auto
  moreover have "inj_on sd_step_key (set steps)" using assms(1) by (simp add: distinct_map)
  ultimately have "t = s" using assms(2) by (auto dest: inj_onD)
  with t show ?thesis by simp
qed

lemma step_at_known:
  "distinct (map sd_step_key steps) \<Longrightarrow> k \<in> step_keys steps \<Longrightarrow> \<exists>s. step_at steps k = Some s"
  using step_at_member by (fastforce simp: step_keys_def)

lemma depends_step_at:
  assumes "distinct (map sd_step_key steps)" and "step_at steps k = Some s"
  shows "(d, k) \<in> depends steps \<longleftrightarrow> d \<in> set (sd_dependency_keys s)"
proof
  assume "(d, k) \<in> depends steps"
  then obtain t where "t \<in> set steps" "sd_step_key t = k" "d \<in> set (sd_dependency_keys t)"
    by (auto simp: depends_def)
  with step_at_member [OF assms(1)] assms(2) show "d \<in> set (sd_dependency_keys s)" by fastforce
next
  assume "d \<in> set (sd_dependency_keys s)"
  with step_at_Some [OF assms(2)] show "(d, k) \<in> depends steps" by (auto simp: depends_def)
qed

section \<open>Cycle rejection\<close>

text \<open>
  A list of visited keys is in dependency order when the dependencies of each key come after it,
  that is, were visited before it.
\<close>

fun dependency_order :: "step_definition list \<Rightarrow> string list \<Rightarrow> bool" where
  "dependency_order steps [] \<longleftrightarrow> True"
| "dependency_order steps (k # ks) \<longleftrightarrow>
     k \<notin> set ks \<and> (\<forall>d. (d, k) \<in> depends steps \<longrightarrow> d \<in> set ks) \<and> dependency_order steps ks"

lemma visit_ordered:
  assumes dist: "distinct (map sd_step_key steps)"
  shows "visit steps visiting visited key = Inr v \<Longrightarrow> dependency_order steps visited \<Longrightarrow>
      dependency_order steps v \<and> set visited \<subseteq> set v \<and> key \<in> set v \<and>
      set visiting \<inter> set v \<subseteq> set visited"
    and "visit_all steps visiting visited ds = Inr v \<Longrightarrow> dependency_order steps visited \<Longrightarrow>
      dependency_order steps v \<and> set visited \<subseteq> set v \<and> set ds \<subseteq> set v \<and>
      set visiting \<inter> set v \<subseteq> set visited"
  using dist
proof (induction steps visiting visited key and steps visiting visited ds
    arbitrary: v and v rule: visit_visit_all.induct)
  case (1 steps visiting visited key)
  show ?case
  proof (cases "key \<in> set visited")
    case True
    with "1.prems" show ?thesis by (auto simp: plan_reject_def split: if_splits)
  next
    case False
    with "1.prems" obtain s u where new: "key \<notin> set visiting" and s: "step_at steps key = Some s"
      and u: "visit_all steps (key # visiting) visited (sd_dependency_keys s) = Inr u"
      and v: "v = key # u"
      by (auto simp: plan_reject_def split: if_splits option.splits)
    from "1.IH" [OF new False s u] "1.prems"(2,3) have
      u': "dependency_order steps u" "set visited \<subseteq> set u" "set (sd_dependency_keys s) \<subseteq> set u"
        "set (key # visiting) \<inter> set u \<subseteq> set visited" by auto
    then have "key \<notin> set u" using False by auto
    with u' v new depends_step_at [OF "1.prems"(3) s] show ?thesis by auto
  qed
next
  case (3 steps visiting visited d ds)
  from "3.prems" obtain u where u: "visit steps visiting visited d = Inr u"
    and rest: "visit_all steps visiting u ds = Inr v" by auto
  from "3.IH"(1) [OF u] "3.prems" have "dependency_order steps u" "set visited \<subseteq> set u" "d \<in> set u"
    "set visiting \<inter> set u \<subseteq> set visited" by auto
  moreover from "3.IH"(2) [OF rest] "3.prems" calculation have "dependency_order steps v"
    "set u \<subseteq> set v" "set ds \<subseteq> set v" "set visiting \<inter> set v \<subseteq> set u" by auto
  ultimately show ?case by auto
qed auto

lemma visit_steps_ordered:
  assumes "distinct (map sd_step_key steps)"
  shows "visit_steps steps visited ss = Inr v \<Longrightarrow> dependency_order steps visited \<Longrightarrow>
    dependency_order steps v \<and> set visited \<subseteq> set v \<and> sd_step_key ` set ss \<subseteq> set v"
proof (induction ss arbitrary: visited)
  case (Cons s ss)
  from Cons.prems obtain u where u: "visit steps [] visited (sd_step_key s) = Inr u"
    and rest: "visit_steps steps u ss = Inr v" by auto
  from visit_ordered(1) [OF assms u Cons.prems(2)] Cons.IH [OF rest] show ?case by auto
qed simp

text \<open>An order of all keys bounds every chain of dependencies.\<close>

definition rank_in :: "string list \<Rightarrow> string \<Rightarrow> nat" where
  "rank_in ks k = length (dropWhile (\<lambda>x. x \<noteq> k) ks)"

lemma dependency_order_closed:
  "dependency_order steps ks \<Longrightarrow> k \<in> set ks \<Longrightarrow> (d, k) \<in> depends steps \<Longrightarrow> d \<in> set ks"
  by (induction ks) auto

lemma dependency_order_rank:
  "dependency_order steps ks \<Longrightarrow> k \<in> set ks \<Longrightarrow> (d, k) \<in> depends steps \<Longrightarrow>
   rank_in ks d < rank_in ks k"
proof (induction ks)
  case (Cons x ks)
  have bound: "rank_in ks d \<le> length ks" by (simp add: rank_in_def length_dropWhile_le)
  show ?case
  proof (cases "x = k")
    case True
    with Cons.prems have "d \<in> set ks" "x \<notin> set ks" by auto
    with True bound show ?thesis by (auto simp: rank_in_def)
  next
    case False
    with Cons.prems have "k \<in> set ks" "dependency_order steps ks" by auto
    with Cons.IH Cons.prems(3) have lt: "rank_in ks d < rank_in ks k" by simp
    then have "d \<noteq> x"
      using Cons.prems(1) \<open>k \<in> set ks\<close> \<open>dependency_order steps ks\<close> Cons.prems(3)
      by (metis dependency_order.simps(2) dependency_order_closed)
    with False lt show ?thesis by (simp add: rank_in_def)
  qed
qed simp

lemma dependency_order_acyclic:
  assumes "dependency_order steps ks" and "step_keys steps \<subseteq> set ks"
  shows "acyclic (depends steps)"
proof -
  have "depends steps \<subseteq> measure (rank_in ks)"
    using dependency_order_rank [OF assms(1)] assms(2)
    by (fastforce simp: depends_def step_keys_def)
  then show ?thesis by (meson wf_acyclic wf_measure wf_subset)
qed

text \<open>A raised cycle is a cycle: every key on the path depends on the key being visited.\<close>

lemma visit_cyclic:
  assumes closed: "closed_plan steps"
  shows "visit steps visiting visited key = Inl e \<Longrightarrow> key \<in> step_keys steps \<Longrightarrow>
      (\<forall>p \<in> set visiting. (key, p) \<in> (depends steps)\<^sup>+) \<Longrightarrow>
      e = ResearchPlanValidationError ''CYCLIC_PLAN'' \<and> \<not> acyclic (depends steps)"
    and "visit_all steps visiting visited ds = Inl e \<Longrightarrow> set ds \<subseteq> step_keys steps \<Longrightarrow>
      (\<forall>d \<in> set ds. \<forall>p \<in> set visiting. (d, p) \<in> (depends steps)\<^sup>+) \<Longrightarrow>
      e = ResearchPlanValidationError ''CYCLIC_PLAN'' \<and> \<not> acyclic (depends steps)"
  using closed
proof (induction steps visiting visited key and steps visiting visited ds
    arbitrary: e and e rule: visit_visit_all.induct)
  case (1 steps visiting visited key)
  have dist: "distinct (map sd_step_key steps)" using "1.prems"(4) by (simp add: closed_plan_def)
  show ?case
  proof (cases "key \<in> set visiting")
    case True
    then have "(key, key) \<in> (depends steps)\<^sup>+" using "1.prems"(3) by blast
    with True "1.prems"(1) show ?thesis by (auto simp: plan_reject_def acyclic_def)
  next
    case new: False
    obtain s where s: "step_at steps key = Some s"
      using step_at_known [OF dist "1.prems"(2)] by blast
    from new s "1.prems"(1) have unvisited: "key \<notin> set visited"
      and e: "visit_all steps (key # visiting) visited (sd_dependency_keys s) = Inl e"
      by (auto simp: bind_res_eq_Inl split: if_splits)
    have known: "set (sd_dependency_keys s) \<subseteq> step_keys steps"
      using step_at_Some [OF s] "1.prems"(4) by (auto simp: closed_plan_def)
    have "(d, p) \<in> (depends steps)\<^sup>+" if "d \<in> set (sd_dependency_keys s)" "p \<in> set (key # visiting)" for d p
    proof -
      have "(d, key) \<in> depends steps" using that(1) depends_step_at [OF dist s] by simp
      then show ?thesis using that(2) "1.prems"(3) by (auto intro: trancl_into_trancl2)
    qed
    with "1.IH" [OF new unvisited s e known] "1.prems"(4) show ?thesis by blast
  qed
next
  case (3 steps visiting visited d ds)
  from "3.prems"(1) consider "visit steps visiting visited d = Inl e"
    | u where "visit steps visiting visited d = Inr u" "visit_all steps visiting u ds = Inl e"
    by (auto simp: bind_res_eq_Inl)
  then show ?case
  proof cases
    case 1
    with "3.IH"(1) "3.prems" show ?thesis by auto
  next
    case 2
    with "3.IH"(2) "3.prems" show ?thesis by auto
  qed
qed auto

lemma visit_steps_cyclic:
  assumes "closed_plan steps"
  shows "visit_steps steps visited ss = Inl e \<Longrightarrow> set ss \<subseteq> set steps \<Longrightarrow>
    e = ResearchPlanValidationError ''CYCLIC_PLAN'' \<and> \<not> acyclic (depends steps)"
proof (induction ss arbitrary: visited)
  case (Cons s ss)
  have "sd_step_key s \<in> step_keys steps" using Cons.prems(2) by (auto simp: step_keys_def)
  with visit_cyclic(1) [OF assms, of "[]" visited "sd_step_key s" e] Cons show ?case
    by (auto simp: bind_res_eq_Inl)
qed simp

lemma reject_cycles_iff:
  assumes "closed_plan steps"
  shows "reject_cycles steps =
    (if acyclic (depends steps) then Inr () else plan_reject ''CYCLIC_PLAN'')"
proof (cases "visit_steps steps [] steps")
  case (Inl e)
  with visit_steps_cyclic [OF assms Inl] show ?thesis
    by (auto simp: reject_cycles_def plan_reject_def)
next
  case (Inr v)
  have dist: "distinct (map sd_step_key steps)" using assms by (simp add: closed_plan_def)
  have "acyclic (depends steps)"
    using visit_steps_ordered [OF dist Inr] dependency_order_acyclic by (auto simp: step_keys_def)
  with Inr show ?thesis by (simp add: reject_cycles_def)
qed

section \<open>Ancestors\<close>

lemma has_ancestor_total:
  "closed_plan steps \<Longrightarrow> set ks \<subseteq> step_keys steps \<Longrightarrow>
   \<exists>r. has_ancestor steps required visited ks = Inr r"
proof (induction steps required visited ks rule: has_ancestor.induct)
  case (2 steps required visited k ks)
  then have dist: "distinct (map sd_step_key steps)" by (simp add: closed_plan_def)
  obtain s where s: "step_at steps k = Some s"
    using step_at_known [OF dist, of k] "2.prems"(2) by auto
  then have "set (sd_dependency_keys s) \<subseteq> step_keys steps"
    using step_at_Some [OF s] "2.prems"(1) by (auto simp: closed_plan_def)
  note known = this
  show ?case
  proof (cases "k \<in> set required \<or> k \<in> set visited")
    case True
    with 2 show ?thesis by auto
  next
    case False
    then obtain found where f: "has_ancestor steps required (k # visited) (sd_dependency_keys s) = Inr found"
      using "2.IH"(2) [OF _ _ s "2.prems"(1) known] by blast
    with False s "2.IH"(3) [OF _ _ s f] "2.prems" show ?thesis by (cases "fst found") auto
  qed
qed auto

lemma has_ancestor_sound:
  "has_ancestor steps required visited ks = Inr r \<Longrightarrow> fst r \<Longrightarrow>
   \<exists>k \<in> set ks. \<exists>a \<in> set required. (a, k) \<in> (depends steps)\<^sup>*"
proof (induction steps required visited ks arbitrary: r rule: has_ancestor.induct)
  case (2 steps required visited k ks)
  show ?case
  proof (cases "k \<in> set required")
    case True
    then show ?thesis by auto
  next
    case new: False
    show ?thesis
    proof (cases "k \<in> set visited")
      case True
      with new 2 show ?thesis by auto
    next
      case unvisited: False
      with new "2.prems" obtain s found where s: "step_at steps k = Some s"
        and f: "has_ancestor steps required (k # visited) (sd_dependency_keys s) = Inr found"
        by (auto split: option.splits sum.splits)
      show ?thesis
      proof (cases "fst found")
        case True
        from "2.IH"(2) [OF new unvisited s f True] obtain d a where
          "d \<in> set (sd_dependency_keys s)" "a \<in> set required" "(a, d) \<in> (depends steps)\<^sup>*" by blast
        moreover then have "(d, k) \<in> depends steps"
          using step_at_Some [OF s] by (auto simp: depends_def)
        ultimately show ?thesis by (meson list.set_intros(1) rtrancl.rtrancl_into_rtrancl)
      next
        case False
        with "2.prems" new unvisited s f "2.IH"(3) [OF new unvisited s f False] show ?thesis by auto
      qed
    qed
  qed
qed simp

text \<open>A search that found nothing has visited a set that is closed under dependencies.\<close>

lemma has_ancestor_closed:
  assumes "has_ancestor steps required visited ks = Inr r" and "\<not> fst r"
    and "distinct (map sd_step_key steps)"
  shows "set visited \<subseteq> set (snd r) \<and> set ks \<subseteq> set (snd r) \<and>
    (\<forall>k \<in> set (snd r) - set visited. k \<notin> set required \<and>
       (\<forall>d. (d, k) \<in> depends steps \<longrightarrow> d \<in> set (snd r)))"
  using assms
proof (induction steps required visited ks arbitrary: r rule: has_ancestor.induct)
  case (2 steps required visited k ks)
  from "2.prems" have new: "k \<notin> set required" by (auto split: if_splits)
  show ?case
  proof (cases "k \<in> set visited")
    case True
    with "2.IH"(1) [OF new True] "2.prems" new show ?thesis by auto
  next
    case unvisited: False
    with new "2.prems" obtain s found where s: "step_at steps k = Some s"
      and f: "has_ancestor steps required (k # visited) (sd_dependency_keys s) = Inr found"
      and nf: "\<not> fst found" and rest: "has_ancestor steps required (snd found) ks = Inr r"
      by (auto split: option.splits sum.splits if_splits)
    note inner = "2.IH"(2) [OF new unvisited s f nf "2.prems"(3)]
    note outer = "2.IH"(3) [OF new unvisited s f nf rest "2.prems"(2,3)]
    have deps: "d \<in> set (snd found)" if "(d, k) \<in> depends steps" for d
      using that inner depends_step_at [OF "2.prems"(3) s] by auto
    show ?thesis
    proof (intro conjI ballI allI impI)
      show "set visited \<subseteq> set (snd r)" "set (k # ks) \<subseteq> set (snd r)"
        using inner outer by auto
      fix x assume x: "x \<in> set (snd r) - set visited"
      show "x \<notin> set required"
      proof -
        consider "x \<notin> set (snd found)" | "x = k" | "x \<in> set (snd found) - set (k # visited)"
          using x by auto
        then show ?thesis
          by cases (use outer x new inner in blast)+
      qed
      show "d \<in> set (snd r)" if "(d, x) \<in> depends steps" for d
      proof -
        consider "x \<notin> set (snd found)" | "x = k" | "x \<in> set (snd found) - set (k # visited)"
          using x by auto
        then show ?thesis
        proof cases
          case 1
          with outer x that show ?thesis by blast
        next
          case 2
          with deps that outer show ?thesis by blast
        next
          case 3
          with inner that have "d \<in> set (snd found)" by blast
          with outer show ?thesis by blast
        qed
      qed
    qed
  qed
qed auto

lemma has_ancestor_complete:
  assumes "has_ancestor steps required [] ks = Inr r" and "\<not> fst r"
    and "distinct (map sd_step_key steps)" and "k \<in> set ks" and "(a, k) \<in> (depends steps)\<^sup>*"
  shows "a \<notin> set required"
proof -
  note closed = has_ancestor_closed [OF assms(1-3)]
  have "a \<in> set (snd r)"
    using assms(5,4) closed by (induction rule: converse_rtrancl_induct) auto
  with closed show ?thesis by auto
qed

lemma has_required_ancestor_iff:
  assumes "closed_plan steps" and "t \<in> set steps"
  shows "has_required_ancestor steps required t =
    Inr (\<exists>a \<in> set required. (a, sd_step_key t) \<in> (depends steps)\<^sup>+)"
proof -
  have dist: "distinct (map sd_step_key steps)" using assms(1) by (simp add: closed_plan_def)
  have "set (sd_dependency_keys t) \<subseteq> step_keys steps" using assms by (auto simp: closed_plan_def)
  then obtain r where r: "has_ancestor steps required [] (sd_dependency_keys t) = Inr r"
    using has_ancestor_total [OF assms(1)] by blast
  have dep: "(d, sd_step_key t) \<in> depends steps \<longleftrightarrow> d \<in> set (sd_dependency_keys t)" for d
    by (rule depends_step_at [OF dist step_at_member [OF dist assms(2)]])
  have "fst r \<longleftrightarrow> (\<exists>a \<in> set required. (a, sd_step_key t) \<in> (depends steps)\<^sup>+)"
  proof
    assume "fst r"
    from has_ancestor_sound [OF r this] obtain k a where "k \<in> set (sd_dependency_keys t)"
      "a \<in> set required" "(a, k) \<in> (depends steps)\<^sup>*" by blast
    with dep show "\<exists>a \<in> set required. (a, sd_step_key t) \<in> (depends steps)\<^sup>+"
      by (meson rtrancl_into_trancl1)
  next
    assume "\<exists>a \<in> set required. (a, sd_step_key t) \<in> (depends steps)\<^sup>+"
    then obtain a where a: "a \<in> set required" "(a, sd_step_key t) \<in> (depends steps)\<^sup>+" by blast
    from a(2) obtain k where "(a, k) \<in> (depends steps)\<^sup>*" "(k, sd_step_key t) \<in> depends steps"
      by (meson tranclD2)
    with a(1) dep has_ancestor_complete [OF r _ dist] show "fst r" by blast
  qed
  with r show ?thesis by (simp add: has_required_ancestor_def)
qed

section \<open>What a valid plan is\<close>

definition tool_permitted ::
  "research_policy \<Rightarrow> tool_catalog_snapshot \<Rightarrow> step_definition \<Rightarrow> bool" where
  "tool_permitted policy catalog s \<longleftrightarrow>
     (\<forall>n v. sd_tool_name s = Some n \<longrightarrow> sd_tool_version s = Some v \<longrightarrow>
        (n, v) \<in> set (map entry_key (tcs_entries catalog)) \<and>
        (n, v) \<in> set (map tool_key (pol_allowed_tools policy)) \<and>
        (n, v) \<notin> set (map tool_key (pol_denied_tools policy)))"

definition well_targeted :: "step_definition \<Rightarrow> bool" where
  "well_targeted s \<longleftrightarrow>
     (sd_tool_name s = None \<longleftrightarrow> sd_component_name s \<noteq> None) \<and>
     (sd_tool_name s = None \<longleftrightarrow> sd_tool_version s = None)"

definition ordered_after :: "step_definition list \<Rightarrow> step_type \<Rightarrow> step_type \<Rightarrow> bool" where
  "ordered_after steps target before \<longleftrightarrow>
     (\<exists>t b. filter (\<lambda>s. sd_step_type s = target) steps = [t] \<and>
        filter (\<lambda>s. sd_step_type s = before) steps = [b] \<and>
        (sd_step_key b, sd_step_key t) \<in> (depends steps)\<^sup>+)"

definition well_formed_plan ::
  "plan_draft \<Rightarrow> research_policy \<Rightarrow> tool_catalog_snapshot \<Rightarrow> bool" where
  "well_formed_plan draft policy catalog \<longleftrightarrow>
     (let steps = pd_steps draft in
      pd_tool_catalog_version draft = tcs_catalog_version catalog \<and>
      length steps \<le> pol_max_steps policy \<and>
      closed_plan steps \<and> map sd_step_index steps = [0..<length steps] \<and>
      RESOLVE_SECURITY \<in> sd_step_type ` set steps \<and> LOAD_SNAPSHOT \<in> sd_step_type ` set steps \<and>
      (\<forall>s \<in> set steps. well_targeted s \<and> tool_permitted policy catalog s) \<and>
      acyclic (depends steps) \<and>
      ordered_after steps BUILD_CLAIMS VALIDATE_EVIDENCE \<and>
      ordered_after steps VALIDATE_CLAIMS BUILD_CLAIMS \<and>
      ordered_after steps ASSEMBLE_PACKAGE VALIDATE_CLAIMS)"

lemma fold_check_iff:
  "fold_res (\<lambda>s _. f s) ss () = Inr () \<longleftrightarrow> (\<forall>s \<in> set ss. f s = Inr ())"
  by (induction ss) auto

lemma check_step_iff:
  "check_step steps s = Inr () \<longleftrightarrow>
   well_targeted s \<and> sd_step_key s \<notin> set (sd_dependency_keys s) \<and>
   set (sd_dependency_keys s) \<subseteq> step_keys steps"
  by (auto simp: check_step_def plan_reject_def well_targeted_def step_keys_def split: if_splits)

lemma validate_tools_iff:
  "validate_tools ss policy catalog = Inr () \<longleftrightarrow> (\<forall>s \<in> set ss. tool_permitted policy catalog s)"
  by (induction ss) (auto simp: plan_reject_def tool_permitted_def split: option.splits)

lemma remdups_keys_single:
  assumes "distinct (map sd_step_key steps)"
  shows "length (remdups (map sd_step_key (filter P steps))) = length (filter P steps)"
    and "set (remdups (map sd_step_key (filter P steps))) = sd_step_key ` set (filter P steps)"
proof -
  have "distinct (map sd_step_key (filter P steps))" using assms by (rule distinct_map_filter)
  then show "length (remdups (map sd_step_key (filter P steps))) = length (filter P steps)"
    by (simp add: distinct_remdups_id)
qed simp

lemma require_order_iff:
  assumes "closed_plan steps"
  shows "require_order steps target before code = Inr () \<longleftrightarrow> ordered_after steps target before"
proof -
  have dist: "distinct (map sd_step_key steps)" using assms by (simp add: closed_plan_def)
  let ?T = "filter (\<lambda>s. sd_step_type s = target) steps"
  let ?B = "filter (\<lambda>s. sd_step_type s = before) steps"
  have one: "length xs = 1 \<longleftrightarrow> (\<exists>x. xs = [x])" for xs :: "step_definition list"
    by (auto simp: length_Suc_conv)
  show ?thesis
  proof (cases "length ?T = 1 \<and> length ?B = 1")
    case True
    then obtain t b where t: "?T = [t]" and b: "?B = [b]" using one by blast
    have "t \<in> set steps" using t by (metis filter_is_subset list.set_intros(1) subsetD)
    from has_required_ancestor_iff [OF assms this] t b
    show ?thesis
      by (simp add: require_order_def ordered_after_def plan_reject_def)
  next
    case False
    then have "\<not> ordered_after steps target before" by (auto simp: ordered_after_def)
    with False show ?thesis
      using remdups_keys_single(1) [OF dist, of "\<lambda>s. sd_step_type s = before"]
      by (auto simp: require_order_def Let_def plan_reject_def)
  qed
qed

lemma no_self_dependency:
  "acyclic (depends steps) \<Longrightarrow> s \<in> set steps \<Longrightarrow> sd_step_key s \<notin> set (sd_dependency_keys s)"
  by (auto simp: acyclic_def depends_def)

lemma validate_iff:
  "(\<exists>vp. validate L draft policy catalog = Inr vp) \<longleftrightarrow>
   well_formed_plan draft policy catalog \<and> (\<exists>c. plan_checksum L draft = Inr c)"
proof -
  let ?S = "pd_steps draft"
  show ?thesis
  proof (cases "distinct (map sd_step_key ?S) \<and> (\<forall>s \<in> set ?S. check_step ?S s = Inr ())")
    case True
    then have closed: "closed_plan ?S" by (auto simp: closed_plan_def check_step_iff)
    have "fold_res (\<lambda>s _. check_step ?S s) ?S () = Inr ()" using True by (simp add: fold_check_iff)
    then have "(\<exists>vp. validate L draft policy catalog = Inr vp) \<longleftrightarrow>
        pd_tool_catalog_version draft = tcs_catalog_version catalog \<and>
        length ?S \<le> pol_max_steps policy \<and> map sd_step_index ?S = [0..<length ?S] \<and>
        RESOLVE_SECURITY \<in> sd_step_type ` set ?S \<and> LOAD_SNAPSHOT \<in> sd_step_type ` set ?S \<and>
        reject_cycles ?S = Inr () \<and> validate_tools ?S policy catalog = Inr () \<and>
        require_order ?S BUILD_CLAIMS VALIDATE_EVIDENCE ''INVALID_CLAIM_BUILD_ORDER'' = Inr () \<and>
        require_order ?S VALIDATE_CLAIMS BUILD_CLAIMS ''INVALID_CLAIM_VALIDATION_ORDER'' = Inr () \<and>
        require_order ?S ASSEMBLE_PACKAGE VALIDATE_CLAIMS ''INVALID_PACKAGE_ORDER'' = Inr () \<and>
        (\<exists>c. plan_checksum L draft = Inr c)"
      using True by (simp add: validate_def Let_def plan_reject_def not_less)
    also have "\<dots> \<longleftrightarrow> well_formed_plan draft policy catalog \<and> (\<exists>c. plan_checksum L draft = Inr c)"
      using True closed
      by (auto simp: well_formed_plan_def Let_def reject_cycles_iff require_order_iff
          validate_tools_iff check_step_iff plan_reject_def)
    finally show ?thesis .
  next
    case False
    then have "\<not> well_formed_plan draft policy catalog"
      by (auto simp: well_formed_plan_def Let_def closed_plan_def check_step_iff no_self_dependency)
    moreover have "\<not> (\<exists>vp. validate L draft policy catalog = Inr vp)"
      using False by (auto simp: validate_def Let_def plan_reject_def fold_check_iff split: if_splits)
    ultimately show ?thesis by blast
  qed
qed

lemma validate_Inr:
  assumes "validate L draft policy catalog = Inr vp"
  shows "pd_steps vp = pd_steps draft \<and> pd_planner_version vp = pd_planner_version draft \<and>
    pd_plan_version vp = pd_plan_version draft \<and>
    pd_tool_catalog_version vp = pd_tool_catalog_version draft \<and>
    plan_checksum L draft = Inr (vp_plan_checksum vp)"
  using assms
  by (cases draft)
    (auto simp: validate_def Let_def plan_reject_def plan_draft.extend_def validated_plan.fields_def
      split: if_splits)

section \<open>The plans of the planner\<close>

definition plan_shape_ok :: "step_definition list \<Rightarrow> bool" where
  "plan_shape_ok steps \<longleftrightarrow>
     length steps \<le> 12 \<and> distinct (map sd_step_key steps) \<and>
     map sd_step_index steps = [0..<length steps] \<and>
     RESOLVE_SECURITY \<in> set (map sd_step_type steps) \<and> LOAD_SNAPSHOT \<in> set (map sd_step_type steps) \<and>
     list_all (\<lambda>s. check_step steps s = Inr ()) steps \<and> reject_cycles steps = Inr () \<and>
     require_order steps BUILD_CLAIMS VALIDATE_EVIDENCE ''INVALID_CLAIM_BUILD_ORDER'' = Inr () \<and>
     require_order steps VALIDATE_CLAIMS BUILD_CLAIMS ''INVALID_CLAIM_VALIDATION_ORDER'' = Inr () \<and>
     require_order steps ASSEMBLE_PACKAGE VALIDATE_CLAIMS ''INVALID_PACKAGE_ORDER'' = Inr () \<and>
     list_all (\<lambda>s. case sd_tool_name s of None \<Rightarrow> True
       | Some n \<Rightarrow> n \<in> set CONTROLLED_OFFLINE_TOOL_NAMES \<and> sd_tool_version s = Some ''1.0.0'') steps \<and>
     list_all (\<lambda>s. case normalize (PDict (sd_input_binding s)) of Inl _ \<Rightarrow> False | Inr _ \<Rightarrow> True) steps"

lemma planner_shape: "plan_shape_ok (plan_steps rt)"
proof -
  have "list_all (\<lambda>rt. plan_shape_ok (plan_steps rt)) all_research_types" by code_simp
  then show ?thesis by (simp add: list_all_iff)
qed

lemma planner_bindings:
  assumes "s \<in> set (plan_steps rt)"
  shows "\<exists>j. normalize (PDict (sd_input_binding s)) = Inr j"
proof -
  have "list_all (\<lambda>s. case normalize (PDict (sd_input_binding s)) of Inl _ \<Rightarrow> False | Inr _ \<Rightarrow> True)
      (plan_steps rt)"
    using planner_shape [of rt] by (simp only: plan_shape_ok_def)
  then have "case normalize (PDict (sd_input_binding s)) of Inl _ \<Rightarrow> False | Inr _ \<Rightarrow> True"
    using assms by (simp only: list_all_iff)
  then show ?thesis by (cases "normalize (PDict (sd_input_binding s))") (simp_all only: sum.case, blast)
qed

lemma offline_allowed_keys:
  "set (map tool_key (pol_allowed_tools (offline_policy_values c))) =
     (\<lambda>n. (n, ''1.0.0'')) ` set CONTROLLED_OFFLINE_TOOL_NAMES"
  "pol_denied_tools (offline_policy_values c) = []"
  by (auto simp: offline_policy_values_def offline_tool_def tool_key_def)

lemma offline_permits:
  assumes "plan_shape_ok steps" and "s \<in> set steps"
    and "map entry_key (tcs_entries cat) = map tool_key (pol_allowed_tools (offline_policy_values c))"
  shows "tool_permitted (offline_policy_values c) cat s"
proof -
  have "case sd_tool_name s of None \<Rightarrow> True
    | Some n \<Rightarrow> n \<in> set CONTROLLED_OFFLINE_TOOL_NAMES \<and> sd_tool_version s = Some ''1.0.0''"
    using assms(1,2) by (simp add: plan_shape_ok_def list_all_iff)
  then show ?thesis
    unfolding tool_permitted_def assms(3) offline_allowed_keys
    by (auto split: option.splits)
qed

lemma planned_draft_well_formed:
  assumes "create_plan q (offline_policy_values c) cat = Inr d"
    and "map entry_key (tcs_entries cat) = map tool_key (pol_allowed_tools (offline_policy_values c))"
  shows "well_formed_plan d (offline_policy_values c) cat \<and> pd_steps d = plan_steps (rq_research_type q)"
proof -
  let ?S = "plan_steps (rq_research_type q)"
  note shape = planner_shape [of "rq_research_type q"]
  from assms(1) have d: "pd_steps d = ?S" "pd_tool_catalog_version d = tcs_catalog_version cat"
    by (auto simp: create_plan_def split: if_splits)
  have closed: "closed_plan ?S"
    using shape by (auto simp: plan_shape_ok_def closed_plan_def list_all_iff check_step_iff)
  have "pol_max_steps (offline_policy_values c) = 12" by (simp add: offline_policy_values_def)
  moreover have "acyclic (depends ?S)"
    using shape reject_cycles_iff [OF closed] by (auto simp: plan_shape_ok_def plan_reject_def split: if_splits)
  ultimately show ?thesis
    using d closed shape offline_permits [OF shape _ assms(2)] require_order_iff [OF closed]
    by (auto simp: well_formed_plan_def Let_def plan_shape_ok_def list_all_iff check_step_iff)
qed

section \<open>Properties\<close>

text \<open>
  C8. The validator accepts exactly the well-formed plans: the catalog version of the run, at
  most the policy's number of steps, distinct keys, indices \<open>0..n-1\<close>, an identity and a snapshot
  step, one target per step, known dependencies, no cycle, only Tools that the catalog holds and
  the policy permits, and exactly one evidence validation before the claim building before the
  claim validation before the package assembly, along the dependencies. An accepted plan has the
  steps of the draft and the checksum of its content.
\<close>

theorem plan_validation_exact:
  "((\<exists>vp. validate L draft policy catalog = Inr vp) \<longleftrightarrow>
      well_formed_plan draft policy catalog \<and> (\<exists>c. plan_checksum L draft = Inr c)) \<and>
   (case validate L draft policy catalog of Inl _ \<Rightarrow> True
    | Inr vp \<Rightarrow> pd_steps vp = pd_steps draft \<and> plan_checksum L draft = Inr (vp_plan_checksum vp))"
  using validate_iff validate_Inr by (auto split: sum.splits)

text \<open>
  C9. The depth-first search for cycles is exact: on a plan with distinct keys and known
  dependencies it terminates, passes exactly when the dependency relation is acyclic, and
  otherwise raises \<open>CYCLIC_PLAN\<close> and nothing else.
\<close>

theorem cycle_search_exact:
  "closed_plan steps \<Longrightarrow>
   reject_cycles steps = (if acyclic (depends steps) then Inr () else plan_reject ''CYCLIC_PLAN'')"
  by (rule reject_cycles_iff)

definition demo_cycle :: "step_definition list" where
  "demo_cycle = [tool_step 0 ''a'' LOAD_SNAPSHOT [''c''], tool_step 1 ''b'' LOAD_SNAPSHOT [''a''],
     tool_step 2 ''c'' LOAD_SNAPSHOT [''b'']]"

theorem cycle_search_exact_witness:
  "closed_plan demo_cycle \<and> reject_cycles demo_cycle = plan_reject ''CYCLIC_PLAN'' \<and>
   \<not> acyclic (depends demo_cycle)"
proof -
  have closed: "closed_plan demo_cycle"
    unfolding closed_plan_def step_keys_def by code_simp
  have run: "reject_cycles demo_cycle = plan_reject ''CYCLIC_PLAN''"
    by code_simp
  have "(if acyclic (depends demo_cycle) then Inr () else plan_reject ''CYCLIC_PLAN'') =
      (plan_reject ''CYCLIC_PLAN'' :: unit res)"
    using cycle_search_exact [OF closed] run by simp
  then have "\<not> acyclic (depends demo_cycle)" by (simp add: plan_reject_def split: if_splits)
  with closed run show ?thesis by simp
qed

text \<open>
  The search for an ancestor decides reachability: on a plan with distinct keys and known
  dependencies it terminates without an error, and finds a required key exactly when one of them
  is a transitive dependency of the step.
\<close>

theorem ancestor_search_exact:
  "closed_plan steps \<Longrightarrow> t \<in> set steps \<Longrightarrow>
   has_required_ancestor steps required t =
     Inr (\<exists>a \<in> set required. (a, sd_step_key t) \<in> (depends steps)\<^sup>+)"
  by (rule has_required_ancestor_iff)

theorem ancestor_search_exact_witness:
  "closed_plan (plan_steps COMPANY_OVERVIEW) \<and>
   (''get_data_snapshot'', ''assemble_package'') \<in> (depends (plan_steps COMPANY_OVERVIEW))\<^sup>+"
proof -
  let ?t = "component_step 8 ''assemble_package'' ASSEMBLE_PACKAGE [''validate_claims''] ''research-package-v1''"
  have closed: "closed_plan (plan_steps COMPANY_OVERVIEW)"
    using planner_shape [of COMPANY_OVERVIEW]
    by (auto simp: plan_shape_ok_def closed_plan_def list_all_iff check_step_iff)
  have mem: "?t \<in> set (plan_steps COMPANY_OVERVIEW)"
    by (simp add: plan_steps_def)
  have run: "has_required_ancestor (plan_steps COMPANY_OVERVIEW) [''get_data_snapshot''] ?t = Inr True"
    by code_simp
  from ancestor_search_exact [OF closed mem, of "[''get_data_snapshot'']"] run closed show ?thesis
    by (simp add: component_step_def)
qed

text \<open>
  C10. The planner and the validator agree: with the catalog of the metadata registry and the
  controlled-offline policy, every plan that the planner compiles, for every research type, is
  accepted by the validator with its steps unchanged.
\<close>

theorem planner_output_validates:
  fixes R :: "'w tool_registry"
  assumes "schemas_reflexive pyd" and "create_tool_metadata_registry pyd = Inr R"
    and "build_tool_catalog_snapshot L R = Inr cat"
    and "create_plan q (offline_policy_values c) cat = Inr d"
  shows "\<exists>vp. validate L d (offline_policy_values c) cat = Inr vp \<and>
    pd_steps vp = plan_steps (rq_research_type q)"
proof -
  have "create_tool_metadata_registry pyd = Inr (metadata_entries pyd CANONICAL_TOOL_DEFINITIONS :: 'w tool_registry)"
    by (rule metadata_registry_total [OF assms(1)])
  with assms(2) have "R = metadata_entries pyd CANONICAL_TOOL_DEFINITIONS" by simp
  then have keys: "map entry_key (tcs_entries cat) = map tool_key (pol_allowed_tools (offline_policy_values c))"
    using catalog_Inr [OF assms(3)] entry_of_keys metadata_registry_is_offline_keys [OF assms(1)] by metis
  note wf = planned_draft_well_formed [OF assms(4) keys]
  have "\<exists>j. normalize (PDict (sd_input_binding s)) = Inr j" if "s \<in> set (pd_steps d)" for s
    using planner_bindings [of s "rq_research_type q"] wf that by simp
  then obtain k where "plan_checksum L d = Inr k" using plan_checksum_total by blast
  with wf validate_iff [of L d] validate_Inr [of L d] show ?thesis by metis
qed

definition demo_plan_request :: "tool_catalog_snapshot \<Rightarrow> research_request" where
  "demo_plan_request cat =
     \<lparr>rq_security_query = ''ACME'', rq_research_type = FULL_RESEARCH_PACKAGE, rq_snapshot_id = ''snap'',
      rq_research_as_of_time = 1000, rq_requested_sections = [Sec_FINANCIAL_HEALTH],
      rq_policy_version = CONTROLLED_OFFLINE_POLICY_VERSION, rq_planner_version = PLANNER_VERSION,
      rq_requested_budgets = \<lparr>rb_max_steps = None, rb_max_tool_calls = None,
        rb_max_calls_per_tool = None, rb_max_retries_per_step = None, rb_max_duration_seconds = None\<rparr>,
      rq_research_mode = REAL_RESEARCH, rq_id = ''q1'', rq_resolved_security_id = ''sec'',
      rq_normalized_security_query = ''acme'', rq_tool_catalog_version = tcs_catalog_version cat,
      rq_tool_catalog_checksum = tcs_catalog_checksum cat, rq_request_checksum = [],
      rq_created_at = 1000\<rparr>"

theorem planner_output_validates_witness:
  "\<exists>(R :: unit tool_registry) cat d vp. create_tool_metadata_registry demo_pydantic = Inr R \<and>
     build_tool_catalog_snapshot demo_lib R = Inr cat \<and>
     create_plan (demo_plan_request cat) (offline_policy_values []) cat = Inr d \<and>
     validate demo_lib d (offline_policy_values []) cat = Inr vp \<and> length (pd_steps vp) = 12"
proof -
  define R :: "unit tool_registry" where "R = metadata_entries demo_pydantic CANONICAL_TOOL_DEFINITIONS"
  have R: "create_tool_metadata_registry demo_pydantic = Inr R"
    using metadata_registry_total [OF demo_schemas_reflexive] by (simp add: R_def)
  obtain cat where cat: "build_tool_catalog_snapshot demo_lib R = Inr cat"
    using offline_catalog_built [OF demo_lib_hex demo_schemas_reflexive demo_schemas_canonical]
    unfolding R_def by blast
  have "\<exists>d. create_plan (demo_plan_request cat) (offline_policy_values []) cat = Inr d"
    by (simp add: create_plan_def demo_plan_request_def offline_policy_values_def)
  then obtain d where d: "create_plan (demo_plan_request cat) (offline_policy_values []) cat = Inr d" ..
  have "length (plan_steps FULL_RESEARCH_PACKAGE) = 12"
    by (simp add: plan_steps_def)
  with planner_output_validates [OF demo_schemas_reflexive R cat d] R cat d show ?thesis
    by (fastforce simp: demo_plan_request_def)
qed

end
