(* ===== verification/Requests.thy ===== *)
theory Requests
  imports Packages Plan_Validation
begin

text \<open>
  The preflight of a research request (\<open>domain/research_agent/requests.py\<close>) and the semantic
  idempotency key of a run (\<open>domain/research_agent/idempotency.py\<close>). The security resolver and the
  snapshot reader are the ports that the service is constructed with: functions passed to the
  definitions.
\<close>

section \<open>Resolution results\<close>

datatype resolution_status = Res_RESOLVED | Res_AMBIGUOUS | Res_NOT_FOUND | Res_INVALID_QUERY

record security_resolution =
  res_status :: resolution_status
  res_normalized_query :: string
  res_candidates :: "uuid list"

section \<open>Requests\<close>

definition request_reject :: "code \<Rightarrow> 'a res" where
  "request_reject c = Inl (ResearchRequestError c)"

definition exceeds :: "nat option \<Rightarrow> nat \<Rightarrow> bool" where
  "exceeds requested maximum \<longleftrightarrow> (case requested of None \<Rightarrow> False | Some v \<Rightarrow> v > maximum)"

definition validate_requested_budgets :: "requested_budgets \<Rightarrow> research_policy \<Rightarrow> unit res" where
  "validate_requested_budgets b p =
     (if exceeds (rb_max_steps b) (pol_max_steps p) \<or>
         exceeds (rb_max_tool_calls b) (pol_max_tool_calls p) \<or>
         exceeds (rb_max_calls_per_tool b) (pol_max_calls_per_tool p) \<or>
         exceeds (rb_max_retries_per_step b) (pol_max_retries_per_step p) \<or>
         exceeds (rb_max_duration_seconds b) (pol_max_duration_seconds p)
      then request_reject ''REQUESTED_BUDGET_EXCEEDS_POLICY'' else Inr ())"

fun research_mode_value :: "research_mode \<Rightarrow> string" where
  "research_mode_value REAL_RESEARCH = ''REAL_RESEARCH''"
| "research_mode_value Mode_SYNTHETIC_TEST_ONLY = ''SYNTHETIC_TEST_ONLY''"

definition budgets_dump :: "requested_budgets \<Rightarrow> pyval" where
  "budgets_dump b = PDict
     [(''max_steps'', opt_val (PInt \<circ> int) (rb_max_steps b)),
      (''max_tool_calls'', opt_val (PInt \<circ> int) (rb_max_tool_calls b)),
      (''max_calls_per_tool'', opt_val (PInt \<circ> int) (rb_max_calls_per_tool b)),
      (''max_retries_per_step'', opt_val (PInt \<circ> int) (rb_max_retries_per_step b)),
      (''max_duration_seconds'', opt_val (PInt \<circ> int) (rb_max_duration_seconds b))]"

definition request_basis ::
  "research_request_create \<Rightarrow> security_resolution \<Rightarrow> uuid \<Rightarrow> tool_catalog_snapshot \<Rightarrow> payload" where
  "request_basis q r security_id catalog =
     [(''security_query'', PStr (rq_security_query q)),
      (''research_type'', PStr (research_type_value (rq_research_type q))),
      (''snapshot_id'', PUuid (rq_snapshot_id q)),
      (''research_as_of_time'', PDateTime (rq_research_as_of_time q)),
      (''requested_sections'', PTuple (map (PStr \<circ> section_value) (rq_requested_sections q))),
      (''policy_version'', PStr (rq_policy_version q)), (''planner_version'', PStr (rq_planner_version q)),
      (''requested_budgets'', budgets_dump (rq_requested_budgets q)),
      (''research_mode'', PStr (research_mode_value (rq_research_mode q))),
      (''normalized_security_query'', PStr (res_normalized_query r)),
      (''resolved_security_id'', PUuid security_id),
      (''tool_catalog_version'', PStr (tcs_catalog_version catalog)),
      (''tool_catalog_checksum'', PStr (tcs_catalog_checksum catalog))]"

definition valid_request :: "research_request \<Rightarrow> bool" where
  "valid_request q \<longleftrightarrow>
     text_within 1 256 (rq_normalized_security_query q) \<and> text_length (rq_tool_catalog_version q) = 80 \<and>
     valid_checksum (rq_tool_catalog_checksum q) \<and> valid_checksum (rq_request_checksum q)"

record request_ports =
  rp_resolve :: "string \<Rightarrow> security_resolution"
  rp_snapshot :: "uuid \<Rightarrow> data_snapshot option"

text \<open>
  The guards of \<open>create\<close>, in its order: the security, the snapshot, the policy, the research type,
  the sections and the budgets.
\<close>

definition preflight ::
  "request_ports \<Rightarrow> research_db \<Rightarrow> research_request_create \<Rightarrow> (security_resolution \<times> uuid \<times> research_policy) res" where
  "preflight P db q =
     (let r = rp_resolve P (rq_security_query q) in
      case (res_status r, res_candidates r) of
        (Res_RESOLVED, [security_id]) \<Rightarrow>
         (case rp_snapshot P (rq_snapshot_id q) of
            None \<Rightarrow> request_reject ''SNAPSHOT_NOT_FOUND''
          | Some sn \<Rightarrow>
             if sn_status sn \<notin> {Sn_COMPLETE, Sn_PARTIAL} then request_reject ''SNAPSHOT_NOT_COMPLETE''
             else if sn_security_id sn \<noteq> security_id then request_reject ''SNAPSHOT_SECURITY_MISMATCH''
             else if sn_research_as_of_time sn > rq_research_as_of_time q
             then request_reject ''SNAPSHOT_AFTER_RESEARCH_AS_OF''
             else bind_res (require_policy db (rq_policy_version q)) (\<lambda>policy.
               if rq_research_type q \<notin> set (pol_allowed_research_types policy)
               then request_reject ''RESEARCH_TYPE_NOT_ALLOWED''
               else if list_ex (\<lambda>s. s \<notin> set (pol_allowed_sections policy)) (rq_requested_sections q)
               then request_reject ''RESEARCH_SECTION_NOT_ALLOWED''
               else bind_res (validate_requested_budgets (rq_requested_budgets q) policy) (\<lambda>_.
                 Inr (r, security_id, policy))))
      | _ \<Rightarrow> request_reject ''SECURITY_NOT_RESOLVED'')"

definition create_request ::
  "pylib \<Rightarrow> request_ports \<Rightarrow> tool_catalog_snapshot \<Rightarrow> research_db \<times> env \<Rightarrow> research_request_create
    \<Rightarrow> (research_request \<times> research_db \<times> env) res" where
  "create_request L P catalog dbw q =
     bind_res (preflight P (fst dbw) q) (\<lambda>(r, security_id, policy).
       let (i, w1) = next_id (snd dbw) in
       bind_res (stable_checksum L (PDict (request_basis q r security_id catalog))) (\<lambda>sum.
         let (t, w2) = next_now w1;
             v = research_request_create.extend q
               (research_request.fields i security_id (res_normalized_query r)
                  (tcs_catalog_version catalog) (tcs_catalog_checksum catalog) sum t) in
         if valid_request v
         then bind_res (add_request (fst dbw) v) (\<lambda>(stored, db1). Inr (stored, db1, w2))
         else Inl ValidationError))"

section \<open>Idempotency\<close>

definition idempotency_basis :: "research_request \<Rightarrow> payload" where
  "idempotency_basis q =
     [(''normalized_request'', PStr (rq_normalized_security_query q)),
      (''security_id'', PUuid (rq_resolved_security_id q)), (''snapshot_id'', PUuid (rq_snapshot_id q)),
      (''research_as_of_time'', PDateTime (rq_research_as_of_time q)),
      (''research_type'', PStr (research_type_value (rq_research_type q))),
      (''requested_sections'', PTuple (map (PStr \<circ> section_value) (rq_requested_sections q))),
      (''policy_version'', PStr (rq_policy_version q)), (''planner_version'', PStr (rq_planner_version q)),
      (''tool_catalog_checksum'', PStr (rq_tool_catalog_checksum q))]"

definition research_run_idempotency_key :: "pylib \<Rightarrow> research_request \<Rightarrow> checksum res" where
  "research_run_idempotency_key L q = stable_checksum L (PDict (idempotency_basis q))"

definition is_reusable_run :: "agent_run \<Rightarrow> research_policy \<Rightarrow> bool" where
  "is_reusable_run r p =
     (if run_policy_version r \<noteq> pol_version p then False
      else if reusable_status (run_status r) then True
      else run_status r = Run_PARTIAL \<and> pol_reuse_partial_runs p)"

section \<open>Facts\<close>

lemma validate_requested_budgets_Inr:
  "validate_requested_budgets b p = Inr u \<longleftrightarrow>
   \<not> exceeds (rb_max_steps b) (pol_max_steps p) \<and> \<not> exceeds (rb_max_tool_calls b) (pol_max_tool_calls p) \<and>
   \<not> exceeds (rb_max_calls_per_tool b) (pol_max_calls_per_tool p) \<and>
   \<not> exceeds (rb_max_retries_per_step b) (pol_max_retries_per_step p) \<and>
   \<not> exceeds (rb_max_duration_seconds b) (pol_max_duration_seconds p)"
  by (auto simp: validate_requested_budgets_def request_reject_def)

definition admissible_request ::
  "request_ports \<Rightarrow> research_db \<Rightarrow> research_request_create \<Rightarrow> uuid \<Rightarrow> research_policy \<Rightarrow> bool" where
  "admissible_request P db q security_id policy \<longleftrightarrow>
     res_status (rp_resolve P (rq_security_query q)) = Res_RESOLVED \<and>
     res_candidates (rp_resolve P (rq_security_query q)) = [security_id] \<and>
     (\<exists>sn. rp_snapshot P (rq_snapshot_id q) = Some sn \<and> sn_status sn \<in> {Sn_COMPLETE, Sn_PARTIAL} \<and>
        sn_security_id sn = security_id \<and> sn_research_as_of_time sn \<le> rq_research_as_of_time q) \<and>
     get_policy db (rq_policy_version q) = Some policy \<and>
     rq_research_type q \<in> set (pol_allowed_research_types policy) \<and>
     set (rq_requested_sections q) \<subseteq> set (pol_allowed_sections policy) \<and>
     validate_requested_budgets (rq_requested_budgets q) policy = Inr ()"

lemma preflight_Inr:
  "preflight P db q = Inr (r, security_id, policy) \<longleftrightarrow>
   r = rp_resolve P (rq_security_query q) \<and> admissible_request P db q security_id policy"
  by (auto simp: preflight_def admissible_request_def request_reject_def require_policy_def Let_def
      list_ex_iff split: resolution_status.splits list.splits option.splits if_splits)

lemma preflight_errors:
  assumes "preflight P db q = Inl e"
  shows "\<exists>c. e = ResearchRequestError c \<or> e = ResearchPolicyError c"
  using assms
  by (auto simp: preflight_def request_reject_def require_policy_def validate_requested_budgets_def Let_def
      bind_res_eq_Inl split: resolution_status.splits list.splits option.splits if_splits)

lemma basis_canonical:
  "\<exists>c. stable_checksum L (PDict (request_basis q r s cat)) = Inr c"
  "\<exists>c. research_run_idempotency_key L v = Inr c"
proof -
  have opt: "\<exists>j. normalize (opt_val (PInt \<circ> int) x) = Inr j" for x
    by (cases x) (auto simp: opt_val_def)
  have list: "\<exists>js. normalize_list (map (PStr \<circ> f) xs) = Inr js" for f :: "research_section \<Rightarrow> string" and xs
    by (induction xs) auto
  obtain js where "normalize_list (map (PStr \<circ> section_value) (rq_requested_sections q)) = Inr js"
    using list by blast
  moreover obtain b where "normalize (budgets_dump (rq_requested_budgets q)) = Inr b"
    using opt [of "rb_max_steps (rq_requested_budgets q)"] opt [of "rb_max_tool_calls (rq_requested_budgets q)"]
      opt [of "rb_max_calls_per_tool (rq_requested_budgets q)"]
      opt [of "rb_max_retries_per_step (rq_requested_budgets q)"]
      opt [of "rb_max_duration_seconds (rq_requested_budgets q)"]
    by (auto simp: budgets_dump_def)
  ultimately show "\<exists>c. stable_checksum L (PDict (request_basis q r s cat)) = Inr c"
    by (simp add: stable_checksum_def canonical_json_def request_basis_def)
  obtain js where "normalize_list (map (PStr \<circ> section_value) (rq_requested_sections v)) = Inr js"
    using list by blast
  then show "\<exists>c. research_run_idempotency_key L v = Inr c"
    by (simp add: research_run_idempotency_key_def stable_checksum_def canonical_json_def idempotency_basis_def)
qed

definition well_formed_ports :: "pylib \<Rightarrow> request_ports \<Rightarrow> tool_catalog_snapshot \<Rightarrow> bool" where
  "well_formed_ports L P catalog \<longleftrightarrow>
     hexdigest_documented L \<and> text_length (tcs_catalog_version catalog) = 80 \<and>
     valid_checksum (tcs_catalog_checksum catalog) \<and>
     (\<forall>s. text_within 1 256 (res_normalized_query (rp_resolve P s)))"

lemma create_request_Inr:
  assumes "create_request L P catalog (db, w) q = Inr (v, db', w')"
  shows "\<exists>policy. admissible_request P db q (rq_resolved_security_id v) policy \<and>
    research_request_create.truncate v = research_request_create.truncate q \<and>
    rq_normalized_security_query v = res_normalized_query (rp_resolve P (rq_security_query q)) \<and>
    rq_tool_catalog_version v = tcs_catalog_version catalog \<and>
    rq_tool_catalog_checksum v = tcs_catalog_checksum catalog \<and> valid_request v \<and>
    rq_id v \<notin> rq_id ` set (db_requests db) \<and> db' = db\<lparr>db_requests := db_requests db @ [v]\<rparr> \<and>
    stable_checksum L (PDict (request_basis q (rp_resolve P (rq_security_query q)) (rq_resolved_security_id v) catalog))
      = Inr (rq_request_checksum v)"
proof -
  from assms obtain security_id policy sum i t where
    pre: "admissible_request P db q security_id policy"
    and sum: "stable_checksum L (PDict (request_basis q (rp_resolve P (rq_security_query q)) security_id catalog)) = Inr sum"
    and v: "v = research_request_create.extend q
        (research_request.fields i security_id (res_normalized_query (rp_resolve P (rq_security_query q)))
           (tcs_catalog_version catalog) (tcs_catalog_checksum catalog) sum t)"
    and ok: "valid_request v" and add: "add_request db v = Inr (v, db')"
    by (auto simp: create_request_def Let_def case_prod_beta preflight_Inr add_request_def split: if_splits)
  from add have "rq_id v \<notin> rq_id ` set (db_requests db)" "db' = db\<lparr>db_requests := db_requests db @ [v]\<rparr>"
    by (auto simp: add_request_def split: if_splits)
  moreover have "rq_resolved_security_id v = security_id" "rq_tool_catalog_version v = tcs_catalog_version catalog"
    "rq_tool_catalog_checksum v = tcs_catalog_checksum catalog" "rq_request_checksum v = sum"
    "rq_normalized_security_query v = res_normalized_query (rp_resolve P (rq_security_query q))"
    "research_request_create.truncate v = research_request_create.truncate q"
    by (simp_all add: v research_request_create.extend_def research_request.fields_def
        research_request_create.truncate_def)
  ultimately show ?thesis using pre sum ok by blast
qed

text \<open>
  C20. A request is accepted exactly when it is admissible: one security resolves, the snapshot
  exists, is complete or partial, belongs to that security and is not later than the research
  as-of time, and the stored policy allows the research type, every section and every requested
  budget. An accepted request is stored with the command unchanged, the identifiers that were
  checked, and the checksum of its content; a refused one raises a request or policy error. (The
  new identifier is unused, the digest is 64 hexadecimal digits, and the resolver's normalized
  query and the catalog fit their fields.)
\<close>

theorem request_preflight_exact:
  assumes "well_formed_ports L P catalog" and "fst (next_id w) \<notin> rq_id ` set (db_requests db)"
  shows "case create_request L P catalog (db, w) q of
      Inl e \<Rightarrow> (\<nexists>security_id policy. admissible_request P db q security_id policy) \<and>
        (\<exists>c. e = ResearchRequestError c \<or> e = ResearchPolicyError c)
    | Inr (v, db', w') \<Rightarrow>
        (\<exists>policy. admissible_request P db q (rq_resolved_security_id v) policy) \<and>
        research_request_create.truncate v = research_request_create.truncate q \<and>
        db_requests db' = db_requests db @ [v] \<and>
        stable_checksum L (PDict (request_basis q (rp_resolve P (rq_security_query q))
          (rq_resolved_security_id v) catalog)) = Inr (rq_request_checksum v)"
proof (cases "create_request L P catalog (db, w) q")
  case (Inr r)
  obtain v db' w' where r: "r = (v, db', w')" by (cases r) auto
  from create_request_Inr [OF Inr [unfolded r]] have "db_requests db' = db_requests db @ [v]" by auto
  with create_request_Inr [OF Inr [unfolded r]] Inr r show ?thesis by auto
next
  case (Inl e)
  have fails: "preflight P db q = Inl e"
  proof (cases "preflight P db q")
    case (Inl e')
    with \<open>create_request L P catalog (db, w) q = Inl e\<close> show ?thesis by (simp add: create_request_def)
  next
    case (Inr pre)
    obtain r sid policy where pre: "pre = (r, sid, policy)" by (cases pre) auto
    with Inr have r: "r = rp_resolve P (rq_security_query q)" by (auto simp: preflight_Inr)
    obtain c where c: "stable_checksum L (PDict (request_basis q r sid catalog)) = Inr c"
      using basis_canonical(1) by blast
    with assms(1) have "valid_checksum c" using stable_checksum_valid by (auto simp: well_formed_ports_def)
    with assms \<open>create_request L P catalog (db, w) q = Inl e\<close> Inr pre c r have False
      by (auto simp: create_request_def well_formed_ports_def valid_request_def add_request_def Let_def
          case_prod_beta bind_res_eq_Inl research_request_create.extend_def research_request.fields_def
          split: if_splits)
    then show ?thesis ..
  qed
  then have "\<nexists>security_id policy. admissible_request P db q security_id policy"
    using preflight_Inr by (metis Inl_Inr_False)
  with Inl preflight_errors [OF fails] show ?thesis by simp
qed

definition demo_snapshot :: data_snapshot where
  "demo_snapshot = \<lparr>sn_id = ''snap'', sn_security_id = ''sec'', sn_research_as_of_time = 900,
     sn_status = Sn_COMPLETE, sn_checksum = None\<rparr>"

definition demo_ports :: request_ports where
  "demo_ports = \<lparr>rp_resolve = (\<lambda>s. \<lparr>res_status = (if s = ''AAPL'' then Res_RESOLVED else Res_NOT_FOUND),
       res_normalized_query = ''AAPL'', res_candidates = (if s = ''AAPL'' then [''sec''] else [])\<rparr>),
     rp_snapshot = (\<lambda>i. if i = ''snap'' then Some demo_snapshot else None)\<rparr>"

definition demo_command :: research_request_create where
  "demo_command = \<lparr>rq_security_query = ''AAPL'', rq_research_type = COMPANY_OVERVIEW,
     rq_snapshot_id = ''snap'', rq_research_as_of_time = 1000,
     rq_requested_sections = [Sec_SECURITY_IDENTITY, Sec_DATA_QUALITY, Sec_LIMITATIONS],
     rq_policy_version = CONTROLLED_OFFLINE_POLICY_VERSION, rq_planner_version = PLANNER_VERSION,
     rq_requested_budgets = \<lparr>rb_max_steps = Some 12, rb_max_tool_calls = None,
       rb_max_calls_per_tool = None, rb_max_retries_per_step = None, rb_max_duration_seconds = None\<rparr>,
     rq_research_mode = REAL_RESEARCH\<rparr>"

definition demo_wide_catalog :: tool_catalog_snapshot where
  "demo_wide_catalog = demo_cat\<lparr>tcs_catalog_version := replicate 80 (CHR ''c''),
     tcs_catalog_checksum := replicate 64 (CHR ''a'')\<rparr>"

definition demo_policy_db :: research_db where
  "demo_policy_db = empty_db\<lparr>db_policies := [offline_policy_values (replicate 64 (CHR ''a''))]\<rparr>"

lemma demo_ports_ok: "well_formed_ports demo_lib demo_ports demo_wide_catalog"
proof -
  have "text_length (tcs_catalog_version demo_wide_catalog) = 80 \<and>
    valid_checksum (tcs_catalog_checksum demo_wide_catalog) \<and> text_within 1 256 ''AAPL''"
    by code_simp
  then show ?thesis by (simp add: well_formed_ports_def demo_lib_hex demo_ports_def)
qed

theorem request_preflight_exact_witness:
  "(\<exists>v r. create_request demo_lib demo_ports demo_wide_catalog (demo_policy_db, demo_clock) demo_command = Inr (v, r) \<and>
      (\<exists>policy. admissible_request demo_ports demo_policy_db demo_command (rq_resolved_security_id v) policy)) \<and>
   (\<nexists>security_id policy. admissible_request demo_ports demo_policy_db (demo_command\<lparr>rq_security_query := ''X''\<rparr>)
      security_id policy)"
proof -
  have fresh: "fst (next_id demo_clock) \<notin> rq_id ` set (db_requests demo_policy_db)"
    by (simp add: demo_policy_db_def empty_db_def)
  note ex = request_preflight_exact [OF demo_ports_ok fresh]
  have "case create_request demo_lib demo_ports demo_wide_catalog (demo_policy_db, demo_clock) demo_command of
    Inl _ \<Rightarrow> False | Inr _ \<Rightarrow> True" by code_simp
  then obtain v db' w' where v: "create_request demo_lib demo_ports demo_wide_catalog
      (demo_policy_db, demo_clock) demo_command = Inr (v, db', w')" by (auto split: sum.split_asm)
  have "case create_request demo_lib demo_ports demo_wide_catalog (demo_policy_db, demo_clock)
      (demo_command\<lparr>rq_security_query := ''X''\<rparr>) of Inl _ \<Rightarrow> True | Inr _ \<Rightarrow> False" by code_simp
  then obtain e where e: "create_request demo_lib demo_ports demo_wide_catalog (demo_policy_db, demo_clock)
      (demo_command\<lparr>rq_security_query := ''X''\<rparr>) = Inl e" by (auto split: sum.split_asm)
  from ex [of demo_command] v have "\<exists>policy. admissible_request demo_ports demo_policy_db demo_command
      (rq_resolved_security_id v) policy" by simp
  moreover from ex [of "demo_command\<lparr>rq_security_query := ''X''\<rparr>"] e
  have "\<nexists>security_id policy. admissible_request demo_ports demo_policy_db
      (demo_command\<lparr>rq_security_query := ''X''\<rparr>) security_id policy" by simp
  ultimately show ?thesis using v by (intro conjI exI [of _ v] exI [of _ "(db', w')"])
qed

end
