(* ===== verification/Run_Control.thy ===== *)
theory Run_Control
  imports Requests
begin

text \<open>
  The explicit controls of a run (\<open>domain/research_agent/resume.py\<close>): pause, resume and cancel,
  each a guard on the stored run followed by one transition of the state machine.
\<close>

definition control_reject :: "code \<Rightarrow> 'a res" where
  "control_reject c = Inl (ResearchRunControlError c)"

record resume_result =
  rs_run :: agent_run
  rs_completed_step_ids :: "uuid list"
  rs_pending_step_ids :: "uuid list"
  rs_reuse_unfinished_invocations :: bool

type_synonym snapshot_validator = "uuid \<Rightarrow> uuid \<Rightarrow> datetime \<Rightarrow> bool"

definition require_run :: "research_db \<Rightarrow> uuid \<Rightarrow> agent_run res" where
  "require_run db i =
     (case get_run db i of None \<Rightarrow> control_reject ''RESEARCH_RUN_NOT_FOUND'' | Some r \<Rightarrow> Inr r)"

definition pause_run :: "research_db \<times> env \<Rightarrow> uuid \<Rightarrow> (agent_run \<times> research_db \<times> env) res" where
  "pause_run dbw i =
     bind_res (require_run (fst dbw) i) (\<lambda>r.
       if run_status r \<noteq> Run_RUNNING then control_reject ''RUN_NOT_RUNNING''
       else run_transition dbw i Run_PAUSED (Some ''RUN_PAUSED''))"

definition cancel_run :: "research_db \<times> env \<Rightarrow> uuid \<Rightarrow> (agent_run \<times> research_db \<times> env) res" where
  "cancel_run dbw i =
     bind_res (require_run (fst dbw) i) (\<lambda>r.
       if run_status r \<notin> {Run_RUNNING, Run_PAUSED} then control_reject ''RUN_NOT_CANCELLABLE''
       else run_transition dbw i Run_CANCELLED (Some ''RUN_CANCELLED''))"

definition resume_run ::
  "snapshot_validator \<Rightarrow> research_policy \<Rightarrow> tool_catalog_snapshot \<Rightarrow> research_db \<times> env \<Rightarrow> uuid
    \<Rightarrow> (resume_result \<times> research_db \<times> env) res" where
  "resume_run valid_snapshot policy catalog dbw i =
     bind_res (require_run (fst dbw) i) (\<lambda>r.
       if run_status r \<noteq> Run_PAUSED then control_reject ''RUN_NOT_PAUSED''
       else if run_policy_version r \<noteq> pol_version policy then control_reject ''POLICY_VERSION_MISMATCH''
       else if run_tool_catalog_version r \<noteq> tcs_catalog_version catalog
       then control_reject ''TOOL_CATALOG_VERSION_MISMATCH''
       else if run_tool_catalog_checksum r \<noteq> tcs_catalog_checksum catalog
       then control_reject ''TOOL_CATALOG_CHECKSUM_MISMATCH''
       else if \<not> valid_snapshot (run_security_id r) (run_snapshot_id r) (run_research_as_of_time r)
       then control_reject ''SNAPSHOT_CONTEXT_MISMATCH''
       else (case get_plan (fst dbw) i of None \<Rightarrow> control_reject ''RESEARCH_PLAN_NOT_FOUND''
         | Some plan \<Rightarrow>
             let steps = list_steps (fst dbw) (pr_id plan) in
             bind_res (run_transition dbw i Run_RUNNING (Some ''RUN_RESUMED'')) (\<lambda>(resumed, dbw1).
               Inr (\<lparr>rs_run = resumed,
                     rs_completed_step_ids = map st_id (filter (\<lambda>s. terminal_step (st_status s)) steps),
                     rs_pending_step_ids = map st_id (filter (\<lambda>s. \<not> terminal_step (st_status s)) steps),
                     rs_reuse_unfinished_invocations = False\<rparr>, dbw1))))"

end
