(* ===== verification/Run_Lifecycle.thy ===== *)
theory Run_Lifecycle
  imports Research_Repository
begin

text \<open>
  The life of Research Runs in the database: every way the program changes the run and event
  tables is a step, and the invariants of the tables hold after any sequence of steps. A run is
  created with status CREATED (the only status \<open>cli_agent._create_planned_run\<close> passes), its
  status changes through the state machine only, its budget through \<open>update_run_budget\<close>, and
  every other repository write leaves both tables alone (rule \<open>frame\<close>, whose instances are the
  lemmas of the bundle \<open>frame_writes\<close>). While a session creates a run, another may take steps.
\<close>

section \<open>Steps\<close>

inductive run_steps :: "research_db \<Rightarrow> research_db \<Rightarrow> bool" where
  start: "run_steps db db"
| create: "run_steps db0 db \<Longrightarrow> run_steps db (other db) \<Longrightarrow>
     run_status v = Run_CREATED \<Longrightarrow> run_terminal_at v = None \<Longrightarrow>
     create_run other db v = Inr (r, db') \<Longrightarrow> run_steps db0 db'"
| advance: "run_steps db0 db \<Longrightarrow> run_transition (db, w) i target reason = Inr (r, db', w') \<Longrightarrow>
     run_steps db0 db'"
| budget: "run_steps db0 db \<Longrightarrow> update_run_budget db i b now = Inr (r, db') \<Longrightarrow> run_steps db0 db'"
| frame: "run_steps db0 db \<Longrightarrow> db_runs db' = db_runs db \<Longrightarrow> db_events db' = db_events db \<Longrightarrow>
     run_steps db0 db'"

definition reachable_db :: "research_db \<Rightarrow> bool" where
  "reachable_db db \<longleftrightarrow> run_steps empty_db db"

section \<open>The invariant\<close>

definition one_reusable_run :: "research_db \<Rightarrow> bool" where
  "one_reusable_run db \<longleftrightarrow>
     (\<forall>i j r q. get_run db i = Some r \<and> get_run db j = Some q \<and>
        run_idempotency_key r = run_idempotency_key q \<and>
        reusable_status (run_status r) \<and> reusable_status (run_status q) \<longrightarrow> i = j)"

definition runs_audited :: "research_db \<Rightarrow> bool" where
  "runs_audited db \<longleftrightarrow> (\<forall>k r. get_run db k = Some r \<longrightarrow> audited r (events_of db k))"

definition no_stray_events :: "research_db \<Rightarrow> bool" where
  "no_stray_events db \<longleftrightarrow> (\<forall>k. get_run db k = None \<longrightarrow> events_of db k = [])"

definition run_inv :: "research_db \<Rightarrow> bool" where
  "run_inv db \<longleftrightarrow> distinct_runs db \<and> runs_audited db \<and> no_stray_events db \<and> one_reusable_run db"

text \<open>The rows of terminal runs are final.\<close>

definition terminal_runs_kept :: "research_db \<Rightarrow> research_db \<Rightarrow> bool" where
  "terminal_runs_kept db db' \<longleftrightarrow>
     (\<forall>k r. get_run db k = Some r \<and> terminal_run (run_status r) \<longrightarrow> get_run db' k = Some r)"

lemma terminal_runs_kept_refl [simp]: "terminal_runs_kept db db"
  by (simp add: terminal_runs_kept_def)

lemma terminal_runs_kept_trans:
  "terminal_runs_kept a b \<Longrightarrow> terminal_runs_kept b c \<Longrightarrow> terminal_runs_kept a c"
  by (auto simp: terminal_runs_kept_def)

lemmas run_inv_defs = run_inv_def runs_audited_def no_stray_events_def one_reusable_run_def

lemma not_terminal_reusable: "\<not> terminal_run a \<Longrightarrow> reusable_status a"
  by (cases a) (simp_all add: TERMINAL_RUN_STATUSES_def reusable_statuses_def)

section \<open>Every step keeps the invariant\<close>

lemma run_inv_empty: "run_inv empty_db"
  by (simp add: run_inv_defs empty_db_def distinct_runs_def get_run_def events_of_def)

lemma get_run_frame: "db_runs db' = db_runs db \<Longrightarrow> get_run db' = get_run db"
  by (simp add: get_run_def fun_eq_iff)

lemma frame_step:
  assumes "run_inv db" and "db_runs db' = db_runs db" and "db_events db' = db_events db"
  shows "run_inv db' \<and> terminal_runs_kept db db'"
  using assms get_run_frame [OF assms(2)]
  by (auto simp: run_inv_defs distinct_runs_def events_of_def terminal_runs_kept_def)

text \<open>Views of one run that a step may replace: a run with the same key, audited, not resurrected.\<close>

lemma replace_run_inv:
  assumes inv: "run_inv db" and get: "get_run db i = Some r"
    and nt: "\<not> terminal_run (run_status r)"
    and key: "run_idempotency_key q = run_idempotency_key r"
    and db': "\<And>k. get_run db' k = (if k = i then Some q else get_run db k)"
    and au: "runs_audited db'" and dist: "distinct_runs db'"
    and ev: "\<And>k. k \<noteq> i \<Longrightarrow> events_of db' k = events_of db k"
  shows "run_inv db' \<and> terminal_runs_kept db db'"
proof -
  have rs: "reusable_status (run_status r)" using nt by (rule not_terminal_reusable)
  have "one_reusable_run db'"
    unfolding one_reusable_run_def
  proof (intro allI impI)
    fix a b x y
    assume *: "get_run db' a = Some x \<and> get_run db' b = Some y \<and>
      run_idempotency_key x = run_idempotency_key y \<and>
      reusable_status (run_status x) \<and> reusable_status (run_status y)"
    have one: "\<And>a b x y. get_run db a = Some x \<Longrightarrow> get_run db b = Some y \<Longrightarrow>
        run_idempotency_key x = run_idempotency_key y \<Longrightarrow> reusable_status (run_status x) \<Longrightarrow>
        reusable_status (run_status y) \<Longrightarrow> a = b"
      using inv unfolding run_inv_def one_reusable_run_def by blast
    show "a = b"
    proof (cases "a = i")
      case True
      with * db' [of a] have x: "x = q" by simp
      show ?thesis
      proof (cases "b = i")
        case True
        with \<open>a = i\<close> show ?thesis by simp
      next
        case False
        with * db' [of b] have "get_run db b = Some y" by simp
        with * x key rs have "i = b" using one [OF get] by simp
        with True show ?thesis by simp
      qed
    next
      case False
      with * db' [of a] have ga: "get_run db a = Some x" by simp
      show ?thesis
      proof (cases "b = i")
        case True
        with * db' [of b] have "y = q" by simp
        with * key rs have "a = i" using one [OF ga get] by simp
        with False show ?thesis by simp
      next
        case False
        with * db' [of b] have "get_run db b = Some y" by simp
        with * show ?thesis using one [OF ga] by simp
      qed
    qed
  qed
  moreover have "no_stray_events db'"
    using inv db' ev by (auto simp: run_inv_def no_stray_events_def split: if_splits)
  moreover have "terminal_runs_kept db db'"
    using get nt db' by (auto simp: terminal_runs_kept_def)
  ultimately show ?thesis using au dist by (simp add: run_inv_def)
qed

lemma advance_step:
  assumes inv: "run_inv db"
    and tr: "run_transition (db, w) i target reason = Inr (q, db', w')"
  shows "run_inv db' \<and> terminal_runs_kept db db'"
proof -
  have v: "distinct_runs db" using inv by (simp add: run_inv_def)
  note tr' = tr [unfolded run_transition_def]
  from runs.transition_Inr [OF v tr'] obtain r e t where
    r: "get_run db i = Some r" "allowed_run (run_status r) target"
      "q = apply_run_update (run_update_of r target reason t) r"
    and db': "\<And>k. get_run db' k = (if k = i then Some q else get_run db k)"
    and ev: "events_of db' = (events_of db)(i := events_of db i @ [e])"
    and dist: "distinct_runs db'"
    by (auto simp: research_runs_def)
  have "runs_audited db'"
    unfolding runs_audited_def
    using runs.transition_keeps_audited [OF v tr'] inv
    by (simp add: research_runs_def run_inv_def runs_audited_def)
  moreover have "run_idempotency_key q = run_idempotency_key r"
    using r(3) by (simp add: apply_run_update_def)
  ultimately show ?thesis
    using replace_run_inv [OF inv r(1) allowed_run_not_terminal [OF r(2)] _ db' _ dist] ev
    by simp
qed

lemma budget_step:
  assumes inv: "run_inv db" and up: "update_run_budget db i b now = Inr (q, db')"
  shows "run_inv db' \<and> terminal_runs_kept db db'"
proof -
  let ?P = "\<lambda>r. run_id r = i \<and> \<not> terminal_run (run_status r)"
  let ?f = "\<lambda>row :: run_row. row\<lparr>run_budget := b, run_updated_at := now\<rparr>"
  from up obtain row where
    row: "List.find ?P (db_runs db) = Some row"
    and q: "q = run_record (?f row)"
    and db': "db' = db\<lparr>db_runs := update_first ?P ?f (db_runs db)\<rparr>"
    by (auto simp: update_run_budget_def Let_def split: option.splits)
  have dist: "distinct (map run_id (db_runs db))"
    using inv by (simp add: run_inv_def distinct_runs_def)
  have get: "get_run db i = Some (run_record row)"
    using find_key_pred [OF dist row] by (simp add: get_run_def)
  have nt: "\<not> terminal_run (run_status row)" using find_SomeD [OF row] by simp
  have view: "get_run db' k = (if k = i then Some q else get_run db k)" for k
    using find_key_update_first [OF dist row, of ?f k] q db' by (simp add: get_run_def)
  have ev: "events_of db' = events_of db" using db' by (simp add: events_of_def fun_eq_iff)
  have same: "run_status q = run_status row" "run_terminal_at q = run_terminal_at row"
    "run_idempotency_key q = run_idempotency_key row"
    using q by simp_all
  have "audited (run_record row) (events_of db i)"
    using inv get by (simp add: run_inv_def runs_audited_def)
  then have "audited q (events_of db i)"
    using same by (simp add: audited_def)
  then have "runs_audited db'"
    using inv view ev by (auto simp: run_inv_def runs_audited_def)
  moreover have "distinct_runs db'"
    using dist db' by (simp add: distinct_runs_def map_key_update_first)
  ultimately show ?thesis
    using replace_run_inv [OF inv get _ _ view] nt same ev by simp
qed

lemma find_reusable_run_None:
  assumes "find_reusable_run db key = None" and "get_run db i = Some r"
    and "run_idempotency_key r = key"
  shows "\<not> reusable_status (run_status r)"
proof
  assume rs: "reusable_status (run_status r)"
  from assms(2) obtain row where
    "row \<in> set (db_runs db)" "r = run_record row"
    by (auto simp: get_run_def dest: find_SomeD)
  with assms(3) rs have
    "row \<in> set (order_by2 run_created_at run_id
        (filter (\<lambda>r. run_idempotency_key r = key \<and> reusable_status (run_status r)) (db_runs db)))"
    by (simp add: order_by2_def)
  with assms(1) show False
    by (auto simp: find_reusable_run_def split: list.splits)
qed

lemma insert_run_row_step:
  assumes inv: "run_inv db" and ins: "insert_run_row db row = Inr db'"
    and cr: "run_status row = Run_CREATED" "run_terminal_at row = None"
  shows "run_inv db' \<and> terminal_runs_kept db db'"
proof -
  from ins have fresh: "run_id row \<notin> set (map run_id (db_runs db))"
    and nokey: "\<not> list_ex (\<lambda>r. run_idempotency_key r = run_idempotency_key row \<and>
                   reusable_status (run_status r)) (db_runs db)"
    and db': "db' = db\<lparr>db_runs := db_runs db @ [row]\<rparr>"
    using cr by (auto simp: insert_run_row_def reusable_statuses_def split: if_splits)
  have none: "get_run db (run_id row) = None"
    using fresh by (simp add: get_run_def find_key_None)
  have view: "get_run db' k = (if k = run_id row then Some (run_record row) else get_run db k)" for k
  proof (cases "List.find (\<lambda>r. run_id r = k) (db_runs db)")
    case None
    then show ?thesis
      using db' by (auto simp: get_run_def find_append split: option.splits)
  next
    case (Some x)
    then have "k \<noteq> run_id row" using fresh find_SomeD [OF Some] by (metis image_eqI set_map)
    with Some show ?thesis using db' by (simp add: get_run_def find_append)
  qed
  have ev: "events_of db' = events_of db" using db' by (simp add: events_of_def fun_eq_iff)
  have "events_of db (run_id row) = []"
    using inv none by (simp add: run_inv_def no_stray_events_def)
  then have "audited (run_record row) (events_of db' (run_id row))"
    using cr ev by (simp add: audited_def TERMINAL_RUN_STATUSES_def)
  then have au: "runs_audited db'"
    using inv view ev by (auto simp: run_inv_def runs_audited_def)
  have clash: "run_idempotency_key r \<noteq> run_idempotency_key row \<or> \<not> reusable_status (run_status r)"
    if "get_run db i = Some r" for i r
    using that nokey by (auto simp: get_run_def list_ex_iff dest: find_SomeD)
  have "one_reusable_run db'"
    unfolding one_reusable_run_def
  proof (intro allI impI)
    fix a b x y
    assume *: "get_run db' a = Some x \<and> get_run db' b = Some y \<and>
      run_idempotency_key x = run_idempotency_key y \<and>
      reusable_status (run_status x) \<and> reusable_status (run_status y)"
    have one: "get_run db a = Some x \<Longrightarrow> get_run db b = Some y \<Longrightarrow> a = b"
      using inv * unfolding run_inv_def one_reusable_run_def by blast
    from * show "a = b"
      using one clash [of a x] clash [of b y] view [of a] view [of b]
      by (auto split: if_splits)
  qed
  moreover have "distinct_runs db'"
    using inv fresh db' by (auto simp: run_inv_def distinct_runs_def)
  moreover have "no_stray_events db'"
    using inv view ev by (auto simp: run_inv_def no_stray_events_def split: if_splits)
  moreover have "terminal_runs_kept db db'"
    using view none by (auto simp: terminal_runs_kept_def)
  ultimately show ?thesis using au by (simp add: run_inv_def)
qed

lemma create_step:
  assumes "run_inv db" and "run_inv (other db)" and "terminal_runs_kept db (other db)"
    and "run_status v = Run_CREATED" and "run_terminal_at v = None"
    and "create_run other db v = Inr (r, db')"
  shows "run_inv db' \<and> terminal_runs_kept db db'"
proof -
  from assms(6) consider
      (same) "db' = db"
    | (lost) "db' = other db"
    | (won) q :: research_request where "insert_run_row (other db)
          (agent_run.extend v (run_row.fields (rq_research_type q))) = Inr db'"
    by (auto simp: create_run_def Let_def split: option.splits sum.splits)
  then show ?thesis
  proof cases
    case same
    with assms(1) show ?thesis by simp
  next
    case lost
    with assms(2,3) show ?thesis by simp
  next
    case won
    have "run_inv db' \<and> terminal_runs_kept (other db) db'"
      using insert_run_row_step [OF assms(2) won] assms(4,5)
      by (simp add: agent_run.defs run_row.defs)
    with assms(3) show ?thesis by (blast intro: terminal_runs_kept_trans)
  qed
qed

lemma run_steps_inv:
  "run_steps db db' \<Longrightarrow> run_inv db \<Longrightarrow> run_inv db' \<and> terminal_runs_kept db db'"
proof (induction rule: run_steps.induct)
  case (start db)
  then show ?case by simp
next
  case (create db0 db other v r db')
  then show ?case using create_step [of db other v r db'] terminal_runs_kept_trans by blast
next
  case (advance db0 db w i target reason r db' w')
  then show ?case using advance_step terminal_runs_kept_trans by blast
next
  case (budget db0 db i b now r db')
  then show ?case using budget_step terminal_runs_kept_trans by blast
next
  case (frame db0 db db')
  then show ?case using frame_step terminal_runs_kept_trans by blast
qed

lemma reachable_inv: "reachable_db db \<Longrightarrow> run_inv db"
  unfolding reachable_db_def using run_steps_inv run_inv_empty by blast

section \<open>Writes that leave runs and events alone\<close>

lemma add_policy_frame: "add_policy db p = Inr (x, db') \<Longrightarrow> db_runs db' = db_runs db \<and> db_events db' = db_events db"
  by (auto simp: add_policy_def split: option.splits if_splits)

lemma add_request_frame: "add_request db q = Inr (x, db') \<Longrightarrow> db_runs db' = db_runs db \<and> db_events db' = db_events db"
  by (auto simp: add_request_def split: if_splits)

lemma add_plan_frame: "add_plan db p = Inr (x, db') \<Longrightarrow> db_runs db' = db_runs db \<and> db_events db' = db_events db"
  by (auto simp: add_plan_def split: if_splits)

lemma add_steps_frame: "add_steps db vs = Inr (x, db') \<Longrightarrow> db_runs db' = db_runs db \<and> db_events db' = db_events db"
  by (auto simp: add_steps_def Let_def)

lemma transition_step_frame:
  "transition_step db i a b t k = Inr (x, db') \<Longrightarrow> db_runs db' = db_runs db \<and> db_events db' = db_events db"
  by (auto simp: transition_step_def Let_def split: option.splits)

lemma add_invocation_frame: "add_invocation db v = Inr (x, db') \<Longrightarrow> db_runs db' = db_runs db \<and> db_events db' = db_events db"
  by (auto simp: add_invocation_def Let_def split: if_splits)

lemma complete_invocation_frame:
  "complete_invocation_row db i v = Inr (x, db') \<Longrightarrow> db_runs db' = db_runs db \<and> db_events db' = db_events db"
  by (auto simp: complete_invocation_row_def Let_def split: option.splits)

lemma add_observation_frame: "add_observation db v = Inr (x, db') \<Longrightarrow> db_runs db' = db_runs db \<and> db_events db' = db_events db"
  by (auto simp: add_observation_def split: if_splits)

lemma add_evidence_frame: "add_evidence db vs = Inr (x, db') \<Longrightarrow> db_runs db' = db_runs db \<and> db_events db' = db_events db"
  by (auto simp: add_evidence_def)

lemma add_claim_frame: "add_claim L db c = Inr (x, db') \<Longrightarrow> db_runs db' = db_runs db \<and> db_events db' = db_events db"
  by (auto simp: add_claim_def split: if_splits)

lemma add_links_frame: "add_links db vs = Inr (x, db') \<Longrightarrow> db_runs db' = db_runs db \<and> db_events db' = db_events db"
  by (auto simp: add_links_def)

lemma complete_claim_frame:
  "complete_claim db i v = Inr (x, db') \<Longrightarrow> db_runs db' = db_runs db \<and> db_events db' = db_events db"
  by (auto simp: complete_claim_def Let_def split: option.splits)

lemma add_package_frame:
  "add_package k t db v = Inr (x, db') \<Longrightarrow> db_runs db' = db_runs db \<and> db_events db' = db_events db"
  by (auto simp: add_package_def Let_def split: if_splits)

lemmas frame_writes =
  add_policy_frame add_request_frame add_plan_frame add_steps_frame transition_step_frame
  add_invocation_frame complete_invocation_frame add_observation_frame add_evidence_frame
  add_claim_frame add_links_frame complete_claim_frame add_package_frame

section \<open>A concrete life of two runs\<close>

text \<open>
  One request; a run created for it, planned and failed; a second run created with the same key
  after that and left in PLANNING. The witnesses of the properties evaluate on these tables.
\<close>

definition demo_budget :: run_budget where
  "demo_budget =
     \<lparr>bud_max_steps = 12, bud_max_tool_calls = 24, bud_max_calls_per_tool = 5,
      bud_max_retries_per_step = 1, bud_max_duration_seconds = 120, bud_model_token_budget = 0,
      bud_consumed_steps = 0, bud_consumed_tool_calls = 0, bud_consumed_model_tokens = 0,
      bud_elapsed_seconds = DFinite False 0 0, bud_calls_per_tool = [],
      bud_retries_per_step = []\<rparr>"

definition demo_request :: research_request where
  "demo_request =
     \<lparr>rq_security_query = ''601138'', rq_research_type = COMPANY_OVERVIEW, rq_snapshot_id = ''n'',
      rq_research_as_of_time = 5, rq_requested_sections = [Sec_SECURITY_IDENTITY],
      rq_policy_version = ''controlled-offline-v1'',
      rq_planner_version = ''deterministic-template-v1'',
      rq_requested_budgets =
        \<lparr>rb_max_steps = None, rb_max_tool_calls = None, rb_max_calls_per_tool = None,
         rb_max_retries_per_step = None, rb_max_duration_seconds = None\<rparr>,
      rq_research_mode = REAL_RESEARCH, rq_id = ''q'', rq_resolved_security_id = ''s'',
      rq_normalized_security_query = ''601138'', rq_tool_catalog_version = ''c'',
      rq_tool_catalog_checksum = ''k'', rq_request_checksum = ''x'', rq_created_at = 6\<rparr>"

definition demo_run :: "uuid \<Rightarrow> datetime \<Rightarrow> agent_run" where
  "demo_run i t =
     \<lparr>run_id = i, run_request_id = ''q'', run_security_id = ''s'', run_snapshot_id = ''n'',
      run_research_as_of_time = 5, run_status = Run_CREATED,
      run_policy_version = ''controlled-offline-v1'',
      run_planner_version = ''deterministic-template-v1'',
      run_tool_catalog_version = replicate 80 (CHR ''c''),
      run_tool_catalog_checksum = ''k'', run_idempotency_key = ''i'', run_budget = demo_budget,
      run_warning_codes = [], run_terminal_reason_code = None, run_created_at = t,
      run_updated_at = t, run_terminal_at = None\<rparr>"

definition demo_env :: "nat \<Rightarrow> env" where
  "demo_env n =
     \<lparr>env_id = (\<lambda>k. replicate k (CHR ''e'')), env_now = (\<lambda>k. 10 + int k), env_i = n, env_t = n\<rparr>"

definition after_create :: "research_db \<Rightarrow> agent_run \<Rightarrow> research_db" where
  "after_create db v = (case create_run id db v of Inl _ \<Rightarrow> db | Inr (_, db') \<Rightarrow> db')"

definition after_transition ::
  "nat \<Rightarrow> uuid \<Rightarrow> run_status \<Rightarrow> code option \<Rightarrow> research_db \<Rightarrow> research_db" where
  "after_transition n i target reason db =
     (case run_transition (db, demo_env n) i target reason of
        Inl _ \<Rightarrow> db | Inr (_, db', _) \<Rightarrow> db')"

definition demo_db0 :: research_db where
  "demo_db0 = after_create (empty_db\<lparr>db_requests := [demo_request]\<rparr>) (demo_run ''r1'' 6)"

definition demo_db1 :: research_db where
  "demo_db1 = after_transition 2 ''r1'' Run_FAILED (Some ''PLAN_REJECTED'')
     (after_transition 1 ''r1'' Run_PLANNING (Some ''PLAN_STARTED'') demo_db0)"

definition demo_db2 :: research_db where
  "demo_db2 = after_transition 3 ''r2'' Run_PLANNING None (after_create demo_db1 (demo_run ''r2'' 7))"

lemma after_create_steps: "run_steps db0 db \<Longrightarrow> run_steps db0 (after_create db (demo_run i t))"
proof (cases "create_run id db (demo_run i t)")
  case (Inr x)
  obtain r db' where x: "x = (r, db')" by fastforce
  assume "run_steps db0 db"
  then have "run_steps db0 db'"
    by (rule run_steps.create [where other = id and v = "demo_run i t" and r = r])
      (use Inr x in \<open>simp_all add: run_steps.start, simp_all add: demo_run_def\<close>)
  with Inr x show ?thesis by (simp add: after_create_def)
qed (simp add: after_create_def)

lemma after_transition_steps:
  "run_steps db0 db \<Longrightarrow> run_steps db0 (after_transition n i target reason db)"
  by (auto simp: after_transition_def split: sum.splits intro: run_steps.advance)

lemma demo_db0_steps: "run_steps empty_db demo_db0"
  unfolding demo_db0_def
  by (rule after_create_steps, rule run_steps.frame [OF run_steps.start]) simp_all

lemma demo_db1_steps: "run_steps demo_db0 demo_db1"
  unfolding demo_db1_def by (intro after_transition_steps run_steps.start)

lemma demo_db2_steps: "run_steps demo_db1 demo_db2"
  unfolding demo_db2_def by (intro after_transition_steps after_create_steps run_steps.start)

lemma run_steps_trans: "run_steps db db' \<Longrightarrow> run_steps db0 db \<Longrightarrow> run_steps db0 db'"
  by (induction rule: run_steps.induct) (auto intro: run_steps.intros)

lemma reachable_demo: "reachable_db demo_db0" "reachable_db demo_db1" "reachable_db demo_db2"
  unfolding reachable_db_def
  using demo_db0_steps demo_db1_steps demo_db2_steps run_steps_trans by blast+

definition demo_run_of :: "research_db \<Rightarrow> uuid \<Rightarrow> agent_run" where
  "demo_run_of db i = (case get_run db i of None \<Rightarrow> demo_run i 0 | Some r \<Rightarrow> r)"

lemma demo_gets:
  "get_run demo_db1 ''r1'' = Some (demo_run_of demo_db1 ''r1'')"
  "run_status (demo_run_of demo_db1 ''r1'') = Run_FAILED"
  "get_run demo_db2 ''r2'' = Some (demo_run_of demo_db2 ''r2'')"
  "run_status (demo_run_of demo_db2 ''r2'') = Run_PLANNING"
  "length (events_of demo_db1 ''r1'') = 2"
  by code_simp+

section \<open>Properties\<close>

lemma audited_sequence_distinct:
  "audited r es \<Longrightarrow> distinct (map rev_sequence_number es) \<and> sorted (map rev_sequence_number es) \<and>
    Suc (length es) \<notin> rev_sequence_number ` set es"
proof -
  assume "audited r es"
  then have eq: "map rev_sequence_number es = [1..<Suc (length es)]"
    unfolding audited_def by blast
  have "rev_sequence_number ` set es = {1..<Suc (length es)}"
    using arg_cong [OF eq, of set] by (simp only: set_map set_upt)
  with eq show ?thesis by (simp only: distinct_upt sorted_upt) simp
qed

text \<open>
  C1. In every reachable database the events of a run are its audit trail: they lead, one allowed
  transition after the other, from CREATED to the status the run has now, they are numbered
  1, 2, ... without a gap, and the run has a terminal time exactly when its status is terminal.
\<close>

theorem audit_trail_consistent:
  assumes "reachable_db db" and "get_run db i = Some r"
  shows "audit_path Run_CREATED (events_of db i) (run_status r) \<and>
    map rev_sequence_number (events_of db i) = [1..<Suc (length (events_of db i))] \<and>
    (run_terminal_at r \<noteq> None \<longleftrightarrow> terminal_run (run_status r))"
proof -
  from assms have "audited r (events_of db i)"
    using reachable_inv by (simp add: run_inv_def runs_audited_def)
  then show ?thesis by (simp only: audited_def)
qed

theorem audit_trail_consistent_witness:
  "run_status (demo_run_of demo_db1 ''r1'') = Run_FAILED \<and>
   length (events_of demo_db1 ''r1'') = 2 \<and>
   audit_path Run_CREATED (events_of demo_db1 ''r1'') Run_FAILED \<and>
   run_terminal_at (demo_run_of demo_db1 ''r1'') \<noteq> None"
  using audit_trail_consistent [OF reachable_demo(2) demo_gets(1)] demo_gets(2,5)
  by (simp add: TERMINAL_RUN_STATUSES_def)

text \<open>
  C2. A run that has reached a terminal status is final: whatever sequence of creations,
  transitions, budget updates and other writes follows, its row is read back unchanged.
\<close>

theorem terminal_run_is_final:
  assumes "reachable_db db" and "run_steps db db'" and "get_run db i = Some r"
    and "terminal_run (run_status r)"
  shows "get_run db' i = Some r"
  using run_steps_inv [OF assms(2) reachable_inv [OF assms(1)]] assms(3,4)
  by (simp add: terminal_runs_kept_def)

theorem terminal_run_is_final_witness:
  "run_status (demo_run_of demo_db1 ''r1'') = Run_FAILED \<and>
   get_run demo_db2 ''r1'' = Some (demo_run_of demo_db1 ''r1'')"
  using terminal_run_is_final [OF reachable_demo(2) demo_db2_steps demo_gets(1)] demo_gets(2)
  by (simp add: TERMINAL_RUN_STATUSES_def)

text \<open>
  C3. Idempotent creation under races: in every reachable database, also when another session
  commits between the lookup and the insert of \<open>create_run\<close>, two reusable runs with the same
  idempotency key are the same run.
\<close>

theorem one_reusable_run_per_key:
  assumes "reachable_db db" and "get_run db i = Some r" and "get_run db j = Some q"
    and "run_idempotency_key r = run_idempotency_key q"
    and "reusable_status (run_status r)" and "reusable_status (run_status q)"
  shows "i = j"
  using reachable_inv [OF assms(1)] assms(2-6)
  unfolding run_inv_def one_reusable_run_def by blast

theorem one_reusable_run_per_key_witness:
  "{j. \<exists>q. get_run demo_db2 j = Some q \<and>
      run_idempotency_key (demo_run_of demo_db2 ''r2'') = run_idempotency_key q \<and>
      reusable_status (run_status q)} = {''r2''}"
proof -
  have "reusable_status (run_status (demo_run_of demo_db2 ''r2''))"
    using demo_gets(4) by (simp add: reusable_statuses_def)
  then show ?thesis
    using one_reusable_run_per_key [OF reachable_demo(3) demo_gets(3)] demo_gets(3) by auto
qed

text \<open>
  The state machine moves a run exactly when the table allows it: with a well-formed reason
  and a fresh event identifier, a transition of an existing run succeeds if and only if the table
  lists the target, and then the run is read back with the target status.
\<close>

theorem transition_iff_allowed:
  assumes "reachable_db db" and "get_run db i = Some r" and "valid_code_opt reason"
    and "fst (next_id w) \<notin> rev_id ` set (db_events db)"
  shows "(\<exists>q db' w'. run_transition (db, w) i target reason = Inr (q, db', w') \<and>
      get_run db' i = Some q \<and> run_status q = target) \<longleftrightarrow> allowed_run (run_status r) target"
proof
  have inv: "run_inv db" using assms(1) by (rule reachable_inv)
  then have v: "distinct_runs db" by (simp add: run_inv_def)
  {
    assume "\<exists>q db' w'. run_transition (db, w) i target reason = Inr (q, db', w') \<and>
      get_run db' i = Some q \<and> run_status q = target"
    then obtain q db' w' where
      "transition research_runs next_event_sequence (db, w) i target reason = Inr (q, db', w')"
      by (auto simp: run_transition_def)
    from runs.transition_Inr [OF v this] assms(2)
    show "allowed_run (run_status r) target" by (auto simp: research_runs_def)
  next
    assume ok: "allowed_run (run_status r) target"
    have fresh: "fst (next_id w) \<notin> rev_id ` set (events_of db k)" for k
      using assms(4) by (auto simp: events_of_def)
    have "audited r (events_of db i)"
      using inv assms(2) by (simp add: run_inv_def runs_audited_def)
    then have sq: "Suc (length (events_of db i)) \<notin> rev_sequence_number ` set (events_of db i)"
      using audited_sequence_distinct by blast
    have get: "rr_get_run research_runs db i = Some r"
      using assms(2) by (simp add: research_runs_def)
    obtain q db' w' where
      tr: "transition research_runs next_event_sequence (db, w) i target reason = Inr (q, db', w')"
      using runs.transition_total [OF v get ok assms(3) fresh sq] by auto
    from runs.transition_Inr [OF v tr]
    have "get_run db' i = Some q" "run_status q = target"
      by (auto simp: research_runs_def run_update_of_def)
    with tr show "\<exists>q db' w'. run_transition (db, w) i target reason = Inr (q, db', w') \<and>
      get_run db' i = Some q \<and> run_status q = target"
      by (auto simp: run_transition_def)
  }
qed

theorem transition_iff_allowed_witness:
  "(\<exists>q db' w'. run_transition (demo_db2, demo_env 9) ''r2'' Run_PLANNED None = Inr (q, db', w') \<and>
     get_run db' ''r2'' = Some q \<and> run_status q = Run_PLANNED) \<and>
   \<not> (\<exists>q db' w'. run_transition (demo_db2, demo_env 9) ''r2'' Run_COMPLETED None = Inr (q, db', w') \<and>
     get_run db' ''r2'' = Some q \<and> run_status q = Run_COMPLETED)"
proof -
  have fresh: "fst (next_id (demo_env 9)) \<notin> rev_id ` set (db_events demo_db2)"
    by code_simp
  have ok: "valid_code_opt None" by (simp add: valid_code_opt_def)
  show ?thesis
    using transition_iff_allowed [OF reachable_demo(3) demo_gets(3) ok fresh, of Run_PLANNED]
      transition_iff_allowed [OF reachable_demo(3) demo_gets(3) ok fresh, of Run_COMPLETED]
      demo_gets(4)
    by simp
qed

text \<open>
  The event listing is the audit trail: reading the first page of a run's events, large
  enough for all of them, gives the events in the order in which the transitions happened.
\<close>

theorem event_listing_is_trail:
  assumes "reachable_db db" and "get_run db i = Some r"
    and "length (events_of db i) \<le> limit"
  shows "pg_items (list_event_views db i limit 0) = events_of db i"
proof -
  let ?es = "events_of db i"
  have "audited r ?es"
    using reachable_inv [OF assms(1)] assms(2) by (simp add: run_inv_def runs_audited_def)
  then have d: "distinct (map rev_sequence_number ?es)" "sorted (map rev_sequence_number ?es)"
    using audited_sequence_distinct by blast+
  have "sort_key rev_sequence_number (sort_key rev_id ?es) = ?es"
  proof (rule map_sorted_distinct_set_unique [where f = rev_sequence_number])
    show "inj_on rev_sequence_number (set (sort_key rev_sequence_number (sort_key rev_id ?es)) \<union> set ?es)"
      using d(1) by (simp add: distinct_map)
    show "distinct (map rev_sequence_number (sort_key rev_sequence_number (sort_key rev_id ?es)))"
      using d(1) by (simp add: distinct_map)
  qed (use d in simp_all)
  with assms(3) show ?thesis
    by (simp add: list_event_views_def page_of_def order_by2_def events_of_def)
qed

theorem event_listing_is_trail_witness:
  "length (events_of demo_db1 ''r1'') = 2 \<and>
   pg_items (list_event_views demo_db1 ''r1'' 50 0) = events_of demo_db1 ''r1''"
  using event_listing_is_trail [OF reachable_demo(2) demo_gets(1), of 50] demo_gets(5) by simp

end
