(* ===== verification/Execution.thy ===== *)
theory Execution
  imports Run_Control Run_Lifecycle
begin

text \<open>
  The deterministic execution service (\<open>domain/research_agent/application.py\<close>): it starts a planned
  run, executes the pending steps of its plan in order, persists every invocation, observation and
  piece of evidence, stores the budget, builds and validates the claims, assembles and stores the
  package, and moves the run to the terminal status of the package. The Tool registries are
  composed by \<open>CompositeReadOnlyToolInvoker\<close>. A raise anywhere leaves no result: the caller's
  transaction is rolled back.
\<close>

section \<open>The composite invoker\<close>

fun add_names :: "(string \<times> string) list \<Rightarrow> (string \<times> string) list \<Rightarrow> (string \<times> string) list res" where
  "add_names names [] = Inr names"
| "add_names names (k # ks) =
     (if k \<in> set names then Inl (ValueError ''DUPLICATE_COMPOSITE_TOOL'') else add_names (names @ [k]) ks)"

definition composite_names :: "'w tool_registry list \<Rightarrow> (string \<times> string) list res" where
  "composite_names registries =
     fold_res (\<lambda>R names. add_names names (map metadata_key (registry_list R))) registries []"

definition normalized_payload :: "string \<Rightarrow> payload \<Rightarrow> payload" where
  "normalized_payload name p =
     (if name \<noteq> ''search_document_chunks'' then p
      else let popped = payload_get p ''query_template''; rest = AList.delete ''query_template'' p in
        if py_eq popped (PStr ''company_disclosures_bilingual-v1'') \<and> ''query'' \<notin> set (map fst rest)
        then rest @ [(''query'', PStr ''company disclosures'')] else rest)"

fun route :: "pydantic \<Rightarrow> 'w tool_registry list \<Rightarrow> 'w invoker" where
  "route pyd [] u name version p = (Inl (ToolRegistryError TOOL_NOT_FOUND), u)"
| "route pyd (R # Rs) u name version p =
     (if (name, version) \<in> set (map metadata_key (registry_list R))
      then execute pyd R u name version (InMapping (normalized_payload name p))
      else route pyd Rs u name version p)"

definition composite_execute :: "pydantic \<Rightarrow> 'w tool_registry list \<Rightarrow> (string \<times> string) list \<Rightarrow> 'w invoker" where
  "composite_execute pyd registries names u name version p =
     (if (name, version) \<notin> set names then (Inl (ToolRegistryError TOOL_NOT_FOUND), u)
      else route pyd registries u name version p)"

section \<open>Ports and state\<close>

record 'w execution_ports =
  xp_invoke :: "'w invoker"
  xp_snapshots :: "uuid \<Rightarrow> data_snapshot option"
  xp_securities :: "uuid \<Rightarrow> security_detail option"

record 'w exec_state =
  xs_db :: research_db
  xs_env :: env
  xs_world :: 'w
  xs_budget :: run_budget
  xs_blocked :: "code list"
  xs_failed :: bool

definition context_of :: "agent_run \<Rightarrow> research_request \<Rightarrow> run_context" where
  "context_of r q =
     \<lparr>ctx_security_id = run_security_id r, ctx_snapshot_id = run_snapshot_id r,
      ctx_research_as_of_time = run_research_as_of_time r, ctx_run_id = run_id r, ctx_request_id = rq_id q,
      ctx_policy_version = run_policy_version r, ctx_tool_catalog_version = run_tool_catalog_version r\<rparr>"

definition LIMITED_TOOLS :: "string list" where
  "LIMITED_TOOLS =
     [''get_corporate_actions'', ''get_financial_metrics'', ''get_financial_periods'',
      ''get_normalized_financial_facts'', ''list_document_versions'', ''list_snapshot_items'']"

definition arguments_of :: "step_record \<Rightarrow> payload" where
  "arguments_of s =
     (case sd_tool_name (st_definition s) of None \<Rightarrow> []
      | Some name \<Rightarrow>
         if name = ''search_document_chunks''
         then [(''query'', PStr ''company disclosures''), (''max_results'', PInt 10)]
         else if name \<in> set LIMITED_TOOLS then [(''limit'', PInt 20)] else [])"

fun step_status_of :: "observation_status \<Rightarrow> step_status" where
  "step_status_of Obs_PASS = Step_PASS"
| "step_status_of Obs_PARTIAL = Step_PARTIAL"
| "step_status_of Obs_BLOCKED = Step_BLOCKED"
| "step_status_of Obs_FAIL = Step_FAIL"

fun terminal_status_of :: "package_status \<Rightarrow> run_status" where
  "terminal_status_of Pkg_FAILED = Run_FAILED"
| "terminal_status_of Pkg_PARTIAL = Run_PARTIAL"
| "terminal_status_of Pkg_BLOCKED = Run_BLOCKED"
| "terminal_status_of Pkg_COMPLETE = Run_COMPLETED"

section \<open>Persisting\<close>

definition step_transition ::
  "research_db \<times> env \<Rightarrow> step_record \<Rightarrow> step_status \<Rightarrow> step_status \<Rightarrow> (step_record \<times> research_db \<times> env) res" where
  "step_transition dbw s expected target =
     (let (t, w1) = next_now (snd dbw) in
      bind_res (transition_step (fst dbw) (st_id s) expected target t None) (\<lambda>(s', db1). Inr (s', db1, w1)))"

definition persist_observation ::
  "(observation \<Rightarrow> env \<Rightarrow> (evidence \<times> env) res) \<Rightarrow> observation \<Rightarrow> research_db \<times> env \<Rightarrow> (research_db \<times> env) res" where
  "persist_observation admit ob dbw =
     bind_res (add_observation (fst dbw) ob) (\<lambda>(stored, db1).
       bind_res (admit stored (snd dbw)) (\<lambda>(ev, w1).
         bind_res (add_evidence db1 [ev]) (\<lambda>(_, db2). Inr (db2, w1))))"

definition completion_of :: "invocation_record \<Rightarrow> datetime \<Rightarrow> invocation_completion" where
  "completion_of rec t =
     \<lparr>ic_status = iw_status rec, ic_output_checksum = ir_output_checksum rec,
      ic_error_code = ir_error_code rec, ic_safe_error_message = ir_safe_error_message rec,
      ic_completed_at = t\<rparr>"

definition completion_time :: "invocation_record \<Rightarrow> env \<Rightarrow> datetime \<times> env" where
  "completion_time rec w = (case ir_completed_at rec of Some t \<Rightarrow> (t, w) | None \<Rightarrow> next_now w)"

definition persist_execution ::
  "pylib \<Rightarrow> 'w execution_ports \<Rightarrow> run_context \<Rightarrow> string \<Rightarrow> bool \<Rightarrow> tool_execution_result
    \<Rightarrow> research_db \<times> env \<Rightarrow> (research_db \<times> env) res" where
  "persist_execution L P ctx tool real_research r dbw =
     (let rec = ter_invocation r in
      bind_res (add_invocation (fst dbw) ((invocation_write.truncate rec)\<lparr>iw_status := Inv_RUNNING\<rparr>)) (\<lambda>(_, db1).
        let (t, w1) = completion_time rec (snd dbw) in
        bind_res (complete_invocation_row db1 (iw_id rec) (completion_of rec t)) (\<lambda>(_, db2).
          case ter_observation r of None \<Rightarrow> Inr (db2, w1)
          | Some ob \<Rightarrow> persist_observation
              (\<lambda>stored. adapter_admit L (xp_snapshots P) ctx tool stored real_research) ob (db2, w1))))"

definition identity_observation ::
  "uuid \<Rightarrow> run_context \<Rightarrow> step_record \<Rightarrow> payload \<Rightarrow> checksum \<Rightarrow> datetime \<Rightarrow> observation" where
  "identity_observation i ctx s p c t =
     \<lparr>ob_id = i, ob_run_id = ctx_run_id ctx, ob_research_step_id = st_id s, ob_invocation_id = None,
      ob_observation_type = ObsT_SECURITY_IDENTITY, ob_status = Obs_PASS,
      ob_schema_version = ''research-observation-v1'', ob_payload = p, ob_output_checksum = c,
      ob_security_id = ctx_security_id ctx, ob_snapshot_id = ctx_snapshot_id ctx,
      ob_research_as_of_time = ctx_research_as_of_time ctx, ob_synthetic_status = REAL_VERIFIED,
      ob_warnings = [], ob_created_at = t\<rparr>"

definition persist_security_identity ::
  "pylib \<Rightarrow> 'w execution_ports \<Rightarrow> run_context \<Rightarrow> step_record \<Rightarrow> bool \<Rightarrow> research_db \<times> env
    \<Rightarrow> (research_db \<times> env) res" where
  "persist_security_identity L P ctx s real_research dbw =
     (case xp_securities P (ctx_security_id ctx) of
        None \<Rightarrow> Inl (LookupError ''SECURITY_NOT_FOUND'')
      | Some d \<Rightarrow>
         (let p = security_master_identity_projection d; (i, w1) = next_id (snd dbw) in
          bind_res (stable_checksum L (PDict p)) (\<lambda>c.
            let (t, w2) = next_now w1 in
            if \<not> valid_observation ''research-observation-v1'' p [] then Inl ValidationError
            else persist_observation
              (\<lambda>stored. admit_security_identity L (xp_securities P) ctx stored real_research)
              (identity_observation i ctx s p c t) (fst dbw, w2))))"

section \<open>One step\<close>

definition blocked_code :: "string \<Rightarrow> step_status \<Rightarrow> code list" where
  "blocked_code tool target =
     (if target = Step_BLOCKED then [map ascii_upper_char tool @ ''_BLOCKED'']
      else if target = Step_FAIL then [map ascii_upper_char tool @ ''_FAILED''] else [])"

definition component_work ::
  "pylib \<Rightarrow> 'w execution_ports \<Rightarrow> run_context \<Rightarrow> bool \<Rightarrow> step_record \<Rightarrow> research_db \<times> env \<Rightarrow> (research_db \<times> env) res" where
  "component_work L P ctx real_research active dbw =
     (if sd_step_key (st_definition active) = ''resolve_security''
      then persist_security_identity L P ctx active real_research dbw else Inr dbw)"

definition component_target :: "step_record \<Rightarrow> code list \<Rightarrow> step_status" where
  "component_target active blocked =
     (if sd_step_key (st_definition active) = ''validate_evidence'' \<and> blocked \<noteq> [] then Step_BLOCKED else Step_PASS)"

definition execute_component ::
  "pylib \<Rightarrow> 'w execution_ports \<Rightarrow> run_context \<Rightarrow> bool \<Rightarrow> step_record \<Rightarrow> 'w exec_state \<Rightarrow> 'w exec_state res" where
  "execute_component L P ctx real_research active s =
     bind_res (component_work L P ctx real_research active (xs_db s, xs_env s)) (\<lambda>dbw.
       bind_res (step_transition dbw active Step_RUNNING (component_target active (xs_blocked s))) (\<lambda>(_, db1, w1).
         Inr (s\<lparr>xs_db := db1, xs_env := w1\<rparr>)))"

definition execute_tool_step ::
  "pylib \<Rightarrow> 'w execution_ports \<Rightarrow> tool_catalog_snapshot \<Rightarrow> research_policy \<Rightarrow> run_context \<Rightarrow> bool \<Rightarrow> string
    \<Rightarrow> step_record \<Rightarrow> 'w exec_state \<Rightarrow> 'w exec_state res" where
  "execute_tool_step L P catalog policy ctx real_research tool active s =
     (case execute_tool L (xp_invoke P) ctx active catalog policy (xs_budget s) (arguments_of active)
             ObsT_DATA_QUALITY REAL_VERIFIED (xs_world s) (xs_env s) of
        (res, u1, w1) \<Rightarrow>
          bind_res res (\<lambda>r.
            bind_res (persist_execution L P ctx tool real_research r (xs_db s, w1)) (\<lambda>dbw.
              let target = step_status_of (ter_status r) in
              bind_res (step_transition dbw active Step_RUNNING target) (\<lambda>(_, db2, w2).
                Inr \<lparr>xs_db = db2, xs_env = w2, xs_world = u1, xs_budget = ter_budget r,
                     xs_blocked = xs_blocked s @ blocked_code tool target,
                     xs_failed = (xs_failed s \<or> target = Step_FAIL)\<rparr>))))"

definition execute_active ::
  "pylib \<Rightarrow> 'w execution_ports \<Rightarrow> tool_catalog_snapshot \<Rightarrow> research_policy \<Rightarrow> run_context \<Rightarrow> bool
    \<Rightarrow> step_record \<Rightarrow> 'w exec_state \<Rightarrow> 'w exec_state res" where
  "execute_active L P catalog policy ctx real_research active s =
     (case sd_tool_name (st_definition active) of
        None \<Rightarrow> execute_component L P ctx real_research active s
      | Some tool \<Rightarrow> execute_tool_step L P catalog policy ctx real_research tool active s)"

definition execute_step ::
  "pylib \<Rightarrow> 'w execution_ports \<Rightarrow> tool_catalog_snapshot \<Rightarrow> research_policy \<Rightarrow> run_context \<Rightarrow> bool
    \<Rightarrow> step_record \<Rightarrow> 'w exec_state \<Rightarrow> 'w exec_state res" where
  "execute_step L P catalog policy ctx real_research step s =
     (if terminal_step (st_status step) then Inr s
      else bind_res (step_transition (xs_db s, xs_env s) step Step_PENDING Step_READY) (\<lambda>(ready, dbw1).
        bind_res (step_transition dbw1 ready Step_READY Step_RUNNING) (\<lambda>(active, dbw2).
          execute_active L P catalog policy ctx real_research active
            (s\<lparr>xs_db := fst dbw2, xs_env := snd dbw2\<rparr>))))"

section \<open>The run\<close>

definition start_run ::
  "research_db \<times> env \<Rightarrow> agent_run \<Rightarrow> (agent_run \<times> research_db \<times> env) res" where
  "start_run dbw r =
     (if run_status r = Run_PLANNED then run_transition dbw (run_id r) Run_RUNNING (Some ''RUN_STARTED'')
      else if run_status r = Run_RUNNING then Inr (r, dbw)
      else Inl (ValueError ''RUN_NOT_EXECUTABLE''))"

definition scope_of :: "agent_run \<Rightarrow> research_request \<Rightarrow> package_scope" where
  "scope_of r q =
     \<lparr>sc_run_id = run_id r, sc_request_id = rq_id q, sc_security_id = run_security_id r,
      sc_snapshot_id = run_snapshot_id r, sc_research_as_of_time = run_research_as_of_time r,
      sc_research_type = rq_research_type q, sc_policy_version = run_policy_version r,
      sc_planner_version = run_planner_version r, sc_tool_catalog_version = run_tool_catalog_version r\<rparr>"

definition finish_run ::
  "pylib \<Rightarrow> agent_run \<Rightarrow> research_request \<Rightarrow> 'w exec_state
    \<Rightarrow> (agent_run \<times> research_package \<times> research_db \<times> env) res" where
  "finish_run L r q s =
     (let (t, w1) = next_now (xs_env s) in
      bind_res (update_run_budget (xs_db s) (run_id r) (xs_budget s) t) (\<lambda>(running, db1).
        bind_res (build_and_validate L (db1, w1) (run_id r) (rq_research_mode q)) (\<lambda>(claims, db2, w2).
          let es = list_evidence db2 (run_id r);
              warnings = run_warning_codes running @ (if claims = [] then [''NO_VALIDATED_CLAIMS''] else []);
              (pid, w3) = next_id w2; (t2, w4) = next_now w3 in
          bind_res (assemble L pid (scope_of r q) (rq_requested_sections q) claims es
              (sort (remdups (xs_blocked s))) (from_keys warnings) (xs_failed s) t2) (\<lambda>package.
            let (rid, w5) = next_id w4; (t3, w6) = next_now w5 in
            bind_res (add_package rid t3 db2 package) (\<lambda>(persisted, db3).
              bind_res (run_transition (db3, w6) (run_id running) (terminal_status_of (pk_status persisted))
                  (Some (''PACKAGE_'' @ package_status_value (pk_status persisted)))) (\<lambda>(completed, db4, w7).
                Inr (completed, persisted, db4, w7)))))))"

definition execute_run ::
  "pylib \<Rightarrow> 'w execution_ports \<Rightarrow> tool_catalog_snapshot \<Rightarrow> research_policy \<Rightarrow> agent_run \<Rightarrow> research_request
    \<Rightarrow> 'w \<Rightarrow> research_db \<times> env \<Rightarrow> (agent_run \<times> research_package \<times> research_db \<times> env) res" where
  "execute_run L P catalog policy r q u dbw =
     bind_res (start_run dbw r) (\<lambda>(running, db1, w1).
       case get_plan db1 (run_id r) of None \<Rightarrow> Inl (ValueError ''RESEARCH_PLAN_NOT_FOUND'')
       | Some plan \<Rightarrow>
           bind_res (fold_res
               (execute_step L P catalog policy (context_of running q) (rq_research_mode q = REAL_RESEARCH))
               (list_steps db1 (pr_id plan))
               \<lparr>xs_db = db1, xs_env = w1, xs_world = u, xs_budget = run_budget running,
                xs_blocked = [], xs_failed = False\<rparr>)
             (finish_run L r q))"

section \<open>The composite port\<close>

lemma route_registry_errors: "route pyd Rs u name version p = (Inl e, u') \<Longrightarrow> \<exists>c. e = ToolRegistryError c"
  by (induction Rs) (auto split: if_splits dest: execute_registry_errors)

interpretation composite: tool_invoker "composite_execute pyd registries names" for pyd registries names
  by unfold_locales (auto simp: composite_execute_def split: if_splits dest: route_registry_errors)

section \<open>What a step leaves alone\<close>

text \<open>The writes of a step keep the run, event, plan, claim, link and package tables.\<close>

definition kept :: "research_db \<Rightarrow> research_db \<Rightarrow> bool" where
  "kept db db' \<longleftrightarrow> db_runs db' = db_runs db \<and> db_events db' = db_events db \<and> db_plans db' = db_plans db \<and>
     db_claims db' = db_claims db \<and> db_links db' = db_links db \<and> db_packages db' = db_packages db \<and>
     db_policies db' = db_policies db \<and> db_requests db' = db_requests db"

lemma kept_refl [simp]: "kept db db"
  by (simp add: kept_def)

lemma kept_trans: "kept a b \<Longrightarrow> kept b c \<Longrightarrow> kept a c"
  by (simp add: kept_def)

lemma kept_writes:
  "transition_step db i a b t k = Inr (x1, db1) \<Longrightarrow> kept db db1"
  "add_invocation db v = Inr (x2, db2) \<Longrightarrow> kept db db2 \<and> db_steps db2 = db_steps db \<and> db_evidence db2 = db_evidence db"
  "complete_invocation_row db i c = Inr (x3, db3) \<Longrightarrow> kept db db3 \<and> db_steps db3 = db_steps db \<and> db_evidence db3 = db_evidence db"
  "add_observation db ob = Inr (x4, db4) \<Longrightarrow> kept db db4 \<and> db_steps db4 = db_steps db \<and> db_evidence db4 = db_evidence db"
  "add_evidence db es = Inr (x5, db5) \<Longrightarrow> kept db db5 \<and> db_steps db5 = db_steps db"
  by (auto simp: transition_step_def add_invocation_def complete_invocation_row_def add_observation_def
      add_evidence_def kept_def Let_def split: if_splits option.splits)

lemma add_evidence_one: "add_evidence db [e] = Inr (x, db') \<Longrightarrow> db_evidence db' = db_evidence db @ [e]"
  by (auto simp: add_evidence_def split: if_splits)

lemma add_observation_same: "add_observation db ob = Inr (x, db') \<Longrightarrow> x = ob"
  by (auto simp: add_observation_def split: if_splits)

text \<open>What a persisted observation adds: one piece of evidence, the one that was admitted.\<close>

lemma persist_observation_effect:
  assumes "persist_observation admit ob (db, w) = Inr (db', w')"
  shows "kept db db' \<and> db_steps db' = db_steps db \<and>
    (\<exists>e w1. admit ob w = Inr (e, w1) \<and> db_evidence db' = db_evidence db @ [e])"
proof -
  from assms obtain stored db1 e y where "add_observation db ob = Inr (stored, db1)"
    "admit stored w = Inr (e, w')" "add_evidence db1 [e] = Inr (y, db')"
    by (auto simp: persist_observation_def)
  note w = this
  from kept_writes(4) [OF w(1)] kept_writes(5) [OF w(3)] have "kept db db'" "db_steps db' = db_steps db"
    using kept_trans by auto
  moreover from kept_writes(4) [OF w(1)] add_evidence_one [OF w(3)]
  have "db_evidence db' = db_evidence db @ [e]" by simp
  ultimately show ?thesis using w(2) add_observation_same [OF w(1)] by blast
qed

lemma persist_execution_effect:
  assumes "persist_execution L P ctx tool rr r (db, w) = Inr (db', w')"
  shows "kept db db' \<and> db_steps db' = db_steps db \<and>
    (db_evidence db' = db_evidence db \<or>
     (\<exists>ob e w0 w1. ter_observation r = Some ob \<and>
        adapter_admit L (xp_snapshots P) ctx tool ob rr w0 = Inr (e, w1) \<and>
        db_evidence db' = db_evidence db @ [e]))"
proof -
  obtain t w1 where tw: "completion_time (ter_invocation r) w = (t, w1)" by fastforce
  from assms obtain x1 db1 x2 db2 where
    a: "add_invocation db ((invocation_write.truncate (ter_invocation r))\<lparr>iw_status := Inv_RUNNING\<rparr>) = Inr (x1, db1)"
    and c: "complete_invocation_row db1 (iw_id (ter_invocation r)) (completion_of (ter_invocation r) t) = Inr (x2, db2)"
    and rest: "(case ter_observation r of None \<Rightarrow> Inr (db2, w1) | Some ob \<Rightarrow> persist_observation
              (\<lambda>stored. adapter_admit L (xp_snapshots P) ctx tool stored rr) ob (db2, w1)) = Inr (db', w')"
    using tw by (auto simp: persist_execution_def Let_def)
  from kept_writes(2) [OF a] kept_writes(3) [OF c] have base: "kept db db2" "db_steps db2 = db_steps db"
    "db_evidence db2 = db_evidence db" using kept_trans by auto
  show ?thesis
  proof (cases "ter_observation r")
    case None
    with rest base show ?thesis by simp
  next
    case (Some ob)
    with rest have "persist_observation (\<lambda>stored. adapter_admit L (xp_snapshots P) ctx tool stored rr) ob (db2, w1)
      = Inr (db', w')" by simp
    from persist_observation_effect [OF this] base Some show ?thesis using kept_trans by metis
  qed
qed

lemma persist_security_identity_effect:
  assumes "persist_security_identity L P ctx st rr (db, w) = Inr (db', w')"
  shows "kept db db' \<and> db_steps db' = db_steps db \<and>
    (\<exists>ob e w0 w1. admit_security_identity L (xp_securities P) ctx ob rr w0 = Inr (e, w1) \<and>
       db_evidence db' = db_evidence db @ [e])"
proof -
  from assms obtain ob w0 where
    "persist_observation (\<lambda>stored. admit_security_identity L (xp_securities P) ctx stored rr) ob (db, w0) = Inr (db', w')"
    by (auto simp: persist_security_identity_def Let_def case_prod_beta split: option.splits if_splits)
  from persist_observation_effect [OF this] show ?thesis by blast
qed

section \<open>The step table\<close>

definition get_step :: "research_db \<Rightarrow> uuid \<Rightarrow> step_record option" where
  "get_step db i = List.find (\<lambda>r. st_id r = i) (db_steps db)"

definition distinct_steps :: "research_db \<Rightarrow> bool" where
  "distinct_steps db \<longleftrightarrow> distinct (map st_id (db_steps db))"

lemma get_step_frame: "db_steps db' = db_steps db \<Longrightarrow> get_step db' = get_step db"
  by (simp add: get_step_def fun_eq_iff)

lemma get_step_mem:
  assumes "distinct_steps db"
  shows "get_step db i = Some r \<longleftrightarrow> r \<in> set (db_steps db) \<and> st_id r = i"
proof -
  have "distinct (map st_id xs) \<Longrightarrow> List.find (\<lambda>r. st_id r = i) xs = Some r \<longleftrightarrow> r \<in> set xs \<and> st_id r = i"
    for xs :: "step_record list"
    by (induction xs) auto
  with assms show ?thesis by (simp add: distinct_steps_def get_step_def)
qed

text \<open>Only step \<open>i\<close> changed between two tables; it kept its plan and definition.\<close>

definition step_changed :: "research_db \<Rightarrow> research_db \<Rightarrow> uuid \<Rightarrow> step_record \<Rightarrow> bool" where
  "step_changed db db' i row' \<longleftrightarrow>
     distinct_steps db' \<and> (\<forall>j. get_step db' j = (if j = i then Some row' else get_step db j)) \<and>
     (\<exists>row. get_step db i = Some row \<and> st_plan_id row' = st_plan_id row \<and>
        st_definition row' = st_definition row \<and> st_id row' = i)"

lemma transition_step_effect:
  assumes "distinct_steps db" and "transition_step db i a b t k = Inr (s, db')"
  shows "step_changed db db' i s \<and> st_status s = b \<and> db_evidence db' = db_evidence db"
proof -
  let ?P = "\<lambda>r. st_id r = i \<and> st_status r = a"
  let ?f = "\<lambda>row. row\<lparr>st_status := b, st_skip_reason_code := k, st_updated_at := t,
                 st_terminal_at := (if terminal_step b then Some t else None)\<rparr>"
  from assms(2) obtain row where row: "List.find ?P (db_steps db) = Some row"
    and s: "s = ?f row" and db': "db' = db\<lparr>db_steps := update_first ?P ?f (db_steps db)\<rparr>"
    by (auto simp: transition_step_def Let_def split: option.splits)
  from assms(1) have d: "distinct (map st_id (db_steps db))" by (simp add: distinct_steps_def)
  have id: "st_id (?f x) = st_id x" for x by simp
  note upd = find_key_update_first [where key = st_id and Q = "\<lambda>r. st_status r = a" and f = ?f and i = i, OF d row id]
  have "map st_id (update_first ?P ?f (db_steps db)) = map st_id (db_steps db)"
    by (rule map_key_update_first) simp
  with d have "distinct_steps db'" by (simp add: distinct_steps_def db')
  moreover have "get_step db i = Some row"
    using find_key_pred [OF d row] by (simp add: get_step_def)
  moreover from find_SomeD [OF row] have "st_id row = i" by simp
  ultimately show ?thesis
    using upd s by (auto simp: step_changed_def get_step_def db')
qed

lemma step_changed_trans:
  assumes "step_changed a b i r" and "step_changed b c i r'"
  shows "step_changed a c i r'"
  using assms by (auto simp: step_changed_def split: if_splits)

lemma step_changed_frame:
  assumes "step_changed a b i r" and "db_steps c = db_steps b"
  shows "step_changed a c i r"
  using assms get_step_frame [OF assms(2)] by (simp add: step_changed_def distinct_steps_def)

lemma step_transition_effect:
  assumes "distinct_steps db" and "step_transition (db, w) st a b = Inr (s, db', w')"
  shows "step_changed db db' (st_id st) s \<and> st_status s = b \<and> kept db db' \<and> db_evidence db' = db_evidence db"
proof -
  from assms(2) obtain t where tr: "transition_step db (st_id st) a b t None = Inr (s, db')"
    by (auto simp: step_transition_def Let_def case_prod_beta)
  from transition_step_effect [OF assms(1) tr] kept_writes(1) [OF tr] show ?thesis by blast
qed

section \<open>What one step does\<close>

definition admitted_evidence :: "pylib \<Rightarrow> 'w execution_ports \<Rightarrow> run_context \<Rightarrow> bool \<Rightarrow> evidence \<Rightarrow> bool" where
  "admitted_evidence L P ctx rr e \<longleftrightarrow>
     (\<exists>tool ob w0 w1. adapter_admit L (xp_snapshots P) ctx tool ob rr w0 = Inr (e, w1)) \<or>
     (\<exists>ob w0 w1. admit_security_identity L (xp_securities P) ctx ob rr w0 = Inr (e, w1))"

text \<open>
  The effect of a step on the tables: the step became terminal, everything else of the step table
  and all of the kept tables are unchanged, and at most one piece of admitted evidence was added.
\<close>

definition step_effect ::
  "pylib \<Rightarrow> 'w execution_ports \<Rightarrow> run_context \<Rightarrow> bool \<Rightarrow> uuid \<Rightarrow> research_db \<Rightarrow> research_db \<Rightarrow> bool" where
  "step_effect L P ctx rr i db db' \<longleftrightarrow>
     kept db db' \<and> (\<exists>row'. step_changed db db' i row' \<and> terminal_step (st_status row')) \<and>
     (\<exists>es. db_evidence db' = db_evidence db @ es \<and> length es \<le> 1 \<and> list_all (admitted_evidence L P ctx rr) es)"

lemma finish_step_effect:
  assumes "step_changed db db1 i active" and "kept db db1" and "db_evidence db1 = db_evidence db"
    and "kept db1 db2" and "db_steps db2 = db_steps db1"
    and "db_evidence db2 = db_evidence db1 @ es" and "length es \<le> 1" and "list_all (admitted_evidence L P ctx rr) es"
    and "step_transition (db2, w) active a target = Inr (x, db3, w')" and "terminal_step target"
  shows "step_effect L P ctx rr i db db3"
proof -
  have c2: "step_changed db db2 i active" by (rule step_changed_frame [OF assms(1,5)])
  then have d: "distinct_steps db2" and i: "st_id active = i" by (auto simp: step_changed_def)
  note tr = step_transition_effect [OF d assms(9)]
  then have "step_changed db db3 i x" using c2 i step_changed_trans by metis
  moreover have "kept db db3" using assms(2,4) tr kept_trans by blast
  moreover have "db_evidence db3 = db_evidence db @ es" using tr assms(3,6) by simp
  ultimately show ?thesis unfolding step_effect_def using assms(7,8,10) tr by auto
qed

lemma step_status_terminal: "terminal_step (step_status_of st)"
  by (cases st) (simp_all add: terminal_steps_def)

lemma execute_step_effect:
  assumes "distinct_steps (xs_db s)" and "execute_step L P cat pol ctx rr step s = Inr s'"
    and "\<not> terminal_step (st_status step)"
  shows "step_effect L P ctx rr (st_id step) (xs_db s) (xs_db s')"
proof -
  from assms(2,3) obtain ready db1 w1 active db2 w2 where
    r: "step_transition (xs_db s, xs_env s) step Step_PENDING Step_READY = Inr (ready, db1, w1)"
    and a: "step_transition (db1, w1) ready Step_READY Step_RUNNING = Inr (active, db2, w2)"
    and rest: "execute_active L P cat pol ctx rr active (s\<lparr>xs_db := db2, xs_env := w2\<rparr>) = Inr s'"
    by (auto simp: execute_step_def)
  note e1 = step_transition_effect [OF assms(1) r]
  then have d1: "distinct_steps db1" and i1: "st_id ready = st_id step" by (auto simp: step_changed_def)
  note e2 = step_transition_effect [OF d1 a]
  have ch: "step_changed (xs_db s) db2 (st_id step) active" "kept (xs_db s) db2"
    "db_evidence db2 = db_evidence (xs_db s)"
    using e1 e2 i1 step_changed_trans kept_trans by auto
  show ?thesis
  proof (cases "sd_tool_name (st_definition active)")
    case None
    with rest obtain db3 w3 target db4 w4 x where
      p: "component_work L P ctx rr active (db2, w2) = Inr (db3, w3)"
      and tr: "step_transition (db3, w3) active Step_RUNNING target = Inr (x, db4, w4)"
      and target: "target = component_target active (xs_blocked s)" and s': "xs_db s' = db4"
      by (auto simp: execute_active_def execute_component_def)
    have "kept db2 db3 \<and> db_steps db3 = db_steps db2 \<and>
        (\<exists>es. db_evidence db3 = db_evidence db2 @ es \<and> length es \<le> 1 \<and> list_all (admitted_evidence L P ctx rr) es)"
    proof (cases "sd_step_key (st_definition active) = ''resolve_security''")
      case True
      with p have "persist_security_identity L P ctx active rr (db2, w2) = Inr (db3, w3)" by (simp add: component_work_def)
      from persist_security_identity_effect [OF this] obtain e where "kept db2 db3"
        "db_steps db3 = db_steps db2" "db_evidence db3 = db_evidence db2 @ [e]" "admitted_evidence L P ctx rr e"
        unfolding admitted_evidence_def by blast
      then show ?thesis by (intro conjI exI [of _ "[e]"]) simp_all
    next
      case False
      with p show ?thesis by (intro conjI exI [of _ "[]"]) (simp_all add: component_work_def)
    qed
    then obtain es where "kept db2 db3" "db_steps db3 = db_steps db2" "db_evidence db3 = db_evidence db2 @ es"
      "length es \<le> 1" "list_all (admitted_evidence L P ctx rr) es" by blast
    moreover from target have "terminal_step target" by (simp add: component_target_def terminal_steps_def)
    ultimately show ?thesis using finish_step_effect [OF ch _ _ _ _ _ tr] s' by blast
  next
    case (Some tool)
    obtain res u1 w3 where ex: "execute_tool L (xp_invoke P) ctx active cat pol (xs_budget s) (arguments_of active)
             ObsT_DATA_QUALITY REAL_VERIFIED (xs_world s) w2 = (res, u1, w3)" by (metis prod_cases3)
    with rest Some obtain r db3 w4 db4 w5 x where
      p: "persist_execution L P ctx tool rr r (db2, w3) = Inr (db3, w4)"
      and tr: "step_transition (db3, w4) active Step_RUNNING (step_status_of (ter_status r)) = Inr (x, db4, w5)"
      and s': "xs_db s' = db4"
      by (auto simp: execute_active_def execute_tool_step_def Let_def)
    note pe = persist_execution_effect [OF p]
    have "\<exists>es. db_evidence db3 = db_evidence db2 @ es \<and> length es \<le> 1 \<and> list_all (admitted_evidence L P ctx rr) es"
    proof (cases "db_evidence db3 = db_evidence db2")
      case True
      then show ?thesis by (intro exI [of _ "[]"]) simp
    next
      case False
      with pe obtain e where "db_evidence db3 = db_evidence db2 @ [e]" "admitted_evidence L P ctx rr e"
        unfolding admitted_evidence_def by blast
      then show ?thesis by (intro exI [of _ "[e]"]) simp
    qed
    then show ?thesis
      using finish_step_effect [OF ch _ _ _ _ _ tr step_status_terminal] pe s' by blast
  qed
qed

section \<open>The loop over the plan\<close>

text \<open>The snapshot of the plan that the loop runs over: distinct rows, as they are in the table.\<close>

definition plan_rows :: "research_db \<Rightarrow> step_record list \<Rightarrow> bool" where
  "plan_rows db steps \<longleftrightarrow> distinct (map st_id steps) \<and> (\<forall>s \<in> set steps. get_step db (st_id s) = Some s)"

lemma list_steps_rows:
  assumes "distinct_steps db"
  shows "plan_rows db (list_steps db pid) \<and>
    (\<forall>s. s \<in> set (list_steps db pid) \<longleftrightarrow> s \<in> set (db_steps db) \<and> st_plan_id s = pid)"
proof -
  have set_eq: "\<forall>s. s \<in> set (list_steps db pid) \<longleftrightarrow> s \<in> set (db_steps db) \<and> st_plan_id s = pid"
    by (auto simp: list_steps_def order_by2_def)
  have "inj_on st_id (set (list_steps db pid))"
    using assms set_eq by (auto simp: distinct_steps_def distinct_map inj_on_def)
  moreover have "distinct (list_steps db pid)"
    using assms by (simp add: list_steps_def order_by2_def distinct_steps_def distinct_map)
  ultimately show ?thesis
    using set_eq get_step_mem [OF assms] by (auto simp: plan_rows_def distinct_map)
qed

text \<open>
  The effect of the loop: every step of the plan is terminal, other steps and the kept tables are
  unchanged, and the evidence added is admitted evidence, at most one piece per step.
\<close>

definition loop_effect ::
  "pylib \<Rightarrow> 'w execution_ports \<Rightarrow> run_context \<Rightarrow> bool \<Rightarrow> step_record list \<Rightarrow> research_db \<Rightarrow> research_db \<Rightarrow> bool" where
  "loop_effect L P ctx rr steps db db' \<longleftrightarrow>
     kept db db' \<and> distinct_steps db' \<and>
     (\<forall>j. map_option st_plan_id (get_step db' j) = map_option st_plan_id (get_step db j)) \<and>
     (\<forall>j. j \<notin> st_id ` set steps \<longrightarrow> get_step db' j = get_step db j) \<and>
     (\<forall>s \<in> set steps. \<exists>r. get_step db' (st_id s) = Some r \<and> terminal_step (st_status r)) \<and>
     (\<exists>es. db_evidence db' = db_evidence db @ es \<and> length es \<le> length steps \<and>
        list_all (admitted_evidence L P ctx rr) es)"

lemma loop_steps_effect:
  assumes "fold_res (execute_step L P cat pol ctx rr) steps s = Inr s'"
    and "distinct_steps (xs_db s)" and "plan_rows (xs_db s) steps"
  shows "loop_effect L P ctx rr steps (xs_db s) (xs_db s')"
  using assms
proof (induction steps arbitrary: s)
  case Nil
  then show ?case by (auto simp: loop_effect_def intro!: exI [of _ "[]"])
next
  case (Cons x xs)
  from Cons.prems(1) obtain s1 where one: "execute_step L P cat pol ctx rr x s = Inr s1"
    and rest: "fold_res (execute_step L P cat pol ctx rr) xs s1 = Inr s'" by auto
  from Cons.prems(3) have x: "get_step (xs_db s) (st_id x) = Some x" and new: "st_id x \<notin> st_id ` set xs"
    and xs: "distinct (map st_id xs)" "\<forall>s' \<in> set xs. get_step (xs_db s) (st_id s') = Some s'"
    by (auto simp: plan_rows_def)
  have first: "kept (xs_db s) (xs_db s1) \<and> distinct_steps (xs_db s1) \<and>
      (\<forall>j. j \<noteq> st_id x \<longrightarrow> get_step (xs_db s1) j = get_step (xs_db s) j) \<and>
      (\<exists>r. get_step (xs_db s1) (st_id x) = Some r \<and> terminal_step (st_status r) \<and> st_plan_id r = st_plan_id x) \<and>
      (\<exists>es. db_evidence (xs_db s1) = db_evidence (xs_db s) @ es \<and> length es \<le> 1 \<and>
         list_all (admitted_evidence L P ctx rr) es)"
  proof (cases "terminal_step (st_status x)")
    case True
    with one have "s1 = s" by (simp add: execute_step_def)
    with True x Cons.prems(2) show ?thesis by (auto intro!: exI [of _ "[]"])
  next
    case False
    from execute_step_effect [OF Cons.prems(2) one False]
    obtain row where k: "kept (xs_db s) (xs_db s1)" and c: "step_changed (xs_db s) (xs_db s1) (st_id x) row"
      and t: "terminal_step (st_status row)"
      and e: "\<exists>es. db_evidence (xs_db s1) = db_evidence (xs_db s) @ es \<and> length es \<le> 1 \<and>
         list_all (admitted_evidence L P ctx rr) es"
      unfolding step_effect_def by blast
    from c x have "st_plan_id row = st_plan_id x" "get_step (xs_db s1) (st_id x) = Some row" "distinct_steps (xs_db s1)"
      "\<forall>j. j \<noteq> st_id x \<longrightarrow> get_step (xs_db s1) j = get_step (xs_db s) j"
      unfolding step_changed_def by auto
    with k t e show ?thesis by blast
  qed
  have "get_step (xs_db s1) (st_id s0) = Some s0" if "s0 \<in> set xs" for s0
  proof -
    from that new have "st_id s0 \<noteq> st_id x" by (metis image_eqI)
    with first xs(2) that show ?thesis by metis
  qed
  with xs(1) have "plan_rows (xs_db s1) xs" by (simp add: plan_rows_def)
  with Cons.IH [OF rest] first have loop: "loop_effect L P ctx rr xs (xs_db s1) (xs_db s')" by blast
  from first obtain es where es: "db_evidence (xs_db s1) = db_evidence (xs_db s) @ es" "length es \<le> 1"
    "list_all (admitted_evidence L P ctx rr) es" by blast
  from loop obtain es' where es': "db_evidence (xs_db s') = db_evidence (xs_db s1) @ es'"
    "length es' \<le> length xs" "list_all (admitted_evidence L P ctx rr) es'"
    by (auto simp: loop_effect_def)
  have ev: "\<exists>es. db_evidence (xs_db s') = db_evidence (xs_db s) @ es \<and> length es \<le> length (x # xs) \<and>
      list_all (admitted_evidence L P ctx rr) es"
    using es es' by (intro exI [of _ "es @ es'"]) simp
  have plan: "map_option st_plan_id (get_step (xs_db s1) j) = map_option st_plan_id (get_step (xs_db s) j)" for j
    using first x by (cases "j = st_id x") auto
  have done_x: "\<exists>r. get_step (xs_db s') (st_id x) = Some r \<and> terminal_step (st_status r)"
    using first loop new by (auto simp: loop_effect_def)
  have "kept (xs_db s) (xs_db s')"
    using first loop kept_trans unfolding loop_effect_def by blast
  moreover have "distinct_steps (xs_db s')" using loop unfolding loop_effect_def by blast
  moreover have "\<forall>j. map_option st_plan_id (get_step (xs_db s') j) = map_option st_plan_id (get_step (xs_db s) j)"
    using loop plan unfolding loop_effect_def by metis
  moreover have "\<forall>j. j \<notin> st_id ` set (x # xs) \<longrightarrow> get_step (xs_db s') j = get_step (xs_db s) j"
    using loop first unfolding loop_effect_def by simp
  moreover have "\<forall>s0 \<in> set (x # xs). \<exists>r. get_step (xs_db s') (st_id s0) = Some r \<and> terminal_step (st_status r)"
    using loop done_x unfolding loop_effect_def by simp
  ultimately show ?case using ev unfolding loop_effect_def by blast
qed

section \<open>The end of a run\<close>

lemma run_transition_tables:
  assumes "run_transition (db, w) i target reason = Inr (r, db', w')"
  shows "\<exists>rows evs. db' = db\<lparr>db_runs := rows, db_events := evs\<rparr>"
proof -
  from assms obtain u db1 x e y where "update_run db i u = Inr (x, db1)" "append_event db1 e = Inr (y, db')"
    by (auto simp: run_transition_def transition_def research_runs_def Let_def case_prod_beta
        split: option.splits if_splits)
  then have "\<exists>rows. db1 = db\<lparr>db_runs := rows\<rparr>" "\<exists>evs. db' = db1\<lparr>db_events := evs\<rparr>"
    by (auto simp: update_run_def append_event_def Let_def split: option.splits if_splits)
  then obtain rows evs where "db1 = db\<lparr>db_runs := rows\<rparr>" "db' = db1\<lparr>db_events := evs\<rparr>" by blast
  then have "db' = db\<lparr>db_runs := rows, db_events := evs\<rparr>" by simp
  then show ?thesis by blast
qed

lemma run_transition_status:
  assumes "distinct_runs db" and "run_transition (db, w) i target reason = Inr (r, db', w')"
  shows "get_run db' i = Some r \<and> run_status r = target \<and> distinct_runs db'"
  using runs.transition_Inr [OF assms(1) assms(2) [unfolded run_transition_def]]
  by (auto simp: research_runs_def run_update_of_def)

lemma update_run_budget_tables:
  assumes "update_run_budget db i b t = Inr (r, db')"
  shows "(\<exists>rows. db' = db\<lparr>db_runs := rows\<rparr>) \<and> run_id r = i"
  using assms by (auto simp: update_run_budget_def Let_def dest: find_SomeD split: option.splits)

lemma add_package_effect:
  assumes "add_package i t db p = Inr (p', db')"
  shows "p' = p\<lparr>pk_id := i, pk_created_at := t\<rparr> \<and> db' = db\<lparr>db_packages := db_packages db @ [p']\<rparr>"
  using assms by (auto simp: add_package_def Let_def split: if_splits)

text \<open>What finishing a run leaves, with the intermediate claims and package.\<close>

lemma finish_run_effect:
  assumes "finish_run L r q s = Inr (r', pkg, db', w')"
  shows "\<exists>b t running db1 w1 claims db2 w2 i t2 p j t3 db3 w3 reason.
    update_run_budget (xs_db s) (run_id r) b t = Inr (running, db1) \<and>
    build_and_validate L (db1, w1) (run_id r) (rq_research_mode q) = Inr (claims, db2, w2) \<and>
    assemble L i (scope_of r q) (rq_requested_sections q) claims (list_evidence db2 (run_id r))
      (sort (remdups (xs_blocked s)))
      (from_keys (run_warning_codes running @ (if claims = [] then [''NO_VALIDATED_CLAIMS''] else [])))
      (xs_failed s) t2 = Inr p \<and>
    add_package j t3 db2 p = Inr (pkg, db3) \<and>
    run_transition (db3, w3) (run_id r) (terminal_status_of (pk_status pkg)) reason = Inr (r', db', w')"
proof -
  from assms obtain t w1 running db1 claims db2 w2 i t2 p j t3 db3 w3 reason where
    b: "update_run_budget (xs_db s) (run_id r) (xs_budget s) t = Inr (running, db1)" and
    c: "build_and_validate L (db1, w1) (run_id r) (rq_research_mode q) = Inr (claims, db2, w2)" and
    p: "assemble L i (scope_of r q) (rq_requested_sections q) claims (list_evidence db2 (run_id r))
      (sort (remdups (xs_blocked s)))
      (from_keys (run_warning_codes running @ (if claims = [] then [''NO_VALIDATED_CLAIMS''] else [])))
      (xs_failed s) t2 = Inr p" and
    a: "add_package j t3 db2 p = Inr (pkg, db3)" and
    e: "run_transition (db3, w3) (run_id running) (terminal_status_of (pk_status pkg)) reason = Inr (r', db', w')"
    unfolding finish_run_def Let_def case_prod_beta bind_res_eq_Inr by fastforce
  from update_run_budget_tables [OF b] have "run_id running = run_id r" by blast
  with b c p a e show ?thesis by metis
qed

text \<open>A run in progress: the tables are reachable and the step table has distinct rows.\<close>

lemma start_run_effect:
  assumes "distinct_runs db" and "start_run (db, w) r = Inr (running, db1, w1)"
  shows "(\<exists>rows evs. db1 = db\<lparr>db_runs := rows, db_events := evs\<rparr>) \<and>
    (run_steps db0 db \<longrightarrow> run_steps db0 db1) \<and> distinct_runs db1"
proof (cases "run_status r = Run_PLANNED")
  case True
  with assms(2) have tr: "run_transition (db, w) (run_id r) Run_RUNNING (Some ''RUN_STARTED'') = Inr (running, db1, w1)"
    by (simp add: start_run_def)
  from run_transition_tables [OF tr] run_transition_status [OF assms(1) tr] run_steps.advance [OF _ tr]
  show ?thesis by blast
next
  case False
  with assms(2) have "db1 = db" by (auto simp: start_run_def split: if_splits)
  then have "db1 = db\<lparr>db_runs := db_runs db, db_events := db_events db\<rparr>" by simp
  with \<open>db1 = db\<close> assms(1) show ?thesis by blast
qed

lemma execute_run_cases:
  assumes "execute_run L P cat pol r q u (db, w) = Inr (r', pkg, db', w')"
  obtains running db1 w1 plan s' s where
    "start_run (db, w) r = Inr (running, db1, w1)" "get_plan db1 (run_id r) = Some plan" "xs_db s = db1"
    "fold_res (execute_step L P cat pol (context_of running q) (rq_research_mode q = REAL_RESEARCH))
       (list_steps db1 (pr_id plan)) s = Inr s'"
    "finish_run L r q s' = Inr (r', pkg, db', w')"
proof -
  from assms obtain running db1 w1 plan s' where
    a: "start_run (db, w) r = Inr (running, db1, w1)" "get_plan db1 (run_id r) = Some plan"
    and f: "fold_res (execute_step L P cat pol (context_of running q) (rq_research_mode q = REAL_RESEARCH))
       (list_steps db1 (pr_id plan)) \<lparr>xs_db = db1, xs_env = w1, xs_world = u, xs_budget = run_budget running,
                xs_blocked = [], xs_failed = False\<rparr> = Inr s'"
    and e: "finish_run L r q s' = Inr (r', pkg, db', w')"
    by (auto simp: execute_run_def split: option.splits)
  show thesis by (rule that [OF a _ f e]) simp
qed

lemma kept_runs: "kept db db' \<Longrightarrow> run_steps db0 db \<Longrightarrow> run_steps db0 db'"
  using run_steps.frame by (auto simp: kept_def)

lemma build_and_validate_tables:
  assumes "build_and_validate L (db, w) i mode = Inr (cs, db', w')"
  shows "\<exists>rows ls. db' = db\<lparr>db_claims := db_claims db @ rows, db_links := db_links db @ ls\<rparr>"
proof -
  from assms obtain ps w1 where "complete_proposals L (list_evidence db i) mode ps (db, w1) = Inr (cs, db', w')"
    by (auto simp: build_and_validate_def Let_def case_prod_beta)
  from complete_proposals_effect [OF this] show ?thesis by blast
qed

lemma finish_run_outcome:
  assumes "finish_run L r q s = Inr (r', pkg, db', w')" and "run_steps empty_db (xs_db s)"
  shows "run_steps empty_db db' \<and> get_run db' (run_id r) = Some r' \<and>
    run_status r' = terminal_status_of (pk_status pkg) \<and> pk_run_id pkg = run_id r \<and>
    pkg \<in> set (db_packages db') \<and> db_steps db' = db_steps (xs_db s) \<and> db_plans db' = db_plans (xs_db s) \<and>
    db_evidence db' = db_evidence (xs_db s)"
proof -
  from finish_run_effect [OF assms(1)] obtain b t running db1 w1 claims db2 w2 i t2 p j t3 db3 w3 reason bl wa where
    bud: "update_run_budget (xs_db s) (run_id r) b t = Inr (running, db1)" and
    cl: "build_and_validate L (db1, w1) (run_id r) (rq_research_mode q) = Inr (claims, db2, w2)" and
    asm: "assemble L i (scope_of r q) (rq_requested_sections q) claims (list_evidence db2 (run_id r)) bl wa
      (xs_failed s) t2 = Inr p" and
    add: "add_package j t3 db2 p = Inr (pkg, db3)" and
    tr: "run_transition (db3, w3) (run_id r) (terminal_status_of (pk_status pkg)) reason = Inr (r', db', w')"
    by blast
  from update_run_budget_tables [OF bud] obtain rows where d1: "db1 = (xs_db s)\<lparr>db_runs := rows\<rparr>" by blast
  from build_and_validate_tables [OF cl] obtain crows ls where
    d2: "db2 = db1\<lparr>db_claims := db_claims db1 @ crows, db_links := db_links db1 @ ls\<rparr>" by blast
  from add_package_effect [OF add] have p: "pkg = p\<lparr>pk_id := j, pk_created_at := t3\<rparr>"
    and d3: "db3 = db2\<lparr>db_packages := db_packages db2 @ [pkg]\<rparr>" by blast+
  have s1: "run_steps empty_db db1" by (rule run_steps.budget [OF assms(2) bud])
  have s3: "run_steps empty_db db3" by (rule run_steps.frame [OF s1]) (simp_all add: d3 d2)
  have s4: "run_steps empty_db db'" by (rule run_steps.advance [OF s3 tr])
  have "distinct_runs db3" using reachable_inv s3 by (simp add: reachable_db_def run_inv_def)
  note st = run_transition_status [OF this tr]
  from run_transition_tables [OF tr] obtain rr ee where d4: "db' = db3\<lparr>db_runs := rr, db_events := ee\<rparr>" by blast
  have "pk_run_id p = run_id r" using assemble_Inr [OF asm] by (simp add: scope_of_def)
  with st s4 show ?thesis by (simp add: d4 d3 d2 d1 p)
qed

text \<open>After the loop over a plan each of its steps is terminal.\<close>

lemma loop_steps_terminal:
  assumes ds: "distinct_steps db1" and loop: "loop_effect L P ctx real_research (list_steps db1 p) db1 db2"
    and g': "get_step db' = get_step db2" and ds': "distinct_steps db'" and x: "x \<in> set (list_steps db' p)"
  shows "terminal_step (st_status x)"
proof -
  from x list_steps_rows [OF ds', of p] have "get_step db2 (st_id x) = Some x" "st_plan_id x = p"
    by (auto simp: plan_rows_def g')
  moreover from this loop have "map_option st_plan_id (get_step db1 (st_id x)) = Some p"
    unfolding loop_effect_def by (metis option.simps(9))
  then obtain y where "get_step db1 (st_id x) = Some y" "st_plan_id y = p" by auto
  moreover from this have "y \<in> set (list_steps db1 p)" "st_id y = st_id x"
    using list_steps_rows [OF ds, of p] get_step_mem [OF ds] by auto
  ultimately show ?thesis using loop unfolding loop_effect_def by (metis option.inject)
qed

text \<open>
  C21. A run that executes to the end is settled. Its stored status is the terminal status of the
  package it stored; the run and event tables are still reachable by the life-cycle steps, so the
  audit trail and the uniqueness of reusable runs hold; every step of its plan is terminal; and
  the execution added at most one piece of evidence per step, all of it admitted by the production
  adapter.
\<close>

theorem execution_settles_run:
  assumes "reachable_db db" and "distinct_steps db"
    and "execute_run L P cat pol r q u (db, w) = Inr (r', pkg, db', w')"
  shows "reachable_db db' \<and> get_run db' (run_id r) = Some r' \<and>
     run_status r' = terminal_status_of (pk_status pkg) \<and> terminal_run (run_status r') \<and>
     pkg \<in> set (db_packages db') \<and> pk_run_id pkg = run_id r \<and>
     (\<exists>plan ctx es. get_plan db' (run_id r) = Some plan \<and>
        (\<forall>s \<in> set (list_steps db' (pr_id plan)). terminal_step (st_status s)) \<and>
        db_evidence db' = db_evidence db @ es \<and> length es \<le> length (list_steps db (pr_id plan)) \<and>
        list_all (admitted_evidence L P ctx (rq_research_mode q = REAL_RESEARCH)) es)"
  using assms(3)
proof (cases rule: execute_run_cases)
  case (1 running db1 w1 plan s' s)
  have dr: "distinct_runs db" using reachable_inv [OF assms(1)] by (simp add: run_inv_def)
  from start_run_effect [OF dr 1(1), of empty_db] assms(1) obtain rows evs where
    d1: "db1 = db\<lparr>db_runs := rows, db_events := evs\<rparr>" and s1: "run_steps empty_db db1"
    by (auto simp: reachable_db_def)
  have ds: "distinct_steps db1" using assms(2) by (simp add: d1 distinct_steps_def)
  note rows1 = list_steps_rows [OF ds, of "pr_id plan"]
  have loop: "loop_effect L P (context_of running q) (rq_research_mode q = REAL_RESEARCH)
      (list_steps db1 (pr_id plan)) db1 (xs_db s')"
    using loop_steps_effect [OF 1(4)] 1(3) ds rows1 by simp
  then have s2: "run_steps empty_db (xs_db s')"
    using kept_runs s1 unfolding loop_effect_def by blast
  note fin = finish_run_outcome [OF 1(5) s2]
  have terminal: "terminal_run (run_status r')"
    using fin by (cases "pk_status pkg") (auto simp: TERMINAL_RUN_STATUSES_def)
  have plan': "get_plan db' (run_id r) = Some plan"
    using 1(2) fin loop by (simp add: get_plan_def loop_effect_def kept_def)
  have ds': "distinct_steps db'" using loop fin by (simp add: loop_effect_def distinct_steps_def)
  have "get_step db' = get_step (xs_db s')" using fin get_step_frame by blast
  note steps = loop_steps_terminal [OF ds loop this ds']
  from loop obtain es where "db_evidence (xs_db s') = db_evidence db1 @ es"
    "length es \<le> length (list_steps db1 (pr_id plan))"
    "list_all (admitted_evidence L P (context_of running q) (rq_research_mode q = REAL_RESEARCH)) es"
    by (auto simp: loop_effect_def)
  moreover have "list_steps db1 (pr_id plan) = list_steps db (pr_id plan)" by (simp add: d1 list_steps_def)
  ultimately have "db_evidence db' = db_evidence db @ es" "length es \<le> length (list_steps db (pr_id plan))"
    "list_all (admitted_evidence L P (context_of running q) (rq_research_mode q = REAL_RESEARCH)) es"
    using fin by (simp_all add: d1)
  with plan' steps have "\<exists>plan ctx es. get_plan db' (run_id r) = Some plan \<and>
        (\<forall>s \<in> set (list_steps db' (pr_id plan)). terminal_step (st_status s)) \<and>
        db_evidence db' = db_evidence db @ es \<and> length es \<le> length (list_steps db (pr_id plan)) \<and>
        list_all (admitted_evidence L P ctx (rq_research_mode q = REAL_RESEARCH)) es" by blast
  with fin terminal show ?thesis by (simp add: reachable_db_def)
qed

text \<open>The claims behind a complete package.\<close>

definition backed_claim :: "research_db \<Rightarrow> uuid \<Rightarrow> bool \<Rightarrow> uuid \<Rightarrow> bool" where
  "backed_claim db run real_research i \<longleftrightarrow>
     (\<exists>row \<in> set (db_claims db). cl_id row = i \<and> cl_run_id row = run \<and>
        cl_lifecycle_status row = VALIDATED \<and> cl_support_status row = Some SUPPORTED) \<and>
     (\<exists>l \<in> set (db_links db). lk_claim_id l = i \<and>
        (\<exists>e \<in> set (db_evidence db). ev_id e = lk_evidence_id l \<and> ev_run_id e = run \<and>
           usable_evidence real_research e))"

lemma recorded_backed:
  assumes "build_and_validate L (db, w) run mode = Inr (rs, db', w')" and "c \<in> set rs"
    and "cl_support_status c = Some SUPPORTED"
  shows "backed_claim db' run (mode = REAL_RESEARCH) (cl_id c)"
proof -
  note all = pipeline_recorded [OF assms(1)]
  then have ev: "db_evidence db' = db_evidence db" by auto
  from all assms(2) have c: "cl_run_id c = run" "cl_lifecycle_status c = VALIDATED"
    "c \<in> claim_record ` set (db_claims db')" by auto
  then have "\<exists>row \<in> set (db_claims db'). cl_id row = cl_id c \<and> cl_run_id row = run \<and>
      cl_lifecycle_status row = VALIDATED \<and> cl_support_status row = Some SUPPORTED"
    using assms(3) by auto
  moreover have "\<exists>l \<in> set (db_links db'). lk_claim_id l = cl_id c \<and>
      (\<exists>e \<in> set (db_evidence db'). ev_id e = lk_evidence_id l \<and> ev_run_id e = run \<and>
         usable_evidence (mode = REAL_RESEARCH) e)"
    using all assms(2,3) ev by simp
  ultimately show ?thesis unfolding backed_claim_def by blast
qed

lemma backed_claim_frame:
  "db_claims db' = db_claims db \<Longrightarrow> db_links db' = db_links db \<Longrightarrow> db_evidence db' = db_evidence db \<Longrightarrow>
   backed_claim db' = backed_claim db"
  by (simp add: backed_claim_def fun_eq_iff)

lemma finish_run_complete:
  assumes "finish_run L r q s = Inr (r', pkg, db', w')" and "pk_status pkg = Pkg_COMPLETE"
  shows "rq_requested_sections q \<noteq> [] \<and> \<not> xs_failed s \<and>
    (\<forall>sec \<in> set (rq_requested_sections q). \<exists>ps \<in> set (pk_sections pkg). ps_section ps = sec \<and>
       ps_claim_ids ps \<noteq> [] \<and>
       (\<forall>i \<in> set (ps_claim_ids ps). backed_claim db' (run_id r) (rq_research_mode q = REAL_RESEARCH) i))"
proof -
  from finish_run_effect [OF assms(1)] obtain b t running db1 w1 claims db2 w2 i t2 p j t3 db3 w3 reason bl wa where
    cl: "build_and_validate L (db1, w1) (run_id r) (rq_research_mode q) = Inr (claims, db2, w2)" and
    asm: "assemble L i (scope_of r q) (rq_requested_sections q) claims (list_evidence db2 (run_id r)) bl wa
      (xs_failed s) t2 = Inr p" and
    add: "add_package j t3 db2 p = Inr (pkg, db3)" and
    tr: "run_transition (db3, w3) (run_id r) (terminal_status_of (pk_status pkg)) reason = Inr (r', db', w')"
    by blast
  from add_package_effect [OF add] have p: "pk_status p = Pkg_COMPLETE" "pk_sections pkg = pk_sections p"
    and d3: "db3 = db2\<lparr>db_packages := db_packages db2 @ [pkg]\<rparr>" using assms(2) by auto
  from run_transition_tables [OF tr] d3 have same: "backed_claim db' = backed_claim db2"
    by (intro backed_claim_frame) auto
  note ex = package_exact [OF asm]
  have "\<exists>ps \<in> set (pk_sections pkg). ps_section ps = sec \<and> ps_claim_ids ps \<noteq> [] \<and>
       (\<forall>i \<in> set (ps_claim_ids ps). backed_claim db' (run_id r) (rq_research_mode q = REAL_RESEARCH) i)"
    if sec: "sec \<in> set (rq_requested_sections q)" for sec
  proof -
    from ex have "map ps_section (pk_sections p) = all_sections" by blast
    then have "sec \<in> ps_section ` set (pk_sections p)" by (metis UNIV_I image_set set_all_sections)
    then obtain ps where ps: "ps \<in> set (pk_sections p)" "ps_section ps = sec" by auto
    with ex sec have ids: "ps_claim_ids ps = map cl_id (section_claims sec claims)" by auto
    from ex p(1) sec have "section_claims sec claims \<noteq> []" "all_support SUPPORTED (section_claims sec claims)" by auto
    moreover have "set (section_claims sec claims) \<subseteq> set claims" by (auto simp: section_claims_def)
    ultimately have "\<forall>i \<in> set (ps_claim_ids ps). backed_claim db2 (run_id r) (rq_research_mode q = REAL_RESEARCH) i"
      using recorded_backed [OF cl] by (auto simp: ids all_support_def)
    with ps ids \<open>section_claims sec claims \<noteq> []\<close> show ?thesis
      unfolding same p(2) by (intro bexI [of _ ps]) auto
  qed
  with ex p(1) show ?thesis by auto
qed

text \<open>
  C22. Nothing is called complete without evidence. When a run ends with a complete package, every
  requested section of the package lists at least one claim, and each listed claim is stored as a
  validated, supported claim of the run with a link to stored evidence of the run that is valid
  and, in a real run, neither synthetic nor of unknown origin.
\<close>

theorem complete_package_backed:
  assumes "execute_run L P cat pol r q u (db, w) = Inr (r', pkg, db', w')" and "pk_status pkg = Pkg_COMPLETE"
  shows "rq_requested_sections q \<noteq> [] \<and>
    (\<forall>sec \<in> set (rq_requested_sections q). \<exists>ps \<in> set (pk_sections pkg). ps_section ps = sec \<and>
       ps_claim_ids ps \<noteq> [] \<and>
       (\<forall>i \<in> set (ps_claim_ids ps). backed_claim db' (run_id r) (rq_research_mode q = REAL_RESEARCH) i))"
  using assms(1)
proof (cases rule: execute_run_cases)
  case (1 running db1 w1 plan s' s)
  from finish_run_complete [OF 1(5) assms(2)] show ?thesis by blast
qed

section \<open>Execution finishes\<close>

lemma update_run_budget_get:
  assumes "distinct_runs db" and "update_run_budget db i b t = Inr (r, db')"
  shows "get_run db' i = Some r"
proof -
  let ?P = "\<lambda>r. run_id r = i \<and> \<not> terminal_run (run_status r)"
  let ?f = "\<lambda>row :: run_row. row\<lparr>run_budget := b, run_updated_at := t\<rparr>"
  from assms(2) obtain row where row: "List.find ?P (db_runs db) = Some row" and r: "r = run_record (?f row)"
    and db': "db' = db\<lparr>db_runs := update_first ?P ?f (db_runs db)\<rparr>"
    by (auto simp: update_run_budget_def Let_def split: option.splits)
  have "distinct (map run_id (db_runs db))" using assms(1) by (simp add: distinct_runs_def)
  from find_key_update_first [OF this row, of ?f i] r db' show ?thesis by (simp add: get_run_def)
qed

lemma package_reason_valid: "valid_code_opt (Some (''PACKAGE_'' @ package_status_value st))"
proof -
  have "list_all (\<lambda>st. valid_code_opt (Some (''PACKAGE_'' @ package_status_value st)))
      [Pkg_COMPLETE, Pkg_PARTIAL, Pkg_BLOCKED, Pkg_FAILED]"
    by code_simp
  then show ?thesis by (cases st) auto
qed

lemma running_to_terminal: "allowed_run Run_RUNNING (terminal_status_of st)"
  by (cases st) simp_all

lemma finish_run_terminates:
  assumes "reachable_db (xs_db s)"
    and "update_run_budget (xs_db s) (run_id r) (xs_budget s) (fst (next_now (xs_env s))) = Inr (running, db1)"
    and "run_status running = Run_RUNNING"
    and "build_and_validate L (db1, snd (next_now (xs_env s))) (run_id r) (rq_research_mode q) = Inr (claims, db2, w2)"
    and "assemble L (env_id w2 (env_i w2)) (scope_of r q) (rq_requested_sections q) claims
      (list_evidence db2 (run_id r)) (sort (remdups (xs_blocked s)))
      (from_keys (run_warning_codes running @ (if claims = [] then [''NO_VALIDATED_CLAIMS''] else [])))
      (xs_failed s) (env_now w2 (env_t w2)) = Inr p"
    and "run_id r \<notin> pk_run_id ` set (db_packages (xs_db s))"
    and "env_id w2 (env_i w2 + 1) \<notin> pk_id ` set (db_packages (xs_db s))"
    and "env_id w2 (env_i w2 + 2) \<notin> rev_id ` set (db_events (xs_db s))"
  shows "\<exists>r' pkg db' w'. finish_run L r q s = Inr (r', pkg, db', w') \<and> terminal_run (run_status r') \<and>
    pk_status pkg = pk_status p \<and> get_run db' (run_id r) = Some r'"
proof -
  let ?j = "env_id w2 (env_i w2 + 1)" let ?t = "env_now w2 (env_t w2 + 1)"
  let ?w6 = "w2\<lparr>env_i := env_i w2 + 2, env_t := env_t w2 + 2\<rparr>"
  have env: "next_id w2 = (env_id w2 (env_i w2), w2\<lparr>env_i := Suc (env_i w2)\<rparr>)" by (simp add: next_id_def)
  from update_run_budget_tables [OF assms(2)] obtain rows where d1: "db1 = (xs_db s)\<lparr>db_runs := rows\<rparr>"
    and rid: "run_id running = run_id r" by blast
  from build_and_validate_tables [OF assms(4)] obtain crows ls where
    d2: "db2 = db1\<lparr>db_claims := db_claims db1 @ crows, db_links := db_links db1 @ ls\<rparr>" by blast
  define pkg where "pkg = p\<lparr>pk_id := ?j, pk_created_at := ?t\<rparr>"
  define db3 where "db3 = db2\<lparr>db_packages := db_packages db2 @ [pkg]\<rparr>"
  have "pk_run_id p = run_id r" using assemble_Inr [OF assms(5)] by (simp add: scope_of_def)
  then have add: "add_package ?j ?t db2 p = Inr (pkg, db3)"
    using assms(6,7) by (simp add: add_package_def Let_def db3_def pkg_def d2 d1)
  have s0: "run_steps empty_db (xs_db s)" using assms(1) by (simp add: reachable_db_def)
  have s1: "run_steps empty_db db1" by (rule run_steps.budget [OF s0 assms(2)])
  have s3: "run_steps empty_db db3" by (rule run_steps.frame [OF s1]) (simp_all add: db3_def d2)
  then have inv: "run_inv db3" using reachable_inv by (simp add: reachable_db_def)
  then have v: "distinct_runs db3" by (simp add: run_inv_def)
  have "distinct_runs (xs_db s)" using reachable_inv [OF assms(1)] by (simp add: run_inv_def)
  from update_run_budget_get [OF this assms(2)] have get: "get_run db3 (run_id r) = Some running"
    by (simp add: db3_def d2 get_run_def)
  have fresh: "fst (next_id ?w6) \<notin> rev_id ` set (events_of db3 k)" for k
    using assms(8) by (auto simp: next_id_def events_of_def db3_def d2 d1)
  have "audited running (events_of db3 (run_id r))"
    using inv get by (simp add: run_inv_def runs_audited_def)
  then have sq: "Suc (length (events_of db3 (run_id r))) \<notin> rev_sequence_number ` set (events_of db3 (run_id r))"
    using audited_sequence_distinct by blast
  have get': "rr_get_run research_runs db3 (run_id r) = Some running" using get by (simp add: research_runs_def)
  have ok: "allowed_run (run_status running) (terminal_status_of (pk_status p))"
    using running_to_terminal by (simp add: assms(3))
  obtain r' db' w' where tr: "run_transition (db3, ?w6) (run_id r) (terminal_status_of (pk_status p))
      (Some (''PACKAGE_'' @ package_status_value (pk_status p))) = Inr (r', db', w')"
    using runs.transition_total [OF v get' ok package_reason_valid [of "pk_status p"] fresh sq]
    unfolding run_transition_def by (metis prod_cases3)
  have "finish_run L r q s = Inr (r', pkg, db', w')"
    using assms(2,4,5) add tr rid
    by (simp add: finish_run_def Let_def case_prod_beta next_id_def next_now_def pkg_def)
  moreover have "terminal_run (terminal_status_of (pk_status p))"
    by (cases "pk_status p") (simp_all add: TERMINAL_RUN_STATUSES_def)
  ultimately show ?thesis using run_transition_status [OF v tr] by (auto simp: pkg_def)
qed

text \<open>
  Finishing a run never gets stuck. Once the steps are done and the claims are stored, if the
  package fits its contract, the run is still running and has no package, and the next event
  identifier is new, then the package is stored and the run reaches a terminal status.
\<close>

theorem finish_run_total:
  assumes "reachable_db (xs_db s)"
    and "update_run_budget (xs_db s) (run_id r) (xs_budget s) (fst (next_now (xs_env s))) = Inr (running, db1)"
    and "run_status running = Run_RUNNING"
    and "build_and_validate L (db1, snd (next_now (xs_env s))) (run_id r) (rq_research_mode q) = Inr (claims, db2, w2)"
    and "assemble L (env_id w2 (env_i w2)) (scope_of r q) (rq_requested_sections q) claims
      (list_evidence db2 (run_id r)) (sort (remdups (xs_blocked s)))
      (from_keys (run_warning_codes running @ (if claims = [] then [''NO_VALIDATED_CLAIMS''] else [])))
      (xs_failed s) (env_now w2 (env_t w2)) = Inr p"
    and "run_id r \<notin> pk_run_id ` set (db_packages (xs_db s))"
    and "env_id w2 (env_i w2 + 1) \<notin> pk_id ` set (db_packages (xs_db s))"
    and "env_id w2 (env_i w2 + 2) \<notin> rev_id ` set (db_events (xs_db s))"
  shows "\<exists>r' pkg db' w'. finish_run L r q s = Inr (r', pkg, db', w') \<and> terminal_run (run_status r') \<and>
    pk_status pkg = pk_status p \<and> get_run db' (run_id r) = Some r'"
  by (rule finish_run_terminates [OF assms])

text \<open>A planned run whose plan is the identity step, executed to a complete package.\<close>

definition demo_plan_record :: plan_record where
  "demo_plan_record = \<lparr>pd_planner_version = PLANNER_VERSION, pd_plan_version = PLAN_VERSION,
     pd_tool_catalog_version = replicate 80 (CHR ''c''),
     pd_steps = [component_step 0 ''resolve_security'' RESOLVE_SECURITY [] ''security-resolution-v1''],
     vp_plan_checksum = ''x'', pr_id = ''p2'', pr_run_id = ''r2'', pr_created_at = 8\<rparr>"

definition demo_step_row :: step_record where
  "demo_step_row = step_row \<lparr>st_id = ''t1'', st_run_id = ''r2'', st_plan_id = ''p2'',
     st_definition = component_step 0 ''resolve_security'' RESOLVE_SECURITY [] ''security-resolution-v1'',
     st_status = Step_PENDING, st_skip_reason_code = None, st_created_at = 8\<rparr>"

definition demo_exec_db :: research_db where
  "demo_exec_db = (after_transition 4 ''r2'' Run_PLANNED None demo_db2)
     \<lparr>db_plans := [demo_plan_record], db_steps := [demo_step_row]\<rparr>"

definition demo_exec_ports :: "unit execution_ports" where
  "demo_exec_ports = \<lparr>xp_invoke = (\<lambda>u name version p. (Inl (ToolRegistryError TOOL_NOT_FOUND), u)),
     xp_snapshots = (\<lambda>_. None),
     xp_securities = (\<lambda>i. if i = ''s'' then Some \<lparr>det_security_id = ''s'', det_issuer_id = ''i'',
       det_issuer_legal_name = ''ACME'', det_symbol = ''ACM'', det_exchange_mic = ''XNYS''\<rparr> else None)\<rparr>"

definition demo_run_execution :: "(agent_run \<times> research_package \<times> research_db \<times> env) res" where
  "demo_run_execution = execute_run demo_lib demo_exec_ports demo_cat (offline_policy_values [])
     (demo_run_of demo_exec_db ''r2'') demo_request () (demo_exec_db, demo_env 20)"

lemma demo_exec_reachable: "reachable_db demo_exec_db" "distinct_steps demo_exec_db"
proof -
  have "reachable_db (after_transition 4 ''r2'' Run_PLANNED None demo_db2)"
    using reachable_demo(3) after_transition_steps unfolding reachable_db_def by blast
  then show "reachable_db demo_exec_db"
    unfolding reachable_db_def demo_exec_db_def by (rule run_steps.frame) simp_all
  show "distinct_steps demo_exec_db" by (simp add: distinct_steps_def demo_exec_db_def)
qed

lemma sections_total: "length claims \<le> 100 \<Longrightarrow> \<exists>ss. map_res (section_of requested claims) secs = Inr ss"
proof (induction secs)
  case Nil
  show ?case by simp
next
  case (Cons sec secs)
  have "length (section_claims sec claims) \<le> length claims" by (simp add: section_claims_def)
  with Cons.prems have "\<exists>s. section_of requested claims sec = Inr s"
    by (auto simp: section_of_def Let_def case_prod_beta)
  with Cons show ?case by auto
qed

definition demo_steps_done :: "unit exec_state res" where
  "demo_steps_done =
     bind_res (start_run (demo_exec_db, demo_env 20) (demo_run_of demo_exec_db ''r2'')) (\<lambda>(running, db1, w1).
       fold_res (execute_step demo_lib demo_exec_ports demo_cat (offline_policy_values [])
           (context_of running demo_request) True) (list_steps db1 ''p2'')
         \<lparr>xs_db = db1, xs_env = w1, xs_world = (), xs_budget = run_budget running, xs_blocked = [], xs_failed = False\<rparr>)"

text \<open>What the steps leave: a running run, no package, one supported identity claim to come.\<close>

definition demo_ready :: "unit exec_state \<Rightarrow> bool" where
  "demo_ready s \<longleftrightarrow> db_packages (xs_db s) = [] \<and> xs_blocked s = [] \<and> \<not> xs_failed s \<and>
     (case update_run_budget (xs_db s) ''r2'' (xs_budget s) (fst (next_now (xs_env s))) of Inl _ \<Rightarrow> False
      | Inr b \<Rightarrow> run_status (fst b) = Run_RUNNING \<and> run_warning_codes (fst b) = [] \<and>
         (case build_and_validate demo_lib (snd b, snd (next_now (xs_env s))) ''r2'' REAL_RESEARCH of Inl _ \<Rightarrow> False
          | Inr c \<Rightarrow> map cl_claim_type (fst c) = [Claim_IDENTITY] \<and>
              map cl_support_status (fst c) = [Some SUPPORTED] \<and>
              length (list_evidence (fst (snd c)) ''r2'') = 1 \<and>
              env_id (snd (snd c)) (env_i (snd (snd c)) + 2) \<notin> rev_id ` set (db_events (xs_db s))))"

lemma demo_steps_ready: "\<exists>s. demo_steps_done = Inr s \<and> demo_ready s"
proof -
  have "case demo_steps_done of Inl _ \<Rightarrow> False | Inr s \<Rightarrow> demo_ready s" by code_simp
  then show ?thesis by (auto split: sum.split_asm)
qed

lemma demo_scope_ok:
  "valid_version (sc_policy_version (scope_of (demo_run_of demo_exec_db ''r2'') demo_request))"
  "valid_version (sc_planner_version (scope_of (demo_run_of demo_exec_db ''r2'') demo_request))"
  "text_length (sc_tool_catalog_version (scope_of (demo_run_of demo_exec_db ''r2'') demo_request)) = 80"
  "rq_requested_sections demo_request = [Sec_SECURITY_IDENTITY]" "rq_research_mode demo_request = REAL_RESEARCH"
  "run_id (demo_run_of demo_exec_db ''r2'') = ''r2''"
  by code_simp+

lemma demo_steps_reachable:
  assumes "demo_steps_done = Inr s"
  shows "reachable_db (xs_db s)"
proof -
  from assms obtain running db1 w1 where
    st: "start_run (demo_exec_db, demo_env 20) (demo_run_of demo_exec_db ''r2'') = Inr (running, db1, w1)"
    and f: "fold_res (execute_step demo_lib demo_exec_ports demo_cat (offline_policy_values [])
         (context_of running demo_request) True) (list_steps db1 ''p2'')
       \<lparr>xs_db = db1, xs_env = w1, xs_world = (), xs_budget = run_budget running, xs_blocked = [], xs_failed = False\<rparr>
       = Inr s"
    by (auto simp: demo_steps_done_def)
  have "distinct_runs demo_exec_db" using reachable_inv [OF demo_exec_reachable(1)] by (simp add: run_inv_def)
  from start_run_effect [OF this st, of empty_db] demo_exec_reachable obtain rows evs where
    d1: "db1 = demo_exec_db\<lparr>db_runs := rows, db_events := evs\<rparr>" and s1: "run_steps empty_db db1"
    by (auto simp: reachable_db_def)
  have ds: "distinct_steps db1" using demo_exec_reachable(2) by (simp add: d1 distinct_steps_def)
  from loop_steps_effect [OF f] ds list_steps_rows [OF ds, of "''p2''"] have "kept db1 (xs_db s)"
    by (simp add: loop_effect_def)
  with kept_runs s1 show ?thesis unfolding reachable_db_def by blast
qed

lemma demo_finish:
  assumes "demo_steps_done = Inr s" and "demo_ready s"
  obtains running db1 claims db2 w2 p where
    "update_run_budget (xs_db s) ''r2'' (xs_budget s) (fst (next_now (xs_env s))) = Inr (running, db1)"
    "run_status running = Run_RUNNING"
    "build_and_validate demo_lib (db1, snd (next_now (xs_env s))) ''r2'' REAL_RESEARCH = Inr (claims, db2, w2)"
    "assemble demo_lib (env_id w2 (env_i w2)) (scope_of (demo_run_of demo_exec_db ''r2'') demo_request)
      [Sec_SECURITY_IDENTITY] claims (list_evidence db2 ''r2'') (sort (remdups (xs_blocked s)))
      (from_keys (run_warning_codes running @ (if claims = [] then [''NO_VALIDATED_CLAIMS''] else [])))
      (xs_failed s) (env_now w2 (env_t w2)) = Inr p"
    "pk_status p = Pkg_COMPLETE" "db_packages (xs_db s) = []"
    "env_id w2 (env_i w2 + 2) \<notin> rev_id ` set (db_events (xs_db s))"
proof -
  from assms(2) obtain running db1 claims db2 w2 where
    b: "update_run_budget (xs_db s) ''r2'' (xs_budget s) (fst (next_now (xs_env s))) = Inr (running, db1)"
    and c: "build_and_validate demo_lib (db1, snd (next_now (xs_env s))) ''r2'' REAL_RESEARCH = Inr (claims, db2, w2)"
    and f: "run_status running = Run_RUNNING" "run_warning_codes running = []" "db_packages (xs_db s) = []"
      "xs_blocked s = []" "\<not> xs_failed s" "map cl_claim_type claims = [Claim_IDENTITY]"
      "map cl_support_status claims = [Some SUPPORTED]" "length (list_evidence db2 ''r2'') = 1"
      "env_id w2 (env_i w2 + 2) \<notin> rev_id ` set (db_events (xs_db s))"
    unfolding demo_ready_def by (auto split: sum.split_asm)
  from f(6,7) obtain cl where cl: "claims = [cl]" "cl_claim_type cl = Claim_IDENTITY"
    "cl_support_status cl = Some SUPPORTED" by auto
  obtain ss where "map_res (section_of [Sec_SECURITY_IDENTITY] claims) all_sections = Inr ss"
    using sections_total [of claims] cl(1) by auto
  with assemble_total [OF demo_lib_hex this demo_scope_ok(1-3), of "list_evidence db2 ''r2''" "[]" "[]"
    "env_id w2 (env_i w2)" False "env_now w2 (env_t w2)"]
  obtain p where p: "assemble demo_lib (env_id w2 (env_i w2)) (scope_of (demo_run_of demo_exec_db ''r2'') demo_request)
      [Sec_SECURITY_IDENTITY] claims (list_evidence db2 ''r2'') [] [] False (env_now w2 (env_t w2)) = Inr p"
    using cl f(8) length_remdups_leq [of "map ev_id (list_evidence db2 ''r2'')"] by (auto simp: claims_with_def)
  have "section_claims Sec_SECURITY_IDENTITY claims = [cl]" by (simp add: section_claims_def claim_section_def cl)
  with package_exact [OF p] cl have "pk_status p = Pkg_COMPLETE" by (auto simp: all_support_def)
  with that [OF b f(1) c _ _ f(3) f(9)] p f(2,4,5) cl(1) show thesis by simp
qed

theorem finish_run_total_witness:
  "\<exists>s r' pkg db' w'. demo_steps_done = Inr s \<and>
     finish_run demo_lib (demo_run_of demo_exec_db ''r2'') demo_request s = Inr (r', pkg, db', w') \<and>
     terminal_run (run_status r')"
proof -
  obtain s where s: "demo_steps_done = Inr s" "demo_ready s" using demo_steps_ready by blast
  from s show ?thesis
  proof (cases rule: demo_finish)
    case (1 running db1 claims db2 w2 p)
    with finish_run_total [OF demo_steps_reachable [OF s(1)], of "demo_run_of demo_exec_db ''r2''" running db1
        demo_lib demo_request claims db2 w2 p, unfolded demo_scope_ok]
    obtain r' pkg db' w' where "finish_run demo_lib (demo_run_of demo_exec_db ''r2'') demo_request s = Inr (r', pkg, db', w')"
      "terminal_run (run_status r')" by auto
    with s(1) show ?thesis
      by (intro exI [of _ s] exI [of _ r'] exI [of _ pkg] exI [of _ db'] exI [of _ w'] conjI)
  qed
qed

lemma demo_run_execution_ok:
  "\<exists>r' pkg db' w'. demo_run_execution = Inr (r', pkg, db', w') \<and> pk_status pkg = Pkg_COMPLETE"
proof -
  obtain s where s: "demo_steps_done = Inr s" "demo_ready s" using demo_steps_ready by blast
  from s show ?thesis
  proof (cases rule: demo_finish)
    case (1 running db1 claims db2 w2 p)
    with finish_run_terminates [OF demo_steps_reachable [OF s(1)], of "demo_run_of demo_exec_db ''r2''" running db1
        demo_lib demo_request claims db2 w2 p, unfolded demo_scope_ok]
    obtain r' pkg db' w' where fin: "finish_run demo_lib (demo_run_of demo_exec_db ''r2'') demo_request s =
        Inr (r', pkg, db', w')" and c: "pk_status pkg = Pkg_COMPLETE" by auto
    from s(1) obtain running1 db11 w11 where
      st: "start_run (demo_exec_db, demo_env 20) (demo_run_of demo_exec_db ''r2'') = Inr (running1, db11, w11)"
      and f: "fold_res (execute_step demo_lib demo_exec_ports demo_cat (offline_policy_values [])
           (context_of running1 demo_request) True) (list_steps db11 ''p2'')
         \<lparr>xs_db = db11, xs_env = w11, xs_world = (), xs_budget = run_budget running1, xs_blocked = [], xs_failed = False\<rparr>
         = Inr s"
      by (auto simp: demo_steps_done_def)
    have "distinct_runs demo_exec_db" using reachable_inv [OF demo_exec_reachable(1)] by (simp add: run_inv_def)
    from start_run_effect [OF this st, of empty_db] have "db_plans db11 = [demo_plan_record]"
      by (auto simp: demo_exec_db_def)
    then have "get_plan db11 ''r2'' = Some demo_plan_record" "pr_id demo_plan_record = ''p2''"
      by (simp_all add: get_plan_def demo_plan_record_def)
    then have "demo_run_execution = Inr (r', pkg, db', w')"
      using st f fin by (simp add: demo_run_execution_def execute_run_def demo_scope_ok)
    with c show ?thesis by (intro exI [of _ r'] exI [of _ pkg] exI [of _ db'] exI [of _ w'] conjI)
  qed
qed

theorem execution_settles_run_witness:
  "\<exists>r' pkg db' w'. demo_run_execution = Inr (r', pkg, db', w') \<and> run_status r' = Run_COMPLETED \<and>
     reachable_db db'"
proof -
  from demo_run_execution_ok obtain r' pkg db' w' where run: "demo_run_execution = Inr (r', pkg, db', w')"
    and c: "pk_status pkg = Pkg_COMPLETE" by blast
  from execution_settles_run [OF demo_exec_reachable run [unfolded demo_run_execution_def]] c
  have "run_status r' = Run_COMPLETED \<and> reachable_db db'" by auto
  with run show ?thesis by (intro exI [of _ r'] exI [of _ pkg] exI [of _ db'] exI [of _ w'] conjI) auto
qed

theorem complete_package_backed_witness:
  "\<exists>r' pkg db' w' i. demo_run_execution = Inr (r', pkg, db', w') \<and> pk_status pkg = Pkg_COMPLETE \<and>
     backed_claim db' ''r2'' True i"
proof -
  from demo_run_execution_ok obtain r' pkg db' w' where run: "demo_run_execution = Inr (r', pkg, db', w')"
    and c: "pk_status pkg = Pkg_COMPLETE" by blast
  from complete_package_backed [OF run [unfolded demo_run_execution_def] c, unfolded demo_scope_ok]
  obtain ps :: package_section where "ps_claim_ids ps \<noteq> []" "\<forall>i \<in> set (ps_claim_ids ps). backed_claim db' ''r2'' True i"
    by auto
  then have "backed_claim db' ''r2'' True (hd (ps_claim_ids ps))" by simp
  with run c show ?thesis
    by (intro exI [of _ r'] exI [of _ pkg] exI [of _ db'] exI [of _ w'] exI [of _ "hd (ps_claim_ids ps)"] conjI)
qed

end
