(* ===== verification/Cli_Agent.thy ===== *)
theory Cli_Agent
  imports Execution
begin

text \<open>
  The commands of the research agent (\<open>cli_agent.py\<close>). Every command is one transaction: when it
  raises, nothing is committed. \<open>plan\<close> and \<open>run\<close> create the request and the planned run, or find the
  reusable run with the same idempotency key; \<open>run\<close> executes a planned run to its end before the
  commit; \<open>pause\<close>, \<open>resume\<close> and \<open>cancel\<close> act on a committed run. The security resolver, the snapshot
  reader, the security master and the Tool registries are what the commands open with their
  session: the record \<open>resources\<close>.
\<close>

section \<open>Resources\<close>

record 'w resources =
  re_resolve :: "string \<Rightarrow> security_resolution"
  re_snapshot :: "uuid \<Rightarrow> data_snapshot option"
  re_security :: "uuid \<Rightarrow> security_detail option"
  re_invoke :: "'w invoker"

definition request_ports_of :: "'w resources \<Rightarrow> request_ports" where
  "request_ports_of R = \<lparr>rp_resolve = re_resolve R, rp_snapshot = re_snapshot R\<rparr>"

definition execution_service :: "'w resources \<Rightarrow> 'w execution_ports" where
  "execution_service R = \<lparr>xp_invoke = re_invoke R, xp_snapshots = re_snapshot R, xp_securities = re_security R\<rparr>"

definition cli_catalog :: "pylib \<Rightarrow> pydantic \<Rightarrow> tool_catalog_snapshot res" where
  "cli_catalog L pyd =
     bind_res (create_tool_metadata_registry pyd :: unit tool_registry res) (build_tool_catalog_snapshot L)"

section \<open>Planning a run\<close>

definition new_run :: "uuid \<Rightarrow> research_request \<Rightarrow> research_policy \<Rightarrow> checksum \<Rightarrow> code list \<Rightarrow> datetime \<Rightarrow> agent_run" where
  "new_run i q policy key warnings t =
     \<lparr>run_id = i, run_request_id = rq_id q, run_security_id = rq_resolved_security_id q,
      run_snapshot_id = rq_snapshot_id q, run_research_as_of_time = rq_research_as_of_time q,
      run_status = Run_CREATED, run_policy_version = rq_policy_version q,
      run_planner_version = rq_planner_version q, run_tool_catalog_version = rq_tool_catalog_version q,
      run_tool_catalog_checksum = rq_tool_catalog_checksum q, run_idempotency_key = key,
      run_budget = initial_budget policy, run_warning_codes = warnings,
      run_terminal_reason_code = None, run_created_at = t, run_updated_at = t, run_terminal_at = None\<rparr>"

fun step_writes :: "env \<Rightarrow> uuid \<Rightarrow> uuid \<Rightarrow> datetime \<Rightarrow> step_definition list \<Rightarrow> step_write list \<times> env" where
  "step_writes w run plan t [] = ([], w)"
| "step_writes w run plan t (d # ds) =
     (let (i, w1) = next_id w; (vs, w2) = step_writes w1 run plan t ds in
      (\<lparr>st_id = i, st_run_id = run, st_plan_id = plan, st_definition = d, st_status = Step_PENDING,
        st_skip_reason_code = None, st_created_at = t\<rparr> # vs, w2))"

text \<open>The plan of a newly created run, from PLANNING to PLANNED.\<close>

definition plan_created_run ::
  "pylib \<Rightarrow> tool_catalog_snapshot \<Rightarrow> research_policy \<Rightarrow> research_request \<Rightarrow> uuid \<Rightarrow> research_db \<times> env
    \<Rightarrow> (agent_run \<times> research_db \<times> env) res" where
  "plan_created_run L catalog policy q run dbw =
     bind_res (run_transition dbw run Run_PLANNING (Some ''PLAN_STARTED'')) (\<lambda>(_, db1, w1).
     bind_res (create_plan q policy catalog) (\<lambda>draft.
     bind_res (validate L draft policy catalog) (\<lambda>validated.
       let (plan, w2) = next_id w1; (t, w3) = next_now w2 in
       bind_res (add_plan db1 (validated_plan.extend validated (plan_record.fields plan run t))) (\<lambda>(_, db2).
         let (vs, w4) = step_writes w3 run plan t (pd_steps validated) in
         bind_res (add_steps db2 vs) (\<lambda>(_, db3).
           run_transition (db3, w4) run Run_PLANNED (Some ''PLAN_VALIDATED''))))))"

text \<open>The run of a request: the reusable run with its key, or a new one.\<close>

definition snapshot_warnings :: "data_snapshot \<Rightarrow> code list" where
  "snapshot_warnings sn = (if sn_status sn = Sn_PARTIAL then [''AGENT_SNAPSHOT_PARTIAL''] else [])"

definition request_run ::
  "pylib \<Rightarrow> research_policy \<Rightarrow> research_request \<Rightarrow> data_snapshot \<Rightarrow> research_db \<times> env
    \<Rightarrow> (agent_run \<times> research_db \<times> env) res" where
  "request_run L policy q sn dbw =
     bind_res (research_run_idempotency_key L q) (\<lambda>key.
       let (t, w1) = next_now (snd dbw); (i, w2) = next_id w1 in
       bind_res (create_run id (fst dbw) (new_run i q policy key (snapshot_warnings sn) t)) (\<lambda>(run, db1).
         Inr (run, db1, w2)))"

definition plan_or_reuse ::
  "pylib \<Rightarrow> tool_catalog_snapshot \<Rightarrow> research_policy \<Rightarrow> research_request \<Rightarrow> agent_run \<times> research_db \<times> env
    \<Rightarrow> ((agent_run \<times> research_request \<times> research_policy \<times> tool_catalog_snapshot) \<times> research_db \<times> env) res" where
  "plan_or_reuse L catalog policy q rdw =
     (case rdw of (run, db, w) \<Rightarrow>
        if run_status run \<noteq> Run_CREATED then
          (case get_request db (run_request_id run) of
             None \<Rightarrow> Inl (LookupError ''RESEARCH_REQUEST_NOT_FOUND'')
           | Some original \<Rightarrow> Inr ((run, original, policy, catalog), db, w))
        else bind_res (plan_created_run L catalog policy q (run_id run) (db, w)) (\<lambda>(planned, dbw).
          Inr ((planned, q, policy, catalog), dbw)))"

definition create_planned_run ::
  "pylib \<Rightarrow> pydantic \<Rightarrow> 'w resources \<Rightarrow> research_request_create \<Rightarrow> research_db \<times> env
    \<Rightarrow> ((agent_run \<times> research_request \<times> research_policy \<times> tool_catalog_snapshot) \<times> research_db \<times> env) res" where
  "create_planned_run L pyd R command dbw =
     bind_res (cli_catalog L pyd) (\<lambda>catalog.
     bind_res (create_request L (request_ports_of R) catalog dbw command) (\<lambda>(q, dbw1).
     bind_res (require_policy (fst dbw1) (rq_policy_version command)) (\<lambda>policy.
     case re_snapshot R (rq_snapshot_id q) of None \<Rightarrow> Inl (LookupError ''SNAPSHOT_NOT_FOUND'')
     | Some sn \<Rightarrow> bind_res (request_run L policy q sn dbw1) (plan_or_reuse L catalog policy q))))"

section \<open>The commands\<close>

definition parse_aware_datetime :: "pylib \<Rightarrow> string \<Rightarrow> datetime res" where
  "parse_aware_datetime L value =
     (case lib_fromisoformat L (replace_z value) of
        Some (IsoAware _ t) \<Rightarrow> Inr t | _ \<Rightarrow> Inl (ValueError ''invalid aware ISO datetime''))"

definition command_of ::
  "string \<Rightarrow> research_type \<Rightarrow> uuid \<Rightarrow> datetime \<Rightarrow> version \<Rightarrow> research_request_create res" where
  "command_of query rt snapshot as_of policy =
     (if text_within 1 256 query \<and> valid_version policy
      then Inr \<lparr>rq_security_query = query, rq_research_type = rt, rq_snapshot_id = snapshot,
        rq_research_as_of_time = as_of,
        rq_requested_sections = [Sec_SECURITY_IDENTITY, Sec_DATA_QUALITY, Sec_LIMITATIONS],
        rq_policy_version = policy, rq_planner_version = PLANNER_VERSION,
        rq_requested_budgets = \<lparr>rb_max_steps = None, rb_max_tool_calls = None, rb_max_calls_per_tool = None,
          rb_max_retries_per_step = None, rb_max_duration_seconds = None\<rparr>,
        rq_research_mode = REAL_RESEARCH\<rparr>
      else Inl ValidationError)"

definition planned_session ::
  "pylib \<Rightarrow> pydantic \<Rightarrow> 'w resources \<Rightarrow> 'w \<Rightarrow> bool \<Rightarrow> research_request_create \<Rightarrow> research_db \<times> env
    \<Rightarrow> (agent_run \<times> research_db \<times> env) res" where
  "planned_session L pyd R u exec command dbw =
     bind_res (create_planned_run L pyd R command dbw) (\<lambda>((run, q, policy, catalog), dbw1).
       if exec \<and> run_status run = Run_PLANNED then
         bind_res (execute_run L (execution_service R) catalog policy run q u dbw1) (\<lambda>(done, _, dbw2). Inr (done, dbw2))
       else Inr (run, dbw1))"

definition EXIT_PARTIAL :: nat where "EXIT_PARTIAL = 2"
definition EXIT_BLOCKED :: nat where "EXIT_BLOCKED = 3"
definition EXIT_INVALID_OR_FAILED :: nat where "EXIT_INVALID_OR_FAILED = 4"

text \<open>A command: its exit code, and the database it leaves. A raise rolls the transaction back.\<close>

definition exit_of :: "agent_run \<Rightarrow> nat" where
  "exit_of r = (if run_status r = Run_PARTIAL then EXIT_PARTIAL
     else if run_status r = Run_BLOCKED then EXIT_BLOCKED else 0)"

definition plan_or_run ::
  "pylib \<Rightarrow> pydantic \<Rightarrow> 'w resources \<Rightarrow> 'w \<Rightarrow> bool \<Rightarrow> string \<Rightarrow> research_type \<Rightarrow> uuid \<Rightarrow> string \<Rightarrow> version
    \<Rightarrow> research_db \<times> env \<Rightarrow> nat \<times> research_db" where
  "plan_or_run L pyd R u exec query rt snapshot as_of policy dbw =
     (case parse_aware_datetime L as_of of Inl _ \<Rightarrow> (2, fst dbw)
      | Inr t \<Rightarrow>
         (case bind_res (command_of query rt snapshot t policy) (\<lambda>command. planned_session L pyd R u exec command dbw) of
            Inl _ \<Rightarrow> (EXIT_INVALID_OR_FAILED, fst dbw)
          | Inr (run, db', _) \<Rightarrow> (exit_of run, db')))"

datatype control_target = Pause | Resume | Cancel

definition snapshot_validator_of :: "(uuid \<Rightarrow> data_snapshot option) \<Rightarrow> snapshot_validator" where
  "snapshot_validator_of snapshots security snapshot as_of =
     (case snapshots snapshot of None \<Rightarrow> False
      | Some sn \<Rightarrow> sn_status sn = Sn_COMPLETE \<and> sn_security_id sn = security \<and> sn_research_as_of_time sn \<le> as_of)"

definition control_session ::
  "pylib \<Rightarrow> pydantic \<Rightarrow> 'w resources \<Rightarrow> 'w \<Rightarrow> control_target \<Rightarrow> uuid \<Rightarrow> research_db \<times> env
    \<Rightarrow> (agent_run \<times> research_db \<times> env) res" where
  "control_session L pyd R u target i dbw =
     (case get_run (fst dbw) i of None \<Rightarrow> Inl (LookupError ''RESEARCH_RESOURCE_NOT_FOUND'')
      | Some current \<Rightarrow>
         bind_res (require_policy (fst dbw) (run_policy_version current)) (\<lambda>policy.
         bind_res (cli_catalog L pyd) (\<lambda>catalog.
           case target of Pause \<Rightarrow> pause_run dbw i | Cancel \<Rightarrow> cancel_run dbw i
           | Resume \<Rightarrow>
               bind_res (resume_run (snapshot_validator_of (re_snapshot R)) policy catalog dbw i) (\<lambda>(resumed, dbw1).
                 case get_request (fst dbw1) (run_request_id current) of
                   None \<Rightarrow> Inl (LookupError ''RESEARCH_REQUEST_NOT_FOUND'')
                 | Some q \<Rightarrow>
                     bind_res (execute_run L (execution_service R) catalog policy (rs_run resumed) q u dbw1)
                       (\<lambda>(done, _, dbw2). Inr (done, dbw2))))))"

definition control ::
  "pylib \<Rightarrow> pydantic \<Rightarrow> 'w resources \<Rightarrow> 'w \<Rightarrow> control_target \<Rightarrow> uuid \<Rightarrow> research_db \<times> env \<Rightarrow> nat \<times> research_db" where
  "control L pyd R u target i dbw =
     (case control_session L pyd R u target i dbw of
        Inl _ \<Rightarrow> (EXIT_INVALID_OR_FAILED, fst dbw) | Inr (_, db', _) \<Rightarrow> (0, db'))"

definition policy_seed_v1 :: "pylib \<Rightarrow> research_db \<Rightarrow> nat \<times> research_db" where
  "policy_seed_v1 L db =
     (case seed_v1 L db of Inl _ \<Rightarrow> (EXIT_INVALID_OR_FAILED, db) | Inr (_, _, db') \<Rightarrow> (0, db'))"

text \<open>
  What a sequence of commands, one after the other, leaves in the database, whatever resources,
  clock and identifiers each of them ran with.
\<close>

inductive cli_reachable :: "'w itself \<Rightarrow> pylib \<Rightarrow> pydantic \<Rightarrow> research_db \<Rightarrow> bool" for W L pyd where
  empty: "cli_reachable W L pyd empty_db"
| seed: "cli_reachable W L pyd db \<Longrightarrow> cli_reachable W L pyd (snd (policy_seed_v1 L db))"
| research: "cli_reachable W L pyd db \<Longrightarrow>
     cli_reachable W L pyd (snd (plan_or_run L pyd (R :: 'w resources) u exec query rt snapshot as_of policy (db, w)))"
| steer: "cli_reachable W L pyd db \<Longrightarrow>
     cli_reachable W L pyd (snd (control L pyd (R :: 'w resources) u target i (db, w)))"

section \<open>Limitation claims\<close>

text \<open>
  A limitation is claimed only about a blocked capability or about a fact that is valid and
  incomplete. A validated limitation about a blocked capability is blocked, not supported.
\<close>

lemma basic_claim_type: "basic_claim w ev t ct s = Inr (p, w') \<Longrightarrow> cl_claim_type p = ct"
  unfolding basic_claim_def by (drule checked_proposal_Inr) (metis candidate_claim_sel(3) fst_conv)

lemma some_claim_type:
  "some_claim (basic_claim w ev t ct s) = Inr (Some p, w') \<Longrightarrow> cl_claim_type p = ct"
  by (auto simp: some_claim_def dest: basic_claim_type)

lemma propose_limitation:
  assumes "propose L w ev t mode = Inr (Some p, w')" and "cl_claim_type p = Claim_LIMITATION"
  shows "ev_evidence_type ev = BLOCKED_CAPABILITY_EVIDENCE \<or>
    ev_status ev = Ev_VALID \<and> ev_evidence_type ev \<in> {DERIVED_METRIC_EVIDENCE, STRUCTURED_FACT_EVIDENCE}"
  using assms unfolding propose_def
  by (auto simp del: some_claim_def dest: some_claim_type split: if_splits evidence_type.splits option.splits)

lemma propose_claims_origin:
  "propose_claims L w run es t mode = Inr (ps, w') \<Longrightarrow> p \<in> set ps \<Longrightarrow>
   \<exists>e \<in> set es. ev_run_id e = run \<and> (\<exists>w1 w2. propose L w1 e t mode = Inr (Some p, w2))"
proof (induction es arbitrary: w ps)
  case Nil
  then show ?case by simp
next
  case (Cons e es)
  then show ?case
    by (fastforce simp: case_prod_beta split: if_splits option.splits)
qed

lemma unique_by_id_mem: "e \<in> set es \<Longrightarrow> \<exists>f \<in> set (unique_by_id es). ev_id f = ev_id e"
proof (induction es)
  case Nil
  then show ?case by simp
next
  case (Cons a es)
  then show ?case by (cases "ev_id e = ev_id a") fastforce+
qed

lemma unique_by_id_subset: "set (unique_by_id es) \<subseteq> set es"
  by (induction es) auto

definition distinct_evidence :: "research_db \<Rightarrow> bool" where
  "distinct_evidence db \<longleftrightarrow> distinct (map ev_id (db_evidence db))"

lemma list_evidence_distinct:
  "distinct_evidence db \<Longrightarrow> distinct (map ev_id (list_evidence db run))"
  by (auto simp: distinct_evidence_def list_evidence_def order_by2_def distinct_map inj_on_def)

lemma blocked_limitation_not_supported:
  assumes "distinct (map ev_id es)" and "e \<in> set es" and "ev_run_id e = cl_run_id p"
    and "cp_proposed_evidence_ids p = [ev_id e]" and "ev_evidence_type e = BLOCKED_CAPABILITY_EVIDENCE"
    and "cl_claim_type p = Claim_LIMITATION" and "support L p (selected_evidence p es) rr = Inr (s, role)"
  shows "s \<noteq> SUPPORTED"
proof -
  let ?sel = "filter (\<lambda>x. ev_run_id x = cl_run_id p \<and> ev_id x \<in> set (cp_proposed_evidence_ids p)) es"
  have "e \<in> set ?sel" using assms(2-4) by simp
  then obtain f where f: "f \<in> set (selected_evidence p es)" "ev_id f = ev_id e"
    using unique_by_id_mem unfolding selected_evidence_def by blast
  then have "f \<in> set es" using unique_by_id_subset unfolding selected_evidence_def by fastforce
  with assms(1,2) f(2) have "f = e" by (auto simp: distinct_map dest: inj_onD)
  with f assms(5) have "list_ex claim_blocked_by (selected_evidence p es)" "selected_evidence p es \<noteq> []"
    by (auto simp: list_ex_iff claim_blocked_by_def)
  with assms(6,7) show ?thesis by (auto simp: support_def split: if_splits)
qed

lemma complete_proposal_support:
  assumes "complete_proposal L es mode p (db, w) = Inr (r, db', w')"
  shows "\<exists>s role. support L p (selected_evidence p es) (mode = REAL_RESEARCH) = Inr (s, role) \<and>
    cl_support_status r = Some s"
proof -
  from assms obtain t w1 v db2 where
    v: "validate_claim L w1 p es t (mode = REAL_RESEARCH) = Inr (v, w')" and
    c: "complete_claim db2 (cl_id p) (cv_completion v) = Inr (r, db')"
    by (auto simp: complete_proposal_def Let_def case_prod_beta)
  from c have "cl_support_status r = Some (cc_support_status (cv_completion v))"
    by (auto simp: complete_claim_def Let_def split: option.splits)
  with v show ?thesis by (auto simp: validate_claim_def Let_def case_prod_beta split: if_splits)
qed

lemma complete_proposals_support:
  "complete_proposals L es mode ps (db, w) = Inr (rs, db', w') \<Longrightarrow> r \<in> set rs \<Longrightarrow>
   \<exists>p \<in> set ps. cl_claim_type r = cl_claim_type p \<and>
     (\<exists>s role. support L p (selected_evidence p es) (mode = REAL_RESEARCH) = Inr (s, role) \<and>
        cl_support_status r = Some s)"
proof (induction ps arbitrary: db w rs)
  case Nil
  then show ?case by simp
next
  case (Cons p ps)
  then obtain q db1 w1 rs' where one: "complete_proposal L es mode p (db, w) = Inr (q, db1, w1)"
    and rest: "complete_proposals L es mode ps (db1, w1) = Inr (rs', db', w')" and rs: "rs = q # rs'"
    by (auto simp: case_prod_beta)
  show ?case
  proof (cases "r = q")
    case True
    with complete_proposal_support [OF one] complete_proposal_effect [OF one] show ?thesis by auto
  next
    case False
    with Cons.IH [OF rest] Cons.prems(2) rs show ?thesis by auto
  qed
qed

text \<open>Evidence in which no fact or metric is valid: all that the production adapters admit.\<close>

definition fact_free :: "research_db \<Rightarrow> bool" where
  "fact_free db \<longleftrightarrow> (\<forall>e \<in> set (db_evidence db). ev_status e = Ev_VALID \<longrightarrow>
     ev_evidence_type e \<notin> {DERIVED_METRIC_EVIDENCE, STRUCTURED_FACT_EVIDENCE})"

lemma limitations_not_supported:
  assumes "build_and_validate L (db, w) run mode = Inr (rs, db', w')" and "distinct_evidence db"
    and "fact_free db" and "r \<in> set rs" and "cl_claim_type r = Claim_LIMITATION"
  shows "cl_support_status r \<noteq> Some SUPPORTED"
proof -
  let ?es = "list_evidence db run"
  from assms(1) obtain ps t w1 w2 where ps: "propose_claims L w1 run ?es t mode = Inr (ps, w2)"
    and compl: "complete_proposals L ?es mode ps (db, w2) = Inr (rs, db', w')"
    by (auto simp: build_and_validate_def Let_def case_prod_beta)
  from complete_proposals_support [OF compl assms(4)] assms(5) obtain p s role where p: "p \<in> set ps"
    "cl_claim_type p = Claim_LIMITATION" "support L p (selected_evidence p ?es) (mode = REAL_RESEARCH) = Inr (s, role)"
    "cl_support_status r = Some s" by auto
  from propose_claims_origin [OF ps p(1)] obtain e wa wb where e: "e \<in> set ?es" "ev_run_id e = run"
    "propose L wa e t mode = Inr (Some p, wb)" by blast
  from propose_limitation [OF e(3) p(2)] e(1) assms(3) have "ev_evidence_type e = BLOCKED_CAPABILITY_EVIDENCE"
    by (auto simp: fact_free_def list_evidence_mem)
  with blocked_limitation_not_supported [OF list_evidence_distinct [OF assms(2)] e(1) _ _ _ p(2,3)]
    propose_from [OF e(3)] p(4) show ?thesis by (auto simp: proposed_from_def)
qed

section \<open>What execution keeps\<close>

lemma adapter_fact_free:
  assumes "adapter_admit L snapshots ctx tool ob rr w = Inr (e, w')" and "ev_status e = Ev_VALID"
  shows "ev_evidence_type e \<in> {SNAPSHOT_EVIDENCE, DATA_QUALITY_EVIDENCE}"
proof -
  from assms(1) obtain et src syn eid t where
    c: "candidate L snapshots tool ob = Inr (et, src, syn)"
    and ev: "e = ledger_admit eid ctx ob et src syn rr t"
    by (auto simp: adapter_admit_def Let_def next_id_def next_now_def)
  from assms(2) ev have "admissible ctx ob et src syn rr" by (simp add: classify_valid)
  then have "src_exists src" "et \<noteq> BLOCKED_CAPABILITY_EVIDENCE" by (simp_all add: admissible_def)
  from candidate_exists [OF c this] ev show ?thesis by auto
qed

lemma admitted_fact_free:
  assumes "admitted_evidence L P ctx rr e" and "ev_status e = Ev_VALID"
  shows "ev_evidence_type e \<notin> {DERIVED_METRIC_EVIDENCE, STRUCTURED_FACT_EVIDENCE}"
  using assms(1) unfolding admitted_evidence_def
proof (elim disjE exE)
  fix tool ob w0 w1 assume "adapter_admit L (xp_snapshots P) ctx tool ob rr w0 = Inr (e, w1)"
  from adapter_fact_free [OF this assms(2)] show ?thesis by auto
next
  fix ob w0 w1 assume "admit_security_identity L (xp_securities P) ctx ob rr w0 = Inr (e, w1)"
  then show ?thesis by (auto simp: admit_security_identity_def Let_def case_prod_beta)
qed

lemma add_evidence_distinct:
  "add_evidence db [e] = Inr (x, db') \<Longrightarrow> distinct_evidence db \<Longrightarrow> distinct_evidence db'"
  by (auto simp: add_evidence_def distinct_evidence_def split: if_splits)

lemma distinct_evidence_frame: "db_evidence db' = db_evidence db \<Longrightarrow> distinct_evidence db' = distinct_evidence db"
  by (simp add: distinct_evidence_def)

lemma persist_observation_distinct:
  assumes "persist_observation admit ob (db, w) = Inr (db', w')" and "distinct_evidence db"
  shows "distinct_evidence db'"
proof -
  from assms(1) obtain stored db1 e y where a: "add_observation db ob = Inr (stored, db1)"
    and e: "add_evidence db1 [e] = Inr (y, db')"
    by (auto simp: persist_observation_def)
  from kept_writes(4) [OF a] assms(2) have "distinct_evidence db1" using distinct_evidence_frame by blast
  with add_evidence_distinct [OF e] show ?thesis .
qed

lemma persist_execution_distinct:
  assumes "persist_execution L P ctx tool rr r (db, w) = Inr (db', w')" and "distinct_evidence db"
  shows "distinct_evidence db'"
proof -
  obtain t w1 where tw: "completion_time (ter_invocation r) w = (t, w1)" by fastforce
  from assms(1) obtain x1 db1 x2 db2 v c where
    a: "add_invocation db v = Inr (x1, db1)" and
    b: "complete_invocation_row db1 (iw_id (ter_invocation r)) c = Inr (x2, db2)" and
    rest: "(case ter_observation r of None \<Rightarrow> Inr (db2, w1) | Some ob \<Rightarrow> persist_observation
              (\<lambda>stored. adapter_admit L (xp_snapshots P) ctx tool stored rr) ob (db2, w1)) = Inr (db', w')"
    using tw by (auto simp: persist_execution_def Let_def)
  from kept_writes(2) [OF a] kept_writes(3) [OF b] assms(2) have "distinct_evidence db2"
    using distinct_evidence_frame by metis
  with rest show ?thesis by (auto split: option.splits dest: persist_observation_distinct)
qed

lemma persist_security_identity_distinct:
  assumes "persist_security_identity L P ctx st rr (db, w) = Inr (db', w')" and "distinct_evidence db"
  shows "distinct_evidence db'"
proof -
  from assms(1) obtain admit ob w0 where "persist_observation admit ob (db, w0) = Inr (db', w')"
    by (auto simp: persist_security_identity_def Let_def case_prod_beta split: option.splits if_splits)
  from persist_observation_distinct [OF this assms(2)] show ?thesis .
qed

lemma step_transition_distinct:
  assumes "step_transition (db, w) st a b = Inr (s, db', w')" and "distinct_evidence db"
  shows "distinct_evidence db'"
  using assms by (auto simp: step_transition_def transition_step_def Let_def case_prod_beta distinct_evidence_def
      split: option.splits)

lemma execute_step_distinct:
  assumes "execute_step L P cat pol ctx rr step s = Inr s'" and "distinct_evidence (xs_db s)"
  shows "distinct_evidence (xs_db s')"
proof (cases "terminal_step (st_status step)")
  case True
  with assms show ?thesis by (simp add: execute_step_def)
next
  case False
  with assms(1) obtain ready db1 w1 active db2 w2 where
    r: "step_transition (xs_db s, xs_env s) step Step_PENDING Step_READY = Inr (ready, db1, w1)"
    and a: "step_transition (db1, w1) ready Step_READY Step_RUNNING = Inr (active, db2, w2)"
    and rest: "execute_active L P cat pol ctx rr active (s\<lparr>xs_db := db2, xs_env := w2\<rparr>) = Inr s'"
    by (auto simp: execute_step_def)
  have d: "distinct_evidence db2" using step_transition_distinct [OF a] step_transition_distinct [OF r] assms(2) by blast
  show ?thesis
  proof (cases "sd_tool_name (st_definition active)")
    case None
    with rest obtain db3 w3 target w4 x where
      p: "component_work L P ctx rr active (db2, w2) = Inr (db3, w3)"
      and tr: "step_transition (db3, w3) active Step_RUNNING target = Inr (x, xs_db s', w4)"
      by (auto simp: execute_active_def execute_component_def)
    from p have "distinct_evidence db3"
      using d persist_security_identity_distinct by (auto simp: component_work_def split: if_splits)
    with step_transition_distinct [OF tr] show ?thesis by blast
  next
    case (Some tool)
    obtain res u1 w3 where ex: "execute_tool L (xp_invoke P) ctx active cat pol (xs_budget s) (arguments_of active)
             ObsT_DATA_QUALITY REAL_VERIFIED (xs_world s) w2 = (res, u1, w3)" by (metis prod_cases3)
    with rest Some obtain r db3 w4 w5 x target where
      p: "persist_execution L P ctx tool rr r (db2, w3) = Inr (db3, w4)"
      and tr: "step_transition (db3, w4) active Step_RUNNING target = Inr (x, xs_db s', w5)"
      by (auto simp: execute_active_def execute_tool_step_def Let_def)
    from step_transition_distinct [OF tr] persist_execution_distinct [OF p d] show ?thesis by blast
  qed
qed

lemma loop_distinct:
  "fold_res (execute_step L P cat pol ctx rr) steps s = Inr s' \<Longrightarrow> distinct_evidence (xs_db s) \<Longrightarrow>
   distinct_evidence (xs_db s')"
proof (induction steps arbitrary: s)
  case Nil
  then show ?case by simp
next
  case (Cons x xs)
  then obtain s1 where "execute_step L P cat pol ctx rr x s = Inr s1"
    "fold_res (execute_step L P cat pol ctx rr) xs s1 = Inr s'" by auto
  with Cons.IH Cons.prems(2) execute_step_distinct show ?case by blast
qed

text \<open>Runs other than \<open>i\<close> are as they were.\<close>

definition other_runs_kept :: "uuid \<Rightarrow> research_db \<Rightarrow> research_db \<Rightarrow> bool" where
  "other_runs_kept i db db' \<longleftrightarrow> (\<forall>k. k \<noteq> i \<longrightarrow> get_run db' k = get_run db k)"

lemma other_runs_kept_trans: "other_runs_kept i a b \<Longrightarrow> other_runs_kept i b c \<Longrightarrow> other_runs_kept i a c"
  by (simp add: other_runs_kept_def)

lemma other_runs_kept_frame: "db_runs db' = db_runs db \<Longrightarrow> other_runs_kept i db db'"
  by (simp add: other_runs_kept_def get_run_def)

lemma run_transition_others:
  assumes "distinct_runs db" and "run_transition (db, w) i target reason = Inr (r, db', w')"
  shows "other_runs_kept i db db' \<and> (\<exists>q. get_run db i = Some q \<and> allowed_run (run_status q) target)"
  using runs.transition_Inr [OF assms(1) assms(2) [unfolded run_transition_def]]
  by (auto simp: research_runs_def other_runs_kept_def)

lemma update_run_budget_others:
  assumes "distinct_runs db" and "update_run_budget db i b t = Inr (r, db')"
  shows "other_runs_kept i db db'"
proof -
  let ?P = "\<lambda>r. run_id r = i \<and> \<not> terminal_run (run_status r)"
  let ?f = "\<lambda>row :: run_row. row\<lparr>run_budget := b, run_updated_at := t\<rparr>"
  from assms(2) obtain row where row: "List.find ?P (db_runs db) = Some row"
    and db': "db' = db\<lparr>db_runs := update_first ?P ?f (db_runs db)\<rparr>"
    by (auto simp: update_run_budget_def Let_def split: option.splits)
  have "distinct (map run_id (db_runs db))" using assms(1) by (simp add: distinct_runs_def)
  from find_key_update_first [OF this row, of ?f] db' show ?thesis
    by (simp add: get_run_def other_runs_kept_def)
qed

lemma run_steps_distinct: "run_steps empty_db db \<Longrightarrow> distinct_runs db"
  using reachable_inv by (simp add: reachable_db_def run_inv_def)

lemma finish_run_others:
  assumes "finish_run L r q s = Inr (r', pkg, db', w')" and "run_steps empty_db (xs_db s)"
  shows "other_runs_kept (run_id r) (xs_db s) db' \<and> db_requests db' = db_requests (xs_db s)"
proof -
  from finish_run_effect [OF assms(1)] obtain b t running db1 w1 claims db2 w2 p j t3 db3 w3 reason where
    bud: "update_run_budget (xs_db s) (run_id r) b t = Inr (running, db1)" and
    cl: "build_and_validate L (db1, w1) (run_id r) (rq_research_mode q) = Inr (claims, db2, w2)" and
    add: "add_package j t3 db2 p = Inr (pkg, db3)" and
    tr: "run_transition (db3, w3) (run_id r) (terminal_status_of (pk_status pkg)) reason = Inr (r', db', w')"
    by blast
  from update_run_budget_tables [OF bud] obtain rows where d1: "db1 = (xs_db s)\<lparr>db_runs := rows\<rparr>" by blast
  from build_and_validate_tables [OF cl] obtain crows ls where
    d2: "db2 = db1\<lparr>db_claims := db_claims db1 @ crows, db_links := db_links db1 @ ls\<rparr>" by blast
  from add_package_effect [OF add] have d3: "db3 = db2\<lparr>db_packages := db_packages db2 @ [pkg]\<rparr>" by blast
  from run_transition_tables [OF tr] obtain rr ee where d4: "db' = db3\<lparr>db_runs := rr, db_events := ee\<rparr>" by blast
  have s1: "run_steps empty_db db1" by (rule run_steps.budget [OF assms(2) bud])
  have "run_steps empty_db db3" by (rule run_steps.frame [OF s1]) (simp_all add: d3 d2)
  then have "other_runs_kept (run_id r) db3 db'" using run_transition_others [OF run_steps_distinct tr] by blast
  moreover have "other_runs_kept (run_id r) db1 db3" by (rule other_runs_kept_frame) (simp add: d3 d2)
  moreover have "other_runs_kept (run_id r) (xs_db s) db1"
    by (rule update_run_budget_others [OF run_steps_distinct [OF assms(2)] bud])
  ultimately have "other_runs_kept (run_id r) (xs_db s) db'" using other_runs_kept_trans by blast
  moreover have "db_requests db' = db_requests (xs_db s)" by (simp add: d1 d2 d3 d4)
  ultimately show ?thesis ..
qed

lemma finish_run_not_complete:
  assumes "finish_run L r q s = Inr (r', pkg, db', w')" and "distinct_evidence (xs_db s)" and "fact_free (xs_db s)"
    and "Sec_LIMITATIONS \<in> set (rq_requested_sections q)"
  shows "pk_status pkg \<noteq> Pkg_COMPLETE"
proof
  assume complete: "pk_status pkg = Pkg_COMPLETE"
  from finish_run_effect [OF assms(1)] obtain b t running db1 w1 claims db2 w2 i t2 p j t3 db3 bl wa where
    bud: "update_run_budget (xs_db s) (run_id r) b t = Inr (running, db1)" and
    cl: "build_and_validate L (db1, w1) (run_id r) (rq_research_mode q) = Inr (claims, db2, w2)" and
    asm: "assemble L i (scope_of r q) (rq_requested_sections q) claims (list_evidence db2 (run_id r)) bl wa
      (xs_failed s) t2 = Inr p" and
    add: "add_package j t3 db2 p = Inr (pkg, db3)"
    by blast
  from update_run_budget_tables [OF bud] have ev: "db_evidence db1 = db_evidence (xs_db s)" by auto
  with assms(2,3) have d: "distinct_evidence db1" "fact_free db1" by (simp_all add: distinct_evidence_def fact_free_def)
  from complete add_package_effect [OF add] have "pk_status p = Pkg_COMPLETE" by simp
  with package_exact [OF asm] assms(4) have ne: "section_claims Sec_LIMITATIONS claims \<noteq> []"
    and sup: "all_support SUPPORTED (section_claims Sec_LIMITATIONS claims)" by blast+
  then obtain c where c: "c \<in> set (section_claims Sec_LIMITATIONS claims)" using hd_in_set by blast
  then have "c \<in> set claims" "claim_section c = Sec_LIMITATIONS" by (auto simp: section_claims_def)
  then have "cl_claim_type c = Claim_LIMITATION" by (auto simp: claim_section_def split: claim_type.splits if_splits)
  from limitations_not_supported [OF cl d \<open>c \<in> set claims\<close> this] sup c show False by (auto simp: all_support_def)
qed

lemma loop_fact_free:
  assumes "loop_effect L P ctx rr steps db db'" and "fact_free db"
  shows "fact_free db'"
proof -
  from assms(1) obtain es where es: "db_evidence db' = db_evidence db @ es"
    and adm: "list_all (admitted_evidence L P ctx rr) es" by (auto simp: loop_effect_def)
  show ?thesis unfolding fact_free_def
  proof (intro ballI impI)
    fix e assume e: "e \<in> set (db_evidence db')" "ev_status e = Ev_VALID"
    then consider "e \<in> set (db_evidence db)" | "admitted_evidence L P ctx rr e"
      using es adm by (auto simp: list_all_iff)
    then show "ev_evidence_type e \<notin> {DERIVED_METRIC_EVIDENCE, STRUCTURED_FACT_EVIDENCE}"
    proof cases
      case 1
      with e(2) assms(2) show ?thesis by (simp add: fact_free_def)
    next
      case 2
      from admitted_fact_free [OF this e(2)] show ?thesis .
    qed
  qed
qed

lemma execute_run_effects:
  assumes "reachable_db db" and "distinct_steps db" and "distinct_evidence db" and "fact_free db"
    and "Sec_LIMITATIONS \<in> set (rq_requested_sections q)"
    and "execute_run L P cat pol r q u (db, w) = Inr (r', pkg, db', w')"
  shows "reachable_db db' \<and> distinct_steps db' \<and> distinct_evidence db' \<and> fact_free db' \<and>
    db_requests db' = db_requests db \<and> get_run db' (run_id r) = Some r' \<and> other_runs_kept (run_id r) db db' \<and>
    run_status r' \<in> {Run_PARTIAL, Run_BLOCKED, Run_FAILED}"
  using assms(6)
proof (cases rule: execute_run_cases)
  case (1 running db1 w1 plan s' s)
  have dr: "distinct_runs db" using assms(1) run_steps_distinct by (simp add: reachable_db_def)
  from start_run_effect [OF dr 1(1), of empty_db] assms(1) obtain rows evs where
    d1: "db1 = db\<lparr>db_runs := rows, db_events := evs\<rparr>" and s1: "run_steps empty_db db1"
    by (auto simp: reachable_db_def)
  have others1: "other_runs_kept (run_id r) db db1"
    using 1(1) run_transition_others [OF dr]
    by (auto simp: start_run_def other_runs_kept_def split: if_splits)
  have ds: "distinct_steps db1" "distinct_evidence db1" "fact_free db1"
    using assms(2-4) by (simp_all add: d1 distinct_steps_def distinct_evidence_def fact_free_def)
  have loop: "loop_effect L P (context_of running q) (rq_research_mode q = REAL_RESEARCH)
      (list_steps db1 (pr_id plan)) db1 (xs_db s')"
    using loop_steps_effect [OF 1(4)] 1(3) ds(1) list_steps_rows [OF ds(1)] by simp
  then have k: "kept db1 (xs_db s')" "distinct_steps (xs_db s')" by (simp_all add: loop_effect_def)
  then have s2: "run_steps empty_db (xs_db s')" using kept_runs s1 by blast
  have de: "distinct_evidence (xs_db s')" using loop_distinct [OF 1(4)] ds(2) 1(3) by simp
  have ff: "fact_free (xs_db s')" by (rule loop_fact_free [OF loop ds(3)])
  note fin = finish_run_outcome [OF 1(5) s2] and oth = finish_run_others [OF 1(5) s2]
  have "other_runs_kept (run_id r) db1 (xs_db s')"
    using k(1) by (intro other_runs_kept_frame) (simp add: kept_def)
  then have "other_runs_kept (run_id r) db db'" using others1 oth other_runs_kept_trans by blast
  moreover have "run_status r' \<in> {Run_PARTIAL, Run_BLOCKED, Run_FAILED}"
    using fin finish_run_not_complete [OF 1(5) de ff assms(5)] by (cases "pk_status pkg") auto
  moreover have "db_requests db' = db_requests db" using oth k(1) by (simp add: kept_def d1)
  moreover have "distinct_steps db'" "distinct_evidence db'" "fact_free db'"
    using fin k(2) de ff by (simp_all add: distinct_steps_def distinct_evidence_def fact_free_def)
  ultimately show ?thesis using fin by (simp add: reachable_db_def)
qed

section \<open>What planning does\<close>

lemma add_step_rows_distinct:
  "add_step_rows t rs = Inr t' \<Longrightarrow> distinct (map st_id t) \<Longrightarrow> distinct (map st_id t')"
proof (induction t rs rule: add_step_rows.induct)
  case (2 table r rs)
  then show ?case by (auto simp: list_ex_iff step_conflict_def split: if_splits)
qed simp

lemma plan_created_run_cases:
  assumes "plan_created_run L catalog policy q run (db, w) = Inr (r, db', w')"
  obtains r0 db1 w1 plan x db2 vs y db3 w4 where
    "run_transition (db, w) run Run_PLANNING (Some ''PLAN_STARTED'') = Inr (r0, db1, w1)"
    "add_plan db1 plan = Inr (x, db2)" "pr_run_id plan = run" "add_steps db2 vs = Inr (y, db3)"
    "run_transition (db3, w4) run Run_PLANNED (Some ''PLAN_VALIDATED'') = Inr (r, db', w')"
proof -
  from assms obtain r0 db1 w1 draft v i t x db2 vs y db3 w4 where
    "run_transition (db, w) run Run_PLANNING (Some ''PLAN_STARTED'') = Inr (r0, db1, w1)"
    "validate L draft policy catalog = Inr v"
    "add_plan db1 (validated_plan.extend v (plan_record.fields i run t)) = Inr (x, db2)"
    "add_steps db2 vs = Inr (y, db3)"
    "run_transition (db3, w4) run Run_PLANNED (Some ''PLAN_VALIDATED'') = Inr (r, db', w')"
    unfolding plan_created_run_def Let_def case_prod_beta bind_res_eq_Inr by fastforce
  then show thesis using that [of r0 db1 w1 "validated_plan.extend v (plan_record.fields i run t)"]
    by (simp add: validated_plan.extend_def plan_record.fields_def)
qed

lemma plan_created_run_effect:
  assumes "run_steps empty_db db" and "distinct_steps db"
    and "plan_created_run L catalog policy q run (db, w) = Inr (r, db', w')"
  shows "run_steps empty_db db' \<and> distinct_steps db' \<and> get_run db' run = Some r \<and> run_status r = Run_PLANNED \<and>
    other_runs_kept run db db' \<and> db_requests db' = db_requests db \<and> db_policies db' = db_policies db \<and>
    db_evidence db' = db_evidence db"
  using assms(3)
proof (cases rule: plan_created_run_cases)
  case (1 r0 db1 w1 plan x db2 vs y db3 w4)
  from run_transition_tables [OF 1(1)] obtain ra ea where d1: "db1 = db\<lparr>db_runs := ra, db_events := ea\<rparr>" by blast
  from 1(2) have d2: "db2 = db1\<lparr>db_plans := db_plans db1 @ [plan]\<rparr>" by (auto simp: add_plan_def split: if_splits)
  from 1(4) obtain t where d3: "db3 = db2\<lparr>db_steps := t\<rparr>"
    and t: "add_step_rows (db_steps db2) (map step_row vs) = Inr t" by (auto simp: add_steps_def Let_def)
  from run_transition_tables [OF 1(5)] obtain rb eb where d4: "db' = db3\<lparr>db_runs := rb, db_events := eb\<rparr>" by blast
  have s1: "run_steps empty_db db1" by (rule run_steps.advance [OF assms(1) 1(1)])
  have s3: "run_steps empty_db db3" by (rule run_steps.frame [OF s1]) (simp_all add: d3 d2)
  have s4: "run_steps empty_db db'" by (rule run_steps.advance [OF s3 1(5)])
  have "other_runs_kept run db db1" using run_transition_others [OF run_steps_distinct [OF assms(1)] 1(1)] by blast
  moreover have "other_runs_kept run db1 db3" by (rule other_runs_kept_frame) (simp add: d3 d2)
  moreover have "other_runs_kept run db3 db'" using run_transition_others [OF run_steps_distinct [OF s3] 1(5)] by blast
  ultimately have oth: "other_runs_kept run db db'" using other_runs_kept_trans by blast
  have "distinct_steps db'"
    using add_step_rows_distinct [OF t] assms(2) by (simp add: distinct_steps_def d1 d2 d3 d4)
  with s4 oth run_transition_status [OF run_steps_distinct [OF s3] 1(5)] show ?thesis by (simp add: d1 d2 d3 d4)
qed

lemma find_reusable_run_Some:
  assumes "distinct_runs db" and "find_reusable_run db key = Some r"
  shows "get_run db (run_id r) = Some r \<and> run_idempotency_key r = key \<and> reusable_status (run_status r)"
proof -
  from assms(2) obtain row rest where "order_by2 run_created_at run_id
      (filter (\<lambda>r. run_idempotency_key r = key \<and> reusable_status (run_status r)) (db_runs db)) = row # rest"
    and r: "r = run_record row" by (auto simp: find_reusable_run_def split: list.splits)
  then have "row \<in> set (order_by2 run_created_at run_id
      (filter (\<lambda>r. run_idempotency_key r = key \<and> reusable_status (run_status r)) (db_runs db)))" by simp
  then have row: "row \<in> set (db_runs db)" "run_idempotency_key row = key" "reusable_status (run_status row)"
    by (simp_all add: order_by2_def)
  have "distinct (map run_id xs) \<Longrightarrow> x \<in> set xs \<Longrightarrow> List.find (\<lambda>r. run_id r = run_id x) xs = Some x"
    for x and xs :: "run_row list"
    by (induction xs) (auto simp: image_iff)
  with assms(1) row have "List.find (\<lambda>r. run_id r = run_id row) (db_runs db) = Some row"
    by (simp add: distinct_runs_def)
  then show ?thesis using row by (simp add: get_run_def r)
qed

lemma find_reusable_run_unique:
  assumes "run_inv db" and "get_run db i = Some r" and "run_idempotency_key r = key" and "reusable_status (run_status r)"
  shows "find_reusable_run db key = Some r"
proof (cases "find_reusable_run db key")
  case None
  with find_reusable_run_None [OF _ assms(2,3)] assms(4) show ?thesis by blast
next
  case (Some q)
  from assms(1) have "distinct_runs db" by (simp add: run_inv_def)
  note q = find_reusable_run_Some [OF this Some]
  with assms have "run_id q = i" unfolding run_inv_def one_reusable_run_def by blast
  with q assms(2) Some show ?thesis by simp
qed

text \<open>Creating a run without interference: the reusable run, or a new row.\<close>

lemma create_run_id_cases:
  assumes "create_run id db v = Inr (r, db')"
  obtains "db' = db" "find_reusable_run db (run_idempotency_key v) = Some r"
  | q :: research_request where "find_reusable_run db (run_idempotency_key v) = None"
      "insert_run_row db (agent_run.extend v (run_row.fields (rq_research_type q))) = Inr db'" "r = v"
proof (cases "find_reusable_run db (run_idempotency_key v)")
  case (Some a)
  with assms that(1) show thesis by (simp add: create_run_def)
next
  case None
  with assms obtain q :: research_request where
    ins: "insert_run_row db (agent_run.extend v (run_row.fields (rq_research_type q))) = Inr db'"
    and r: "r = run_record (agent_run.extend v (run_row.fields (rq_research_type q)))"
    by (auto simp: create_run_def Let_def split: option.splits sum.splits)
  from r have "r = v" by (simp add: run_record_def agent_run.extend_def agent_run.truncate_def)
  with that(2) [OF None ins] show thesis by blast
qed

lemma insert_run_row_effect:
  assumes "insert_run_row db row = Inr db'"
  shows "db' = db\<lparr>db_runs := db_runs db @ [row]\<rparr> \<and> other_runs_kept (run_id row) db db' \<and>
    get_run db (run_id row) = None \<and> get_run db' (run_id row) = Some (run_record row)"
proof -
  from assms have fresh: "run_id row \<notin> set (map run_id (db_runs db))" and db': "db' = db\<lparr>db_runs := db_runs db @ [row]\<rparr>"
    by (auto simp: insert_run_row_def split: if_splits)
  from fresh have none: "List.find (\<lambda>r. run_id r = run_id row) (db_runs db) = None" by (simp add: find_key_None)
  then show ?thesis
    by (auto simp: db' other_runs_kept_def get_run_def find_append split: option.splits)
qed

section \<open>The planned run\<close>

lemma create_planned_run_cases:
  assumes "create_planned_run L pyd R command (db, w) = Inr ((run, q, policy, catalog), db', w')"
  obtains v db1 w1 sn key i t run0 db2 w2 where
    "cli_catalog L pyd = Inr catalog"
    "create_request L (request_ports_of R) catalog (db, w) command = Inr (v, db1, w1)"
    "require_policy db1 (rq_policy_version command) = Inr policy"
    "re_snapshot R (rq_snapshot_id v) = Some sn" "research_run_idempotency_key L v = Inr key"
    "create_run id db1 (new_run i v policy key (snapshot_warnings sn) t) = Inr (run0, db2)"
    "plan_or_reuse L catalog policy v (run0, db2, w2) = Inr ((run, q, policy, catalog), db', w')"
proof -
  from assms obtain cat v db1 w1 pol sn x where
    a: "cli_catalog L pyd = Inr cat" "create_request L (request_ports_of R) cat (db, w) command = Inr (v, db1, w1)"
    "require_policy db1 (rq_policy_version command) = Inr pol" "re_snapshot R (rq_snapshot_id v) = Some sn"
    and b: "request_run L pol v sn (db1, w1) = Inr x"
    and c: "plan_or_reuse L cat pol v x = Inr ((run, q, policy, catalog), db', w')"
    by (auto simp: create_planned_run_def split: option.splits)
  from c have same: "cat = catalog" "pol = policy"
    by (auto simp: plan_or_reuse_def case_prod_beta split: prod.splits if_splits option.splits)
  from b obtain key i t run0 db2 w2 where "research_run_idempotency_key L v = Inr key"
    "create_run id db1 (new_run i v pol key (snapshot_warnings sn) t) = Inr (run0, db2)" "x = (run0, db2, w2)"
    by (auto simp: request_run_def Let_def case_prod_beta)
  with a c show thesis using that by (simp add: same)
qed

lemma plan_or_reuse_cases:
  assumes "plan_or_reuse L catalog policy v (run0, db, w) = Inr ((run, q, policy, catalog), db', w')"
  obtains "run_status run0 \<noteq> Run_CREATED" "run = run0" "db' = db" "get_request db (run_request_id run0) = Some q"
  | "run_status run0 = Run_CREATED" "q = v" "plan_created_run L catalog policy v (run_id run0) (db, w) = Inr (run, db', w')"
proof (cases "run_status run0 = Run_CREATED")
  case True
  with assms that(2) show thesis by (auto simp: plan_or_reuse_def)
next
  case False
  with assms that(1) show thesis by (auto simp: plan_or_reuse_def split: option.splits)
qed

section \<open>The invariant of the command line\<close>

text \<open>
  Between two commands: every run is planned, partial, blocked or failed; no fact or metric is
  valid evidence; the stored requests have distinct identifiers and ask for the limitations.
\<close>

definition settled_status :: "run_status \<Rightarrow> bool" where
  "settled_status a \<longleftrightarrow> a \<in> {Run_PLANNED, Run_PARTIAL, Run_BLOCKED, Run_FAILED}"

definition settled_runs :: "research_db \<Rightarrow> bool" where
  "settled_runs db \<longleftrightarrow> (\<forall>i r. get_run db i = Some r \<longrightarrow> settled_status (run_status r))"

definition limited_requests :: "research_db \<Rightarrow> bool" where
  "limited_requests db \<longleftrightarrow> distinct (map rq_id (db_requests db)) \<and>
     (\<forall>q \<in> set (db_requests db). Sec_LIMITATIONS \<in> set (rq_requested_sections q))"

definition cli_tables :: "research_db \<Rightarrow> bool" where
  "cli_tables db \<longleftrightarrow> reachable_db db \<and> distinct_steps db \<and> distinct_evidence db \<and> fact_free db \<and> limited_requests db"

definition cli_inv :: "research_db \<Rightarrow> bool" where
  "cli_inv db \<longleftrightarrow> cli_tables db \<and> settled_runs db"

lemma settled_others:
  assumes "settled_runs db" and "other_runs_kept i db db'" and "get_run db' i = Some r" and "settled_status (run_status r)"
  shows "settled_runs db'"
  using assms unfolding settled_runs_def other_runs_kept_def by (metis option.inject)

lemma cli_tables_frame:
  assumes "cli_tables db" and "reachable_db db'" and "db_steps db' = db_steps db" and "db_evidence db' = db_evidence db"
    and "db_requests db' = db_requests db"
  shows "cli_tables db'"
  using assms by (simp add: cli_tables_def distinct_steps_def distinct_evidence_def fact_free_def limited_requests_def)

lemma request_kept_fields:
  assumes "create_request L P catalog (db, w) command = Inr (v, db1, w1)"
  shows "db1 = db\<lparr>db_requests := db_requests db @ [v]\<rparr> \<and> rq_requested_sections v = rq_requested_sections command \<and>
    rq_id v \<notin> rq_id ` set (db_requests db)"
  using create_request_Inr [OF assms] by (auto simp: research_request_create.truncate_def)

lemma create_request_inv:
  assumes "cli_inv db" and "Sec_LIMITATIONS \<in> set (rq_requested_sections command)"
    and "create_request L P catalog (db, w) command = Inr (v, db1, w1)"
  shows "cli_inv db1"
proof -
  note v = request_kept_fields [OF assms(3)]
  have s: "run_steps empty_db db" using assms(1) by (simp add: cli_inv_def cli_tables_def reachable_db_def)
  have "run_steps empty_db db1" by (rule run_steps.frame [OF s]) (use v in simp_all)
  then show ?thesis
    using assms(1,2) v by (auto simp: cli_inv_def cli_tables_def reachable_db_def distinct_steps_def
        distinct_evidence_def fact_free_def limited_requests_def settled_runs_def get_run_def)
qed

lemma execute_run_cli:
  assumes "cli_tables db" and "\<And>k x. k \<noteq> run_id r \<Longrightarrow> get_run db k = Some x \<Longrightarrow> settled_status (run_status x)"
    and "Sec_LIMITATIONS \<in> set (rq_requested_sections q)"
    and "execute_run L P cat pol r q u (db, w) = Inr (r', pkg, db', w')"
  shows "cli_inv db'"
proof -
  from assms(1) have t: "reachable_db db" "distinct_steps db" "distinct_evidence db" "fact_free db"
    "limited_requests db" by (simp_all add: cli_tables_def)
  note eff = execute_run_effects [OF t(1-4) assms(3,4)]
  have "settled_status (run_status x)" if "get_run db' k = Some x" for k x
  proof (cases "k = run_id r")
    case True
    with that eff show ?thesis by (auto simp: settled_status_def)
  next
    case False
    with that eff have "get_run db k = Some x" by (simp add: other_runs_kept_def)
    with False show ?thesis by (rule assms(2))
  qed
  then have "settled_runs db'" by (simp add: settled_runs_def)
  with eff t(5) show ?thesis by (simp add: cli_inv_def cli_tables_def limited_requests_def)
qed

lemma create_run_tables:
  assumes "cli_inv db" and "create_run id db (new_run i v policy key ws t) = Inr (run, db')"
  shows "cli_tables db' \<and> get_run db' (run_id run) = Some run \<and> other_runs_kept (run_id run) db db' \<and>
    (db' = db \<and> run_status run = Run_PLANNED \<or> run_status run = Run_CREATED) \<and> db_requests db' = db_requests db"
  using assms(2)
proof (cases rule: create_run_id_cases)
  case 1
  from assms(1) have "distinct_runs db" using run_steps_distinct by (simp add: cli_inv_def cli_tables_def reachable_db_def)
  note f = find_reusable_run_Some [OF this 1(2)]
  with assms(1) have "settled_status (run_status run)" by (auto simp: cli_inv_def settled_runs_def)
  with f have "run_status run = Run_PLANNED" by (auto simp: settled_status_def reusable_statuses_def)
  with f 1 assms(1) show ?thesis by (simp add: cli_inv_def other_runs_kept_def)
next
  case (2 q)
  let ?row = "agent_run.extend (new_run i v policy key ws t) (run_row.fields (rq_research_type q))"
  have r: "run_record ?row = run" "run_id ?row = run_id run"
    by (simp_all add: run_record_def agent_run.extend_def agent_run.truncate_def 2(3))
  note ins = insert_run_row_effect [OF 2(2)]
  have s: "run_steps empty_db db" using assms(1) by (simp add: cli_inv_def cli_tables_def reachable_db_def)
  have "run_steps empty_db db'"
    by (rule run_steps.create [OF s _ _ _ assms(2)]) (simp_all add: run_steps.start new_run_def)
  then have rd: "reachable_db db'" by (simp add: reachable_db_def)
  from ins have d: "db' = db\<lparr>db_runs := db_runs db @ [?row]\<rparr>" by blast
  have t: "cli_tables db" using assms(1) by (simp add: cli_inv_def)
  have "cli_tables db'" by (rule cli_tables_frame [OF t rd]) (simp_all add: d)
  moreover have "db_requests db' = db_requests db" by (simp add: d)
  moreover have "run_status run = Run_CREATED" by (simp add: 2(3) new_run_def)
  ultimately show ?thesis using ins unfolding r by blast
qed

lemma create_planned_run_inv:
  assumes "cli_inv db" and "Sec_LIMITATIONS \<in> set (rq_requested_sections command)"
    and "create_planned_run L pyd R command (db, w) = Inr ((run, q, policy, catalog), db', w')"
  shows "cli_inv db' \<and> get_run db' (run_id run) = Some run \<and> run_status run = Run_PLANNED \<and>
    Sec_LIMITATIONS \<in> set (rq_requested_sections q)"
  using assms(3)
proof (cases rule: create_planned_run_cases)
  case (1 v db1 w1 sn key i t run0 db2 w2)
  note v = request_kept_fields [OF 1(2)] and inv1 = create_request_inv [OF assms(1,2) 1(2)]
  note cr = create_run_tables [OF inv1 1(6)]
  from 1(7) show ?thesis
  proof (cases rule: plan_or_reuse_cases)
    case 1
    with cr have "db2 = db1" "run_status run0 = Run_PLANNED" by auto
    moreover have "q \<in> set (db_requests db2)" using 1(4) by (auto simp: get_request_def dest: find_SomeD)
    ultimately show ?thesis using 1 cr inv1 by (auto simp: cli_inv_def cli_tables_def limited_requests_def)
  next
    case 2
    from cr have t2: "run_steps empty_db db2" "distinct_steps db2" by (simp_all add: cli_tables_def reachable_db_def)
    note pl = plan_created_run_effect [OF t2 2(3)]
    have "other_runs_kept (run_id run0) db1 db'" using cr pl other_runs_kept_trans by blast
    moreover from inv1 have "settled_runs db1" by (simp add: cli_inv_def)
    ultimately have "settled_runs db'" using pl settled_others by (auto simp: settled_status_def)
    moreover from cr pl have "cli_tables db'"
      by (auto simp: cli_tables_def reachable_db_def distinct_evidence_def fact_free_def limited_requests_def)
    moreover have "run_id run = run_id run0" using pl by (auto simp: get_run_def dest: find_SomeD)
    ultimately show ?thesis using pl 2(2) assms(2) v by (simp add: cli_inv_def)
  qed
qed

lemma planned_session_inv:
  assumes "cli_inv db" and "Sec_LIMITATIONS \<in> set (rq_requested_sections command)"
    and "planned_session L pyd R u exec command (db, w) = Inr (r, db', w')"
  shows "cli_inv db'"
proof -
  from assms(3) obtain run q policy catalog db1 w1 where
    c: "create_planned_run L pyd R command (db, w) = Inr ((run, q, policy, catalog), db1, w1)"
    and rest: "(if exec \<and> run_status run = Run_PLANNED then
         bind_res (execute_run L (execution_service R) catalog policy run q u (db1, w1)) (\<lambda>(done, _, dbw2). Inr (done, dbw2))
       else Inr (run, db1, w1)) = Inr (r, db', w')"
    by (auto simp: planned_session_def)
  note inv = create_planned_run_inv [OF assms(1,2) c]
  show ?thesis
  proof (cases exec)
    case True
    with rest inv obtain r' pkg where
      "execute_run L (execution_service R) catalog policy run q u (db1, w1) = Inr (r', pkg, db', w')" by auto
    from execute_run_cli [OF _ _ _ this] inv show ?thesis by (simp add: cli_inv_def settled_runs_def)
  next
    case False
    with rest inv show ?thesis by simp
  qed
qed

lemma command_of_sections: "command_of query rt snapshot t policy = Inr c \<Longrightarrow> Sec_LIMITATIONS \<in> set (rq_requested_sections c)"
  by (auto simp: command_of_def split: if_splits)

lemma plan_or_run_inv:
  assumes "cli_inv db"
  shows "cli_inv (snd (plan_or_run L pyd R u exec query rt snapshot as_of policy (db, w)))"
proof (cases "parse_aware_datetime L as_of")
  case (Inl e)
  with assms show ?thesis by (simp add: plan_or_run_def)
next
  case (Inr t)
  show ?thesis
  proof (cases "bind_res (command_of query rt snapshot t policy) (\<lambda>c. planned_session L pyd R u exec c (db, w))")
    case (Inl e)
    with assms \<open>parse_aware_datetime L as_of = Inr t\<close> show ?thesis by (simp add: plan_or_run_def)
  next
    case (Inr x)
    then obtain c r db' w' where "command_of query rt snapshot t policy = Inr c"
      "planned_session L pyd R u exec c (db, w) = Inr (r, db', w')" "x = (r, db', w')"
      by (cases x) auto
    with Inr \<open>parse_aware_datetime L as_of = Inr t\<close> planned_session_inv [OF assms command_of_sections]
    show ?thesis by (simp add: plan_or_run_def)
  qed
qed

lemma control_never_applies:
  assumes "settled_runs db"
  shows "control L pyd R u target i (db, w) = (EXIT_INVALID_OR_FAILED, db)"
proof (cases "get_run db i")
  case None
  then show ?thesis by (simp add: control_def control_session_def)
next
  case (Some r)
  with assms have "settled_status (run_status r)" by (simp add: settled_runs_def)
  then have st: "run_status r \<notin> {Run_RUNNING, Run_PAUSED}" by (auto simp: settled_status_def)
  have "\<exists>e. control_session L pyd R u target i (db, w) = Inl e"
    using Some st by (cases "require_policy db (run_policy_version r)"; cases "cli_catalog L pyd"; cases target)
      (auto simp: control_session_def pause_run_def cancel_run_def resume_run_def require_run_def control_reject_def)
  then show ?thesis by (auto simp: control_def)
qed

lemma cli_inv_empty: "cli_inv empty_db"
  by (simp add: cli_inv_def cli_tables_def reachable_db_def run_steps.start distinct_steps_def distinct_evidence_def
      fact_free_def limited_requests_def settled_runs_def get_run_def empty_db_def)

lemma seed_inv:
  assumes "cli_inv db"
  shows "cli_inv (snd (policy_seed_v1 L db))"
proof (cases "seed_v1 L db")
  case (Inl e)
  with assms show ?thesis by (simp add: policy_seed_v1_def)
next
  case (Inr x)
  obtain p cr db' where x: "x = (p, cr, db')" by (cases x) auto
  have "db' = db\<lparr>db_policies := db_policies db'\<rparr>"
    using Inr unfolding x seed_v1_def by (auto simp: add_policy_def split: option.splits if_splits)
  then obtain ps where d: "db' = db\<lparr>db_policies := ps\<rparr>" by blast
  have "run_steps empty_db db" using assms by (simp add: cli_inv_def cli_tables_def reachable_db_def)
  then have "run_steps empty_db db'" by (rule run_steps.frame) (simp_all add: d)
  moreover have "get_run db' = get_run db" by (simp add: get_run_def d fun_eq_iff)
  ultimately have "cli_inv db'" using assms
    by (simp add: cli_inv_def cli_tables_def reachable_db_def distinct_steps_def distinct_evidence_def
        fact_free_def limited_requests_def settled_runs_def d)
  with Inr x show ?thesis by (simp add: policy_seed_v1_def)
qed

lemma cli_reachable_inv: "cli_reachable W L pyd db \<Longrightarrow> cli_inv db"
proof (induction rule: cli_reachable.induct)
  case empty
  show ?case by (rule cli_inv_empty)
next
  case (seed db)
  show ?case by (rule seed_inv [OF seed.IH])
next
  case (research db R u exec query rt snapshot as_of policy w)
  show ?case by (rule plan_or_run_inv [OF research.IH])
next
  case (steer db R u target i w)
  then have "settled_runs db" by (simp add: cli_inv_def)
  with steer.IH show ?case by (simp add: control_never_applies)
qed

end
