(* ===== verification/Cli_Liveness.thy ===== *)
theory Cli_Liveness
  imports Cli_Agent
begin

text \<open>
  What the commands of \<open>cli_agent.py\<close> guarantee: an admissible request is always planned, planning
  the same request again finds the same run, and the exit codes and the statuses a command can
  leave. Identifiers are random (\<open>uuid4\<close>): the hypotheses about them say that those still to be
  drawn are distinct and unused.
\<close>

section \<open>Identifiers\<close>

definition used_ids :: "research_db \<Rightarrow> uuid set" where
  "used_ids db = rq_id ` set (db_requests db) \<union> run_id ` set (db_runs db) \<union> rev_id ` set (db_events db) \<union>
     pr_id ` set (db_plans db) \<union> pr_run_id ` set (db_plans db) \<union> st_id ` set (db_steps db) \<union>
     st_plan_id ` set (db_steps db)"

definition unused :: "env \<Rightarrow> research_db \<Rightarrow> bool" where
  "unused w db \<longleftrightarrow> inj (env_id w) \<and> (\<forall>n \<ge> env_i w. env_id w n \<notin> used_ids db)"

text \<open>An environment after \<open>k\<close> identifiers were drawn.\<close>

definition drawn :: "nat \<Rightarrow> env \<Rightarrow> env \<Rightarrow> bool" where
  "drawn k w w' \<longleftrightarrow> env_id w' = env_id w \<and> env_i w' = env_i w + k"

lemma drawn_next [simp]:
  "drawn 1 w (snd (next_id w))" "drawn 0 w (snd (next_now w))"
  by (simp_all add: drawn_def next_id_def next_now_def)

lemma drawn_trans: "drawn j a b \<Longrightarrow> drawn k b c \<Longrightarrow> drawn (j + k) a c"
  by (simp add: drawn_def)

lemma unused_drawn:
  assumes "unused w db" and "drawn k w w'" and "used_ids db' \<subseteq> used_ids db \<union> env_id w ` {env_i w..<env_i w + k}"
  shows "unused w' db'"
proof -
  have "env_id w n \<notin> used_ids db'" if "n \<ge> env_i w + k" for n
  proof
    assume "env_id w n \<in> used_ids db'"
    with assms(1,3) that obtain m where "env_id w n = env_id w m" "m < env_i w + k"
      by (auto simp: unused_def)
    with assms(1) that show False by (auto simp: unused_def inj_eq)
  qed
  with assms(1,2) show ?thesis by (simp add: unused_def drawn_def)
qed

lemma unused_next: "unused w db \<Longrightarrow> fst (next_id w) \<notin> used_ids db"
  by (simp add: unused_def next_id_def)

lemma unused_drawn0: "unused w db \<Longrightarrow> drawn 0 w w' \<Longrightarrow> unused w' db"
  by (erule unused_drawn) auto

section \<open>Transitions\<close>

lemma run_transition_used:
  assumes "run_transition (db, w) i target reason = Inr (q, db', w')"
  shows "used_ids db' \<subseteq> used_ids db \<union> env_id w ` {env_i w..<env_i w + 1} \<and> drawn 1 w w'"
proof -
  from assms obtain u x db1 e y where
    up: "update_run db i u = Inr (x, db1)" and ap: "append_event db1 e = Inr (y, db')"
    and e: "rev_id e = env_id w (env_i w)" and w': "drawn 1 w w'"
    by (auto simp: run_transition_def transition_def research_runs_def Let_def case_prod_beta
        next_id_def next_now_def transition_event_def drawn_def split: option.splits if_splits)
  from up obtain P f where rows: "db1 = db\<lparr>db_runs := update_first P f (db_runs db)\<rparr>"
    and f: "\<And>z. run_id (f z) = run_id z"
    by (auto simp: update_run_def Let_def split: option.splits)
  have "run_id ` set (db_runs db1) = run_id ` set (db_runs db)"
    using map_key_update_first [of run_id f P "db_runs db", OF f] by (simp add: rows flip: set_map)
  moreover from ap have "db' = db1\<lparr>db_events := db_events db1 @ [e]\<rparr>"
    by (auto simp: append_event_def split: if_splits)
  ultimately show ?thesis using e w' by (auto simp: used_ids_def rows)
qed

lemma transition_succeeds:
  assumes "run_inv db" and "unused w db" and "get_run db i = Some r" and "allowed_run (run_status r) target"
    and "valid_code_opt reason"
  shows "\<exists>q db' w'. run_transition (db, w) i target reason = Inr (q, db', w') \<and> run_inv db' \<and> unused w' db' \<and>
    get_run db' i = Some q \<and> run_status q = target \<and> drawn 1 w w' \<and>
    (\<exists>rows evs. db' = db\<lparr>db_runs := rows, db_events := evs\<rparr>)"
proof -
  have v: "distinct_runs db" using assms(1) by (simp add: run_inv_def)
  have fresh: "fst (next_id w) \<notin> rev_id ` set (events_of db k)" for k
    using unused_next [OF assms(2)] by (auto simp: used_ids_def events_of_def)
  have "audited r (events_of db i)" using assms(1,3) by (simp add: run_inv_def runs_audited_def)
  then have sq: "Suc (length (events_of db i)) \<notin> rev_sequence_number ` set (events_of db i)"
    using audited_sequence_distinct by blast
  have get: "rr_get_run research_runs db i = Some r" using assms(3) by (simp add: research_runs_def)
  obtain q db' w' where tr: "run_transition (db, w) i target reason = Inr (q, db', w')"
    using runs.transition_total [OF v get assms(4,5) fresh sq] unfolding run_transition_def by (metis prod_cases3)
  note used = run_transition_used [OF tr]
  have "unused w' db'" using unused_drawn [OF assms(2)] used by blast
  with tr used run_transition_status [OF v tr] run_transition_tables [OF tr] advance_step [OF assms(1) tr]
  show ?thesis by blast
qed

section \<open>Steps of a plan\<close>

lemma add_step_rows_total:
  assumes "\<forall>r \<in> set rs. \<forall>x \<in> set table. \<not> step_conflict r x" and "sorted_wrt (\<lambda>a b. \<not> step_conflict b a) rs"
  shows "add_step_rows table rs = Inr (table @ rs)"
  using assms
proof (induction rs arbitrary: table)
  case Nil
  then show ?case by simp
next
  case (Cons r rs)
  then show ?case by (auto simp: list_ex_iff)
qed

lemma step_writes_facts:
  "map st_definition (fst (step_writes w run plan t ds)) = ds \<and>
   map st_id (fst (step_writes w run plan t ds)) = map (env_id w) [env_i w..<env_i w + length ds] \<and>
   (\<forall>v \<in> set (fst (step_writes w run plan t ds)). st_plan_id v = plan) \<and>
   drawn (length ds) w (snd (step_writes w run plan t ds))"
proof (induction ds arbitrary: w)
  case Nil
  then show ?case by (simp add: drawn_def)
next
  case (Cons d ds)
  from Cons.IH [of "snd (next_id w)"] show ?case
    by (auto simp: Let_def case_prod_beta next_id_def drawn_def upt_conv_Cons simp del: upt_Suc)
qed

lemma hex_ascii: "is_hex c \<Longrightarrow> \<not> digit7 c"
proof -
  have "list_all (\<lambda>c. is_hex c \<longrightarrow> \<not> digit7 c) Enum.enum" by code_simp
  then show "is_hex c \<Longrightarrow> \<not> digit7 c" by (simp add: list_all_iff enum_UNIV)
qed

lemma hex_text_length: "list_all is_hex k \<Longrightarrow> text_length k = length k"
  by (induction k) (auto simp: text_length_def hex_ascii)

lemma text_length_append: "text_length (a @ b) = text_length a + text_length b"
  by (simp add: text_length_def)

section \<open>An admissible request is planned\<close>

lemma cli_catalog_total:
  assumes "hexdigest_documented L" and "schemas_reflexive pyd" and "schemas_canonical pyd"
  shows "\<exists>cat. cli_catalog L pyd = Inr cat \<and>
    map entry_key (tcs_entries cat) = map tool_key (pol_allowed_tools (offline_policy_values c)) \<and>
    text_length (tcs_catalog_version cat) = 80 \<and> valid_checksum (tcs_catalog_checksum cat)"
proof -
  from offline_catalog_built [OF assms, where 'w = unit and c = c] obtain cat where
    b: "build_tool_catalog_snapshot L (metadata_entries pyd CANONICAL_TOOL_DEFINITIONS :: unit tool_registry) = Inr cat"
    and k: "map entry_key (tcs_entries cat) = map tool_key (pol_allowed_tools (offline_policy_values c))" by blast
  from b have v: "tcs_catalog_version cat = ''tool-catalog-v1:'' @ tcs_catalog_checksum cat"
    "valid_checksum (tcs_catalog_checksum cat)"
    by (auto simp: build_tool_catalog_snapshot_def Let_def split: if_splits)
  have prefix: "text_length ''tool-catalog-v1:'' = 16" by code_simp
  from v(2) have digest: "text_length (tcs_catalog_checksum cat) = 64"
    by (simp add: hex_text_length valid_checksum_def)
  have "text_length (tcs_catalog_version cat) = 80" unfolding v(1) text_length_append prefix digest by simp
  with b k v(2) metadata_registry_total [OF assms(2)] show ?thesis
    by (auto simp: cli_catalog_def)
qed

lemma create_request_total:
  assumes "hexdigest_documented L" and "admissible_request P db command sid policy" and "unused w db"
    and "text_length (tcs_catalog_version cat) = 80" and "valid_checksum (tcs_catalog_checksum cat)"
    and "text_within 1 256 (res_normalized_query (rp_resolve P (rq_security_query command)))"
  shows "\<exists>v db1 w1. create_request L P cat (db, w) command = Inr (v, db1, w1) \<and> drawn 1 w w1 \<and>
    rq_id v = fst (next_id w)"
proof -
  let ?r = "rp_resolve P (rq_security_query command)"
  have pre: "preflight P db command = Inr (?r, sid, policy)" using assms(2) by (simp add: preflight_Inr)
  obtain c where c: "stable_checksum L (PDict (request_basis command ?r sid cat)) = Inr c"
    using basis_canonical(1) by blast
  have "valid_checksum c" by (rule stable_checksum_valid [OF assms(1) c])
  moreover have "fst (next_id w) \<notin> rq_id ` set (db_requests db)"
    using unused_next [OF assms(3)] by (auto simp: used_ids_def)
  ultimately show ?thesis
    using pre c assms(4-6)
    by (auto simp: create_request_def valid_request_def add_request_def Let_def case_prod_beta drawn_def
        next_id_def next_now_def research_request_create.extend_def research_request.fields_def)
qed

lemma create_run_total:
  assumes "run_inv db" and "unused w db" and "v \<in> set (db_requests db)" and "i = fst (next_id w)"
  shows "\<exists>r db'. create_run id db (new_run i v policy key ws t) = Inr (r, db') \<and>
    (\<exists>rows. db' = db\<lparr>db_runs := rows\<rparr>) \<and> used_ids db' \<subseteq> insert i (used_ids db)"
proof (cases "find_reusable_run db key")
  case (Some r)
  then have "create_run id db (new_run i v policy key ws t) = Inr (r, db)" by (simp add: create_run_def new_run_def)
  moreover have "db = db\<lparr>db_runs := db_runs db\<rparr>" by simp
  ultimately show ?thesis by blast
next
  case None
  from assms(3) have "List.find (\<lambda>q. rq_id q = rq_id v) (db_requests db) \<noteq> None" by (auto simp: find_None_iff)
  then obtain q where q: "get_request db (rq_id v) = Some q" by (auto simp: get_request_def)
  let ?row = "agent_run.extend (new_run i v policy key ws t) (run_row.fields (rq_research_type q))"
  have row: "run_id ?row = i" "run_idempotency_key ?row = key"
    by (simp_all add: agent_run.extend_def new_run_def)
  have "i \<notin> run_id ` set (db_runs db)" using unused_next [OF assms(2)] assms(4) by (auto simp: used_ids_def)
  moreover have "\<not> list_ex (\<lambda>r. run_idempotency_key r = key \<and> reusable_status (run_status r)) (db_runs db)"
  proof
    assume "list_ex (\<lambda>r. run_idempotency_key r = key \<and> reusable_status (run_status r)) (db_runs db)"
    then obtain x where "x \<in> set (db_runs db)" "run_idempotency_key x = key" "reusable_status (run_status x)"
      by (auto simp: list_ex_iff)
    then have "x \<in> set (order_by2 run_created_at run_id
        (filter (\<lambda>r. run_idempotency_key r = key \<and> reusable_status (run_status r)) (db_runs db)))"
      by (simp add: order_by2_def)
    with None show False by (auto simp: find_reusable_run_def split: list.splits)
  qed
  ultimately have "insert_run_row db ?row = Inr (db\<lparr>db_runs := db_runs db @ [?row]\<rparr>)"
    using row by (auto simp: insert_run_row_def)
  then have "create_run id db (new_run i v policy key ws t) = Inr (run_record ?row, db\<lparr>db_runs := db_runs db @ [?row]\<rparr>)"
    using None q by (simp add: create_run_def Let_def new_run_def)
  moreover have "used_ids (db\<lparr>db_runs := db_runs db @ [?row]\<rparr>) \<subseteq> insert i (used_ids db)"
    using row by (auto simp: used_ids_def)
  ultimately show ?thesis by blast
qed

lemma no_conflicts:
  assumes "sorted_wrt (\<lambda>a b. st_id a \<noteq> st_id b) rs"
    and "sorted_wrt (\<lambda>a b. sd_step_key (st_definition a) \<noteq> sd_step_key (st_definition b)) rs"
    and "sorted_wrt (\<lambda>a b. sd_step_index (st_definition a) \<noteq> sd_step_index (st_definition b)) rs"
  shows "sorted_wrt (\<lambda>a b. \<not> step_conflict b a) rs"
  using assms
proof (induction rs)
  case Nil
  then show ?case by simp
next
  case (Cons r rs)
  then show ?case by (force simp: step_conflict_def)
qed

text \<open>The rows of a plan never collide: fresh identifiers, one plan, distinct indices and keys.\<close>

lemma plan_rows_added:
  assumes "unused w db" and "plan \<notin> st_plan_id ` set (db_steps db)" and "distinct (map sd_step_key ds)"
    and "map sd_step_index ds = [0..<length ds]"
  shows "\<exists>rows. add_steps db (fst (step_writes w run plan t ds)) = Inr (rows, db\<lparr>db_steps := db_steps db @ rows\<rparr>) \<and>
    st_id ` set rows = env_id w ` {env_i w..<env_i w + length ds} \<and> st_plan_id ` set rows \<subseteq> {plan}"
proof -
  let ?vs = "fst (step_writes w run plan t ds)" let ?rows = "map step_row ?vs"
  note f = step_writes_facts [of w run plan t ds]
  have row: "st_id (step_row v) = st_id v" "st_plan_id (step_row v) = st_plan_id v"
    "st_definition (step_row v) = st_definition v" for v
    by (simp_all add: step_row_def step_write.extend_def)
  have ids: "map st_id ?rows = map (env_id w) [env_i w..<env_i w + length ds]"
    and defs: "map st_definition ?rows = ds" and plan: "\<forall>r \<in> set ?rows. st_plan_id r = plan"
    using f unfolding map_map comp_def row by (auto simp: row)
  have set_ids: "st_id ` set ?rows = env_id w ` {env_i w..<env_i w + length ds}"
    using arg_cong [OF ids, of set] by (simp only: set_map set_upt)
  have "inj (env_id w)" using assms(1) by (simp add: unused_def)
  then have "distinct (map st_id ?rows)" unfolding ids distinct_map by (simp add: inj_on_subset [OF _ subset_UNIV])
  moreover have "map (\<lambda>r. sd_step_key (st_definition r)) ?rows = map sd_step_key ds"
    using arg_cong [OF defs, of "map sd_step_key"] by (simp only: map_map comp_def)
  then have "distinct (map (\<lambda>r. sd_step_key (st_definition r)) ?rows)" using assms(3) by (simp only:)
  moreover have "map (\<lambda>r. sd_step_index (st_definition r)) ?rows = [0..<length ds]"
    using arg_cong [OF defs, of "map sd_step_index"] assms(4) by (simp only: map_map comp_def)
  then have "distinct (map (\<lambda>r. sd_step_index (st_definition r)) ?rows)" by (simp only: distinct_upt)
  ultimately have "sorted_wrt (\<lambda>a b. st_id a \<noteq> st_id b) ?rows"
    "sorted_wrt (\<lambda>a b. sd_step_key (st_definition a) \<noteq> sd_step_key (st_definition b)) ?rows"
    "sorted_wrt (\<lambda>a b. sd_step_index (st_definition a) \<noteq> sd_step_index (st_definition b)) ?rows"
    by (simp_all add: distinct_conv_nth sorted_wrt_iff_nth_less)
  then have "sorted_wrt (\<lambda>a b. \<not> step_conflict b a) ?rows" by (rule no_conflicts)
  moreover have "\<forall>r \<in> set ?rows. \<forall>x \<in> set (db_steps db). \<not> step_conflict r x"
  proof (intro ballI)
    fix r x assume r: "r \<in> set ?rows" and x: "x \<in> set (db_steps db)"
    from r set_ids obtain n where "st_id r = env_id w n" "n \<ge> env_i w" by fastforce
    with assms(1) have "st_id r \<notin> used_ids db" by (simp add: unused_def)
    with x have "st_id r \<noteq> st_id x" by (auto simp: used_ids_def)
    moreover from plan r x assms(2) have "st_plan_id r \<noteq> st_plan_id x" by (metis imageI)
    ultimately show "\<not> step_conflict r x" by (simp add: step_conflict_def)
  qed
  ultimately have "add_step_rows (db_steps db) ?rows = Inr (db_steps db @ ?rows)" using add_step_rows_total by blast
  then have "add_steps db ?vs = Inr (?rows, db\<lparr>db_steps := db_steps db @ ?rows\<rparr>)" by (simp add: add_steps_def Let_def)
  with set_ids plan show ?thesis by (intro exI [of _ ?rows]) auto
qed

lemma create_plan_validates:
  assumes "create_plan q (offline_policy_values c) cat = Inr d"
    and "map entry_key (tcs_entries cat) = map tool_key (pol_allowed_tools (offline_policy_values c))"
  shows "\<exists>vp. validate L d (offline_policy_values c) cat = Inr vp \<and> pd_steps vp = plan_steps (rq_research_type q)"
proof -
  note wf = planned_draft_well_formed [OF assms]
  have "\<exists>j. normalize (PDict (sd_input_binding s)) = Inr j" if "s \<in> set (pd_steps d)" for s
    using planner_bindings [of s "rq_research_type q"] wf that by simp
  then obtain k where "plan_checksum L d = Inr k" using plan_checksum_total by blast
  with wf validate_iff [of L d] validate_Inr [of L d] show ?thesis by metis
qed

lemma plan_reasons: "valid_code_opt (Some ''PLAN_STARTED'')" "valid_code_opt (Some ''PLAN_VALIDATED'')"
  by code_simp+

lemma plan_created_run_total:
  assumes "run_inv db" and "unused w db" and "get_run db run = Some r" and "run_status r = Run_CREATED"
    and "run \<notin> pr_run_id ` set (db_plans db)"
    and "create_plan q (offline_policy_values c) cat = Inr d"
    and "map entry_key (tcs_entries cat) = map tool_key (pol_allowed_tools (offline_policy_values c))"
  shows "\<exists>r' db' w'. plan_created_run L cat (offline_policy_values c) q run (db, w) = Inr (r', db', w')"
proof -
  let ?pol = "offline_policy_values c"
  have "allowed_run (run_status r) Run_PLANNING" by (simp add: assms(4))
  from transition_succeeds [OF assms(1-3) this plan_reasons(1)] obtain r1 db1 w1 rows evs where
    t1: "run_transition (db, w) run Run_PLANNING (Some ''PLAN_STARTED'') = Inr (r1, db1, w1)"
    and i1: "run_inv db1" and u1: "unused w1 db1" and g1: "get_run db1 run = Some r1" "run_status r1 = Run_PLANNING"
    and d1: "db1 = db\<lparr>db_runs := rows, db_events := evs\<rparr>" by blast
  from create_plan_validates [OF assms(6,7)] obtain vp where
    vp: "validate L d ?pol cat = Inr vp" "pd_steps vp = plan_steps (rq_research_type q)" by blast
  define plan w2 t w3 where "plan = fst (next_id w1)" and "w2 = snd (next_id w1)" and "t = fst (next_now w2)"
    and "w3 = snd (next_now w2)"
  note env = plan_def w2_def t_def w3_def
  define pr where "pr = validated_plan.extend vp (plan_record.fields plan run t)"
  have pr: "pr_id pr = plan" "pr_run_id pr = run"
    by (simp_all add: pr_def validated_plan.extend_def plan_record.fields_def)
  have fresh: "plan \<notin> used_ids db1" using unused_next [OF u1] by (simp add: plan_def)
  define db2 where "db2 = db1\<lparr>db_plans := db_plans db1 @ [pr]\<rparr>"
  have add: "add_plan db1 pr = Inr (pr, db2)"
    using fresh assms(5) by (auto simp: add_plan_def db2_def pr used_ids_def d1)
  have run_used: "run \<in> used_ids db1"
    using g1(1) by (auto simp: get_run_def used_ids_def dest!: find_SomeD)
  have dr: "drawn 1 w1 w3" by (simp add: env next_id_def next_now_def drawn_def)
  have u3: "unused w3 db2"
    by (rule unused_drawn [OF u1 dr]) (use run_used in \<open>auto simp: used_ids_def db2_def pr env next_id_def\<close>)
  have "plan \<notin> st_plan_id ` set (db_steps db2)" using fresh by (auto simp: used_ids_def db2_def)
  moreover have "distinct (map sd_step_key (pd_steps vp))" "map sd_step_index (pd_steps vp) = [0..<length (pd_steps vp)]"
    using planner_shape [of "rq_research_type q"] by (simp_all add: plan_shape_ok_def vp(2))
  ultimately obtain srows where add_st: "add_steps db2 (fst (step_writes w3 run plan t (pd_steps vp)))
      = Inr (srows, db2\<lparr>db_steps := db_steps db2 @ srows\<rparr>)"
    and ids: "st_id ` set srows = env_id w3 ` {env_i w3..<env_i w3 + length (pd_steps vp)}" "st_plan_id ` set srows \<subseteq> {plan}"
    using plan_rows_added [OF u3] by blast
  define db3 where "db3 = db2\<lparr>db_steps := db_steps db2 @ srows\<rparr>"
  have "used_ids db3 \<subseteq> used_ids db2 \<union> env_id w3 ` {env_i w3..<env_i w3 + length (pd_steps vp)}"
    using ids by (auto simp: used_ids_def db3_def db2_def pr)
  then have u4: "unused (snd (step_writes w3 run plan t (pd_steps vp))) db3"
    using unused_drawn [OF u3] step_writes_facts [of w3 run plan t "pd_steps vp"] by blast
  have i3: "run_inv db3" using frame_step [OF i1, of db3] by (simp add: db3_def db2_def)
  have g3: "get_run db3 run = Some r1" using g1 by (simp add: get_run_def db3_def db2_def)
  have "allowed_run (run_status r1) Run_PLANNED" by (simp add: g1)
  from transition_succeeds [OF i3 u4 g3 this plan_reasons(2)] obtain x where
    t2: "run_transition (db3, snd (step_writes w3 run plan t (pd_steps vp))) run Run_PLANNED (Some ''PLAN_VALIDATED'') = Inr x"
    by blast
  have "plan_created_run L cat ?pol q run (db, w) = Inr x"
    using t1 assms(6) vp(1) add add_st t2
    by (simp add: plan_created_run_def Let_def case_prod_beta db3_def pr_def flip: env)
  then show ?thesis by (cases x) blast
qed

text \<open>The foreign key of the run table: the request of every run is stored.\<close>

definition runs_have_requests :: "research_db \<Rightarrow> bool" where
  "runs_have_requests db \<longleftrightarrow> (\<forall>r \<in> set (db_runs db). run_request_id r \<in> rq_id ` set (db_requests db))"

lemma get_run_request:
  assumes "runs_have_requests db" and "get_run db i = Some r"
  shows "\<exists>q. get_request db (run_request_id r) = Some q"
proof -
  from assms(2) obtain row where "row \<in> set (db_runs db)" and r: "r = run_record row"
    by (auto simp: get_run_def dest: find_SomeD)
  with assms(1) have "run_request_id row \<in> rq_id ` set (db_requests db)" by (simp add: runs_have_requests_def)
  moreover have "run_request_id r = run_request_id row" by (simp add: r run_record_def agent_run.truncate_def)
  ultimately have "List.find (\<lambda>q. rq_id q = run_request_id r) (db_requests db) \<noteq> None"
    by (auto simp: find_None_iff)
  then show ?thesis by (auto simp: get_request_def)
qed

lemma plan_or_reuse_total:
  assumes "cli_inv db" and "runs_have_requests db" and "unused w db" and "v \<in> set (db_requests db)"
    and "create_plan v (offline_policy_values c) cat = Inr d"
    and "map entry_key (tcs_entries cat) = map tool_key (pol_allowed_tools (offline_policy_values c))"
    and "create_run id db (new_run (fst (next_id w)) v policy key ws t) = Inr (run, db')"
  shows "\<exists>x. plan_or_reuse L cat (offline_policy_values c) v (run, db', snd (next_id w)) = Inr x"
proof -
  let ?i = "fst (next_id w)"
  have ri: "run_inv db" using reachable_inv assms(1) by (simp add: cli_inv_def cli_tables_def)
  note cr = create_run_tables [OF assms(1,7)]
  from create_run_total [OF ri assms(3,4) refl, of policy key ws t] assms(7) obtain rows where
    d: "db' = db\<lparr>db_runs := rows\<rparr>" and used: "used_ids db' \<subseteq> insert ?i (used_ids db)" by auto
  show ?thesis
  proof (cases "run_status run = Run_CREATED")
    case False
    with cr have "db' = db" "get_run db (run_id run) = Some run" by auto
    with get_run_request [OF assms(2)] False show ?thesis by (fastforce simp: plan_or_reuse_def)
  next
    case True
    have new: "run_id run = ?i" using assms(7)
    proof (cases rule: create_run_id_cases)
      case 1
      with find_reusable_run_Some [of db _ run] ri have "get_run db (run_id run) = Some run" by (auto simp: run_inv_def)
      with assms(1) have "settled_status (run_status run)" by (simp add: cli_inv_def settled_runs_def)
      with True show ?thesis by (simp add: settled_status_def)
    next
      case (2 q)
      then show ?thesis by (simp add: new_run_def)
    qed
    have u: "unused (snd (next_id w)) db'"
      by (rule unused_drawn [OF assms(3) drawn_next(1)]) (use used in \<open>auto simp: next_id_def\<close>)
    have pr: "run_id run \<notin> pr_run_id ` set (db_plans db')"
      using unused_next [OF assms(3)] by (auto simp: used_ids_def d new)
    have ri': "run_inv db'" using reachable_inv cr by (simp add: cli_tables_def)
    have g: "get_run db' (run_id run) = Some run" using cr by blast
    from plan_created_run_total [OF ri' u g True pr assms(5,6), of L] obtain r' db2 w2 where
      "plan_created_run L cat (offline_policy_values c) v (run_id run) (db', snd (next_id w)) = Inr (r', db2, w2)"
      by blast
    with True show ?thesis by (simp add: plan_or_reuse_def)
  qed
qed

lemma admissible_planned:
  assumes "cli_inv db" and "runs_have_requests db" and "unused w db"
    and "hexdigest_documented L" and "schemas_reflexive pyd" and "schemas_canonical pyd"
    and "admissible_request (request_ports_of R) db command sid (offline_policy_values c)"
    and "rq_planner_version command = PLANNER_VERSION" and "Sec_LIMITATIONS \<in> set (rq_requested_sections command)"
    and "text_within 1 256 (res_normalized_query (re_resolve R (rq_security_query command)))"
  shows "\<exists>run q catalog db' w'. create_planned_run L pyd R command (db, w)
      = Inr ((run, q, offline_policy_values c, catalog), db', w')"
proof -
  let ?P = "request_ports_of R" let ?pol = "offline_policy_values c"
  from cli_catalog_total [OF assms(4-6), of c] obtain cat where cat: "cli_catalog L pyd = Inr cat"
    "map entry_key (tcs_entries cat) = map tool_key (pol_allowed_tools ?pol)"
    "text_length (tcs_catalog_version cat) = 80" "valid_checksum (tcs_catalog_checksum cat)" by blast
  from create_request_total [OF assms(4,7,3) cat(3,4)] assms(10) obtain v db1 w1 where
    v: "create_request L ?P cat (db, w) command = Inr (v, db1, w1)" and w1: "drawn 1 w w1"
    and vid: "rq_id v = fst (next_id w)" by (auto simp: request_ports_of_def)
  note kf = request_kept_fields [OF v] and cr = create_request_Inr [OF v]
  then have d1: "db1 = db\<lparr>db_requests := db_requests db @ [v]\<rparr>" by blast
  from cr have same: "research_request_create.truncate v = research_request_create.truncate command"
    and vcat: "rq_tool_catalog_version v = tcs_catalog_version cat" "rq_tool_catalog_checksum v = tcs_catalog_checksum cat"
    by blast+
  from same have vf: "rq_snapshot_id v = rq_snapshot_id command" "rq_research_type v = rq_research_type command"
    "rq_planner_version v = rq_planner_version command" "rq_policy_version v = rq_policy_version command"
    by (simp_all add: research_request_create.truncate_def)
  from assms(7) obtain sn where sn: "re_snapshot R (rq_snapshot_id command) = Some sn"
    by (auto simp: admissible_request_def request_ports_of_def)
  from assms(7) have pol: "get_policy db (rq_policy_version command) = Some ?pol"
    "rq_research_type command \<in> set (pol_allowed_research_types ?pol)" by (simp_all add: admissible_request_def)
  then have pv: "pol_version ?pol = rq_policy_version command" by (auto simp: get_policy_def dest: find_SomeD)
  obtain key where key: "research_run_idempotency_key L v = Inr key" using basis_canonical(2) by blast
  have u1: "unused w1 db1"
    by (rule unused_drawn [OF assms(3) w1]) (auto simp: used_ids_def d1 vid next_id_def)
  define t w2 where "t = fst (next_now w1)" and "w2 = snd (next_now w1)"
  have u2: "unused w2 db1" using unused_drawn0 [OF u1] by (simp add: w2_def)
  have mem: "v \<in> set (db_requests db1)" by (simp add: d1)
  have inv1: "cli_inv db1" by (rule create_request_inv [OF assms(1,9) v])
  have ri: "run_inv db1" using reachable_inv inv1 by (simp add: cli_inv_def cli_tables_def)
  from create_run_total [OF ri u2 mem refl] obtain run db2 where
    run: "create_run id db1 (new_run (fst (next_id w2)) v ?pol key (snapshot_warnings sn) t) = Inr (run, db2)" by blast
  have fk: "runs_have_requests db1" using assms(2) by (auto simp: runs_have_requests_def d1)
  obtain d where d: "create_plan v ?pol cat = Inr d"
    using vcat vf assms(8) pv pol(2) by (simp add: create_plan_def)
  from plan_or_reuse_total [OF inv1 fk u2 mem d cat(2) run, of L] obtain x where
    x: "plan_or_reuse L cat ?pol v (run, db2, snd (next_id w2)) = Inr x" by blast
  have rr: "request_run L ?pol v sn (db1, w1) = Inr (run, db2, snd (next_id w2))"
    using key run by (simp add: request_run_def Let_def case_prod_beta t_def w2_def)
  have "require_policy db1 (rq_policy_version command) = Inr ?pol"
    using pol(1) by (simp add: require_policy_def get_policy_def d1)
  with cat(1) v sn vf(1) rr x have eq: "create_planned_run L pyd R command (db, w) = Inr x"
    by (simp add: create_planned_run_def)
  obtain run' q pol' cat' db' w' where xs: "x = ((run', q, pol', cat'), db', w')" by (cases x) auto
  from x have "pol' = ?pol" unfolding xs
    by (auto simp: plan_or_reuse_def split: if_splits option.splits)
  with eq xs show ?thesis by blast
qed

section \<open>Planning again\<close>

lemma run_transition_identity:
  assumes "distinct_runs db" and "run_transition (db, w) i target reason = Inr (r, db', w')" and "get_run db i = Some r0"
  shows "run_idempotency_key r = run_idempotency_key r0 \<and> run_request_id r = run_request_id r0"
  using runs.transition_Inr [OF assms(1) assms(2) [unfolded run_transition_def]] assms(3)
  by (auto simp: research_runs_def apply_run_update_def)

lemma plan_created_run_identity:
  assumes "run_inv db" and "plan_created_run L cat policy q run (db, w) = Inr (r, db', w')" and "get_run db run = Some r0"
  shows "run_idempotency_key r = run_idempotency_key r0 \<and> run_request_id r = run_request_id r0"
  using assms(2)
proof (cases rule: plan_created_run_cases)
  case (1 r1 db1 w1 plan x db2 vs y db3 w4)
  have v: "distinct_runs db" using assms(1) by (simp add: run_inv_def)
  note a = run_transition_identity [OF v 1(1) assms(3)] and st = run_transition_status [OF v 1(1)]
  from add_plan_frame [OF 1(2)] add_steps_frame [OF 1(4)] have "db_runs db3 = db_runs db1" by simp
  then have "distinct_runs db3" "get_run db3 run = Some r1" using st by (simp_all add: distinct_runs_def get_run_def)
  from run_transition_identity [OF this(1) 1(5) this(2)] a show ?thesis by simp
qed

text \<open>The request of a command does not depend on anything but the policies.\<close>

lemma preflight_frame: "db_policies db' = db_policies db \<Longrightarrow> preflight P db' q = preflight P db q"
proof -
  assume "db_policies db' = db_policies db"
  then have eq: "require_policy db' = require_policy db" by (simp add: require_policy_def get_policy_def fun_eq_iff)
  show ?thesis unfolding preflight_def eq ..
qed

lemma create_request_again:
  assumes "create_request L P cat (db, w) command = Inr (v, db1, w1)" and "db_policies db' = db_policies db"
    and "fst (next_id w2) \<notin> rq_id ` set (db_requests db')"
  shows "\<exists>v' w3. create_request L P cat (db', w2) command = Inr (v', db'\<lparr>db_requests := db_requests db' @ [v']\<rparr>, w3) \<and>
    idempotency_basis v' = idempotency_basis v \<and> rq_snapshot_id v' = rq_snapshot_id v"
proof -
  from assms(1) obtain r sid policy sum i t where
    pre: "preflight P db command = Inr (r, sid, policy)"
    and sum: "stable_checksum L (PDict (request_basis command r sid cat)) = Inr sum"
    and v: "v = research_request_create.extend command
        (research_request.fields i sid (res_normalized_query r)
           (tcs_catalog_version cat) (tcs_catalog_checksum cat) sum t)"
    and ok: "valid_request v"
    by (auto simp: create_request_def Let_def case_prod_beta add_request_def split: if_splits)
  let ?v = "research_request_create.extend command
        (research_request.fields (fst (next_id w2)) sid (res_normalized_query r)
           (tcs_catalog_version cat) (tcs_catalog_checksum cat) sum (fst (next_now (snd (next_id w2)))))"
  have "valid_request ?v"
    using ok by (simp add: v valid_request_def research_request_create.extend_def research_request.fields_def)
  moreover have "rq_id ?v = fst (next_id w2)" by (simp add: research_request_create.extend_def research_request.fields_def)
  ultimately have "create_request L P cat (db', w2) command =
      Inr (?v, db'\<lparr>db_requests := db_requests db' @ [?v]\<rparr>, snd (next_now (snd (next_id w2))))"
    using pre sum assms(3) preflight_frame [OF assms(2)]
    by (simp add: create_request_def Let_def case_prod_beta add_request_def)
  moreover have "idempotency_basis ?v = idempotency_basis v" "rq_snapshot_id ?v = rq_snapshot_id v"
    by (simp_all add: idempotency_basis_def v research_request_create.extend_def research_request.fields_def)
  ultimately show ?thesis by blast
qed

text \<open>The run a command planned, found in the tables it leaves.\<close>

lemma planned_run_found:
  assumes "cli_inv db" and "v \<in> set (db_requests db)"
    and "create_run id db (new_run i v policy key ws t) = Inr (run0, db2)"
    and "plan_or_reuse L catalog policy v (run0, db2, w2) = Inr ((run, q, policy, catalog), db', w')"
  shows "run_idempotency_key run = key \<and> get_request db' (run_request_id run) = Some q \<and> db_policies db' = db_policies db \<and>
    db_requests db' = db_requests db"
proof -
  note cr = create_run_tables [OF assms(1,3)]
  have ri: "run_inv db" using reachable_inv assms(1) by (simp add: cli_inv_def cli_tables_def)
  have key: "run_idempotency_key run0 = key \<and> db_policies db2 = db_policies db \<and>
      (run_status run0 = Run_CREATED \<longrightarrow> run_request_id run0 = rq_id v)" using assms(3)
  proof (cases rule: create_run_id_cases)
    case 1
    with find_reusable_run_Some [of db _ run0] ri have f: "get_run db (run_id run0) = Some run0"
      "run_idempotency_key run0 = key" by (auto simp: run_inv_def new_run_def)
    with assms(1) have "settled_status (run_status run0)" by (simp add: cli_inv_def settled_runs_def)
    with f 1 show ?thesis by (auto simp: settled_status_def)
  next
    case (2 q)
    then show ?thesis using insert_run_row_effect [OF 2(2)] by (auto simp: new_run_def)
  qed
  have found: "get_request db (rq_id v) = Some v"
  proof -
    have "distinct (map rq_id xs) \<Longrightarrow> x \<in> set xs \<Longrightarrow> List.find (\<lambda>q. rq_id q = rq_id x) xs = Some x"
      for x and xs :: "research_request list"
      by (induction xs) (auto simp: image_iff)
    with assms(1,2) show ?thesis by (simp add: get_request_def cli_inv_def cli_tables_def limited_requests_def)
  qed
  from assms(4) show ?thesis
  proof (cases rule: plan_or_reuse_cases)
    case 1
    with key cr show ?thesis by simp
  next
    case 2
    have r2: "run_inv db2" "run_steps empty_db db2" "distinct_steps db2"
      using reachable_inv cr by (simp_all add: cli_tables_def reachable_db_def)
    note eff = plan_created_run_effect [OF r2(2,3) 2(3)] and ident = plan_created_run_identity [OF r2(1) 2(3)]
    from cr have "get_run db2 (run_id run0) = Some run0" by blast
    with ident key 2(1) have "run_idempotency_key run = key" "run_request_id run = rq_id v" by simp_all
    with eff cr key found 2(2) show ?thesis by (simp add: get_request_def)
  qed
qed

lemma plan_again:
  assumes "cli_inv db" and "Sec_LIMITATIONS \<in> set (rq_requested_sections command)"
    and "create_planned_run L pyd R command (db, w) = Inr ((run, q, policy, catalog), db', w')"
    and "fst (next_id w2) \<notin> rq_id ` set (db_requests db')"
  shows "\<exists>v w3. create_planned_run L pyd R command (db', w2) =
    Inr ((run, q, policy, catalog), db'\<lparr>db_requests := db_requests db' @ [v]\<rparr>, w3)"
proof -
  note first = create_planned_run_inv [OF assms(1-3)]
  then have inv': "cli_inv db'" "get_run db' (run_id run) = Some run" "run_status run = Run_PLANNED" by blast+
  from assms(3) show ?thesis
  proof (cases rule: create_planned_run_cases)
    case (1 v db1 w1 sn key i t run0 db2 w2')
    have d1: "db1 = db\<lparr>db_requests := db_requests db @ [v]\<rparr>" using request_kept_fields [OF 1(2)] by blast
    then have mem: "v \<in> set (db_requests db1)" and "db_policies db1 = db_policies db" by simp_all
    with planned_run_found [OF create_request_inv [OF assms(1,2) 1(2)] mem 1(6,7)]
    have f: "run_idempotency_key run = key" "get_request db' (run_request_id run) = Some q"
      "db_policies db' = db_policies db1" "db_policies db' = db_policies db" by simp_all
    from create_request_again [OF 1(2) f(4) assms(4)] obtain v' w3 where
      v': "create_request L (request_ports_of R) catalog (db', w2) command =
        Inr (v', db'\<lparr>db_requests := db_requests db' @ [v']\<rparr>, w3)"
      and b: "idempotency_basis v' = idempotency_basis v" "rq_snapshot_id v' = rq_snapshot_id v" by blast
    let ?db = "db'\<lparr>db_requests := db_requests db' @ [v']\<rparr>"
    have "run_inv ?db" using reachable_inv inv'(1) frame_step [of db' ?db] by (simp add: cli_inv_def cli_tables_def)
    moreover have "get_run ?db (run_id run) = Some run" using inv'(2) by (simp add: get_run_def)
    ultimately have found: "find_reusable_run ?db key = Some run"
      using find_reusable_run_unique [OF _ _ f(1)] inv'(3) by (simp add: reusable_statuses_def)
    have k: "research_run_idempotency_key L v' = Inr key" using 1(5) b(1) by (simp add: research_run_idempotency_key_def)
    have "get_request ?db (run_request_id run) = Some q" using f(2) by (simp add: get_request_def find_append)
    moreover obtain w4 where "request_run L policy v' sn (?db, w3) = Inr (run, ?db, w4)"
      using k found by (simp add: request_run_def create_run_def new_run_def Let_def case_prod_beta)
    moreover have "require_policy ?db (rq_policy_version command) = Inr policy"
      using 1(3) f(3) by (simp add: require_policy_def get_policy_def)
    ultimately have "create_planned_run L pyd R command (db', w2) = Inr ((run, q, policy, catalog), ?db, w4)"
      using 1(1,4) v' b(2) inv'(3)
      by (simp add: create_planned_run_def plan_or_reuse_def del: bind_res_eq_Inr)
    then show ?thesis by blast
  qed
qed

section \<open>A command line session\<close>

text \<open>The seeded database, and a command that plans one run in it.\<close>

definition demo_resources :: "unit resources" where
  "demo_resources = \<lparr>re_resolve = rp_resolve demo_ports, re_snapshot = rp_snapshot demo_ports,
     re_security = (\<lambda>_. None), re_invoke = (\<lambda>u name version p. (Inl (ToolRegistryError TOOL_NOT_FOUND), u))\<rparr>"

definition demo_as_of :: string where "demo_as_of = ''2026-01-01T00:00:00Z''"

definition demo_cli_command :: research_request_create where
  "demo_cli_command = demo_command\<lparr>rq_research_as_of_time := 1767225600000000,
     rq_requested_budgets := \<lparr>rb_max_steps = None, rb_max_tool_calls = None,
       rb_max_calls_per_tool = None, rb_max_retries_per_step = None, rb_max_duration_seconds = None\<rparr>\<rparr>"

definition demo_plan_session :: "nat \<times> research_db" where
  "demo_plan_session = plan_or_run demo_lib demo_pydantic demo_resources () False ''AAPL'' COMPANY_OVERVIEW ''snap''
     demo_as_of CONTROLLED_OFFLINE_POLICY_VERSION (demo_policy_db, demo_env 0)"

lemma demo_seeded: "policy_seed_v1 demo_lib empty_db = (0, demo_policy_db)"
  by code_simp

lemma demo_seeded_reachable: "cli_reachable TYPE(unit) demo_lib demo_pydantic demo_policy_db"
  using cli_reachable.seed [OF cli_reachable.empty, of "TYPE(unit)" demo_lib demo_pydantic] demo_seeded by simp

lemma demo_command_built:
  "parse_aware_datetime demo_lib demo_as_of = Inr 1767225600000000"
  "command_of ''AAPL'' COMPANY_OVERVIEW ''snap'' 1767225600000000 CONTROLLED_OFFLINE_POLICY_VERSION = Inr demo_cli_command"
  by code_simp+

lemma demo_unused: "unused (demo_env 0) demo_policy_db" "runs_have_requests demo_policy_db"
  by (auto simp: unused_def demo_env_def demo_policy_db_def empty_db_def used_ids_def runs_have_requests_def inj_def
      dest: arg_cong [where f = length])

lemma demo_admissible:
  "admissible_request (request_ports_of demo_resources) demo_policy_db demo_cli_command ''sec''
     (offline_policy_values (replicate 64 (CHR ''a'')))"
  "text_within 1 256 (res_normalized_query (re_resolve demo_resources (rq_security_query demo_cli_command)))"
  "rq_planner_version demo_cli_command = PLANNER_VERSION" "Sec_LIMITATIONS \<in> set (rq_requested_sections demo_cli_command)"
  by (simp_all add: admissible_request_def request_ports_of_def demo_resources_def demo_ports_def demo_snapshot_def
      demo_cli_command_def demo_command_def demo_policy_db_def get_policy_def offline_policy_values_def
      validate_requested_budgets_def exceeds_def text_within_def text_length_def)

section \<open>Properties\<close>

text \<open>
  C23. What the command line can leave behind. After any sequence of \<open>policy seed-v1\<close>, \<open>plan\<close>,
  \<open>run\<close>, \<open>pause\<close>, \<open>resume\<close> and \<open>cancel\<close> commands, every stored run is planned, partial, blocked or
  failed: none is running or paused, because a run is committed only before its execution or after
  its end, and none is completed, because every request of the command line asks for the
  limitations section, whose claims are never supported. So \<open>pause\<close>, \<open>resume\<close> and \<open>cancel\<close> always
  exit with 4 and change nothing.
\<close>

theorem cli_runs_settled:
  fixes W :: "'w itself"
  assumes "cli_reachable W L pyd db"
  shows "(\<forall>i r. get_run db i = Some r \<longrightarrow> run_status r \<in> {Run_PLANNED, Run_PARTIAL, Run_BLOCKED, Run_FAILED}) \<and>
    reachable_db db \<and>
    (\<forall>R u target i w. control L pyd (R :: 'w resources) u target i (db, w) = (EXIT_INVALID_OR_FAILED, db))"
proof -
  note inv = cli_reachable_inv [OF assms]
  then have settled: "settled_runs db" by (simp add: cli_inv_def)
  have "\<forall>R u target i w. control L pyd (R :: 'w resources) u target i (db, w) = (EXIT_INVALID_OR_FAILED, db)"
    by (simp add: control_never_applies [OF settled])
  with inv show ?thesis
    by (simp add: cli_inv_def cli_tables_def settled_runs_def settled_status_def)
qed

lemma demo_planned:
  "\<exists>run q catalog db' w'. create_planned_run demo_lib demo_pydantic demo_resources demo_cli_command (demo_policy_db, demo_env 0)
     = Inr ((run, q, offline_policy_values (replicate 64 (CHR ''a'')), catalog), db', w')"
  by (rule admissible_planned [OF cli_reachable_inv [OF demo_seeded_reachable] demo_unused(2,1) demo_lib_hex
        demo_schemas_reflexive demo_schemas_canonical demo_admissible(1,3,4,2)])

lemma demo_plan_session_run:
  "cli_reachable TYPE(unit) demo_lib demo_pydantic (snd demo_plan_session) \<and>
   (\<exists>i r. get_run (snd demo_plan_session) i = Some r \<and> run_status r = Run_PLANNED)"
proof -
  have reach: "cli_reachable TYPE(unit) demo_lib demo_pydantic (snd demo_plan_session)"
    unfolding demo_plan_session_def by (rule cli_reachable.research [OF demo_seeded_reachable])
  from demo_planned obtain run q policy catalog db' w' where
    c: "create_planned_run demo_lib demo_pydantic demo_resources demo_cli_command (demo_policy_db, demo_env 0)
     = Inr ((run, q, policy, catalog), db', w')" by blast
  from create_planned_run_inv [OF cli_reachable_inv [OF demo_seeded_reachable] demo_admissible(4) c]
  have r: "get_run db' (run_id run) = Some run" "run_status run = Run_PLANNED" by blast+
  from c have "snd demo_plan_session = db'"
    by (simp add: demo_plan_session_def plan_or_run_def demo_command_built planned_session_def)
  with reach r show ?thesis by auto
qed

theorem cli_runs_settled_witness:
  "cli_reachable TYPE(unit) demo_lib demo_pydantic (snd demo_plan_session) \<and>
   (\<exists>i r. get_run (snd demo_plan_session) i = Some r \<and> run_status r = Run_PLANNED) \<and>
   (\<forall>target i w. control demo_lib demo_pydantic demo_resources () target i (snd demo_plan_session, w) =
      (EXIT_INVALID_OR_FAILED, snd demo_plan_session))"
  using demo_plan_session_run
    cli_runs_settled [of "TYPE(unit)" demo_lib demo_pydantic "snd demo_plan_session"] by blast

text \<open>
  C24. An admissible request is always planned. In any database the commands can leave, when one
  security resolves, its snapshot is admissible, the seeded policy allows the request and the
  identifiers to be drawn are new, planning succeeds: the returned run is stored and planned. (The
  request of every stored run is stored, as the foreign key demands; the digest and the schemas
  are as documented.)
\<close>

theorem admissible_request_planned:
  assumes "cli_reachable W L pyd db" and "runs_have_requests db" and "unused w db"
    and "hexdigest_documented L" and "schemas_reflexive pyd" and "schemas_canonical pyd"
    and "admissible_request (request_ports_of R) db command sid (offline_policy_values c)"
    and "rq_planner_version command = PLANNER_VERSION" and "Sec_LIMITATIONS \<in> set (rq_requested_sections command)"
    and "text_within 1 256 (res_normalized_query (re_resolve R (rq_security_query command)))"
  shows "\<exists>run q catalog db' w'. create_planned_run L pyd R command (db, w)
      = Inr ((run, q, offline_policy_values c, catalog), db', w') \<and>
      get_run db' (run_id run) = Some run \<and> run_status run = Run_PLANNED"
proof -
  note inv = cli_reachable_inv [OF assms(1)]
  from admissible_planned [OF inv assms(2-10)] obtain run q catalog db' w' where
    c: "create_planned_run L pyd R command (db, w) = Inr ((run, q, offline_policy_values c, catalog), db', w')" by blast
  from create_planned_run_inv [OF inv assms(9) c] c show ?thesis by blast
qed

theorem admissible_request_planned_witness:
  "cli_reachable TYPE(unit) demo_lib demo_pydantic demo_policy_db \<and> unused (demo_env 0) demo_policy_db \<and>
   (\<exists>run q policy catalog db' w'. create_planned_run demo_lib demo_pydantic demo_resources demo_cli_command
      (demo_policy_db, demo_env 0) = Inr ((run, q, policy, catalog), db', w') \<and> run_status run = Run_PLANNED)"
  using admissible_request_planned [OF demo_seeded_reachable demo_unused(2,1) demo_lib_hex
        demo_schemas_reflexive demo_schemas_canonical demo_admissible(1,3,4,2)]
    demo_seeded_reachable demo_unused(1) by blast

text \<open>
  C25. Planning is idempotent. When a command has planned a run, the same command issued again,
  with the same resources and an unused request identifier, returns the same run, request, policy
  and catalog, and adds nothing to the database but the new request row: no second run, plan, step
  or event.
\<close>

theorem plan_idempotent:
  assumes "cli_reachable W L pyd db" and "Sec_LIMITATIONS \<in> set (rq_requested_sections command)"
    and "create_planned_run L pyd R command (db, w) = Inr ((run, q, policy, catalog), db', w')"
    and "fst (next_id w2) \<notin> rq_id ` set (db_requests db')"
  shows "\<exists>v w3. create_planned_run L pyd R command (db', w2) =
    Inr ((run, q, policy, catalog), db'\<lparr>db_requests := db_requests db' @ [v]\<rparr>, w3)"
  by (rule plan_again [OF cli_reachable_inv [OF assms(1)] assms(2-4)])

definition demo_far_env :: env where
  "demo_far_env = \<lparr>env_id = (\<lambda>k. replicate (Suc k) (CHR ''z'')), env_now = int, env_i = 0, env_t = 0\<rparr>"

theorem plan_idempotent_witness:
  "\<exists>run q policy catalog db' w' v w3.
     create_planned_run demo_lib demo_pydantic demo_resources demo_cli_command (demo_policy_db, demo_env 0) =
       Inr ((run, q, policy, catalog), db', w') \<and>
     create_planned_run demo_lib demo_pydantic demo_resources demo_cli_command (db', demo_far_env) =
       Inr ((run, q, policy, catalog), db'\<lparr>db_requests := db_requests db' @ [v]\<rparr>, w3)"
proof -
  from demo_planned obtain run q policy catalog db' w' where
    c: "create_planned_run demo_lib demo_pydantic demo_resources demo_cli_command (demo_policy_db, demo_env 0)
     = Inr ((run, q, policy, catalog), db', w')" by blast
  have "fst (next_id demo_far_env) \<notin> rq_id ` set (db_requests db')" using c
  proof (cases rule: create_planned_run_cases)
    case (1 v db1 w1 sn key i t run0 db2 w2)
    have d1: "db1 = demo_policy_db\<lparr>db_requests := db_requests demo_policy_db @ [v]\<rparr>"
      using request_kept_fields [OF 1(2)] by blast
    then have mem: "v \<in> set (db_requests db1)" by simp
    from planned_run_found [OF create_request_inv [OF cli_reachable_inv [OF demo_seeded_reachable]
          demo_admissible(4) 1(2)] mem 1(6,7)] d1
    have "db_requests db' = [v]" by (simp add: demo_policy_db_def empty_db_def)
    moreover from 1(2) have "rq_id v = []"
      by (auto simp: create_request_def Let_def case_prod_beta add_request_def next_id_def demo_env_def
          research_request_create.extend_def research_request.fields_def split: if_splits)
    ultimately show ?thesis by (simp add: next_id_def demo_far_env_def)
  qed
  from plan_idempotent [OF demo_seeded_reachable demo_admissible(4) c this] c show ?thesis by blast
qed

text \<open>The exit code of a failed run is that of success, and that of an invalid time that of a partial run.\<close>

lemma failed_run_exits_zero: "run_status r = Run_FAILED \<Longrightarrow> exit_of r = 0"
  by (simp add: exit_of_def)

lemma invalid_time_exits_partial:
  "parse_aware_datetime L as_of = Inl e \<Longrightarrow>
   plan_or_run L pyd R u exec query rt snapshot as_of policy (db, w) = (EXIT_PARTIAL, db)"
  by (simp add: plan_or_run_def EXIT_PARTIAL_def)

end
