(* ===== verification/Circuit_Breaker.thy ===== *)
theory Circuit_Breaker
  imports Prelude
begin

text \<open>
  The persisted circuit breaker of \<open>providers/circuit_breaker.py\<close>. The service talks to a
  store through the two operations of \<open>CircuitBreakerStore\<close>; they are arguments of the
  service operations, and the locale \<open>circuit_store\<close> states what the service needs of them.
  The store of the source, a table of the database, is modelled by \<open>pg_load\<close> and
  \<open>pg_save\<close> and interprets the locale. A transaction that raises is rolled back by its owner,
  so a raise returns no state.

  The counter of a row is a natural number: the 32-bit range of the column is not modelled.
\<close>

section \<open>Data\<close>

datatype circuit_status = CLOSED | OPEN | HALF_OPEN

datatype circuit_outcome = SUCCESS | TRANSIENT_FAILURE | PERMANENT_FAILURE

record circuit_scope =
  cs_provider_definition_id :: uuid
  cs_provider_capability_id :: uuid

record circuit_snapshot =
  cb_status :: circuit_status
  cb_failure_count :: nat
  cb_opened_at :: "datetime option"
  cb_half_open_probe_at :: "datetime option"
  cb_updated_at :: datetime

record circuit_decision =
  cd_allowed :: bool
  cd_status :: circuit_status
  cd_reason_code :: code

definition closed_snapshot :: "datetime \<Rightarrow> circuit_snapshot" where
  "closed_snapshot now = \<lparr>cb_status = CLOSED, cb_failure_count = 0, cb_opened_at = None,
     cb_half_open_probe_at = None, cb_updated_at = now\<rparr>"

text \<open>The two settings of the service; the window is kept in microseconds.\<close>

record circuit_config =
  cc_failure_threshold :: int
  cc_reset_after :: int

definition make_service :: "int \<Rightarrow> int \<Rightarrow> circuit_config res" where
  "make_service failure_threshold reset_after_seconds =
     (if \<not> (1 \<le> failure_threshold \<and> failure_threshold \<le> 100)
      then Inl (ValueError ''CIRCUIT_FAILURE_THRESHOLD_INVALID'')
      else if \<not> (1 \<le> reset_after_seconds \<and> reset_after_seconds \<le> 86400)
      then Inl (ValueError ''CIRCUIT_RESET_WINDOW_INVALID'')
      else Inr \<lparr>cc_failure_threshold = failure_threshold,
                cc_reset_after = reset_after_seconds * 1000000\<rparr>)"

section \<open>The service\<close>

type_synonym 'db circuit_load = "'db \<Rightarrow> circuit_scope \<Rightarrow> circuit_snapshot option"
type_synonym 'db circuit_save =
  "'db \<Rightarrow> circuit_scope \<Rightarrow> circuit_snapshot \<Rightarrow> (circuit_snapshot \<times> 'db) res"

definition decide ::
  "'db circuit_save \<Rightarrow> circuit_config \<Rightarrow> circuit_scope \<Rightarrow> datetime \<Rightarrow> circuit_snapshot \<Rightarrow> 'db \<Rightarrow>
   (circuit_decision \<times> 'db) res" where
  "decide save cfg scope now snapshot db =
     (if cb_status snapshot = CLOSED
      then Inr (\<lparr>cd_allowed = True, cd_status = CLOSED,
                 cd_reason_code = ''PROVIDER_CIRCUIT_CLOSED''\<rparr>, db)
      else if cb_status snapshot = HALF_OPEN
      then Inr (\<lparr>cd_allowed = False, cd_status = HALF_OPEN,
                 cd_reason_code = ''PROVIDER_CIRCUIT_PROBE_IN_PROGRESS''\<rparr>, db)
      else if (case cb_opened_at snapshot of None \<Rightarrow> False
               | Some opened_at \<Rightarrow> opened_at + cc_reset_after cfg \<le> now)
      then bind_res (save db scope (snapshot\<lparr>cb_status := HALF_OPEN,
                       cb_half_open_probe_at := Some now, cb_updated_at := now\<rparr>))
             (\<lambda>(_, db'). Inr (\<lparr>cd_allowed = True, cd_status = HALF_OPEN,
                 cd_reason_code = ''PROVIDER_CIRCUIT_HALF_OPEN_PROBE''\<rparr>, db'))
      else Inr (\<lparr>cd_allowed = False, cd_status = cb_status snapshot,
                 cd_reason_code = ''PROVIDER_CIRCUIT_OPEN''\<rparr>, db))"

definition before_call ::
  "'db circuit_load \<Rightarrow> 'db circuit_save \<Rightarrow> circuit_config \<Rightarrow> circuit_scope \<Rightarrow> datetime \<Rightarrow> 'db \<Rightarrow>
   (circuit_decision \<times> 'db) res" where
  "before_call load save cfg scope now db =
     (case load db scope of
        None \<Rightarrow> bind_res (save db scope (closed_snapshot now))
                  (\<lambda>(snapshot, db'). decide save cfg scope now snapshot db')
      | Some snapshot \<Rightarrow> decide save cfg scope now snapshot db)"

definition outcome_target ::
  "circuit_config \<Rightarrow> circuit_outcome \<Rightarrow> datetime \<Rightarrow> circuit_snapshot \<Rightarrow> circuit_snapshot" where
  "outcome_target cfg outcome now current =
     (case outcome of
        SUCCESS \<Rightarrow> closed_snapshot now
      | PERMANENT_FAILURE \<Rightarrow> current\<lparr>cb_updated_at := now\<rparr>
      | TRANSIENT_FAILURE \<Rightarrow>
          (let failure_count = cb_failure_count current + 1;
               should_open = (cb_status current = HALF_OPEN \<or>
                              cc_failure_threshold cfg \<le> int failure_count)
           in current\<lparr>cb_status := (if should_open then OPEN else CLOSED),
                cb_failure_count := failure_count,
                cb_opened_at := (if should_open then Some now else None),
                cb_half_open_probe_at := None, cb_updated_at := now\<rparr>))"

definition record_outcome ::
  "'db circuit_load \<Rightarrow> 'db circuit_save \<Rightarrow> circuit_config \<Rightarrow> circuit_scope \<Rightarrow> circuit_outcome \<Rightarrow>
   datetime \<Rightarrow> 'db \<Rightarrow> (circuit_snapshot \<times> 'db) res" where
  "record_outcome load save cfg scope outcome now db =
     (let current = (case load db scope of None \<Rightarrow> closed_snapshot now | Some s \<Rightarrow> s)
      in save db scope (outcome_target cfg outcome now current))"

section \<open>The store of the database\<close>

text \<open>
  The rows of \<open>provider_circuit_breakers\<close> and the keys its two foreign keys refer to. An
  assignment that leaves \<open>updated_at\<close> as it was does not mention the column in the
  \<open>UPDATE\<close>; then \<open>onupdate\<close> fills it with the time of the database, which the model reads from
  \<open>cdb_clock\<close> at the number of the reads so far.
\<close>

record circuit_row =
  cr_scope :: circuit_scope
  cr_snapshot :: circuit_snapshot

record circuit_db =
  cdb_definition_ids :: "uuid list"
  cdb_capability_ids :: "uuid list"
  cdb_clock :: "nat \<Rightarrow> datetime"
  cdb_reads :: nat
  cdb_rows :: "circuit_row list"

definition pg_load :: "circuit_db circuit_load" where
  "pg_load db scope =
     map_option cr_snapshot (List.find (\<lambda>r. cr_scope r = scope) (cdb_rows db))"

definition assign_columns :: "datetime \<Rightarrow> circuit_snapshot \<Rightarrow> circuit_snapshot \<Rightarrow> circuit_snapshot" where
  "assign_columns db_now old v =
     (if cb_updated_at v = cb_updated_at old \<and> v \<noteq> old
      then v\<lparr>cb_updated_at := db_now\<rparr> else v)"

definition pg_save :: "circuit_db circuit_save" where
  "pg_save db scope v =
     (case List.find (\<lambda>r. cr_scope r = scope) (cdb_rows db) of
        None \<Rightarrow>
          if cs_provider_definition_id scope \<notin> set (cdb_definition_ids db)
          then Inl (IntegrityError ''fk_provider_circuit_breakers_definition'')
          else if cs_provider_capability_id scope \<notin> set (cdb_capability_ids db)
          then Inl (IntegrityError ''fk_provider_circuit_breakers_capability'')
          else Inr (v, db\<lparr>cdb_rows := cdb_rows db @ [\<lparr>cr_scope = scope, cr_snapshot = v\<rparr>]\<rparr>)
      | Some row \<Rightarrow>
          let stored = assign_columns (cdb_clock db (cdb_reads db)) (cr_snapshot row) v
          in Inr (stored, db\<lparr>cdb_reads := Suc (cdb_reads db), cdb_rows := update_first (\<lambda>r. cr_scope r = scope)
                               (\<lambda>r. r\<lparr>cr_snapshot := stored\<rparr>) (cdb_rows db)\<rparr>))"

section \<open>What the service needs of a store\<close>

text \<open>The columns a decision reads: everything but \<open>updated_at\<close>.\<close>

definition same_state :: "circuit_snapshot \<Rightarrow> circuit_snapshot \<Rightarrow> bool" where
  "same_state a b \<longleftrightarrow> cb_status a = cb_status b \<and> cb_failure_count a = cb_failure_count b \<and>
     cb_opened_at a = cb_opened_at b \<and> cb_half_open_probe_at a = cb_half_open_probe_at b"

lemma same_state_refl [simp]: "same_state a a"
  by (simp add: same_state_def)

locale circuit_store =
  fixes load :: "'db circuit_load"
    and save :: "'db circuit_save"
  assumes save_same: "save db scope v = Inr (s, db') \<Longrightarrow> same_state s v"
    and load_saved: "save db scope v = Inr (s, db') \<Longrightarrow> load db' scope = Some s"
    and load_other: "save db scope v = Inr (s, db') \<Longrightarrow> scope' \<noteq> scope \<Longrightarrow>
          load db' scope' = load db scope'"
    and save_stored: "load db scope \<noteq> None \<Longrightarrow> \<exists>s db'. save db scope v = Inr (s, db')"

lemma make_service_ok:
  "make_service f r = Inr cfg \<Longrightarrow>
   1 \<le> cc_failure_threshold cfg \<and> cc_failure_threshold cfg \<le> 100 \<and> 0 < cc_reset_after cfg"
  by (auto simp: make_service_def split: if_splits)

text \<open>
  The history of one breaker: calls that ask for admission and outcomes that are recorded, each at
  its time, on behalf of any scope.
\<close>

datatype circuit_event =
    Ask circuit_scope datetime
  | Report circuit_scope circuit_outcome datetime

fun event_scope :: "circuit_event \<Rightarrow> circuit_scope" where
  "event_scope (Ask scope _) = scope"
| "event_scope (Report scope _ _) = scope"

definition circuit_step ::
  "'db circuit_load \<Rightarrow> 'db circuit_save \<Rightarrow> circuit_config \<Rightarrow> circuit_event \<Rightarrow> 'db \<Rightarrow>
   (circuit_decision option \<times> 'db) res" where
  "circuit_step load save cfg ev db =
     (case ev of
        Ask scope now \<Rightarrow> bind_res (before_call load save cfg scope now db) (\<lambda>(d, db'). Inr (Some d, db'))
      | Report scope outcome now \<Rightarrow>
          bind_res (record_outcome load save cfg scope outcome now db) (\<lambda>(_, db'). Inr (None, db')))"

fun circuit_run ::
  "'db circuit_load \<Rightarrow> 'db circuit_save \<Rightarrow> circuit_config \<Rightarrow> circuit_event list \<Rightarrow> 'db \<Rightarrow>
   (circuit_decision option list \<times> 'db) res" where
  "circuit_run load save cfg [] db = Inr ([], db)"
| "circuit_run load save cfg (ev # evs) db =
     bind_res (circuit_step load save cfg ev db) (\<lambda>(d, db').
       bind_res (circuit_run load save cfg evs db') (\<lambda>(ds, db''). Inr (d # ds, db'')))"

text \<open>
  What the history of a scope says, newest event first: the transient failures since the last
  success, the time of the last one, and whether a probe was admitted after it.
\<close>

fun failures_since_success :: "circuit_scope \<Rightarrow> circuit_event list \<Rightarrow> nat" where
  "failures_since_success scope [] = 0"
| "failures_since_success scope (Ask _ _ # h) = failures_since_success scope h"
| "failures_since_success scope (Report sc outcome _ # h) =
     (if sc \<noteq> scope then failures_since_success scope h
      else case outcome of SUCCESS \<Rightarrow> 0
        | TRANSIENT_FAILURE \<Rightarrow> failures_since_success scope h + 1
        | PERMANENT_FAILURE \<Rightarrow> failures_since_success scope h)"

fun last_failure :: "circuit_scope \<Rightarrow> circuit_event list \<Rightarrow> datetime option" where
  "last_failure scope [] = None"
| "last_failure scope (Ask _ _ # h) = last_failure scope h"
| "last_failure scope (Report sc outcome t # h) =
     (if sc \<noteq> scope then last_failure scope h
      else case outcome of SUCCESS \<Rightarrow> None
        | TRANSIENT_FAILURE \<Rightarrow> Some t
        | PERMANENT_FAILURE \<Rightarrow> last_failure scope h)"

definition window_over :: "circuit_config \<Rightarrow> circuit_scope \<Rightarrow> circuit_event list \<Rightarrow> datetime \<Rightarrow> bool" where
  "window_over cfg scope h now \<longleftrightarrow>
     cc_failure_threshold cfg \<le> int (failures_since_success scope h) \<and>
     (case last_failure scope h of None \<Rightarrow> False | Some t \<Rightarrow> t + cc_reset_after cfg \<le> now)"

fun probed :: "circuit_config \<Rightarrow> circuit_scope \<Rightarrow> circuit_event list \<Rightarrow> bool" where
  "probed cfg scope [] = False"
| "probed cfg scope (Ask sc now # h) =
     (probed cfg scope h \<or> sc = scope \<and> window_over cfg scope h now)"
| "probed cfg scope (Report sc outcome _ # h) =
     (if sc \<noteq> scope then probed cfg scope h else outcome = PERMANENT_FAILURE \<and> probed cfg scope h)"

definition admits :: "circuit_config \<Rightarrow> circuit_scope \<Rightarrow> circuit_event list \<Rightarrow> datetime \<Rightarrow> bool" where
  "admits cfg scope h now \<longleftrightarrow>
     int (failures_since_success scope h) < cc_failure_threshold cfg \<or>
     \<not> probed cfg scope h \<and> window_over cfg scope h now"

text \<open>What a stored breaker, or the breaker of a scope with no row, has to do with its history.\<close>

definition tracks :: "circuit_config \<Rightarrow> circuit_scope \<Rightarrow> circuit_event list \<Rightarrow> circuit_snapshot \<Rightarrow> bool" where
  "tracks cfg scope h s \<longleftrightarrow>
     cb_failure_count s = failures_since_success scope h \<and>
     cb_status s = (if int (failures_since_success scope h) < cc_failure_threshold cfg then CLOSED
                    else if probed cfg scope h then HALF_OPEN else OPEN) \<and>
     cb_opened_at s = (if cb_status s = CLOSED then None else last_failure scope h) \<and>
     (cb_half_open_probe_at s \<noteq> None \<longleftrightarrow> cb_status s = HALF_OPEN)"

definition tracks_opt ::
  "circuit_config \<Rightarrow> circuit_scope \<Rightarrow> circuit_event list \<Rightarrow> circuit_snapshot option \<Rightarrow> bool" where
  "tracks_opt cfg scope h so =
     (case so of None \<Rightarrow> failures_since_success scope h = 0 | Some s \<Rightarrow> tracks cfg scope h s)"

lemma tracks_same: "same_state a b \<Longrightarrow> tracks cfg scope h a = tracks cfg scope h b"
  by (auto simp: tracks_def same_state_def)

lemma probed_over:
  "0 < cc_failure_threshold cfg \<Longrightarrow> probed cfg scope h \<Longrightarrow>
   cc_failure_threshold cfg \<le> int (failures_since_success scope h)"
proof (induction h)
  case (Cons ev h)
  then show ?case by (cases ev) (auto simp: window_over_def split: if_splits circuit_outcome.splits)
qed simp

lemma tracks_closed_snapshot:
  "0 < cc_failure_threshold cfg \<Longrightarrow> failures_since_success scope h = 0 \<Longrightarrow>
   tracks cfg scope h (closed_snapshot now)"
  by (simp add: tracks_def closed_snapshot_def)

lemma outcome_target_tracks:
  assumes "0 < cc_failure_threshold cfg" and "tracks cfg scope h s"
  shows "tracks cfg scope (Report scope outcome now # h) (outcome_target cfg outcome now s)"
  using assms probed_over [OF assms(1), of scope h]
  by (cases outcome) (auto simp: tracks_def outcome_target_def closed_snapshot_def Let_def split: if_splits)

lemma tracks_other:
  "sc \<noteq> scope \<Longrightarrow> tracks cfg scope (Ask sc now # h) s = tracks cfg scope h s"
  "sc \<noteq> scope \<Longrightarrow> tracks cfg scope (Report sc outcome now # h) s = tracks cfg scope h s"
  by (simp_all add: tracks_def)

text \<open>While a probe is out, no outcome but a success or a transient failure lets a call through.\<close>

lemma probed_extends:
  "probed cfg scope h \<Longrightarrow> \<forall>t. Report scope SUCCESS t \<notin> set evs \<and> Report scope TRANSIENT_FAILURE t \<notin> set evs \<Longrightarrow>
   probed cfg scope (evs @ h)"
proof (induction evs)
  case (Cons ev evs)
  then show ?case
    by (cases ev) (auto, (metis circuit_outcome.exhaust)+)
qed simp

lemma probed_denies: "0 < cc_failure_threshold cfg \<Longrightarrow> probed cfg scope h \<Longrightarrow> \<not> admits cfg scope h now"
  using probed_over [of cfg scope h] by (auto simp: admits_def)

context circuit_store
begin

lemma decide_other:
  "decide save cfg scope now s db = Inr (d, db') \<Longrightarrow> sc \<noteq> scope \<Longrightarrow> load db' sc = load db sc"
  by (auto simp: decide_def dest: load_other split: if_splits)

lemma before_call_other:
  "before_call load save cfg scope now db = Inr (d, db') \<Longrightarrow> sc \<noteq> scope \<Longrightarrow> load db' sc = load db sc"
  by (fastforce simp: before_call_def dest: load_other decide_other split: option.splits)

lemma record_outcome_other:
  "record_outcome load save cfg scope outcome now db = Inr (s, db') \<Longrightarrow> sc \<noteq> scope \<Longrightarrow>
   load db' sc = load db sc"
  by (auto simp: record_outcome_def Let_def dest: load_other)

lemma decide_tracks:
  assumes pos: "0 < cc_failure_threshold cfg" and ld: "load db scope = Some s"
    and tr: "tracks cfg scope h s"
  shows "\<exists>d db' s'. decide save cfg scope now s db = Inr (d, db') \<and>
    cd_allowed d = admits cfg scope h now \<and>
    load db' scope = Some s' \<and> tracks cfg scope (Ask scope now # h) s'"
proof (cases "cb_status s = OPEN \<and> window_over cfg scope h now")
  case True
  let ?v = "s\<lparr>cb_status := HALF_OPEN, cb_half_open_probe_at := Some now, cb_updated_at := now\<rparr>"
  obtain s' db' where sv: "save db scope ?v = Inr (s', db')"
    using save_stored [of db scope ?v] ld by auto
  from True tr have np: "\<not> probed cfg scope h"
    and c: "cc_failure_threshold cfg \<le> int (failures_since_success scope h)"
    by (auto simp: tracks_def split: if_splits)
  have "tracks cfg scope (Ask scope now # h) ?v" using True tr c by (auto simp: tracks_def)
  then have t: "tracks cfg scope (Ask scope now # h) s'"
    using tracks_same [OF save_same [OF sv]] by blast
  have "(case cb_opened_at s of None \<Rightarrow> False | Some t \<Rightarrow> t + cc_reset_after cfg \<le> now)"
    using True tr by (auto simp: tracks_def window_over_def)
  with True sv have "decide save cfg scope now s db = Inr (\<lparr>cd_allowed = True, cd_status = HALF_OPEN,
                 cd_reason_code = ''PROVIDER_CIRCUIT_HALF_OPEN_PROBE''\<rparr>, db')"
    by (simp add: decide_def)
  then show ?thesis using t load_saved [OF sv] load_other [OF sv] np True
    by (auto simp: admits_def)
next
  case False
  have t: "tracks cfg scope (Ask scope now # h) s"
    using False tr by (auto simp: tracks_def split: if_splits)
  have "\<exists>d. decide save cfg scope now s db = Inr (d, db) \<and> cd_allowed d = admits cfg scope h now"
    using False tr by (auto simp: decide_def tracks_def admits_def window_over_def split: if_splits)
  then show ?thesis using t ld by blast
qed

lemma before_call_tracks:
  assumes pos: "0 < cc_failure_threshold cfg" and tr: "tracks_opt cfg scope h (load db scope)"
    and run: "before_call load save cfg scope now db = Inr (d, db')"
  shows "cd_allowed d = admits cfg scope h now \<and>
    tracks_opt cfg scope (Ask scope now # h) (load db' scope)"
proof (cases "load db scope")
  case None
  with run obtain s db1 where sv: "save db scope (closed_snapshot now) = Inr (s, db1)"
    and dec: "decide save cfg scope now s db1 = Inr (d, db')"
    by (auto simp: before_call_def)
  have "tracks cfg scope h (closed_snapshot now)"
    using None tr pos by (simp add: tracks_opt_def tracks_closed_snapshot)
  then have t: "tracks cfg scope h s" using tracks_same [OF save_same [OF sv]] by blast
  from decide_tracks [OF pos load_saved [OF sv] t, of now] dec load_other [OF sv]
  show ?thesis by (auto simp: tracks_opt_def)
next
  case (Some s)
  then have dec: "decide save cfg scope now s db = Inr (d, db')" and t: "tracks cfg scope h s"
    using run tr by (simp_all add: before_call_def tracks_opt_def)
  from decide_tracks [OF pos Some t, of now] dec show ?thesis by (auto simp: tracks_opt_def)
qed

lemma record_outcome_tracks:
  assumes pos: "0 < cc_failure_threshold cfg" and tr: "tracks_opt cfg scope h (load db scope)"
    and run: "record_outcome load save cfg scope outcome now db = Inr (s, db')"
  shows "tracks_opt cfg scope (Report scope outcome now # h) (load db' scope)"
proof -
  define current where "current = (case load db scope of None \<Rightarrow> closed_snapshot now | Some s \<Rightarrow> s)"
  have "tracks cfg scope h current"
    using tr pos by (auto simp: tracks_opt_def current_def tracks_closed_snapshot split: option.splits)
  then have t: "tracks cfg scope (Report scope outcome now # h) (outcome_target cfg outcome now current)"
    by (rule outcome_target_tracks [OF pos])
  have sv: "save db scope (outcome_target cfg outcome now current) = Inr (s, db')"
    using run by (simp add: record_outcome_def current_def)
  show ?thesis
    using tracks_same [OF save_same [OF sv]] t load_saved [OF sv] load_other [OF sv]
    by (auto simp: tracks_opt_def)
qed

lemma step_tracks:
  assumes "0 < cc_failure_threshold cfg" and tr: "tracks_opt cfg scope h (load db scope)"
    and run: "circuit_step load save cfg ev db = Inr (d, db')"
  shows "tracks_opt cfg scope (ev # h) (load db' scope)"
proof (cases ev)
  case (Ask sc now)
  with run obtain d' where b: "before_call load save cfg sc now db = Inr (d', db')"
    by (auto simp: circuit_step_def)
  show ?thesis
  proof (cases "sc = scope")
    case True
    then show ?thesis using before_call_tracks [OF assms(1) tr] b Ask by simp
  next
    case False
    have "load db' scope = load db scope"
      using before_call_other [OF b] False by simp
    then show ?thesis using tr Ask False by (simp add: tracks_opt_def tracks_other split: option.splits)
  qed
next
  case (Report sc outcome now)
  with run obtain s where b: "record_outcome load save cfg sc outcome now db = Inr (s, db')"
    by (auto simp: circuit_step_def)
  show ?thesis
  proof (cases "sc = scope")
    case True
    then show ?thesis using record_outcome_tracks [OF assms(1) tr] b Report by simp
  next
    case False
    have "load db' scope = load db scope"
      using record_outcome_other [OF b] False by simp
    then show ?thesis using tr Report False by (simp add: tracks_opt_def tracks_other split: option.splits)
  qed
qed

lemma run_tracks:
  assumes "0 < cc_failure_threshold cfg" and "tracks_opt cfg scope h (load db scope)"
    and "circuit_run load save cfg evs db = Inr (ds, db')"
  shows "tracks_opt cfg scope (rev evs @ h) (load db' scope)"
  using assms(2,3)
proof (induction evs arbitrary: h db ds)
  case Nil
  then show ?case by simp
next
  case (Cons ev evs)
  from Cons.prems(2) obtain d db1 ds' where st: "circuit_step load save cfg ev db = Inr (d, db1)"
    and rn: "circuit_run load save cfg evs db1 = Inr (ds', db')"
    by auto
  from Cons.IH [OF step_tracks [OF assms(1) Cons.prems(1) st] rn] show ?case by simp
qed

text \<open>
  The decision after any history of a scope that had no row: it is the one the history prescribes.
\<close>

lemma admission_by_history:
  assumes "0 < cc_failure_threshold cfg" and "load db scope = None"
    and "circuit_run load save cfg evs db = Inr (ds, db')"
    and "before_call load save cfg scope now db' = Inr (d, db'')"
  shows "cd_allowed d = admits cfg scope (rev evs) now"
  using before_call_tracks [OF assms(1) _ assms(4), of "rev evs"]
    run_tracks [OF assms(1) _ assms(3), of scope "[]"] assms(2)
  by (simp add: tracks_opt_def)

end

section \<open>The store of the database keeps the contract\<close>

lemma find_update_first_same:
  "List.find (\<lambda>r. key r = k) xs \<noteq> None \<Longrightarrow> (\<And>x. key (f x) = key x) \<Longrightarrow>
   \<exists>x. List.find (\<lambda>r. key r = k) xs = Some x \<and>
     List.find (\<lambda>r. key r = k) (update_first (\<lambda>r. key r = k) f xs) = Some (f x)"
  by (induction xs) auto

lemma find_update_first_other:
  "k' \<noteq> k \<Longrightarrow> (\<And>x. key (f x) = key x) \<Longrightarrow>
   List.find (\<lambda>r. key r = k') (update_first (\<lambda>r. key r = k) f xs) = List.find (\<lambda>r. key r = k') xs"
  by (induction xs) auto

lemma pg_save_cases:
  assumes "pg_save db scope v = Inr (s, db')"
  shows "(List.find (\<lambda>r. cr_scope r = scope) (cdb_rows db) = None \<and> s = v \<and>
      db' = db\<lparr>cdb_rows := cdb_rows db @ [\<lparr>cr_scope = scope, cr_snapshot = v\<rparr>]\<rparr>) \<or>
    (\<exists>row t. List.find (\<lambda>r. cr_scope r = scope) (cdb_rows db) = Some row \<and>
      s = assign_columns t (cr_snapshot row) v \<and>
      db' = db\<lparr>cdb_reads := Suc (cdb_reads db), cdb_rows := update_first (\<lambda>r. cr_scope r = scope)
              (\<lambda>r. r\<lparr>cr_snapshot := s\<rparr>) (cdb_rows db)\<rparr>)"
  using assms by (auto simp: pg_save_def Let_def split: option.splits if_splits)

lemma assign_columns_same: "same_state (assign_columns t old v) v"
  by (simp add: assign_columns_def same_state_def)

interpretation pg: circuit_store pg_load pg_save
proof unfold_locales
  fix db db' scope v s
  assume sv: "pg_save db scope v = Inr (s, db')"
  show "same_state s v"
    using pg_save_cases [OF sv] assign_columns_same by auto
  show "pg_load db' scope = Some s"
    using pg_save_cases [OF sv]
      find_update_first_same [where key = cr_scope and k = scope and xs = "cdb_rows db"
        and f = "\<lambda>r. r\<lparr>cr_snapshot := s\<rparr>"]
    by (auto simp: pg_load_def find_append)
next
  fix db db' scope scope' v s
  assume sv: "pg_save db scope v = Inr (s, db')" and ne: "scope' \<noteq> scope"
  then show "pg_load db' scope' = pg_load db scope'"
    using pg_save_cases [OF sv]
      find_update_first_other [OF ne, where key = cr_scope and xs = "cdb_rows db"
        and f = "\<lambda>r. r\<lparr>cr_snapshot := s\<rparr>"]
    by (auto simp: pg_load_def find_append split: option.splits)
next
  fix db :: circuit_db and scope v
  assume "pg_load db scope \<noteq> None"
  then show "\<exists>s db'. pg_save db scope v = Inr (s, db')"
    by (auto simp: pg_load_def pg_save_def Let_def split: option.splits)
qed

text \<open>With the keys of the scope present no operation on it raises.\<close>

definition scope_known :: "circuit_scope \<Rightarrow> circuit_db \<Rightarrow> bool" where
  "scope_known scope db \<longleftrightarrow> cs_provider_definition_id scope \<in> set (cdb_definition_ids db) \<and>
     cs_provider_capability_id scope \<in> set (cdb_capability_ids db)"

lemma pg_save_known:
  "scope_known scope db \<Longrightarrow>
   \<exists>s db'. pg_save db scope v = Inr (s, db') \<and> scope_known sc db' = scope_known sc db"
  by (auto simp: pg_save_def scope_known_def Let_def split: option.splits)

lemma pg_save_keeps: "pg_save db scope v = Inr (s, db') \<Longrightarrow> scope_known sc db' = scope_known sc db"
  using pg_save_cases [of db scope v s db'] by (auto simp: scope_known_def)

lemma pg_decide_known:
  assumes "scope_known scope db"
  shows "\<exists>d db'. decide pg_save cfg scope now s db = Inr (d, db') \<and>
    (\<forall>sc. scope_known sc db' = scope_known sc db)"
proof -
  obtain t db1 where sv: "pg_save db scope (s\<lparr>cb_status := HALF_OPEN, cb_half_open_probe_at := Some now,
      cb_updated_at := now\<rparr>) = Inr (t, db1)"
    using pg_save_known [OF assms] by blast
  then show ?thesis using pg_save_keeps [OF sv] by (simp add: decide_def)
qed

lemma pg_before_call_known:
  assumes k: "scope_known scope db"
  shows "\<exists>d db'. before_call pg_load pg_save cfg scope now db = Inr (d, db') \<and>
    (\<forall>sc. scope_known sc db' = scope_known sc db)"
proof (cases "pg_load db scope")
  case None
  obtain t db1 where sv: "pg_save db scope (closed_snapshot now) = Inr (t, db1)"
    using pg_save_known [OF k] by blast
  have "scope_known scope db1" using k pg_save_keeps [OF sv] by simp
  from pg_decide_known [OF this, of cfg now t] show ?thesis
    using None sv pg_save_keeps [OF sv] by (auto simp: before_call_def)
next
  case (Some s)
  with pg_decide_known [OF k, of cfg now s] show ?thesis by (simp add: before_call_def)
qed

lemma pg_record_outcome_known:
  assumes k: "scope_known scope db"
  shows "\<exists>s db'. record_outcome pg_load pg_save cfg scope outcome now db = Inr (s, db') \<and>
    (\<forall>sc. scope_known sc db' = scope_known sc db)"
  unfolding record_outcome_def Let_def using pg_save_known [OF k] pg_save_keeps by blast

lemma pg_step_known:
  assumes "scope_known (event_scope ev) db"
  shows "\<exists>d db'. circuit_step pg_load pg_save cfg ev db = Inr (d, db') \<and>
    (\<forall>sc. scope_known sc db' = scope_known sc db)"
proof (cases ev)
  case (Ask scope now)
  then show ?thesis
    using assms pg_before_call_known [of scope db cfg now] by (auto simp: circuit_step_def)
next
  case (Report scope outcome now)
  then show ?thesis
    using assms pg_record_outcome_known [of scope db cfg outcome now] by (auto simp: circuit_step_def)
qed

lemma pg_run_known:
  assumes "\<forall>ev\<in>set evs. scope_known (event_scope ev) db"
  shows "\<exists>ds db'. circuit_run pg_load pg_save cfg evs db = Inr (ds, db') \<and>
    (\<forall>sc. scope_known sc db' = scope_known sc db)"
  using assms
proof (induction evs arbitrary: db)
  case Nil
  then show ?case by simp
next
  case (Cons ev evs)
  from pg_step_known [of ev db cfg] Cons.prems obtain d db1
    where st: "circuit_step pg_load pg_save cfg ev db = Inr (d, db1)"
      and keep: "\<forall>sc. scope_known sc db1 = scope_known sc db" by auto
  from Cons.IH [of db1] Cons.prems keep show ?case using st by auto
qed

lemma pg_admission:
  assumes "0 < cc_failure_threshold cfg" and "pg_load db scope = None"
    and "\<forall>ev\<in>set evs. scope_known (event_scope ev) db" and "scope_known scope db"
  shows "\<exists>ds db' d db''. circuit_run pg_load pg_save cfg evs db = Inr (ds, db') \<and>
    before_call pg_load pg_save cfg scope now db' = Inr (d, db'') \<and>
    cd_allowed d = admits cfg scope (rev evs) now"
proof -
  obtain ds db' where rn: "circuit_run pg_load pg_save cfg evs db = Inr (ds, db')"
    and k: "scope_known scope db'"
    using pg_run_known [OF assms(3)] assms(4) by blast
  obtain d db'' where b: "before_call pg_load pg_save cfg scope now db' = Inr (d, db'')"
    using pg_before_call_known [OF k] by blast
  from pg.admission_by_history [OF assms(1,2) rn b] rn b show ?thesis by blast
qed

section \<open>Properties\<close>

text \<open>
  C26. A breaker admits a call exactly when the history of its scope says so. Whatever calls and
  outcomes of any scopes came before, none of them raises on known keys, and the next call is let
  through if and only if fewer than \<open>failure_threshold\<close> transient failures were recorded since
  the last success, or the reset window since the last one is over and no probe was let through
  after it.
\<close>

theorem circuit_admission_exact:
  assumes "make_service failure_threshold reset_after_seconds = Inr cfg"
    and "pg_load db scope = None" and "scope_known scope db"
    and "\<forall>ev\<in>set evs. scope_known (event_scope ev) db"
  shows "\<exists>ds db' d db''. circuit_run pg_load pg_save cfg evs db = Inr (ds, db') \<and>
    before_call pg_load pg_save cfg scope now db' = Inr (d, db'') \<and>
    (cd_allowed d \<longleftrightarrow>
       int (failures_since_success scope (rev evs)) < cc_failure_threshold cfg \<or>
       \<not> probed cfg scope (rev evs) \<and> window_over cfg scope (rev evs) now)"
  using pg_admission [of cfg db scope evs now] make_service_ok [OF assms(1)] assms
  unfolding admits_def by auto

definition witness_scope :: circuit_scope where
  "witness_scope = \<lparr>cs_provider_definition_id = ''d'', cs_provider_capability_id = ''c''\<rparr>"

definition witness_circuit_db :: circuit_db where
  "witness_circuit_db = \<lparr>cdb_definition_ids = [''d''], cdb_capability_ids = [''c''],
     cdb_clock = int, cdb_reads = 0, cdb_rows = []\<rparr>"

definition witness_config :: circuit_config where
  "witness_config = \<lparr>cc_failure_threshold = 2, cc_reset_after = 1000000\<rparr>"

lemma witness_setup:
  "make_service 2 1 = Inr witness_config" "pg_load witness_circuit_db witness_scope = None"
  "scope_known witness_scope witness_circuit_db"
  by (simp_all add: make_service_def witness_config_def pg_load_def witness_circuit_db_def
      scope_known_def witness_scope_def)

theorem circuit_admission_exact_witness:
  "\<exists>ds db' d db''. circuit_run pg_load pg_save witness_config
      [Report witness_scope TRANSIENT_FAILURE 5, Report witness_scope TRANSIENT_FAILURE 9]
      witness_circuit_db = Inr (ds, db') \<and>
    before_call pg_load pg_save witness_config witness_scope 1000009 db' = Inr (d, db'') \<and> cd_allowed d"
  using circuit_admission_exact [OF witness_setup, of
      "[Report witness_scope TRANSIENT_FAILURE 5, Report witness_scope TRANSIENT_FAILURE 9]" 1000009]
    witness_setup(3)
  by (simp add: window_over_def witness_config_def)

text \<open>
  C27. At most one probe is out, and only a success or a transient failure ends it. Once a call is
  let through after the window, every later call of the scope is refused at every time, whatever
  the other events, until one of these two outcomes is recorded. A permanent failure of the probe
  does not end it: nothing else in the source does either, so the circuit then stays half-open.
\<close>

theorem probe_exclusive:
  assumes "make_service failure_threshold reset_after_seconds = Inr cfg"
    and "pg_load db scope = None" and "scope_known scope db"
    and "\<forall>ev\<in>set (evs @ Ask scope t # later). scope_known (event_scope ev) db"
    and "window_over cfg scope (rev evs) t"
    and "\<forall>u. Report scope SUCCESS u \<notin> set later \<and> Report scope TRANSIENT_FAILURE u \<notin> set later"
  shows "\<exists>ds db' d db''. circuit_run pg_load pg_save cfg (evs @ Ask scope t # later) db = Inr (ds, db') \<and>
    before_call pg_load pg_save cfg scope now db' = Inr (d, db'') \<and> \<not> cd_allowed d"
proof -
  have pos: "0 < cc_failure_threshold cfg" using make_service_ok [OF assms(1)] by simp
  have "probed cfg scope (Ask scope t # rev evs)" using assms(5) by simp
  then have "probed cfg scope (rev later @ Ask scope t # rev evs)"
    using probed_extends [of cfg scope _ "rev later"] assms(6) by simp
  then have "\<not> admits cfg scope (rev (evs @ Ask scope t # later)) now"
    using probed_denies [OF pos] by simp
  with pg_admission [OF pos assms(2,4,3), of now] show ?thesis by auto
qed

theorem probe_exclusive_witness:
  "\<exists>ds db' d db''. circuit_run pg_load pg_save witness_config
      ([Report witness_scope TRANSIENT_FAILURE 5, Report witness_scope TRANSIENT_FAILURE 9] @
       Ask witness_scope 1000009 # [Report witness_scope PERMANENT_FAILURE 1000010])
      witness_circuit_db = Inr (ds, db') \<and>
    before_call pg_load pg_save witness_config witness_scope 99000000 db' = Inr (d, db'') \<and> \<not> cd_allowed d"
  by (rule probe_exclusive [OF witness_setup])
    (simp_all add: witness_setup(3) window_over_def, simp add: witness_config_def)

end
