(* ===== verification/Decimal_Arith.thy ===== *)
theory Decimal_Arith
  imports Py_Values
begin

text \<open>
  The arithmetic of Python's \<open>decimal\<close> module on finite numbers under the default context,
  which the source never changes: precision 28, rounding half to even. A number is an integer
  coefficient and an exponent of ten. The operations follow the reference implementation of the
  library step by step, so the exponent of a result is the one the library gives. Signed zeros and
  the exponent limits of the context (\<open>Emax\<close> is 999999) are not modelled.
\<close>

section \<open>Numbers\<close>

datatype dec = Dec (coef: int) (dexp: int)

definition dec_val :: "dec \<Rightarrow> rat" where
  "dec_val d = of_int (coef d) * 10 powi dexp d"

definition dec_int :: "int \<Rightarrow> dec" where
  "dec_int i = Dec i 0"

text \<open>A finite value of a payload is a number; the others are not.\<close>

fun dec_of_decimal :: "decimal \<Rightarrow> dec option" where
  "dec_of_decimal (DFinite s c e) = Some (Dec (if s then - int c else int c) e)"
| "dec_of_decimal _ = None"

text \<open>Comparisons are exact: both coefficients are brought to the smaller exponent.\<close>

definition scaled :: "dec \<Rightarrow> int \<Rightarrow> int" where
  "scaled d m = coef d * 10 ^ nat (dexp d - m)"

definition dec_less :: "dec \<Rightarrow> dec \<Rightarrow> bool" where
  "dec_less a b \<longleftrightarrow> (let m = min (dexp a) (dexp b) in scaled a m < scaled b m)"

definition dec_same :: "dec \<Rightarrow> dec \<Rightarrow> bool" where
  "dec_same a b \<longleftrightarrow> (let m = min (dexp a) (dexp b) in scaled a m = scaled b m)"

definition dec_nonpos :: "dec \<Rightarrow> bool" where
  "dec_nonpos d \<longleftrightarrow> coef d \<le> 0"

definition dec_neg :: "dec \<Rightarrow> bool" where
  "dec_neg d \<longleftrightarrow> coef d < 0"

definition dec_zero :: "dec \<Rightarrow> bool" where
  "dec_zero d \<longleftrightarrow> coef d = 0"

section \<open>Rounding\<close>

fun ndigits :: "nat \<Rightarrow> nat" where
  "ndigits n = (if n < 10 then 1 else Suc (ndigits (n div 10)))"

declare ndigits.simps [simp del]

definition round_half_even :: "int \<Rightarrow> int \<Rightarrow> int" where
  "round_half_even n p =
     (let q = n div p; r = n mod p
      in if 2 * r < p then q else if p < 2 * r then q + 1 else if even q then q else q + 1)"

definition prec :: nat where "prec = 28"

text \<open>\<open>_fix\<close>: a coefficient of more than 28 digits is rounded, and once more when the carry
  made it 29 digits long.\<close>

definition ctx_fix :: "dec \<Rightarrow> dec" where
  "ctx_fix d =
     (let k = ndigits (nat \<bar>coef d\<bar>) - prec
      in if k = 0 then d
         else let c = round_half_even (coef d) (10 ^ k)
              in if ndigits (nat \<bar>c\<bar>) > prec then Dec (c div 10) (dexp d + int k + 1)
                 else Dec c (dexp d + int k))"

section \<open>Operations\<close>

definition dec_add :: "dec \<Rightarrow> dec \<Rightarrow> dec" where
  "dec_add a b = (let m = min (dexp a) (dexp b) in ctx_fix (Dec (scaled a m + scaled b m) m))"

definition dec_uminus :: "dec \<Rightarrow> dec" where
  "dec_uminus d = Dec (- coef d) (dexp d)"

definition dec_sub :: "dec \<Rightarrow> dec \<Rightarrow> dec" where
  "dec_sub a b = dec_add a (dec_uminus b)"

definition dec_mul :: "dec \<Rightarrow> dec \<Rightarrow> dec" where
  "dec_mul a b = ctx_fix (Dec (coef a * coef b) (dexp a + dexp b))"

text \<open>The trailing zeros of an exact quotient go until the ideal exponent is reached.\<close>

fun strip_zeros :: "nat \<Rightarrow> nat \<Rightarrow> int \<Rightarrow> nat \<times> int" where
  "strip_zeros 0 c e = (c, e)"
| "strip_zeros (Suc k) c e = (if c mod 10 = 0 then strip_zeros k (c div 10) (e + 1) else (c, e))"

lemma strip_zeros_numeral [simp]:
  "strip_zeros (numeral k) c e =
     (if c mod 10 = 0 then strip_zeros (pred_numeral k) (c div 10) (e + 1) else (c, e))"
  using strip_zeros.simps(2) [of "pred_numeral k" c e]
  by (simp only: numeral_eq_Suc [of k, symmetric])

text \<open>Division by a number that is not zero, on the absolute values; the sign is put back.\<close>

definition div_mag :: "nat \<Rightarrow> nat \<Rightarrow> int \<Rightarrow> nat \<times> int" where
  "div_mag x y ideal =
     (let shift = int (ndigits y) - int (ndigits x) + int prec + 1;
          e = ideal - shift;
          num = (if 0 \<le> shift then x * 10 ^ nat shift else x);
          den = (if 0 \<le> shift then y else y * 10 ^ nat (- shift));
          c = num div den
      in if num mod den \<noteq> 0 then (if c mod 5 = 0 then c + 1 else c, e)
         else strip_zeros (nat (ideal - e)) c e)"

definition dec_div :: "dec \<Rightarrow> dec \<Rightarrow> dec" where
  "dec_div a b =
     (if coef a = 0 then Dec 0 (dexp a - dexp b)
      else case div_mag (nat \<bar>coef a\<bar>) (nat \<bar>coef b\<bar>) (dexp a - dexp b) of
        (c, e) \<Rightarrow> ctx_fix (Dec (sgn (coef a) * sgn (coef b) * int c) e))"

definition dec_sum :: "dec list \<Rightarrow> dec" where
  "dec_sum ds = fold (\<lambda>d acc. dec_add acc d) ds (dec_int 0)"

section \<open>Texts and columns\<close>

text \<open>\<open>format(value, "f")\<close>, and \<open>isoformat\<close> of an aware time in UTC.\<close>

definition dec_format_f :: "dec \<Rightarrow> string" where
  "dec_format_f d =
     (let digits = nat_str (nat \<bar>coef d\<bar>); sign = (if coef d < 0 then ''-'' else []) in
      if 0 \<le> dexp d then sign @ digits @ (if coef d = 0 then [] else replicate (nat (dexp d)) (CHR ''0''))
      else let places = nat (- dexp d);
               padded = replicate (Suc places - length digits) (CHR ''0'') @ digits;
               whole = length padded - places
           in sign @ take whole padded @ ''.'' @ drop whole padded)"

definition utc_isoformat :: "datetime \<Rightarrow> string" where
  "utc_isoformat t = butlast (utc_isoformat_z t) @ ''+00:00''"

text \<open>A column \<open>NUMERIC(38, 18)\<close>: rounded to 18 places, half away from zero; \<open>None\<close> when
  more than 20 digits are left of the point.\<close>

definition round_half_away :: "int \<Rightarrow> int \<Rightarrow> int" where
  "round_half_away n p = sgn n * ((2 * \<bar>n\<bar> + p) div (2 * p))"

definition numeric_38_18 :: "dec \<Rightarrow> dec option" where
  "numeric_38_18 d =
     (let c = (if -18 \<le> dexp d then coef d * 10 ^ nat (dexp d + 18)
               else round_half_away (coef d) (10 ^ nat (- 18 - dexp d)))
      in if \<bar>c\<bar> < 10 ^ 38 then Some (Dec c (-18)) else None)"

section \<open>Values\<close>

lemma dec_val_Dec [simp]: "dec_val (Dec c e) = of_int c * 10 powi e"
  by (simp add: dec_val_def)

lemma dec_val_dec_int [simp]: "dec_val (dec_int i) = of_int i"
  by (simp add: dec_int_def)

lemma pow10_pos [simp]: "(0::rat) < 10 powi e"
  by (simp add: zero_less_power_int)

lemma abs_pow10: "\<bar>10 powi e :: rat\<bar> = 10 powi e"
  by (simp add: less_imp_le)

lemma dec_val_scaled: "m \<le> dexp d \<Longrightarrow> of_int (scaled d m) * 10 powi m = dec_val d"
proof -
  assume "m \<le> dexp d"
  then have "(10::rat) powi dexp d = 10 ^ nat (dexp d - m) * 10 powi m"
    by (metis (no_types, lifting) add.commute diff_add_cancel diff_ge_0_iff_ge int_nat_eq nat_0_le
        power_int_add power_int_of_nat zero_neq_numeral)
  then show ?thesis by (simp add: scaled_def dec_val_def)
qed

lemma dec_less_iff: "dec_less a b \<longleftrightarrow> dec_val a < dec_val b"
proof -
  let ?m = "min (dexp a) (dexp b)"
  have "dec_val a < dec_val b \<longleftrightarrow>
      of_int (scaled a ?m) * (10::rat) powi ?m < of_int (scaled b ?m) * 10 powi ?m"
    by (simp add: dec_val_scaled)
  also have "\<dots> \<longleftrightarrow> scaled a ?m < scaled b ?m"
    by (metis mult_less_cancel_right_pos of_int_less_iff pow10_pos)
  finally show ?thesis by (simp add: dec_less_def Let_def)
qed

lemma dec_same_iff: "dec_same a b \<longleftrightarrow> dec_val a = dec_val b"
proof -
  let ?m = "min (dexp a) (dexp b)"
  have "dec_val a = dec_val b \<longleftrightarrow>
      of_int (scaled a ?m) * (10::rat) powi ?m = of_int (scaled b ?m) * 10 powi ?m"
    by (simp add: dec_val_scaled)
  also have "\<dots> \<longleftrightarrow> scaled a ?m = scaled b ?m"
    using pow10_pos [of ?m] by (auto simp del: pow10_pos)
  finally show ?thesis by (simp add: dec_same_def Let_def)
qed

lemma dec_sign_iff:
  "dec_nonpos d \<longleftrightarrow> dec_val d \<le> 0" "dec_neg d \<longleftrightarrow> dec_val d < 0" "dec_zero d \<longleftrightarrow> dec_val d = 0"
  unfolding dec_nonpos_def dec_neg_def dec_zero_def dec_val_def
  using pow10_pos [of "dexp d"]
    mult_less_cancel_right_pos [of "10 powi dexp d :: rat" "of_int (coef d)" 0]
    mult_le_cancel_right_pos [of "10 powi dexp d :: rat" "of_int (coef d)" 0]
  by simp_all

section \<open>The number of digits\<close>

lemma ndigits_bounds: "n < 10 ^ ndigits n \<and> (0 < n \<longrightarrow> 10 ^ (ndigits n - 1) \<le> n)"
proof (induction n rule: ndigits.induct)
  case (1 n)
  show ?case
  proof (cases "n < 10")
    case True
    then show ?thesis by (simp add: ndigits.simps [of n])
  next
    case False
    define k where "k = ndigits (n div 10)"
    have k: "ndigits n = Suc k" "0 < k"
      using False by (simp_all add: ndigits.simps [of n] k_def) (simp add: ndigits.simps [of "n div 10"])
    from 1 [OF False] have "n div 10 < 10 ^ k" and lo: "10 ^ (k - 1) \<le> n div 10"
      using False by (auto simp: k_def)
    then have hi: "n < 10 * 10 ^ k" by linarith
    have "10 * 10 ^ (k - 1) \<le> n" using lo by linarith
    with k hi show ?thesis by (cases k) simp_all
  qed
qed

lemma ndigits_pos [simp]: "0 < ndigits n"
  by (simp add: ndigits.simps [of n])

lemma ndigits_le_iff: "0 < k \<Longrightarrow> ndigits n \<le> k \<longleftrightarrow> n < 10 ^ k"
proof
  assume "ndigits n \<le> k"
  then have "(10::nat) ^ ndigits n \<le> 10 ^ k" by (simp add: power_increasing)
  then show "n < 10 ^ k" using ndigits_bounds [of n] by linarith
next
  assume "0 < k" "n < 10 ^ k"
  show "ndigits n \<le> k"
  proof (rule ccontr)
    assume "\<not> ndigits n \<le> k"
    then have "k \<le> ndigits n - 1" by simp
    then have "(10::nat) ^ k \<le> 10 ^ (ndigits n - 1)" by (simp add: power_increasing)
    moreover have "n \<noteq> 0"
      using \<open>\<not> ndigits n \<le> k\<close> \<open>0 < k\<close> ndigits.simps [of 0] by (cases "n = 0") simp_all
    ultimately show False using ndigits_bounds [of n] \<open>n < 10 ^ k\<close> by linarith
  qed
qed

section \<open>What rounding does to a value\<close>

lemma round_half_even_error:
  "0 < p \<Longrightarrow> 2 * \<bar>round_half_even n p * p - n\<bar> \<le> p"
proof -
  assume p: "0 < p"
  have n: "n = n div p * p + n mod p" and r: "0 \<le> n mod p" "n mod p < p"
    using p by simp_all
  have "round_half_even n p * p - n = (round_half_even n p - n div p) * p - n mod p"
    using n by (simp add: algebra_simps)
  then show ?thesis using p r by (auto simp: round_half_even_def Let_def)
qed

definition rel_close :: "rat \<Rightarrow> rat \<Rightarrow> rat \<Rightarrow> bool" where
  "rel_close eps y x \<longleftrightarrow> \<bar>y - x\<bar> \<le> \<bar>x\<bar> * eps"

text \<open>Half a unit in the last of 28 digits, relative to the value.\<close>

definition half_ulp :: rat where "half_ulp = 5 / 10 ^ 28"

lemma half_ulp_nonneg: "0 \<le> half_ulp"
  by (simp add: half_ulp_def)

lemma rel_close_refl [simp]: "0 \<le> eps \<Longrightarrow> rel_close eps x x"
  by (simp add: rel_close_def)

lemma rel_close_mono: "rel_close e y x \<Longrightarrow> e \<le> e' \<Longrightarrow> rel_close e' y x"
  unfolding rel_close_def by (meson abs_ge_zero mult_left_mono order_trans)

lemma rel_close_sgn:
  assumes "rel_close eps y x" and "eps < 1"
  shows "y < 0 \<longleftrightarrow> x < 0" "y = 0 \<longleftrightarrow> x = 0" "y \<le> 0 \<longleftrightarrow> x \<le> 0"
proof -
  have bound: "\<bar>y - x\<bar> < \<bar>x\<bar>" if "x \<noteq> 0"
  proof -
    have "\<bar>x\<bar> * eps < \<bar>x\<bar> * 1" using that assms(2) by (intro mult_strict_left_mono) auto
    then show ?thesis using assms(1) by (simp add: rel_close_def)
  qed
  have zero: "y = 0" if "x = 0" using assms(1) that by (simp add: rel_close_def)
  show "y < 0 \<longleftrightarrow> x < 0" "y = 0 \<longleftrightarrow> x = 0" "y \<le> 0 \<longleftrightarrow> x \<le> 0"
    using bound zero by (cases "x = 0"; linarith)+
qed

lemma rel_close_sign: "\<bar>s\<bar> = 1 \<Longrightarrow> rel_close eps (s * y) (s * x) \<longleftrightarrow> rel_close eps y x"
  by (simp add: rel_close_def right_diff_distrib [symmetric] abs_mult)

lemma rel_close_div_num: "rel_close eps a b \<Longrightarrow> rel_close eps (a / c) (b / c)"
  by (cases "c = 0") (simp_all add: rel_close_def diff_divide_distrib [symmetric] abs_divide
      divide_right_mono mult.commute)

lemma rel_close_div_den:
  assumes "rel_close eps b c" and "0 \<le> eps" and "eps \<le> 1 / 2" and "c \<noteq> 0"
  shows "rel_close (2 * eps) (n / b) (n / c)"
proof -
  have eps: "\<bar>b - c\<bar> \<le> \<bar>c\<bar> * eps" using assms(1) by (simp add: rel_close_def)
  have half: "\<bar>c\<bar> \<le> 2 * \<bar>b\<bar>"
  proof -
    have "\<bar>c\<bar> * eps \<le> \<bar>c\<bar> * (1 / 2)" using assms(3) by (rule mult_left_mono) simp
    then show ?thesis using eps by linarith
  qed
  then have b: "b \<noteq> 0" using assms(4) by auto
  have "\<bar>n / b - n / c\<bar> = \<bar>n\<bar> * \<bar>b - c\<bar> / (\<bar>b\<bar> * \<bar>c\<bar>)"
  proof -
    have "n / b - n / c = n * (c - b) / (b * c)" using b assms(4) by (simp add: diff_frac_eq algebra_simps)
    then show ?thesis by (simp add: abs_mult abs_minus_commute abs_divide)
  qed
  also have "\<dots> \<le> \<bar>n\<bar> * (\<bar>c\<bar> * eps) / (\<bar>b\<bar> * \<bar>c\<bar>)"
    using eps by (intro divide_right_mono mult_left_mono) auto
  also have "\<dots> = \<bar>n\<bar> * eps / \<bar>b\<bar>" using assms(4) by simp
  also have "\<dots> \<le> \<bar>n\<bar> * eps * 2 / \<bar>c\<bar>"
  proof -
    have "\<bar>n\<bar> * eps * \<bar>c\<bar> \<le> \<bar>n\<bar> * eps * (2 * \<bar>b\<bar>)" using half assms(2) by (intro mult_left_mono) auto
    then show ?thesis using b assms(4) by (simp add: field_simps)
  qed
  finally show ?thesis by (simp add: rel_close_def abs_divide field_simps)
qed

lemma rel_close_trans:
  assumes "rel_close a z y" and "rel_close b y x" and "0 \<le> a"
  shows "rel_close (a + b + a * b) z x"
proof -
  have "\<bar>y\<bar> \<le> \<bar>x\<bar> + \<bar>x\<bar> * b" using assms(2) by (simp add: rel_close_def)
  then have "\<bar>y\<bar> * a \<le> (\<bar>x\<bar> + \<bar>x\<bar> * b) * a" using assms(3) by (rule mult_right_mono)
  moreover have "\<bar>z - x\<bar> \<le> \<bar>z - y\<bar> + \<bar>y - x\<bar>" by simp
  ultimately show ?thesis using assms(1,2) by (simp add: rel_close_def algebra_simps)
qed

lemma ctx_fix_exact: "\<bar>coef d\<bar> < 10 ^ 28 \<Longrightarrow> ctx_fix d = d"
proof -
  assume "\<bar>coef d\<bar> < 10 ^ 28"
  then have "nat \<bar>coef d\<bar> < 10 ^ 28" by (simp add: nat_less_iff)
  then have "ndigits (nat \<bar>coef d\<bar>) \<le> prec" by (subst ndigits_le_iff) (simp_all add: prec_def)
  then show ?thesis by (simp add: ctx_fix_def)
qed

lemma near_bound: "2 * \<bar>a - c\<bar> \<le> p \<Longrightarrow> 0 < p \<Longrightarrow> \<bar>c\<bar> < m \<Longrightarrow> \<bar>a\<bar> < m + (p :: int)"
  by (cases "0 \<le> a"; cases "0 \<le> c"; cases "a \<le> c") simp_all

text \<open>A coefficient that is too long: what rounding it to a multiple of the excess power gives.\<close>

lemma round_half_even_small:
  assumes "\<bar>c\<bar> < 10 ^ 28 * 10 ^ k"
  shows "\<bar>round_half_even c (10 ^ k)\<bar> \<le> 10 ^ 28"
proof -
  have "2 * \<bar>round_half_even c (10 ^ k) * 10 ^ k - c\<bar> \<le> 10 ^ k"
    by (rule round_half_even_error) simp
  moreover have "(0::int) < 10 ^ k" by simp
  ultimately have "\<bar>round_half_even c (10 ^ k) * 10 ^ k\<bar> < 10 ^ 28 * 10 ^ k + (10 ^ k :: int)"
    using assms by (rule near_bound)
  then have "\<bar>round_half_even c (10 ^ k) * 10 ^ k\<bar> < (10 ^ 28 + 1) * (10 ^ k :: int)"
    by (simp only: distrib_right mult_1)
  then have "\<bar>round_half_even c (10 ^ k)\<bar> * 10 ^ k < (10 ^ 28 + 1) * (10 ^ k :: int)"
    by (simp add: abs_mult)
  then have "\<bar>round_half_even c (10 ^ k)\<bar> < 10 ^ 28 + 1"
    by (rule mult_right_less_imp_less) simp
  then show ?thesis by simp
qed

lemma ctx_fix_value:
  assumes "ndigits (nat \<bar>coef d\<bar>) = prec + k"
  shows "dec_val (ctx_fix d) = of_int (round_half_even (coef d) (10 ^ k)) * 10 powi (dexp d + int k)"
proof (cases "k = 0")
  case True
  then show ?thesis using assms by (simp add: ctx_fix_def round_half_even_def dec_val_def)
next
  case False
  define c where "c = round_half_even (coef d) (10 ^ k)"
  have e: "ctx_fix d = (if ndigits (nat \<bar>c\<bar>) > prec then Dec (c div 10) (dexp d + int k + 1)
             else Dec c (dexp d + int k))"
    using assms False by (simp add: ctx_fix_def Let_def c_def)
  show ?thesis
  proof (cases "ndigits (nat \<bar>c\<bar>) > prec")
    case True
    have "nat \<bar>coef d\<bar> < 10 ^ (28 + k)"
      using ndigits_bounds [of "nat \<bar>coef d\<bar>"] assms by (simp add: prec_def)
    then have "\<bar>coef d\<bar> < 10 ^ 28 * 10 ^ k" by (simp add: nat_less_iff power_add)
    then have "\<bar>c\<bar> \<le> 10 ^ 28" unfolding c_def by (rule round_half_even_small)
    moreover have "\<not> nat \<bar>c\<bar> < 10 ^ 28"
      using True ndigits_le_iff [of prec "nat \<bar>c\<bar>"] by (simp add: prec_def)
    then have "10 ^ 28 \<le> \<bar>c\<bar>" by (simp add: nat_less_iff not_less)
    ultimately have "\<bar>c\<bar> = 10 ^ 28" by simp
    then have "10 dvd c" by (metis dvd_abs_iff dvd_power zero_less_numeral)
    then have "c = 10 * (c div 10)" by simp
    then have "(of_int c :: rat) = 10 * of_int (c div 10)"
      by (metis of_int_mult of_int_numeral)
    then show ?thesis using True e by (simp add: c_def [symmetric] power_int_add)
  next
    case False
    then show ?thesis using e by (simp add: c_def)
  qed
qed

lemma ctx_fix_close: "rel_close half_ulp (dec_val (ctx_fix d)) (dec_val d)"
proof (cases "ndigits (nat \<bar>coef d\<bar>) \<le> prec")
  case True
  then show ?thesis by (simp add: ctx_fix_def half_ulp_def)
next
  case False
  then obtain k where k: "ndigits (nat \<bar>coef d\<bar>) = prec + k" "0 < k"
    by (metis less_imp_add_positive not_le)
  define c where "c = round_half_even (coef d) (10 ^ k)"
  have "nat \<bar>coef d\<bar> \<noteq> 0" using False ndigits.simps [of 0] by (auto simp: prec_def)
  then have "10 ^ (prec + k - 1) \<le> nat \<bar>coef d\<bar>"
    using ndigits_bounds [of "nat \<bar>coef d\<bar>"] k by simp
  moreover have "prec + k - 1 = 27 + k" by (simp add: prec_def)
  ultimately have "10 ^ 27 * 10 ^ k \<le> \<bar>coef d\<bar>" by (simp add: power_add le_nat_iff)
  moreover have "2 * \<bar>c * 10 ^ k - coef d\<bar> \<le> 10 ^ k"
    unfolding c_def by (rule round_half_even_error) simp
  then have "10 ^ 27 * (2 * \<bar>c * 10 ^ k - coef d\<bar>) \<le> 10 ^ 27 * 10 ^ k"
    by (rule mult_left_mono) simp
  ultimately have "10 ^ 27 * (2 * \<bar>c * 10 ^ k - coef d\<bar>) \<le> \<bar>coef d\<bar>" by (rule order_trans [rotated])
  then have "(of_int (10 ^ 27 * (2 * \<bar>c * 10 ^ k - coef d\<bar>)) :: rat) \<le> of_int \<bar>coef d\<bar>"
    by (simp only: of_int_le_iff)
  then have close: "\<bar>of_int c * 10 ^ k - of_int (coef d)\<bar> \<le> \<bar>of_int (coef d) :: rat\<bar> * half_ulp"
    by (simp add: half_ulp_def)
  have "dec_val (ctx_fix d) - dec_val d =
      (of_int c * 10 ^ k - of_int (coef d)) * 10 powi dexp d"
    unfolding ctx_fix_value [OF k(1)] c_def [symmetric] dec_val_def [of d]
    by (simp add: power_int_add algebra_simps)
  then have "\<bar>dec_val (ctx_fix d) - dec_val d\<bar> =
      \<bar>of_int c * 10 ^ k - of_int (coef d)\<bar> * 10 powi dexp d"
    by (simp add: abs_mult less_imp_le)
  also have "\<dots> \<le> \<bar>of_int (coef d)\<bar> * half_ulp * 10 powi dexp d"
    by (rule mult_right_mono [OF close]) (simp add: less_imp_le)
  finally show ?thesis by (simp add: rel_close_def dec_val_def abs_mult less_imp_le mult_ac)
qed

section \<open>What the operations compute\<close>

lemma dec_val_sum_scaled:
  "m \<le> dexp a \<Longrightarrow> m \<le> dexp b \<Longrightarrow>
   dec_val (Dec (scaled a m + scaled b m) m) = dec_val a + dec_val b"
  by (simp add: distrib_right dec_val_scaled)

lemma dec_val_uminus [simp]: "dec_val (dec_uminus d) = - dec_val d"
  by (simp add: dec_uminus_def dec_val_def)

lemma dec_add_close: "rel_close half_ulp (dec_val (dec_add a b)) (dec_val a + dec_val b)"
  using ctx_fix_close [of "Dec (scaled a (min (dexp a) (dexp b)) + scaled b (min (dexp a) (dexp b)))
      (min (dexp a) (dexp b))"]
  by (simp only: dec_add_def Let_def dec_val_sum_scaled min.cobounded1 min.cobounded2)

lemma dec_sub_close: "rel_close half_ulp (dec_val (dec_sub a b)) (dec_val a - dec_val b)"
  using dec_add_close [of a "dec_uminus b"] by (simp add: dec_sub_def)

lemma dec_mul_close: "rel_close half_ulp (dec_val (dec_mul a b)) (dec_val a * dec_val b)"
proof -
  have "dec_val (Dec (coef a * coef b) (dexp a + dexp b)) = dec_val a * dec_val b"
    by (simp add: dec_val_def power_int_add)
  then show ?thesis using ctx_fix_close by (metis dec_mul_def)
qed

text \<open>Numbers of the same scale whose coefficients stay short are added and scaled exactly.\<close>

lemma dec_add_exact:
  assumes "\<bar>scaled a (min (dexp a) (dexp b)) + scaled b (min (dexp a) (dexp b))\<bar> < 10 ^ 28"
  shows "dec_val (dec_add a b) = dec_val a + dec_val b" "dexp (dec_add a b) = min (dexp a) (dexp b)"
  using assms ctx_fix_exact [of "Dec (scaled a (min (dexp a) (dexp b)) +
      scaled b (min (dexp a) (dexp b))) (min (dexp a) (dexp b))"]
    dec_val_sum_scaled [of "min (dexp a) (dexp b)" a b]
  by (simp_all add: dec_add_def Let_def)

lemma dec_mul_exact: "\<bar>coef a * coef b\<bar> < 10 ^ 28 \<Longrightarrow> dec_val (dec_mul a b) = dec_val a * dec_val b"
  using ctx_fix_exact [of "Dec (coef a * coef b) (dexp a + dexp b)"]
  by (simp add: dec_mul_def dec_val_def power_int_add)

lemma strip_zeros_value:
  "strip_zeros k c e = (c', e') \<Longrightarrow> (of_nat c' :: rat) * 10 powi e' = of_nat c * 10 powi e"
proof (induction k c e rule: strip_zeros.induct)
  case (1 c e)
  then show ?case by simp
next
  case (2 k c e)
  show ?case
  proof (cases "c mod 10 = 0")
    case True
    then have "c = 10 * (c div 10)" by (metis add.right_neutral mult_div_mod_eq)
    then have "(of_nat c :: rat) = 10 * of_nat (c div 10)" by (metis of_nat_mult of_nat_numeral)
    then show ?thesis using 2 True by (simp add: power_int_add)
  next
    case False
    then show ?thesis using 2 by simp
  qed
qed

text \<open>The scaled quotient has at least 29 digits, so what is cut off is small against it.\<close>

lemma div_mag_long:
  assumes "0 < x" and "0 < y"
    and "shift = int (ndigits y) - int (ndigits x) + int prec + 1"
    and "num = (if 0 \<le> shift then x * 10 ^ nat shift else x)"
    and "den = (if 0 \<le> shift then y else y * 10 ^ nat (- shift))"
  shows "10 ^ 28 \<le> num div den" and "0 < den"
    and "(of_nat num :: rat) / of_nat den = of_nat x / of_nat y * 10 powi shift"
proof -
  have x: "10 ^ (ndigits x - 1) \<le> x" and y: "y < 10 ^ ndigits y"
    using ndigits_bounds assms(1) by auto
  show den: "0 < den" using assms by simp
  have "10 ^ 28 * den \<le> num"
  proof (cases "0 \<le> shift")
    case True
    then have "ndigits y + 28 = ndigits x - 1 + nat shift"
      using assms(3) ndigits_pos [of x] unfolding prec_def by arith
    then have "10 ^ 28 * 10 ^ ndigits y = 10 ^ (ndigits x - 1) * (10::nat) ^ nat shift"
      by (metis add.commute power_add)
    moreover have "10 ^ (ndigits x - 1) * 10 ^ nat shift \<le> x * 10 ^ nat shift"
      using x by (rule mult_right_mono) simp
    moreover have "10 ^ 28 * y \<le> 10 ^ 28 * 10 ^ ndigits y" using y by simp
    ultimately have "10 ^ 28 * y \<le> x * 10 ^ nat shift" by linarith
    then show ?thesis using True assms(4,5) by simp
  next
    case False
    then have "28 + (ndigits y + nat (- shift)) = ndigits x - 1"
      using assms(3) ndigits_pos [of x] unfolding prec_def by arith
    then have "10 ^ 28 * (10 ^ ndigits y * 10 ^ nat (- shift)) = (10::nat) ^ (ndigits x - 1)"
      by (metis power_add)
    moreover have "10 ^ 28 * (y * 10 ^ nat (- shift)) \<le> 10 ^ 28 * (10 ^ ndigits y * 10 ^ nat (- shift))"
      using y by (intro mult_le_mono) auto
    ultimately show ?thesis using False assms(4,5) x by simp
  qed
  then show "10 ^ 28 \<le> num div den"
    using den by (metis less_eq_div_iff_mult_less_eq)
  show "(of_nat num :: rat) / of_nat den = of_nat x / of_nat y * 10 powi shift"
    using assms(4,5) by (auto simp: power_int_def field_simps)
qed

lemma div_mag_close:
  assumes "0 < x" and "0 < y" and "div_mag x y ideal = (c, e)"
  shows "rel_close (1 / 10 ^ 28) (of_nat c * 10 powi e) (of_nat x / of_nat y * 10 powi ideal)"
proof -
  define shift where "shift = int (ndigits y) - int (ndigits x) + int prec + 1"
  define num where "num = (if 0 \<le> shift then x * 10 ^ nat shift else x)"
  define den where "den = (if 0 \<le> shift then y else y * 10 ^ nat (- shift))"
  note long = div_mag_long [OF assms(1,2) shift_def num_def den_def]
  define c0 where "c0 = num div den"
  have split: "div_mag x y ideal = (if num mod den \<noteq> 0
      then (if c0 mod 5 = 0 then c0 + 1 else c0, ideal - shift)
      else strip_zeros (nat (ideal - (ideal - shift))) c0 (ideal - shift))"
    by (simp only: div_mag_def Let_def c0_def num_def den_def shift_def)
  have quot: "(of_nat num :: rat) = of_nat c0 * of_nat den + of_nat (num mod den)"
    by (metis c0_def div_mult_mod_eq of_nat_add of_nat_mult)
  have exact: "of_nat x / of_nat y * (10::rat) powi ideal = of_nat num / of_nat den * 10 powi (ideal - shift)"
    unfolding long(3) by (simp add: power_int_diff field_simps)
  have big: "(10::rat) ^ 28 \<le> of_nat num / of_nat den"
  proof -
    have "(of_nat (10 ^ 28) :: rat) \<le> of_nat c0" using long(1) by (simp only: c0_def of_nat_le_iff)
    moreover have "(of_nat c0 :: rat) \<le> of_nat num / of_nat den"
      using quot long(2) by (simp add: field_simps)
    ultimately show ?thesis by simp
  qed
  have "\<bar>of_nat c * 10 powi e - of_nat num / of_nat den * (10::rat) powi (ideal - shift)\<bar>
      \<le> 10 powi (ideal - shift)"
  proof (cases "num mod den = 0")
    case True
    then have "(of_nat c :: rat) * 10 powi e = of_nat c0 * 10 powi (ideal - shift)"
      using assms(3) split strip_zeros_value by simp
    moreover have "(of_nat num :: rat) / of_nat den = of_nat c0" using quot True long(2) by simp
    ultimately show ?thesis by (simp add: less_imp_le)
  next
    case False
    then have e: "e = ideal - shift" and c: "c = c0 \<or> c = c0 + 1"
      using assms(3) split by (auto split: if_splits)
    have "(of_nat (num mod den) :: rat) \<le> of_nat den"
      using long(2) by (simp add: less_imp_le)
    then have "\<bar>of_nat c - of_nat num / of_nat den\<bar> \<le> (1::rat)"
      using c quot long(2) by (auto simp: field_simps)
    then have "\<bar>of_nat c - of_nat num / of_nat den\<bar> * 10 powi (ideal - shift) \<le> 1 * (10::rat) powi (ideal - shift)"
      by (rule mult_right_mono) (simp add: less_imp_le)
    moreover have "of_nat c * 10 powi e - of_nat num / of_nat den * (10::rat) powi (ideal - shift) =
        (of_nat c - of_nat num / of_nat den) * 10 powi (ideal - shift)"
      by (simp only: e left_diff_distrib)
    ultimately show ?thesis by (simp only: abs_mult abs_pow10 mult_1)
  qed
  also have "\<dots> \<le> of_nat num / of_nat den * 10 powi (ideal - shift) * (1 / 10 ^ 28)"
    using mult_right_mono [OF big, of "10 powi (ideal - shift) / 10 ^ 28"]
    by (simp add: less_imp_le)
  finally show ?thesis unfolding rel_close_def exact by (simp add: abs_mult less_imp_le)
qed

lemma dec_div_close:
  assumes "dec_val b \<noteq> 0"
  shows "rel_close (1 / 10 ^ 27) (dec_val (dec_div a b)) (dec_val a / dec_val b)"
proof (cases "coef a = 0")
  case True
  then show ?thesis by (simp add: dec_div_def dec_val_def)
next
  case False
  have b: "coef b \<noteq> 0" using assms by (auto simp: dec_val_def)
  obtain c e where ce: "div_mag (nat \<bar>coef a\<bar>) (nat \<bar>coef b\<bar>) (dexp a - dexp b) = (c, e)"
    by (cases "div_mag (nat \<bar>coef a\<bar>) (nat \<bar>coef b\<bar>) (dexp a - dexp b)")
  let ?s = "sgn (coef a) * sgn (coef b)"
  let ?q = "of_nat (nat \<bar>coef a\<bar>) / of_nat (nat \<bar>coef b\<bar>) * (10::rat) powi (dexp a - dexp b)"
  have close: "rel_close (1 / 10 ^ 28) (of_nat c * 10 powi e) ?q"
    using div_mag_close [OF _ _ ce] False b by simp
  have "dec_val a / dec_val b = of_int ?s * ?q"
    using False b by (simp add: dec_val_def power_int_diff sgn_if abs_if field_simps)
  moreover have "\<bar>of_int ?s :: rat\<bar> = 1" using False b by (simp add: sgn_if)
  ultimately have "rel_close (1 / 10 ^ 28) (of_int ?s * (of_nat c * 10 powi e)) (dec_val a / dec_val b)"
    using close rel_close_sign by metis
  moreover have "dec_val (Dec (?s * int c) e) = of_int ?s * (of_nat c * 10 powi e)" by simp
  ultimately have "rel_close (1 / 10 ^ 28) (dec_val (Dec (?s * int c) e)) (dec_val a / dec_val b)"
    by (simp only:)
  then have "rel_close (half_ulp + 1 / 10 ^ 28 + half_ulp * (1 / 10 ^ 28))
      (dec_val (ctx_fix (Dec (?s * int c) e))) (dec_val a / dec_val b)"
    by (rule rel_close_trans [OF ctx_fix_close _ half_ulp_nonneg])
  moreover have "half_ulp + 1 / 10 ^ 28 + half_ulp * (1 / 10 ^ 28) \<le> 1 / 10 ^ 27"
    by (simp add: half_ulp_def)
  ultimately have "rel_close (1 / 10 ^ 27) (dec_val (ctx_fix (Dec (?s * int c) e))) (dec_val a / dec_val b)"
    by (rule rel_close_mono)
  then show ?thesis using False ce by (simp add: dec_div_def)
qed

text \<open>The facts with which a concrete computation is evaluated.\<close>

lemma ndigits_small: "ndigits 0 = 1" "ndigits (Suc 0) = 1"
  by (simp_all add: ndigits.simps)

lemmas ndigits_eval = ndigits_small ndigits.simps [of "numeral k" for k]

lemmas dec_eval = dec_add_def dec_sub_def dec_mul_def dec_div_def dec_uminus_def dec_int_def
  scaled_def div_mag_def Let_def prec_def ndigits_eval ctx_fix_def round_half_even_def

end
