(* ===== verification/Rate_Limit.thy ===== *)
theory Rate_Limit
  imports Decimal_Arith
begin

text \<open>
  Provider rate limiting: \<open>ProviderRateLimitScope\<close>, \<open>ProviderRateLimiter\<close> and its store
  in the audit table (\<open>providers/rate_limit.py\<close>), and the canonical checksum of
  \<open>domain/providers/canonical.py\<close>, which has the text of
  \<open>domain/research_agent/canonical.py\<close> and so the model of it. The advisory lock serializes
  the reservations of a scope: the model runs them one after the other.

  \<open>Decimal(str(delta.total_seconds()))\<close> is the number of microseconds with exponent -6: the
  shortest text of the double nearest to a whole number of microseconds reads back as that number
  while it is below \<open>2 ^ 33\<close> seconds (272 years). \<open>MonotonicRateLimiter\<close> works with binary
  floats and a sleeping callback and is not modelled.
\<close>

section \<open>Scopes\<close>

record rate_scope =
  rs_provider_definition_id :: uuid
  rs_provider_capability_id :: uuid
  rs_credential_reference_id :: "uuid option"
  rs_project_rate_per_second :: decimal
  rs_official_max_rate_per_second :: decimal

definition positive_finite :: "decimal \<Rightarrow> bool" where
  "positive_finite d = (case dec_of_decimal d of None \<Rightarrow> False | Some v \<Rightarrow> \<not> dec_nonpos v)"

definition rate_value :: "decimal \<Rightarrow> dec" where
  "rate_value d = (case dec_of_decimal d of None \<Rightarrow> dec_int 0 | Some v \<Rightarrow> v)"

definition validate_rates :: "rate_scope \<Rightarrow> rate_scope res" where
  "validate_rates s =
     (if \<not> positive_finite (rs_project_rate_per_second s) \<or>
         \<not> positive_finite (rs_official_max_rate_per_second s)
      then Inl (ValueError ''PROVIDER_RATES_NOT_POSITIVE'')
      else if \<not> dec_less (rate_value (rs_project_rate_per_second s))
                 (rate_value (rs_official_max_rate_per_second s))
      then Inl (ValueError ''PROJECT_RATE_NOT_BELOW_MAXIMUM'')
      else Inr s)"

text \<open>\<open>model_dump(mode="json")\<close>: identifiers and decimals as text.\<close>

fun decimal_text :: "decimal \<Rightarrow> string" where
  "decimal_text (DFinite s c e) = dec_str s c e"
| "decimal_text (DInf s) = (if s then ''-Infinity'' else ''Infinity'')"
| "decimal_text DNaN = ''NaN''"
| "decimal_text DSNaN = ''sNaN''"

definition scope_dump :: "rate_scope \<Rightarrow> pyval" where
  "scope_dump s = PDict
     [(''provider_definition_id'', PStr (rs_provider_definition_id s)),
      (''provider_capability_id'', PStr (rs_provider_capability_id s)),
      (''credential_reference_id'',
         case rs_credential_reference_id s of None \<Rightarrow> PNone | Some i \<Rightarrow> PStr i),
      (''project_rate_per_second'', PStr (decimal_text (rs_project_rate_per_second s))),
      (''official_max_rate_per_second'', PStr (decimal_text (rs_official_max_rate_per_second s)))]"

definition provider_checksum :: "pylib \<Rightarrow> pyval \<Rightarrow> checksum res" where
  "provider_checksum L v = stable_checksum L v"

definition scope_checksum :: "pylib \<Rightarrow> rate_scope \<Rightarrow> checksum res" where
  "scope_checksum L s = provider_checksum L (scope_dump s)"

section \<open>The store\<close>

record audit_event =
  ae_provider_definition_id :: uuid
  ae_sync_run_id :: "uuid option"
  ae_actor_type :: string
  ae_action_code :: string
  ae_decision_code :: string
  ae_safe_summary :: string
  ae_event_checksum :: checksum
  ae_created_at :: datetime

record rate_db =
  rdb_definition_ids :: "uuid list"
  rdb_events :: "audit_event list"

text \<open>\<open>ORDER BY created_at DESC LIMIT 1\<close>: the latest time.\<close>

definition latest :: "datetime list \<Rightarrow> datetime option" where
  "latest ts = (case ts of [] \<Rightarrow> None | t # us \<Rightarrow> Some (fold max us t))"

definition reservation_times :: "rate_db \<Rightarrow> uuid \<Rightarrow> string \<Rightarrow> datetime list" where
  "reservation_times db pid decision_code =
     map ae_created_at (filter (\<lambda>e. ae_provider_definition_id e = pid \<and>
       ae_action_code e = ''RATE_LIMIT_RESERVATION'' \<and> ae_decision_code e = decision_code) (rdb_events db))"

definition elapsed_seconds :: "datetime \<Rightarrow> datetime \<Rightarrow> dec" where
  "elapsed_seconds previous now = Dec (now - previous) (-6)"

definition reserve_slot ::
  "pylib \<Rightarrow> checksum \<Rightarrow> uuid \<Rightarrow> datetime \<Rightarrow> dec \<Rightarrow> rate_db \<Rightarrow> (bool \<times> rate_db) res" where
  "reserve_slot L checksum pid now interval db =
     (let decision_code = ''RATE_'' @ checksum in
      if (case latest (reservation_times db pid decision_code) of None \<Rightarrow> False
          | Some previous \<Rightarrow> dec_less (elapsed_seconds previous now) interval)
      then Inr (False, db)
      else bind_res (provider_checksum L (PDict
             [(''provider_definition_id'', PStr pid), (''scope_checksum'', PStr checksum),
              (''reserved_at'', PStr (utc_isoformat now))])) (\<lambda>event_checksum.
        if pid \<notin> set (rdb_definition_ids db)
        then Inl (IntegrityError ''fk_provider_audit_events_definition'')
        else Inr (True, db\<lparr>rdb_events := rdb_events db @
               [\<lparr>ae_provider_definition_id = pid, ae_sync_run_id = None, ae_actor_type = ''SYSTEM'',
                 ae_action_code = ''RATE_LIMIT_RESERVATION'', ae_decision_code = decision_code,
                 ae_safe_summary = ''Rate limit reservation'', ae_event_checksum = event_checksum,
                 ae_created_at = now\<rparr>]\<rparr>)))"

section \<open>The limiter\<close>

record rate_decision =
  rd_allowed :: bool
  rd_reason_code :: code
  rd_retry_after_seconds :: dec
  rd_scope_checksum :: checksum

definition slot_interval :: "rate_scope \<Rightarrow> int \<Rightarrow> dec" where
  "slot_interval scope units = dec_div (dec_int units) (rate_value (rs_project_rate_per_second scope))"

definition reserve ::
  "pylib \<Rightarrow> rate_scope \<Rightarrow> datetime \<Rightarrow> int \<Rightarrow> rate_db \<Rightarrow> (rate_decision \<times> rate_db) res" where
  "reserve L scope now units db =
     (if \<not> (1 \<le> units \<and> units \<le> 100) then Inl (ValueError ''PROVIDER_RATE_LIMIT_UNITS_INVALID'')
      else bind_res (scope_checksum L scope) (\<lambda>checksum.
        bind_res (reserve_slot L checksum (rs_provider_definition_id scope) now
                    (slot_interval scope units) db) (\<lambda>(allowed, db').
          Inr (\<lparr>rd_allowed = allowed,
                 rd_reason_code = (if allowed then ''PROVIDER_RATE_RESERVED'' else ''PROVIDER_RATE_LIMITED''),
                 rd_retry_after_seconds = (if allowed then dec_int 0 else slot_interval scope units),
                 rd_scope_checksum = checksum\<rparr>, db'))))"

text \<open>A sequence of reservations: each request is a scope, its time and its units.\<close>

type_synonym rate_request = "rate_scope \<times> datetime \<times> int"

fun rate_run ::
  "pylib \<Rightarrow> rate_request list \<Rightarrow> rate_db \<Rightarrow> (rate_decision list \<times> rate_db) res" where
  "rate_run L [] db = Inr ([], db)"
| "rate_run L ((scope, now, units) # rs) db =
     bind_res (reserve L scope now units db) (\<lambda>(d, db').
       bind_res (rate_run L rs db') (\<lambda>(ds, db''). Inr (d # ds, db'')))"

section \<open>Checksums\<close>

definition checksum_of :: "pylib \<Rightarrow> rate_scope \<Rightarrow> checksum" where
  "checksum_of L scope = (case scope_checksum L scope of Inl _ \<Rightarrow> [] | Inr c \<Rightarrow> c)"

lemma provider_checksum_total: "normalize v = Inr j \<Longrightarrow> \<exists>c. provider_checksum L v = Inr c"
  by (simp add: provider_checksum_def stable_checksum_def canonical_json_def)

lemma scope_dump_normal: "\<exists>j. normalize (scope_dump s) = Inr j"
  by (cases "rs_credential_reference_id s") (simp_all add: scope_dump_def)

lemma scope_checksum_total: "scope_checksum L scope = Inr (checksum_of L scope)"
proof -
  obtain j where "normalize (scope_dump scope) = Inr j" using scope_dump_normal by blast
  from provider_checksum_total [OF this, of L] obtain c where "scope_checksum L scope = Inr c"
    unfolding scope_checksum_def by blast
  then show ?thesis unfolding checksum_of_def by simp
qed

lemma text_checksum_total: "\<exists>c. provider_checksum L (PDict [(a, PStr s), (b, PStr t), (d, PStr u)]) = Inr c"
proof -
  have "normalize (PDict [(a, PStr s), (b, PStr t), (d, PStr u)]) =
      Inr (JDict [(a, JStr s), (b, JStr t), (d, JStr u)])" by simp
  then show ?thesis by (rule provider_checksum_total)
qed

section \<open>Reservations\<close>

lemma fold_max_ge: "t \<le> fold max us (t::'a::linorder) \<and> (\<forall>u\<in>set us. u \<le> fold max us t)"
proof (induction us arbitrary: t)
  case (Cons u us)
  from Cons.IH [of "max u t"] show ?case by auto
qed simp

lemma fold_max_in: "fold max us (t::'a::linorder) \<in> insert t (set us)"
  by (induction us arbitrary: t) (auto simp: max_def)

lemma elapsed_less:
  "dec_less (elapsed_seconds p now) v \<longleftrightarrow> of_int (now - p) / 10 ^ 6 < dec_val v"
proof -
  have "dec_val (elapsed_seconds p now) = of_int (now - p) / 10 ^ 6"
    unfolding elapsed_seconds_def dec_val_Dec by (simp add: power_int_def power_divide)
  then show ?thesis by (simp only: dec_less_iff)
qed

text \<open>The latest reservation is recent exactly when some reservation is.\<close>

lemma latest_recent:
  "(case latest ts of None \<Rightarrow> False | Some p \<Rightarrow> dec_less (elapsed_seconds p now) v) \<longleftrightarrow>
   (\<exists>t\<in>set ts. of_int (now - t) / 10 ^ 6 < dec_val v)"
proof (cases ts)
  case Nil
  then show ?thesis by (simp add: latest_def)
next
  case (Cons t us)
  define p where "p = fold max us t"
  have le: "\<forall>u\<in>set ts. u \<le> p" and mem: "p \<in> set ts"
    using fold_max_ge [of t us] fold_max_in [of us t] Cons by (auto simp: p_def)
  have mono: "of_int (now - p) / 10 ^ 6 < dec_val v"
    if "u \<in> set ts" "of_int (now - u) / 10 ^ 6 < dec_val v" for u
  proof -
    have "(of_int (now - p) :: rat) \<le> of_int (now - u)" using le that(1) by simp
    then have "(of_int (now - p) :: rat) / 10 ^ 6 \<le> of_int (now - u) / 10 ^ 6"
      by (simp add: divide_right_mono)
    with that(2) show ?thesis by simp
  qed
  have "latest ts = Some p" using Cons by (simp add: latest_def p_def)
  then show ?thesis using mem mono by (auto simp: elapsed_less simp del: of_int_diff)
qed

definition slot_event :: "pylib \<Rightarrow> rate_scope \<Rightarrow> datetime \<Rightarrow> audit_event \<Rightarrow> bool" where
  "slot_event L scope t e \<longleftrightarrow> ae_provider_definition_id e = rs_provider_definition_id scope \<and>
     ae_action_code e = ''RATE_LIMIT_RESERVATION'' \<and>
     ae_decision_code e = ''RATE_'' @ checksum_of L scope \<and> ae_created_at e = t"

lemma reservation_times_iff:
  "t \<in> set (reservation_times db (rs_provider_definition_id scope) (''RATE_'' @ checksum_of L scope)) \<longleftrightarrow>
   (\<exists>e\<in>set (rdb_events db). slot_event L scope t e)"
  by (auto simp: reservation_times_def slot_event_def)

lemma reserve_known:
  assumes "1 \<le> units" "units \<le> 100" "rs_provider_definition_id scope \<in> set (rdb_definition_ids db)"
  shows "\<exists>d db'. reserve L scope now units db = Inr (d, db') \<and>
    rdb_definition_ids db' = rdb_definition_ids db \<and>
    (rd_allowed d \<longleftrightarrow> (\<forall>t. (\<exists>e\<in>set (rdb_events db). slot_event L scope t e) \<longrightarrow>
       dec_val (slot_interval scope units) \<le> of_int (now - t) / 10 ^ 6)) \<and>
    (\<exists>e. rdb_events db' = rdb_events db @ (if rd_allowed d then [e] else []) \<and> slot_event L scope now e)"
proof -
  let ?ts = "reservation_times db (rs_provider_definition_id scope) (''RATE_'' @ checksum_of L scope)"
  let ?recent = "\<exists>t\<in>set ?ts. of_int (now - t) / 10 ^ 6 < dec_val (slot_interval scope units)"
  obtain ck where ck: "provider_checksum L (PDict
       [(''provider_definition_id'', PStr (rs_provider_definition_id scope)),
        (''scope_checksum'', PStr (checksum_of L scope)), (''reserved_at'', PStr (utc_isoformat now))]) = Inr ck"
    using text_checksum_total by blast
  have allowed: "\<not> ?recent \<longleftrightarrow> (\<forall>t. (\<exists>e\<in>set (rdb_events db). slot_event L scope t e) \<longrightarrow>
       dec_val (slot_interval scope units) \<le> of_int (now - t) / 10 ^ 6)"
    by (auto simp: reservation_times_iff [symmetric] not_less simp del: of_int_diff)
  show ?thesis
  proof (cases ?recent)
    case True
    obtain e where "slot_event L scope now e" by (auto simp: slot_event_def intro: that
        [of "\<lparr>ae_provider_definition_id = rs_provider_definition_id scope, ae_sync_run_id = None,
              ae_actor_type = [], ae_action_code = ''RATE_LIMIT_RESERVATION'',
              ae_decision_code = ''RATE_'' @ checksum_of L scope, ae_safe_summary = [],
              ae_event_checksum = [], ae_created_at = now\<rparr>"])
    then show ?thesis using True allowed assms(1,2)
      by (auto simp: reserve_def scope_checksum_total reserve_slot_def Let_def latest_recent
          simp del: of_int_diff)
  next
    case False
    then show ?thesis using allowed assms ck
      by (simp add: reserve_def scope_checksum_total reserve_slot_def Let_def latest_recent
          slot_event_def del: of_int_diff)
  qed
qed

text \<open>Two requests compete for a slot when provider and scope checksum agree.\<close>

definition same_slot :: "pylib \<Rightarrow> rate_scope \<Rightarrow> rate_scope \<Rightarrow> bool" where
  "same_slot L a b \<longleftrightarrow> rs_provider_definition_id a = rs_provider_definition_id b \<and>
     checksum_of L a = checksum_of L b"

definition request_known :: "rate_db \<Rightarrow> rate_request \<Rightarrow> bool" where
  "request_known db r = (case r of (scope, now, units) \<Rightarrow>
     1 \<le> units \<and> units \<le> 100 \<and> rs_provider_definition_id scope \<in> set (rdb_definition_ids db))"

lemma slot_event_same: "slot_event L a t e \<Longrightarrow> slot_event L b t' e \<longleftrightarrow> same_slot L a b \<and> t = t'"
  by (auto simp: slot_event_def same_slot_def)

text \<open>After a sequence of requests the reservations of the table are the ones that were granted.\<close>

lemma rate_run_events:
  assumes "\<forall>r\<in>set rs. request_known db r"
  shows "\<exists>ds db'. rate_run L rs db = Inr (ds, db') \<and> length ds = length rs \<and>
    rdb_definition_ids db' = rdb_definition_ids db \<and>
    (\<forall>scope t. (\<exists>e\<in>set (rdb_events db'). slot_event L scope t e) \<longleftrightarrow>
       (\<exists>e\<in>set (rdb_events db). slot_event L scope t e) \<or>
       (\<exists>((a, u, n), d)\<in>set (zip rs ds). rd_allowed d \<and> same_slot L a scope \<and> u = t))"
  using assms
proof (induction rs arbitrary: db)
  case Nil
  then show ?case by simp
next
  case (Cons r rs)
  obtain a u n where r: "r = (a, u, n)" by (cases r)
  obtain d db1 e where d: "reserve L a u n db = Inr (d, db1)"
    and ids: "rdb_definition_ids db1 = rdb_definition_ids db"
    and ev: "rdb_events db1 = rdb_events db @ (if rd_allowed d then [e] else [])"
    and e: "slot_event L a u e"
    using reserve_known [of n a db L u] Cons.prems by (auto simp: r request_known_def)
  have "\<forall>q\<in>set rs. request_known db1 q" using Cons.prems by (auto simp: request_known_def ids)
  from Cons.IH [OF this] obtain ds db' where ds: "rate_run L rs db1 = Inr (ds, db')" "length ds = length rs"
    "rdb_definition_ids db' = rdb_definition_ids db1"
    and all: "\<And>scope t. (\<exists>e\<in>set (rdb_events db'). slot_event L scope t e) \<longleftrightarrow>
       (\<exists>e\<in>set (rdb_events db1). slot_event L scope t e) \<or>
       (\<exists>((a, u, n), d)\<in>set (zip rs ds). rd_allowed d \<and> same_slot L a scope \<and> u = t)" by blast
  have one: "(\<exists>e\<in>set (rdb_events db1). slot_event L scope t e) \<longleftrightarrow>
     (\<exists>e\<in>set (rdb_events db). slot_event L scope t e) \<or> rd_allowed d \<and> same_slot L a scope \<and> u = t" for scope t
    using slot_event_same [OF e, of scope t] by (auto simp: ev)
  have "rate_run L (r # rs) db = Inr (d # ds, db')" using d ds(1) by (simp add: r)
  moreover have "\<forall>scope t. (\<exists>e\<in>set (rdb_events db'). slot_event L scope t e) \<longleftrightarrow>
       (\<exists>e\<in>set (rdb_events db). slot_event L scope t e) \<or>
       (\<exists>((a, u, n), d)\<in>set (zip (r # rs) (d # ds)). rd_allowed d \<and> same_slot L a scope \<and> u = t)"
    by (simp only: all one r zip_Cons_Cons list.set bex_simps(5) prod.case) blast
  ultimately show ?case using ds ids by auto
qed

text \<open>The configured interval is the quotient of the units and the rate up to 27 digits.\<close>

lemma slot_interval_close:
  "validate_rates scope = Inr s \<Longrightarrow>
   rel_close (1 / 10 ^ 27) (dec_val (slot_interval scope units))
     (of_int units / dec_val (rate_value (rs_project_rate_per_second scope)))"
  using dec_div_close [of "rate_value (rs_project_rate_per_second scope)" "dec_int units"]
  by (auto simp: slot_interval_def validate_rates_def positive_finite_def rate_value_def dec_sign_iff
      split: if_splits option.splits)

section \<open>Properties\<close>

text \<open>
  C28. A reservation is granted exactly when every earlier granted reservation of the same slot is
  at least the interval of the request old. After any sequence of requests of known providers, none
  of them raises, and the next request is granted if and only if the time since each granted
  request with the same provider and scope checksum is at least \<open>units / project_rate\<close>
  seconds, as the decimal division rounds it. A clock that runs backwards is refused too.
\<close>

theorem rate_reservation_exact:
  assumes "rdb_events db = []" and "\<forall>r\<in>set rs. request_known db r"
    and "request_known db (scope, now, units)"
  shows "\<exists>ds db' d db''. rate_run L rs db = Inr (ds, db') \<and>
    reserve L scope now units db' = Inr (d, db'') \<and>
    (rd_allowed d \<longleftrightarrow>
      (\<forall>((a, t, n), g)\<in>set (zip rs ds). rd_allowed g \<and> same_slot L a scope \<longrightarrow>
         dec_val (dec_div (dec_int units) (rate_value (rs_project_rate_per_second scope)))
           \<le> of_int (now - t) / 10 ^ 6))"
proof -
  obtain ds db' where run: "rate_run L rs db = Inr (ds, db')"
    and ids: "rdb_definition_ids db' = rdb_definition_ids db"
    and all: "\<And>t. (\<exists>e\<in>set (rdb_events db'). slot_event L scope t e) \<longleftrightarrow>
       (\<exists>((a, u, n), d)\<in>set (zip rs ds). rd_allowed d \<and> same_slot L a scope \<and> u = t)"
    using rate_run_events [OF assms(2), of L] assms(1) by auto
  obtain d db'' where res: "reserve L scope now units db' = Inr (d, db'')"
    and iff: "rd_allowed d \<longleftrightarrow> (\<forall>t. (\<exists>e\<in>set (rdb_events db'). slot_event L scope t e) \<longrightarrow>
       dec_val (slot_interval scope units) \<le> of_int (now - t) / 10 ^ 6)"
    using reserve_known [of units scope db' L now] assms(3) ids by (auto simp: request_known_def)
  have "rd_allowed d \<longleftrightarrow> (\<forall>((a, t, n), g)\<in>set (zip rs ds). rd_allowed g \<and> same_slot L a scope \<longrightarrow>
         dec_val (slot_interval scope units) \<le> of_int (now - t) / 10 ^ 6)"
    unfolding iff all by fast
  with run res show ?thesis unfolding slot_interval_def by blast
qed

definition witness_rate_scope :: rate_scope where
  "witness_rate_scope = \<lparr>rs_provider_definition_id = ''d'', rs_provider_capability_id = ''c'',
     rs_credential_reference_id = None, rs_project_rate_per_second = DFinite False 2 0,
     rs_official_max_rate_per_second = DFinite False 10 0\<rparr>"

definition witness_rate_db :: rate_db where
  "witness_rate_db = \<lparr>rdb_definition_ids = [''d''], rdb_events = []\<rparr>"

definition witness_lib :: pylib where
  "witness_lib = \<lparr>lib_casefold = id, lib_sha256_hex = (\<lambda>_. replicate 64 (CHR ''0'')),
     lib_decimal = (\<lambda>_. None), lib_fromisoformat = (\<lambda>_. None)\<rparr>"

lemma witness_interval: "dec_div (Dec 1 0) (Dec 2 0) = Dec 5 (-1)"
  by (simp add: dec_eval)

theorem rate_reservation_exact_witness:
  "\<exists>ds db' d db''. rate_run witness_lib [(witness_rate_scope, 0, 1::int)] witness_rate_db = Inr (ds, db') \<and>
    reserve witness_lib witness_rate_scope 500000 1 db' = Inr (d, db'') \<and> rd_allowed d"
proof -
  have half: "dec_val (dec_div (dec_int 1) (rate_value (rs_project_rate_per_second witness_rate_scope))) = 1 / 2"
    by (simp add: dec_int_def rate_value_def witness_rate_scope_def witness_interval)
  have "rdb_events witness_rate_db = []"
    "\<forall>r\<in>set [(witness_rate_scope, 0, 1::int)]. request_known witness_rate_db r"
    "request_known witness_rate_db (witness_rate_scope, 500000, 1)"
    by (simp_all add: witness_rate_db_def request_known_def witness_rate_scope_def)
  from rate_reservation_exact [OF this, of witness_lib] obtain ds db' d db'' where
    run: "rate_run witness_lib [(witness_rate_scope, 0, 1::int)] witness_rate_db = Inr (ds, db')"
      "reserve witness_lib witness_rate_scope 500000 1 db' = Inr (d, db'')"
    and iff: "rd_allowed d \<longleftrightarrow> (\<forall>((a, t, n), g)\<in>set (zip [(witness_rate_scope, 0, 1::int)] ds).
         rd_allowed g \<and> same_slot witness_lib a witness_rate_scope \<longrightarrow>
         dec_val (dec_div (dec_int 1) (rate_value (rs_project_rate_per_second witness_rate_scope)))
           \<le> of_int (500000 - t) / 10 ^ 6)"
    by (elim exE conjE) (rule that)
  have "rd_allowed d" unfolding iff half by (cases ds) auto
  with run show ?thesis by blast
qed

end
