(* ===== verification/Provider_Retry.thy ===== *)
theory Provider_Retry
  imports Decimal_Arith
begin

text \<open>
  Retry decisions: the policy of \<open>providers/retry.py\<close> and the SEC controller of
  \<open>providers/sec_edgar/retry.py\<close>. Neither sleeps or calls out, except that the SEC controller
  asks a reservation port for a permit; the port is a parameter. \<open>2 ** (attempt - 1)\<close> is
  computed in the 28-digit context; from attempt 94 on the library rounds its power, and the model
  rounds the exact one, which the result does not depend on, since no budget allows so many attempts.
\<close>

section \<open>Outcomes and budgets\<close>

record retry_outcome =
  ro_http_status :: "int option"
  ro_error_code :: "string option"

definition valid_error_code :: "string \<Rightarrow> bool" where
  "valid_error_code s \<longleftrightarrow>
     (case s of [] \<Rightarrow> False
      | c # cs \<Rightarrow> is_upper c \<and> 2 \<le> length cs \<and> length cs \<le> 127 \<and>
          list_all (\<lambda>d. is_upper d \<or> is_digit d \<or> d = CHR ''_'') cs)"

definition make_outcome :: "int option \<Rightarrow> string option \<Rightarrow> retry_outcome res" where
  "make_outcome http_status error_code =
     (if (case http_status of None \<Rightarrow> False | Some n \<Rightarrow> \<not> (100 \<le> n \<and> n \<le> 599)) \<or>
         (case error_code of None \<Rightarrow> False | Some s \<Rightarrow> \<not> valid_error_code s)
      then Inl ValidationError
      else if http_status = None \<and> error_code = None
      then Inl (ValueError ''RETRY_OUTCOME_EMPTY'')
      else Inr \<lparr>ro_http_status = http_status, ro_error_code = error_code\<rparr>)"

record provider_retry_budget =
  rb_max_attempts :: int
  rb_remaining_requests :: int
  rb_remaining_bytes :: int
  rb_remaining_duration_seconds :: dec
  rb_base_delay_seconds :: dec
  rb_idempotent_read :: bool

definition valid_budget :: "provider_retry_budget \<Rightarrow> bool" where
  "valid_budget b \<longleftrightarrow> 1 \<le> rb_max_attempts b \<and> rb_max_attempts b \<le> 3 \<and>
     0 \<le> rb_remaining_requests b \<and> rb_remaining_requests b \<le> 10000 \<and>
     0 \<le> rb_remaining_bytes b \<and> rb_remaining_bytes b \<le> 10737418240 \<and>
     \<not> dec_neg (rb_remaining_duration_seconds b) \<and>
     \<not> dec_less (dec_int 86400) (rb_remaining_duration_seconds b) \<and>
     \<not> dec_nonpos (rb_base_delay_seconds b) \<and> \<not> dec_less (dec_int 60) (rb_base_delay_seconds b)"

record retry_decision =
  rd_retry :: bool
  rd_reason :: code
  rd_next_attempt :: "int option"
  rd_delay_seconds :: dec
  rd_resolve_credential_again :: bool

definition no_retry :: "code \<Rightarrow> retry_decision" where
  "no_retry reason = \<lparr>rd_retry = False, rd_reason = reason, rd_next_attempt = None,
     rd_delay_seconds = dec_int 0, rd_resolve_credential_again = False\<rparr>"

section \<open>The provider policy\<close>

definition transient_status :: "int list" where
  "transient_status = [408, 425, 429, 500, 502, 503, 504]"

definition transient_error :: "string list" where
  "transient_error = [''CONNECT_TIMEOUT'', ''READ_TIMEOUT'']"

definition eligible_outcome :: "int list \<Rightarrow> string list \<Rightarrow> retry_outcome \<Rightarrow> bool" where
  "eligible_outcome statuses errors outcome \<longleftrightarrow>
     (case ro_http_status outcome of None \<Rightarrow> False | Some n \<Rightarrow> n \<in> set statuses) \<or>
     (case ro_error_code outcome of None \<Rightarrow> False | Some s \<Rightarrow> s \<in> set errors)"

definition retry_delay :: "provider_retry_budget \<Rightarrow> int \<Rightarrow> dec" where
  "retry_delay budget attempt =
     dec_mul (rb_base_delay_seconds budget) (ctx_fix (dec_int (2 ^ nat (attempt - 1))))"

definition classify_retry :: "retry_outcome \<Rightarrow> int \<Rightarrow> provider_retry_budget \<Rightarrow> retry_decision res" where
  "classify_retry outcome attempt budget =
     (if attempt < 1 then Inl (ValueError ''PROVIDER_RETRY_ATTEMPT_INVALID'')
      else
        let delay = retry_delay budget attempt;
            budget_available = (rb_idempotent_read budget \<and> attempt < rb_max_attempts budget \<and>
              0 < rb_remaining_requests budget \<and> 0 < rb_remaining_bytes budget \<and>
              \<not> dec_less (rb_remaining_duration_seconds budget) delay)
        in if \<not> budget_available then Inr (no_retry ''PROVIDER_RETRY_BUDGET_EXHAUSTED'')
           else if \<not> eligible_outcome transient_status transient_error outcome
           then Inr (no_retry ''PROVIDER_RETRY_NOT_ELIGIBLE'')
           else Inr \<lparr>rd_retry = True, rd_reason = ''PROVIDER_RETRY_TRANSIENT'',
                  rd_next_attempt = Some (attempt + 1), rd_delay_seconds = delay,
                  rd_resolve_credential_again = False\<rparr>)"

section \<open>The SEC controller\<close>

datatype sec_attempt_kind = INITIAL | RETRY

record sec_reservation =
  sr_authorization_id :: uuid
  sr_plan_id :: uuid
  sr_plan_checksum :: checksum
  sr_slice_id :: string
  sr_endpoint_id :: string
  sr_attempt_number :: int
  sr_kind :: sec_attempt_kind

record sec_permit = sec_reservation +
  sp_request_attempt_id :: uuid

definition valid_reservation :: "'a sec_reservation_scheme \<Rightarrow> bool" where
  "valid_reservation r \<longleftrightarrow> valid_checksum (sr_plan_checksum r) \<and> text_within 1 64 (sr_slice_id r) \<and>
     text_within 1 128 (sr_endpoint_id r) \<and> 1 \<le> sr_attempt_number r \<and> sr_attempt_number r \<le> 4"

text \<open>The fields of the authorized execution and of the resource that the controller reads.\<close>

record gate_b_execution =
  gx_authorization_id :: uuid
  gx_plan_id :: uuid
  gx_plan_checksum :: checksum

record sec_resource =
  sx_slice_id :: string
  sx_endpoint_id :: string

type_synonym sec_reservation_port = "sec_reservation \<Rightarrow> sec_permit res"

definition sec_transient_status :: "int list" where
  "sec_transient_status = [500, 502, 503, 504]"

definition retry_request :: "gate_b_execution \<Rightarrow> sec_resource \<Rightarrow> sec_permit \<Rightarrow> sec_reservation" where
  "retry_request execution resource previous =
     \<lparr>sr_authorization_id = gx_authorization_id execution, sr_plan_id = gx_plan_id execution,
      sr_plan_checksum = gx_plan_checksum execution, sr_slice_id = sx_slice_id resource,
      sr_endpoint_id = sx_endpoint_id resource,
      sr_attempt_number = sr_attempt_number previous + 1, sr_kind = RETRY\<rparr>"

definition permit_matches :: "sec_reservation \<Rightarrow> sec_permit \<Rightarrow> bool" where
  "permit_matches request permit \<longleftrightarrow>
     sr_authorization_id permit = sr_authorization_id request \<and> sr_plan_id permit = sr_plan_id request \<and>
     sr_plan_checksum permit = sr_plan_checksum request \<and> sr_slice_id permit = sr_slice_id request \<and>
     sr_endpoint_id permit = sr_endpoint_id request \<and>
     sr_attempt_number permit = sr_attempt_number request \<and> sr_kind permit = RETRY"

text \<open>
  A terminal decision is \<open>Inl\<close>, a permit \<open>Inr\<close>. A \<open>ValueError\<close> of the port is caught;
  another exception of it passes through, and so does the validation of the request. The validation
  error of a request is a \<open>ValueError\<close> too, but it is raised outside the \<open>try\<close>.
\<close>

definition sec_classify ::
  "retry_outcome \<Rightarrow> gate_b_execution \<Rightarrow> sec_resource \<Rightarrow> sec_permit \<Rightarrow> sec_reservation_port \<Rightarrow>
   (retry_decision + sec_permit) res" where
  "sec_classify outcome execution resource previous reserve =
     (if ro_http_status outcome = Some 429 then Inr (Inl (no_retry ''SEC_HTTP_429_ABORT''))
      else if \<not> eligible_outcome sec_transient_status transient_error outcome
      then Inr (Inl (no_retry ''SEC_RETRY_NOT_ELIGIBLE''))
      else if sr_authorization_id previous \<noteq> gx_authorization_id execution \<or>
              sr_plan_id previous \<noteq> gx_plan_id execution \<or>
              sr_plan_checksum previous \<noteq> gx_plan_checksum execution \<or>
              sr_slice_id previous \<noteq> sx_slice_id resource \<or>
              sr_endpoint_id previous \<noteq> sx_endpoint_id resource \<or> 4 \<le> sr_attempt_number previous
      then Inr (Inl (no_retry ''SEC_ATTEMPT_RESERVATION_REQUIRED''))
      else
        let request = retry_request execution resource previous
        in if \<not> valid_reservation request then Inl ValidationError
           else case reserve request of
             Inl (ValueError _) \<Rightarrow> Inr (Inl (no_retry ''SEC_RETRY_BUDGET_EXHAUSTED''))
           | Inl ValidationError \<Rightarrow> Inr (Inl (no_retry ''SEC_RETRY_BUDGET_EXHAUSTED''))
           | Inl e \<Rightarrow> Inl e
           | Inr permit \<Rightarrow>
               if \<not> permit_matches request permit
               then Inr (Inl (no_retry ''SEC_ATTEMPT_RESERVATION_REQUIRED''))
               else Inr (Inr permit))"

section \<open>The provider policy decides exactly\<close>

lemma classify_iff:
  "classify_retry outcome attempt budget = Inr d \<Longrightarrow>
   rd_retry d \<longleftrightarrow> attempt < rb_max_attempts budget \<and> rb_idempotent_read budget \<and>
     0 < rb_remaining_requests budget \<and> 0 < rb_remaining_bytes budget \<and>
     dec_val (retry_delay budget attempt) \<le> dec_val (rb_remaining_duration_seconds budget) \<and>
     eligible_outcome transient_status transient_error outcome"
  by (auto simp: classify_retry_def no_retry_def Let_def dec_less_iff not_less split: if_splits)

lemma classify_total: "1 \<le> attempt \<Longrightarrow> \<exists>d. classify_retry outcome attempt budget = Inr d"
  unfolding classify_retry_def Let_def by (simp split: if_split)

lemma retry_delay_first: "attempt = 1 \<Longrightarrow> retry_delay b attempt = ctx_fix (rb_base_delay_seconds b)"
  by (cases "rb_base_delay_seconds b") (simp add: retry_delay_def dec_mul_def dec_int_def ctx_fix_exact)

lemma retry_delay_close:
  assumes "1 \<le> attempt" and "attempt \<le> 3"
  shows "rel_close half_ulp (dec_val (retry_delay b attempt))
    (dec_val (rb_base_delay_seconds b) * 2 ^ nat (attempt - 1))"
proof -
  have "attempt = 1 \<or> attempt = 2 \<or> attempt = 3" using assms by arith
  then have "ctx_fix (dec_int (2 ^ nat (attempt - 1))) = dec_int (2 ^ nat (attempt - 1))"
    by (intro ctx_fix_exact) (auto simp: dec_int_def)
  then show ?thesis
    using dec_mul_close [of "rb_base_delay_seconds b" "dec_int (2 ^ nat (attempt - 1))"]
    by (simp add: retry_delay_def)
qed

text \<open>
  A caller that follows the decisions: it starts at attempt 1 and goes on with the attempt a
  decision names, with whatever outcome and budget it has by then; the list is what each attempt
  met. The result is the number of attempts it makes.
\<close>

fun attempts_made :: "int \<Rightarrow> (retry_outcome \<times> provider_retry_budget) list \<Rightarrow> nat" where
  "attempts_made attempt [] = 0"
| "attempts_made attempt ((outcome, budget) # rest) =
     (case classify_retry outcome attempt budget of
        Inr d \<Rightarrow> (case rd_next_attempt d of
           Some n \<Rightarrow> Suc (attempts_made n rest) | None \<Rightarrow> 1)
      | Inl _ \<Rightarrow> 1)"

lemma attempts_made_bound:
  "1 \<le> attempt \<Longrightarrow> attempt \<le> 3 \<Longrightarrow> \<forall>(o1, b)\<in>set met. valid_budget b \<Longrightarrow>
   int (attempts_made attempt met) \<le> 4 - attempt"
proof (induction attempt met rule: attempts_made.induct)
  case (2 attempt outcome budget rest)
  show ?case
  proof (cases "classify_retry outcome attempt budget")
    case (Inr d)
    show ?thesis
    proof (cases "rd_next_attempt d")
      case (Some n)
      have "rd_retry d" "n = attempt + 1"
        using Inr Some by (auto simp: classify_retry_def no_retry_def Let_def split: if_splits)
      then have "attempt < rb_max_attempts budget" using classify_iff [OF Inr] by simp
      then have "attempt \<le> 2" using 2(4) by (auto simp: valid_budget_def)
      then show ?thesis using 2(1) [OF Inr Some] 2(2,4) Inr Some \<open>n = attempt + 1\<close> by simp
    qed (use Inr 2 in simp)
  qed (use 2 in simp)
qed simp

lemma sec_permit_bounded:
  assumes "sec_classify outcome execution resource previous reserve = Inr (Inr permit)"
  shows "sr_attempt_number permit = sr_attempt_number previous + 1 \<and> sr_attempt_number permit \<le> 4 \<and>
    sr_kind permit = RETRY \<and> ro_http_status outcome \<noteq> Some 429 \<and>
    sr_plan_id permit = gx_plan_id execution \<and> sr_slice_id permit = sx_slice_id resource \<and>
    reserve (retry_request execution resource previous) = Inr permit"
  using assms
  by (auto simp: sec_classify_def Let_def permit_matches_def retry_request_def valid_reservation_def
      split: if_splits sum.splits exn.splits)

section \<open>Properties\<close>


definition witness_budget :: provider_retry_budget where
  "witness_budget = \<lparr>rb_max_attempts = 3, rb_remaining_requests = 5, rb_remaining_bytes = 1000,
     rb_remaining_duration_seconds = Dec 60 0, rb_base_delay_seconds = Dec 5 (-1), rb_idempotent_read = True\<rparr>"

definition witness_outcome :: retry_outcome where
  "witness_outcome = \<lparr>ro_http_status = Some 503, ro_error_code = None\<rparr>"

lemma witness_budget_valid: "valid_budget witness_budget"
  by (simp add: valid_budget_def witness_budget_def dec_neg_def dec_nonpos_def dec_less_def scaled_def
      dec_int_def)


end
