(* ===== verification/Provider_History.thy ===== *)
theory Provider_History
  imports Prelude
begin

text \<open>
  The append-only revisions of provider records and their eligibility at a research time
  (\<open>domain/providers/temporal.py\<close>), and the gate of a live authorization
  (\<open>domain/providers/authorization.py\<close>). The validator keeps the history it was made with; a
  caller that is told to append makes the next validator with the record added.
\<close>

section \<open>Records and decisions\<close>

datatype temporal_status = ELIGIBLE | PARTIAL | BLOCKED | REUSED

record temporal_record =
  tr_provider_definition_id :: uuid
  tr_provider_capability_id :: uuid
  tr_source_identity :: string
  tr_revision :: int
  tr_source_checksum :: checksum
  tr_raw_artifact_id :: uuid
  tr_manifest_id :: uuid
  tr_source_published_at :: "datetime option"
  tr_retrieved_at :: datetime
  tr_supersedes_revision :: "int option"
  tr_is_restatement :: bool
  tr_license_policy_version :: string

definition source_key :: "temporal_record \<Rightarrow> uuid \<times> uuid \<times> string" where
  "source_key r = (tr_provider_definition_id r, tr_provider_capability_id r, tr_source_identity r)"

definition revision_key :: "temporal_record \<Rightarrow> (uuid \<times> uuid \<times> string) \<times> int" where
  "revision_key r = (source_key r, tr_revision r)"

record temporal_decision =
  td_status :: temporal_status
  td_eligible :: bool
  td_warning_codes :: "string list"
  td_record :: temporal_record
  td_append_required :: bool
  td_preserved_history :: "temporal_record list"

type_synonym 'a value_res = "string + 'a"

text \<open>The constructor sorts the history and refuses two records of one revision.\<close>

definition make_validator :: "temporal_record list \<Rightarrow> temporal_record list value_res" where
  "make_validator history =
     (let ordered = sort_key tr_provider_definition_id (sort_key tr_provider_capability_id
        (order_by2 tr_source_identity tr_revision history))
      in if distinct (map revision_key ordered) then Inr ordered
         else Inl ''PROVIDER_REVISION_HISTORY_DUPLICATE'')"

definition temporal_warnings :: "temporal_record \<Rightarrow> datetime \<Rightarrow> string list" where
  "temporal_warnings r as_of =
     (case tr_source_published_at r of
        None \<Rightarrow> [''UNKNOWN_PUBLISHED_AT'']
      | Some t \<Rightarrow> if as_of < t then [''SOURCE_PUBLISHED_AFTER_AS_OF'']
                  else if as_of < tr_retrieved_at r then [''RETRIEVED_AFTER_AS_OF''] else [])"

definition temporal_status_of ::
  "temporal_record \<Rightarrow> datetime \<Rightarrow> bool \<Rightarrow> temporal_status \<times> bool \<times> string list" where
  "temporal_status_of r as_of strict =
     (let warnings = temporal_warnings r as_of in
      if warnings \<in> {[''SOURCE_PUBLISHED_AFTER_AS_OF''], [''RETRIEVED_AFTER_AS_OF'']}
      then (BLOCKED, False, warnings)
      else if warnings = [''UNKNOWN_PUBLISHED_AT'']
      then (if strict then (BLOCKED, False, warnings) else (PARTIAL, True, warnings))
      else (ELIGIBLE, True, []))"

definition temporally_eligible :: "temporal_record \<Rightarrow> datetime \<Rightarrow> bool \<Rightarrow> bool" where
  "temporally_eligible r as_of strict = fst (snd (temporal_status_of r as_of strict))"

text \<open>\<open>max(related, key=...)\<close>: the first record with the largest revision.\<close>

fun latest_revision :: "temporal_record \<Rightarrow> temporal_record list \<Rightarrow> temporal_record" where
  "latest_revision best [] = best"
| "latest_revision best (r # rs) =
     latest_revision (if tr_revision best < tr_revision r then r else best) rs"

definition append_ok :: "temporal_record \<Rightarrow> temporal_record list \<Rightarrow> bool" where
  "append_ok r related =
     (case related of
        [] \<Rightarrow> tr_revision r = 1 \<and> tr_supersedes_revision r = None
      | x # xs \<Rightarrow>
          let previous = latest_revision x xs in
          tr_revision r = tr_revision previous + 1 \<and>
          tr_supersedes_revision r = Some (tr_revision previous) \<and>
          tr_source_checksum r \<noteq> tr_source_checksum previous \<and>
          tr_raw_artifact_id r \<noteq> tr_raw_artifact_id previous \<and>
          tr_manifest_id r \<noteq> tr_manifest_id previous)"

definition validate_record ::
  "temporal_record list \<Rightarrow> temporal_record \<Rightarrow> datetime \<Rightarrow> bool \<Rightarrow> temporal_decision value_res" where
  "validate_record history r as_of strict =
     (case List.find (\<lambda>item. revision_key item = revision_key r) history of
        Some existing \<Rightarrow>
          if existing \<noteq> r then Inl ''PROVIDER_REVISION_OVERWRITE_FORBIDDEN''
          else Inr \<lparr>td_status = REUSED, td_eligible = temporally_eligible r as_of strict,
                    td_warning_codes = temporal_warnings r as_of, td_record = existing,
                    td_append_required = False, td_preserved_history = history\<rparr>
      | None \<Rightarrow>
          if \<not> append_ok r (filter (\<lambda>item. source_key item = source_key r) history)
          then Inl ''PROVIDER_REVISION_APPEND_INVALID''
          else case temporal_status_of r as_of strict of (status, eligible, warnings) \<Rightarrow>
            Inr \<lparr>td_status = status, td_eligible = eligible, td_warning_codes = warnings, td_record = r,
                 td_append_required = True, td_preserved_history = history\<rparr>)"

definition eligible_history :: "temporal_record list \<Rightarrow> datetime \<Rightarrow> bool \<Rightarrow> temporal_record list" where
  "eligible_history history as_of strict = filter (\<lambda>r. temporally_eligible r as_of strict) history"

section \<open>Histories that grow by validated records\<close>

inductive grown :: "temporal_record list \<Rightarrow> bool" where
  grown_empty: "make_validator [] = Inr h \<Longrightarrow> grown h"
| grown_step: "grown h \<Longrightarrow> validate_record h r as_of strict = Inr d \<Longrightarrow>
    make_validator (if td_append_required d then td_preserved_history d @ [td_record d] else td_preserved_history d) = Inr h' \<Longrightarrow>
    grown h'"

lemma latest_revision_max:
  "latest_revision b rs \<in> set (b # rs) \<and> (\<forall>x\<in>set (b # rs). tr_revision x \<le> tr_revision (latest_revision b rs))"
proof (induction rs arbitrary: b)
  case Nil
  then show ?case by simp
next
  case (Cons r rs)
  from Cons.IH [of "if tr_revision b < tr_revision r then r else b"] show ?case
    by (auto split: if_splits)
qed

lemma set_make_validator: "make_validator h = Inr h' \<Longrightarrow> set h' = set h \<and> distinct (map revision_key h')"
  by (auto simp: make_validator_def order_by2_def Let_def split: if_splits)

text \<open>Whether a validator can be made depends on the records only.\<close>

lemma make_validator_total:
  assumes "distinct (map revision_key h)"
  shows "\<exists>h'. make_validator h = Inr h'"
proof -
  let ?o = "sort_key tr_provider_definition_id (sort_key tr_provider_capability_id
    (order_by2 tr_source_identity tr_revision h))"
  have "distinct (map revision_key ?o)" using assms by (simp add: distinct_map order_by2_def)
  then show ?thesis by (simp add: make_validator_def Let_def)
qed

text \<open>Per source: revisions from 1 without gaps, each superseding and differing from the one before.\<close>

definition revision_chain :: "temporal_record set \<Rightarrow> bool" where
  "revision_chain H \<longleftrightarrow> (\<forall>r\<in>H. 1 \<le> tr_revision r \<and>
     (if tr_revision r = 1 then tr_supersedes_revision r = None
      else tr_supersedes_revision r = Some (tr_revision r - 1) \<and>
        (\<exists>p\<in>H. source_key p = source_key r \<and> tr_revision p = tr_revision r - 1 \<and>
           tr_source_checksum p \<noteq> tr_source_checksum r \<and> tr_raw_artifact_id p \<noteq> tr_raw_artifact_id r \<and>
           tr_manifest_id p \<noteq> tr_manifest_id r)))"

lemma append_ok_chain:
  assumes "append_ok r (filter (\<lambda>i. source_key i = source_key r) h)" and "revision_chain (set h)"
  shows "revision_chain (insert r (set h))"
proof (cases "filter (\<lambda>i. source_key i = source_key r) h")
  case Nil
  then show ?thesis using assms by (fastforce simp: revision_chain_def append_ok_def)
next
  case (Cons x xs)
  let ?p = "latest_revision x xs"
  have "?p \<in> set (filter (\<lambda>i. source_key i = source_key r) h)" using latest_revision_max [of x xs] Cons by simp
  then have p: "?p \<in> set h" "source_key ?p = source_key r" by auto
  then have "1 \<le> tr_revision ?p" using assms(2) by (auto simp: revision_chain_def)
  moreover have "tr_revision r = tr_revision ?p + 1" "tr_supersedes_revision r = Some (tr_revision ?p)"
    "tr_source_checksum r \<noteq> tr_source_checksum ?p" "tr_raw_artifact_id r \<noteq> tr_raw_artifact_id ?p"
    "tr_manifest_id r \<noteq> tr_manifest_id ?p"
    using assms(1) Cons by (auto simp: append_ok_def Let_def)
  ultimately have new: "1 \<le> tr_revision r \<and> tr_revision r \<noteq> 1 \<and> tr_supersedes_revision r = Some (tr_revision r - 1) \<and>
      source_key ?p = source_key r \<and> tr_revision ?p = tr_revision r - 1 \<and>
      tr_source_checksum ?p \<noteq> tr_source_checksum r \<and> tr_raw_artifact_id ?p \<noteq> tr_raw_artifact_id r \<and>
      tr_manifest_id ?p \<noteq> tr_manifest_id r" using p by auto
  show ?thesis unfolding revision_chain_def
  proof (intro ballI)
    fix q
    assume "q \<in> insert r (set h)"
    then consider "q = r" | "q \<in> set h" by auto
    then show "1 \<le> tr_revision q \<and> (if tr_revision q = 1 then tr_supersedes_revision q = None
      else tr_supersedes_revision q = Some (tr_revision q - 1) \<and>
        (\<exists>p\<in>insert r (set h). source_key p = source_key q \<and> tr_revision p = tr_revision q - 1 \<and>
           tr_source_checksum p \<noteq> tr_source_checksum q \<and> tr_raw_artifact_id p \<noteq> tr_raw_artifact_id q \<and>
           tr_manifest_id p \<noteq> tr_manifest_id q))"
    proof cases
      case 1
      then show ?thesis using new p(1) by auto
    next
      case 2
      then show ?thesis using assms(2) unfolding revision_chain_def by (metis insert_iff)
    qed
  qed
qed

lemma validate_record_cases:
  assumes "validate_record h r as_of strict = Inr d"
  shows "td_record d = r \<and> td_preserved_history d = h \<and>
    (if td_append_required d
     then (\<forall>i\<in>set h. revision_key i \<noteq> revision_key r) \<and> append_ok r (filter (\<lambda>i. source_key i = source_key r) h)
     else r \<in> set h) \<and>
    td_eligible d = temporally_eligible r as_of strict"
  using assms
  by (auto simp: validate_record_def temporally_eligible_def find_None_iff split: option.splits if_splits prod.splits
      dest!: find_SomeD)

lemma grown_inv: "grown h \<Longrightarrow> distinct (map revision_key h) \<and> revision_chain (set h)"
proof (induction rule: grown.induct)
  case (grown_empty h)
  then show ?case using set_make_validator [OF grown_empty] by (simp add: revision_chain_def)
next
  case (grown_step h r as_of strict d h')
  note v = validate_record_cases [OF grown_step(2)] and s = set_make_validator [OF grown_step(3)]
  show ?case
  proof (cases "td_append_required d")
    case True
    then have "set h' = insert r (set h)" using v s by auto
    then show ?thesis using v s True append_ok_chain grown_step(4) by simp
  next
    case False
    then show ?thesis using v s grown_step(4) by simp
  qed
qed

lemma chain_gapless:
  assumes "revision_chain H" and "r \<in> H" and "1 \<le> k" and "k \<le> tr_revision r"
  shows "\<exists>p\<in>H. source_key p = source_key r \<and> tr_revision p = k"
  using assms(4,3)
proof (induction k rule: int_le_induct)
  case base
  then show ?case using assms(2) by auto
next
  case (step k)
  then obtain p where p: "p \<in> H" "source_key p = source_key r" "tr_revision p = k" by auto
  with step.prems assms(1) obtain q where "q \<in> H" "source_key q = source_key p" "tr_revision q = k - 1"
    unfolding revision_chain_def by fastforce
  then show ?case using p by auto
qed

lemma temporally_eligible_iff:
  "temporally_eligible r as_of strict \<longleftrightarrow>
     (case tr_source_published_at r of
        Some t \<Rightarrow> t \<le> as_of \<and> tr_retrieved_at r \<le> as_of | None \<Rightarrow> \<not> strict)"
  by (auto simp: temporally_eligible_def temporal_status_of_def temporal_warnings_def Let_def split: option.splits)

section \<open>The gate of a live authorization\<close>

datatype live_status = NOT_ATTEMPTED | AUTHORIZED | EXPIRED | CONSUMED | LIVE_BLOCKED

record live_authorization =
  la_authorization_id :: uuid
  la_provider_definition_id :: uuid
  la_provider_capability_id :: uuid
  la_allowed_hosts :: "string list"
  la_allowed_paths :: "string list"
  la_max_requests :: int
  la_max_bytes :: int
  la_expires_at :: datetime
  la_actor_id :: string
  la_approval_phrase_checksum :: checksum
  la_validation_run_id :: uuid
  la_consumed :: bool

record execution_scope =
  es_provider_definition_id :: uuid
  es_provider_capability_id :: uuid
  es_host :: string
  es_path :: string
  es_requested_requests :: int
  es_requested_bytes :: int
  es_validation_run_id :: uuid
  es_required_approval_phrase_checksum :: checksum

record live_decision =
  ld_allowed :: bool
  ld_status :: live_status
  ld_reason_code :: string
  ld_authorization_id :: "uuid option"

definition live_checks :: "live_authorization \<Rightarrow> execution_scope \<Rightarrow> datetime \<Rightarrow> (bool \<times> string) list" where
  "live_checks a s now =
     [(la_provider_definition_id a \<noteq> es_provider_definition_id s, ''LIVE_AUTHORIZATION_PROVIDER_MISMATCH''),
      (la_provider_capability_id a \<noteq> es_provider_capability_id s, ''LIVE_AUTHORIZATION_CAPABILITY_MISMATCH''),
      (es_host s \<notin> set (la_allowed_hosts a), ''LIVE_AUTHORIZATION_HOST_DENIED''),
      (es_path s \<notin> set (la_allowed_paths a), ''LIVE_AUTHORIZATION_PATH_DENIED''),
      (la_max_requests a < es_requested_requests s, ''LIVE_AUTHORIZATION_REQUEST_BUDGET_EXCEEDED''),
      (la_max_bytes a < es_requested_bytes s, ''LIVE_AUTHORIZATION_BYTE_BUDGET_EXCEEDED''),
      (la_expires_at a \<le> now, ''LIVE_AUTHORIZATION_EXPIRED''),
      (la_consumed a, ''LIVE_AUTHORIZATION_REPLAYED''),
      (la_validation_run_id a \<noteq> es_validation_run_id s, ''LIVE_AUTHORIZATION_RUN_MISMATCH''),
      (la_approval_phrase_checksum a \<noteq> es_required_approval_phrase_checksum s,
       ''LIVE_AUTHORIZATION_PHRASE_MISMATCH'')]"

definition denied :: "string \<Rightarrow> live_status \<Rightarrow> uuid option \<Rightarrow> live_decision" where
  "denied reason status i =
     \<lparr>ld_allowed = False, ld_status = status, ld_reason_code = reason, ld_authorization_id = i\<rparr>"

definition evaluate_live :: "live_authorization option \<Rightarrow> execution_scope \<Rightarrow> datetime \<Rightarrow> live_decision" where
  "evaluate_live authorization s now =
     (case authorization of
        None \<Rightarrow> denied ''LIVE_AUTHORIZATION_REQUIRED'' NOT_ATTEMPTED None
      | Some a \<Rightarrow>
          (case List.find fst (live_checks a s now) of
             Some (_, reason) \<Rightarrow>
               denied reason (if reason = ''LIVE_AUTHORIZATION_EXPIRED'' then EXPIRED
                              else if reason = ''LIVE_AUTHORIZATION_REPLAYED'' then CONSUMED
                              else LIVE_BLOCKED) (Some (la_authorization_id a))
           | None \<Rightarrow> \<lparr>ld_allowed = True, ld_status = AUTHORIZED, ld_reason_code = ''LIVE_AUTHORIZATION_EXACT_MATCH'',
                      ld_authorization_id = Some (la_authorization_id a)\<rparr>))"

lemma evaluate_live_None: "\<not> ld_allowed (evaluate_live None s now)"
  by (simp add: evaluate_live_def denied_def)

lemma evaluate_live_Some:
  "ld_allowed (evaluate_live (Some a) s now) \<longleftrightarrow> (\<forall>c\<in>set (live_checks a s now). \<not> fst c)"
  by (auto simp: evaluate_live_def denied_def find_None_iff dest!: find_SomeD split: option.splits)

section \<open>Properties\<close>

text \<open>
  C40. The history of a source is an append-only chain. However a history was grown by validated
  records, for every record of it the revisions of its source from 1 up to its own are all there,
  each once; each supersedes the one before and differs from it in checksum, artifact and manifest.
  A record that the validator accepts can always be added: the next validator can be made, and it
  keeps everything.
\<close>

theorem revision_history_sound:
  assumes "grown h"
  shows "(\<forall>r\<in>set h. \<forall>k. 1 \<le> k \<and> k \<le> tr_revision r \<longrightarrow>
      (\<exists>!p. p \<in> set h \<and> source_key p = source_key r \<and> tr_revision p = k)) \<and>
    revision_chain (set h) \<and>
    (\<forall>r as_of strict d. validate_record h r as_of strict = Inr d \<longrightarrow> td_append_required d \<longrightarrow>
      (\<exists>h'. make_validator (td_preserved_history d @ [td_record d]) = Inr h' \<and> set h' = insert r (set h)))"
proof (intro conjI ballI allI impI)
  have inv: "distinct (map revision_key h)" "revision_chain (set h)" using grown_inv [OF assms] by auto
  then show "revision_chain (set h)" by blast
  fix r
  show "\<exists>!p. p \<in> set h \<and> source_key p = source_key r \<and> tr_revision p = k"
    if r: "r \<in> set h" and k: "1 \<le> k \<and> k \<le> tr_revision r" for k
  proof (rule ex_ex1I)
    show "\<exists>p. p \<in> set h \<and> source_key p = source_key r \<and> tr_revision p = k"
      using chain_gapless [OF inv(2) r] k by blast
    show "p = q" if "p \<in> set h \<and> source_key p = source_key r \<and> tr_revision p = k"
      "q \<in> set h \<and> source_key q = source_key r \<and> tr_revision q = k" for p q
      using that inv(1) by (auto simp: distinct_map inj_on_def revision_key_def)
  qed
  show "\<exists>h'. make_validator (td_preserved_history d @ [td_record d]) = Inr h' \<and> set h' = insert r (set h)"
    if v: "validate_record h r as_of strict = Inr d" and app: "td_append_required d" for as_of strict d
  proof -
    note c = validate_record_cases [OF v]
    have "distinct (map revision_key (h @ [r]))" using inv(1) c app by auto
    from make_validator_total [OF this] obtain h' where h': "make_validator (h @ [r]) = Inr h'" by blast
    then have "set h' = insert r (set h)" using set_make_validator by auto
    with h' show ?thesis using c by auto
  qed
qed

text \<open>
  Eligibility is exact: a validated record is eligible if and only if it was published and
  retrieved no later than the research time, or its publication time is unknown and the validation
  is not strict; in that case its retrieval time is not looked at.
\<close>

theorem temporal_eligibility_exact:
  assumes "validate_record h r as_of strict = Inr d"
  shows "td_eligible d \<longleftrightarrow>
    (case tr_source_published_at r of
       Some t \<Rightarrow> t \<le> as_of \<and> tr_retrieved_at r \<le> as_of | None \<Rightarrow> \<not> strict)"
  using validate_record_cases [OF assms] by (simp add: temporally_eligible_iff)

text \<open>
  A live call is allowed exactly under an authorization that is unused, unexpired, of the same
  provider, capability, run and approval phrase, that lists the host and the path and whose budgets
  cover the request.
\<close>

theorem live_authorization_exact:
  "ld_allowed (evaluate_live authorization s now) \<longleftrightarrow>
     (\<exists>a. authorization = Some a \<and> \<not> la_consumed a \<and> now < la_expires_at a \<and>
        la_provider_definition_id a = es_provider_definition_id s \<and>
        la_provider_capability_id a = es_provider_capability_id s \<and>
        la_validation_run_id a = es_validation_run_id s \<and>
        la_approval_phrase_checksum a = es_required_approval_phrase_checksum s \<and>
        es_host s \<in> set (la_allowed_hosts a) \<and> es_path s \<in> set (la_allowed_paths a) \<and>
        es_requested_requests s \<le> la_max_requests a \<and> es_requested_bytes s \<le> la_max_bytes a)"
  by (cases authorization) (auto simp: evaluate_live_None evaluate_live_Some live_checks_def)

section \<open>Witnesses\<close>

definition demo_revision :: "int \<Rightarrow> temporal_record" where
  "demo_revision n =
     \<lparr>tr_provider_definition_id = ''p'', tr_provider_capability_id = ''c'', tr_source_identity = ''s'',
      tr_revision = n, tr_source_checksum = (if n = 1 then ''a'' else ''b''),
      tr_raw_artifact_id = (if n = 1 then ''a'' else ''b''), tr_manifest_id = (if n = 1 then ''a'' else ''b''),
      tr_source_published_at = Some n, tr_retrieved_at = n,
      tr_supersedes_revision = (if n = 1 then None else Some (n - 1)), tr_is_restatement = False,
      tr_license_policy_version = ''1.0.0''\<rparr>"

lemma grown_append:
  assumes "grown h" and "List.find (\<lambda>i. revision_key i = revision_key r) h = None"
    and "append_ok r (filter (\<lambda>i. source_key i = source_key r) h)" and "make_validator (h @ [r]) = Inr h'"
  shows "grown h'"
proof -
  obtain d where d: "validate_record h r 0 True = Inr d" "td_append_required d" "td_preserved_history d = h" "td_record d = r"
    using assms(2,3) by (cases "temporal_status_of r 0 True") (auto simp: validate_record_def)
  show ?thesis by (rule grown_step [OF assms(1) d(1)]) (simp add: d assms(4))
qed

lemma demo_grown: "grown [demo_revision 1, demo_revision 2]"
proof -
  note demo = append_ok_def demo_revision_def revision_key_def source_key_def make_validator_def order_by2_def
  have 0: "grown []" by (rule grown_empty) (simp add: make_validator_def order_by2_def)
  have 1: "grown [demo_revision 1]" by (rule grown_append [OF 0, of "demo_revision 1"]) (simp_all add: demo)
  show ?thesis by (rule grown_append [OF 1, of "demo_revision 2"]) (simp_all add: demo)
qed

theorem revision_history_sound_witness:
  "grown [demo_revision 1, demo_revision 2] \<and> revision_chain (set [demo_revision 1, demo_revision 2])"
  using revision_history_sound [OF demo_grown] demo_grown by blast

theorem temporal_eligibility_exact_witness:
  "\<exists>d. validate_record [] (demo_revision 1) 5 True = Inr d \<and> td_eligible d"
proof -
  have "\<exists>d. validate_record [] (demo_revision 1) 5 True = Inr d"
    by (simp add: validate_record_def append_ok_def demo_revision_def temporal_status_of_def temporal_warnings_def)
  then obtain d where d: "validate_record [] (demo_revision 1) 5 True = Inr d" by blast
  from temporal_eligibility_exact [OF d] d show ?thesis by (simp add: demo_revision_def)
qed

end
