(* ===== verification/Financial_Types.thy ===== *)
theory Financial_Types
  imports Decimal_Arith
begin

text \<open>
  Vocabularies of the financial domain (\<open>domain/financials/enums.py\<close>), the registry of
  canonical concepts (\<open>concepts.py\<close>), unit normalization (\<open>units.py\<close>) and fiscal periods
  (\<open>periods.py\<close>). The exception classes of the domain are the constructors of
  \<open>fin_error\<close>, each with its message; the first four are Python's \<open>ValueError\<close>
  and its subclasses, \<open>FinKeyError\<close> is \<open>KeyError\<close>, \<open>FinAssertionError\<close> a failed \<open>assert\<close>, and \<open>DatabaseError\<close> is an error
  the database raises at a flush, with the name of the constraint. A date is its day number.
\<close>

section \<open>Vocabularies\<close>

datatype fin_error =
    UnitNormalizationBlocked string
  | PeriodSemanticsError string
  | CalculationBlocked string
  | FinValueError string
  | FinKeyError string
  | FormulaBlocked string
  | FinancialSeedConflictError string
  | DatabaseError string
  | FinAssertionError

type_synonym 'a fin_res = "fin_error + 'a"

type_synonym date = int

datatype statement_type = INCOME_STATEMENT | BALANCE_SHEET | CASH_FLOW | SHARES

datatype fact_nature = DURATION | INSTANT | PER_SHARE | SHARES | RATIO_INPUT

datatype unit_type = MONETARY_AMOUNT | PER_SHARE | SHARES | RATIO

datatype quality_status = PASS | PARTIAL | BLOCKED | FAIL

fun unit_type_value :: "unit_type \<Rightarrow> string" where
  "unit_type_value MONETARY_AMOUNT = ''MONETARY_AMOUNT''"
| "unit_type_value unit_type.PER_SHARE = ''PER_SHARE''"
| "unit_type_value unit_type.SHARES = ''SHARES''"
| "unit_type_value RATIO = ''RATIO''"

text \<open>An aware time, or a naive one that the contracts refuse.\<close>

datatype clock_time = Aware datetime | Naive int

section \<open>Canonical concepts\<close>

datatype canonical_concept =
    REVENUE | COST_OF_REVENUE | GROSS_PROFIT | OPERATING_INCOME | EBITDA | PRETAX_INCOME
    | INCOME_TAX_EXPENSE | NET_INCOME | NET_INCOME_ATTRIBUTABLE_TO_PARENT | BASIC_EPS
    | DILUTED_EPS | CASH_AND_CASH_EQUIVALENTS | SHORT_TERM_INVESTMENTS | ACCOUNTS_RECEIVABLE
    | INVENTORY | TOTAL_CURRENT_ASSETS | TOTAL_ASSETS | SHORT_TERM_DEBT | LONG_TERM_DEBT
    | TOTAL_DEBT | TOTAL_CURRENT_LIABILITIES | TOTAL_LIABILITIES | TOTAL_EQUITY
    | EQUITY_ATTRIBUTABLE_TO_PARENT | MINORITY_INTEREST | PREFERRED_EQUITY
    | OPERATING_CASH_FLOW | CAPITAL_EXPENDITURES | INVESTING_CASH_FLOW | FINANCING_CASH_FLOW
    | CASH_DIVIDENDS_PAID | SHARE_REPURCHASES | BASIC_WEIGHTED_AVERAGE_SHARES
    | DILUTED_WEIGHTED_AVERAGE_SHARES | PERIOD_END_SHARES_OUTSTANDING

fun concept_value :: "canonical_concept \<Rightarrow> string" where
  "concept_value REVENUE = ''REVENUE''"
| "concept_value COST_OF_REVENUE = ''COST_OF_REVENUE''"
| "concept_value GROSS_PROFIT = ''GROSS_PROFIT''"
| "concept_value OPERATING_INCOME = ''OPERATING_INCOME''"
| "concept_value EBITDA = ''EBITDA''"
| "concept_value PRETAX_INCOME = ''PRETAX_INCOME''"
| "concept_value INCOME_TAX_EXPENSE = ''INCOME_TAX_EXPENSE''"
| "concept_value NET_INCOME = ''NET_INCOME''"
| "concept_value NET_INCOME_ATTRIBUTABLE_TO_PARENT = ''NET_INCOME_ATTRIBUTABLE_TO_PARENT''"
| "concept_value BASIC_EPS = ''BASIC_EPS''"
| "concept_value DILUTED_EPS = ''DILUTED_EPS''"
| "concept_value CASH_AND_CASH_EQUIVALENTS = ''CASH_AND_CASH_EQUIVALENTS''"
| "concept_value SHORT_TERM_INVESTMENTS = ''SHORT_TERM_INVESTMENTS''"
| "concept_value ACCOUNTS_RECEIVABLE = ''ACCOUNTS_RECEIVABLE''"
| "concept_value INVENTORY = ''INVENTORY''"
| "concept_value TOTAL_CURRENT_ASSETS = ''TOTAL_CURRENT_ASSETS''"
| "concept_value TOTAL_ASSETS = ''TOTAL_ASSETS''"
| "concept_value SHORT_TERM_DEBT = ''SHORT_TERM_DEBT''"
| "concept_value LONG_TERM_DEBT = ''LONG_TERM_DEBT''"
| "concept_value TOTAL_DEBT = ''TOTAL_DEBT''"
| "concept_value TOTAL_CURRENT_LIABILITIES = ''TOTAL_CURRENT_LIABILITIES''"
| "concept_value TOTAL_LIABILITIES = ''TOTAL_LIABILITIES''"
| "concept_value TOTAL_EQUITY = ''TOTAL_EQUITY''"
| "concept_value EQUITY_ATTRIBUTABLE_TO_PARENT = ''EQUITY_ATTRIBUTABLE_TO_PARENT''"
| "concept_value MINORITY_INTEREST = ''MINORITY_INTEREST''"
| "concept_value PREFERRED_EQUITY = ''PREFERRED_EQUITY''"
| "concept_value OPERATING_CASH_FLOW = ''OPERATING_CASH_FLOW''"
| "concept_value CAPITAL_EXPENDITURES = ''CAPITAL_EXPENDITURES''"
| "concept_value INVESTING_CASH_FLOW = ''INVESTING_CASH_FLOW''"
| "concept_value FINANCING_CASH_FLOW = ''FINANCING_CASH_FLOW''"
| "concept_value CASH_DIVIDENDS_PAID = ''CASH_DIVIDENDS_PAID''"
| "concept_value SHARE_REPURCHASES = ''SHARE_REPURCHASES''"
| "concept_value BASIC_WEIGHTED_AVERAGE_SHARES = ''BASIC_WEIGHTED_AVERAGE_SHARES''"
| "concept_value DILUTED_WEIGHTED_AVERAGE_SHARES = ''DILUTED_WEIGHTED_AVERAGE_SHARES''"
| "concept_value PERIOD_END_SHARES_OUTSTANDING = ''PERIOD_END_SHARES_OUTSTANDING''"

record concept_definition =
  cd_code :: canonical_concept
  cd_name :: string
  cd_statement_type :: statement_type
  cd_fact_nature :: fact_nature
  cd_default_unit_type :: unit_type
  cd_supports_duration :: bool
  cd_supports_instant :: bool
  cd_supports_cumulative :: bool
  cd_supports_ttm :: bool
  cd_allows_negative :: bool
  cd_description :: string
  cd_version :: string
  cd_status :: string

text \<open>\<open>str.replace("_", " ").title()\<close>: a letter after a letter is lower case, another one upper.\<close>

fun title_case :: "bool \<Rightarrow> string \<Rightarrow> string" where
  "title_case _ [] = []"
| "title_case after_letter (c # cs) =
     (if is_upper c \<or> is_lower c
      then (if after_letter then ascii_lower_char c else ascii_upper_char c) # title_case True cs
      else c # title_case False cs)"

definition underscores_to_spaces :: "string \<Rightarrow> string" where
  "underscores_to_spaces = map (\<lambda>c. if c = CHR ''_'' then CHR '' '' else c)"

definition label :: "canonical_concept \<Rightarrow> string" where
  "label code = title_case False (underscores_to_spaces (concept_value code))"

definition duration_amount :: "statement_type \<Rightarrow> canonical_concept \<Rightarrow> concept_definition" where
  "duration_amount statement code =
     \<lparr>cd_code = code, cd_name = label code, cd_statement_type = statement, cd_fact_nature = DURATION,
      cd_default_unit_type = MONETARY_AMOUNT, cd_supports_duration = True, cd_supports_instant = False,
      cd_supports_cumulative = True, cd_supports_ttm = True,
      cd_allows_negative = (code \<notin> {REVENUE, COST_OF_REVENUE, INCOME_TAX_EXPENSE}),
      cd_description = ''Canonical reported '' @ ascii_lower (label code) @ '' amount for a duration period.'',
      cd_version = ''1.0.0'', cd_status = ''ACTIVE''\<rparr>"

definition instant_amount :: "canonical_concept \<Rightarrow> concept_definition" where
  "instant_amount code =
     \<lparr>cd_code = code, cd_name = label code, cd_statement_type = BALANCE_SHEET, cd_fact_nature = INSTANT,
      cd_default_unit_type = MONETARY_AMOUNT, cd_supports_duration = False, cd_supports_instant = True,
      cd_supports_cumulative = False, cd_supports_ttm = False,
      cd_allows_negative = (code \<in> {TOTAL_EQUITY, EQUITY_ATTRIBUTABLE_TO_PARENT}),
      cd_description = ''Canonical reported '' @ ascii_lower (label code) @ '' amount at a point in time.'',
      cd_version = ''1.0.0'', cd_status = ''ACTIVE''\<rparr>"

definition per_share :: "canonical_concept \<Rightarrow> concept_definition" where
  "per_share code =
     \<lparr>cd_code = code, cd_name = label code, cd_statement_type = INCOME_STATEMENT,
      cd_fact_nature = fact_nature.PER_SHARE, cd_default_unit_type = unit_type.PER_SHARE,
      cd_supports_duration = True, cd_supports_instant = False, cd_supports_cumulative = False,
      cd_supports_ttm = False, cd_allows_negative = True,
      cd_description = ''Canonical reported '' @ ascii_lower (label code) @ '' for a duration period.'',
      cd_version = ''1.0.0'', cd_status = ''ACTIVE''\<rparr>"

definition shares :: "bool \<Rightarrow> canonical_concept \<Rightarrow> concept_definition" where
  "shares instant code =
     \<lparr>cd_code = code, cd_name = label code, cd_statement_type = statement_type.SHARES,
      cd_fact_nature = fact_nature.SHARES, cd_default_unit_type = unit_type.SHARES,
      cd_supports_duration = (\<not> instant), cd_supports_instant = instant, cd_supports_cumulative = False,
      cd_supports_ttm = False, cd_allows_negative = False,
      cd_description = ''Canonical reported '' @ ascii_lower (label code) @ '' for a '' @
        (if instant then ''point in time'' else ''duration period'') @ ''.'',
      cd_version = ''1.0.0'', cd_status = ''ACTIVE''\<rparr>"

definition income_amount_concepts :: "canonical_concept list" where
  "income_amount_concepts =
     [REVENUE, COST_OF_REVENUE, GROSS_PROFIT, OPERATING_INCOME, EBITDA, PRETAX_INCOME,
     INCOME_TAX_EXPENSE, NET_INCOME, NET_INCOME_ATTRIBUTABLE_TO_PARENT]"

definition balance_concepts :: "canonical_concept list" where
  "balance_concepts =
     [CASH_AND_CASH_EQUIVALENTS, SHORT_TERM_INVESTMENTS, ACCOUNTS_RECEIVABLE, INVENTORY,
     TOTAL_CURRENT_ASSETS, TOTAL_ASSETS, SHORT_TERM_DEBT, LONG_TERM_DEBT, TOTAL_DEBT,
     TOTAL_CURRENT_LIABILITIES, TOTAL_LIABILITIES, TOTAL_EQUITY, EQUITY_ATTRIBUTABLE_TO_PARENT,
     MINORITY_INTEREST, PREFERRED_EQUITY]"

definition cash_flow_concepts :: "canonical_concept list" where
  "cash_flow_concepts =
     [OPERATING_CASH_FLOW, CAPITAL_EXPENDITURES, INVESTING_CASH_FLOW, FINANCING_CASH_FLOW,
     CASH_DIVIDENDS_PAID, SHARE_REPURCHASES]"

definition canonical_concepts :: "concept_definition list" where
  "canonical_concepts =
     map (duration_amount INCOME_STATEMENT) income_amount_concepts @
     [per_share BASIC_EPS, per_share DILUTED_EPS] @
     map instant_amount balance_concepts @
     map (duration_amount CASH_FLOW) cash_flow_concepts @
     [shares False BASIC_WEIGHTED_AVERAGE_SHARES, shares False DILUTED_WEIGHTED_AVERAGE_SHARES,
      shares True PERIOD_END_SHARES_OUTSTANDING]"

definition get_concept :: "canonical_concept \<Rightarrow> concept_definition fin_res" where
  "get_concept code =
     (case List.find (\<lambda>d. cd_code d = code) canonical_concepts of
        None \<Rightarrow> Inl (FinKeyError (concept_value code)) | Some d \<Rightarrow> Inr d)"

text \<open>\<open>CanonicalConcept(text)\<close>.\<close>

definition concept_of_text :: "string \<Rightarrow> canonical_concept option" where
  "concept_of_text s =
     map_option cd_code (List.find (\<lambda>d. concept_value (cd_code d) = s) canonical_concepts)"

section \<open>Units\<close>

datatype reported_unit =
    ONE | THOUSAND | MILLION | BILLION | PER_SHARE | SHARES | PERCENT | RATIO

fun reported_unit_value :: "reported_unit \<Rightarrow> string" where
  "reported_unit_value ONE = ''ONE''"
| "reported_unit_value THOUSAND = ''THOUSAND''"
| "reported_unit_value MILLION = ''MILLION''"
| "reported_unit_value BILLION = ''BILLION''"
| "reported_unit_value reported_unit.PER_SHARE = ''PER_SHARE''"
| "reported_unit_value reported_unit.SHARES = ''SHARES''"
| "reported_unit_value PERCENT = ''PERCENT''"
| "reported_unit_value reported_unit.RATIO = ''RATIO''"

definition reported_units :: "reported_unit list" where
  "reported_units = [ONE, THOUSAND, MILLION, BILLION, reported_unit.PER_SHARE, reported_unit.SHARES,
     PERCENT, reported_unit.RATIO]"

definition reported_unit_of_text :: "string \<Rightarrow> reported_unit option" where
  "reported_unit_of_text s = List.find (\<lambda>u. reported_unit_value u = s) reported_units"

text \<open>\<open>repr\<close> of a text without quotes, backslashes and control characters.\<close>

definition py_repr :: "string \<Rightarrow> string" where
  "py_repr s = [CHR 0x27] @ s @ [CHR 0x27]"

record unit_result =
  ur_original_value :: dec
  ur_original_unit :: reported_unit
  ur_normalized_value :: dec
  ur_normalized_unit :: string
  ur_scale_factor :: dec

fun amount_scale :: "reported_unit \<Rightarrow> dec option" where
  "amount_scale ONE = Some (Dec 1 0)"
| "amount_scale THOUSAND = Some (Dec 1000 0)"
| "amount_scale MILLION = Some (Dec 1000000 0)"
| "amount_scale BILLION = Some (Dec 1000000000 0)"
| "amount_scale _ = None"

definition unit_scale :: "reported_unit \<Rightarrow> unit_type \<Rightarrow> (dec \<times> string) option" where
  "unit_scale unit expected =
     (if expected = MONETARY_AMOUNT \<and> amount_scale unit \<noteq> None
      then map_option (\<lambda>s. (s, ''ONE'')) (amount_scale unit)
      else if expected = unit_type.PER_SHARE \<and> unit = reported_unit.PER_SHARE
      then Some (Dec 1 0, ''PER_SHARE'')
      else if expected = unit_type.SHARES \<and> unit = reported_unit.SHARES then Some (Dec 1 0, ''SHARES'')
      else if expected = unit_type.RATIO \<and> unit = PERCENT then Some (Dec 1 (-2), ''RATIO'')
      else if expected = unit_type.RATIO \<and> unit = reported_unit.RATIO then Some (Dec 1 0, ''RATIO'')
      else None)"

definition normalize_unit :: "decimal \<Rightarrow> string \<Rightarrow> unit_type \<Rightarrow> unit_result fin_res" where
  "normalize_unit v reported_unit expected =
     (case dec_of_decimal v of
        None \<Rightarrow> Inl (UnitNormalizationBlocked ''financial Decimal value must be finite'')
      | Some x \<Rightarrow>
          (case reported_unit_of_text reported_unit of
             None \<Rightarrow> Inl (UnitNormalizationBlocked (''unknown unit: '' @ py_repr reported_unit))
           | Some unit \<Rightarrow>
               (case unit_scale unit expected of
                  None \<Rightarrow> Inl (UnitNormalizationBlocked (''incompatible reported unit '' @
                      reported_unit_value unit @ '' for '' @ unit_type_value expected))
                | Some (scale, normalized_unit) \<Rightarrow>
                    Inr \<lparr>ur_original_value = x, ur_original_unit = unit,
                         ur_normalized_value = dec_mul x scale, ur_normalized_unit = normalized_unit,
                         ur_scale_factor = scale\<rparr>)))"

text \<open>Three ASCII characters, at least one of them a capital and none a small letter.\<close>

definition iso_currency :: "string \<Rightarrow> bool" where
  "iso_currency s \<longleftrightarrow> length s = 3 \<and> list_all (\<lambda>c. \<not> digit7 c) s \<and>
     list_ex is_upper s \<and> \<not> list_ex is_lower s"

definition require_same_currency :: "string option list \<Rightarrow> string fin_res" where
  "require_same_currency currencies =
     (if currencies = [] \<or> None \<in> set currencies
      then Inl (UnitNormalizationBlocked ''currency is required for every monetary input'')
      else let values = map the currencies in
        if \<not> list_all iso_currency values
        then Inl (UnitNormalizationBlocked ''currency must be an uppercase ISO 4217 code'')
        else if length (remdups values) \<noteq> 1
        then Inl (UnitNormalizationBlocked ''currency mismatch blocks deterministic calculation'')
        else Inr (hd values))"

section \<open>Periods\<close>

datatype period_type =
    ANNUAL | QUARTER | HALF_YEAR | NINE_MONTH_YTD | YEAR_TO_DATE | TTM | INSTANT

fun period_type_value :: "period_type \<Rightarrow> string" where
  "period_type_value ANNUAL = ''ANNUAL''"
| "period_type_value QUARTER = ''QUARTER''"
| "period_type_value HALF_YEAR = ''HALF_YEAR''"
| "period_type_value NINE_MONTH_YTD = ''NINE_MONTH_YTD''"
| "period_type_value YEAR_TO_DATE = ''YEAR_TO_DATE''"
| "period_type_value TTM = ''TTM''"
| "period_type_value period_type.INSTANT = ''INSTANT''"

record financial_period =
  fp_fiscal_year :: int
  fp_fiscal_quarter :: "int option"
  fp_fiscal_period :: string
  fp_period_type :: period_type
  fp_fact_nature :: fact_nature
  fp_period_start :: "date option"
  fp_period_end :: date
  fp_filing_date :: "date option"
  fp_published_at :: "datetime option"
  fp_duration_days :: "int option"
  fp_is_annual :: bool
  fp_is_cumulative :: bool
  fp_is_single_quarter :: bool
  fp_is_ttm :: bool
  fp_accounting_standard :: string
  fp_source_form_type :: string

record period_args =
  pa_fiscal_year :: "int option"
  pa_fiscal_quarter :: "int option"
  pa_fiscal_period :: string
  pa_period_type :: period_type
  pa_fact_nature :: fact_nature
  pa_period_start :: "date option"
  pa_period_end :: date
  pa_filing_date :: "date option"
  pa_published_at :: "clock_time option"
  pa_is_cumulative :: bool
  pa_is_single_quarter :: bool
  pa_accounting_standard :: string
  pa_source_form_type :: string

definition check_period_args :: "period_args \<Rightarrow> (int \<times> datetime option) fin_res" where
  "check_period_args a =
     (case pa_fiscal_year a of
        None \<Rightarrow> Inl (PeriodSemanticsError ''fiscal_year must come from source fiscal identity'')
      | Some year \<Rightarrow>
          if \<not> (1900 \<le> year \<and> year \<le> 9999)
          then Inl (PeriodSemanticsError ''fiscal_year is outside the supported range'')
          else if (case pa_fiscal_quarter a of None \<Rightarrow> False | Some q \<Rightarrow> q \<notin> {1, 2, 3, 4})
          then Inl (PeriodSemanticsError ''fiscal_quarter must be between 1 and 4'')
          else if pa_fiscal_period a = [] \<or> pa_accounting_standard a = [] \<or> pa_source_form_type a = []
          then Inl (PeriodSemanticsError ''period source vocabulary must not be empty'')
          else case pa_published_at a of
            None \<Rightarrow> Inr (year, None)
          | Some (Naive _) \<Rightarrow> Inl (PeriodSemanticsError ''published_at must be timezone aware'')
          | Some (Aware t) \<Rightarrow> Inr (year, Some t))"

definition period_duration :: "period_args \<Rightarrow> int option fin_res" where
  "period_duration a =
     (if pa_period_type a = period_type.INSTANT
      then (if pa_fact_nature a \<noteq> fact_nature.INSTANT
            then Inl (PeriodSemanticsError ''instant period requires instant fact nature'')
            else if pa_period_start a \<noteq> None \<or> pa_is_cumulative a \<or> pa_is_single_quarter a
            then Inl (PeriodSemanticsError
              ''instant periods cannot have a start, duration, cumulative or quarter flag'')
            else Inr None)
      else if pa_fact_nature a = fact_nature.INSTANT
      then Inl (PeriodSemanticsError ''duration period cannot contain an instant fact'')
      else case pa_period_start a of
        None \<Rightarrow> Inl (PeriodSemanticsError ''duration period requires period_start'')
      | Some start \<Rightarrow>
          if pa_period_end a < start
          then Inl (PeriodSemanticsError ''period_end cannot precede period_start'')
          else Inr (Some (pa_period_end a - start + 1)))"

definition create_period :: "period_args \<Rightarrow> financial_period fin_res" where
  "create_period a =
     bind_res (check_period_args a) (\<lambda>(year, published_at).
     bind_res (period_duration a) (\<lambda>duration_days.
       Inr \<lparr>fp_fiscal_year = year, fp_fiscal_quarter = pa_fiscal_quarter a,
            fp_fiscal_period = pa_fiscal_period a, fp_period_type = pa_period_type a,
            fp_fact_nature = pa_fact_nature a, fp_period_start = pa_period_start a,
            fp_period_end = pa_period_end a, fp_filing_date = pa_filing_date a,
            fp_published_at = published_at, fp_duration_days = duration_days,
            fp_is_annual = (pa_period_type a = ANNUAL), fp_is_cumulative = pa_is_cumulative a,
            fp_is_single_quarter = pa_is_single_quarter a, fp_is_ttm = (pa_period_type a = TTM),
            fp_accounting_standard = pa_accounting_standard a,
            fp_source_form_type = pa_source_form_type a\<rparr>))"

record comparability =
  pc_comparable :: bool
  pc_warnings :: "string list"

text \<open>The four checks of \<open>assess_period_comparability\<close>: the warnings of each and whether it passes.\<close>

definition check_durations :: "int \<Rightarrow> int option \<Rightarrow> int option \<Rightarrow> bool \<times> string list" where
  "check_durations maximum current comparison =
     (case (current, comparison) of
        (Some c, Some p) \<Rightarrow>
          (let difference = \<bar>c - p\<bar>;
               length_check =
                 (if difference \<noteq> 0
                  then (if maximum < difference then (False, [''PERIOD_LENGTH_NOT_COMPARABLE''])
                        else (True, [''PERIOD_LENGTH_DIFFERS_BY_'' @ int_str difference @ ''_DAYS'']))
                  else (True, []))
           in (fst length_check, snd length_check @
                (if 370 \<le> c \<or> 370 \<le> p then [''FIFTY_THREE_WEEK_PERIOD''] else [])))
      | _ \<Rightarrow> if current \<noteq> comparison then (False, [''DURATION_SHAPE_MISMATCH'']) else (True, []))"

definition assess_period_comparability ::
  "int \<Rightarrow> financial_period \<Rightarrow> financial_period \<Rightarrow> comparability" where
  "assess_period_comparability maximum current comparison =
     (let nature = fp_fact_nature current = fp_fact_nature comparison;
          ptype = fp_period_type current = fp_period_type comparison;
          standard = fp_accounting_standard current = fp_accounting_standard comparison;
          durations = check_durations maximum (fp_duration_days current) (fp_duration_days comparison)
      in \<lparr>pc_comparable = (nature \<and> ptype \<and> standard \<and> fst durations),
          pc_warnings = (if nature then [] else [''FACT_NATURE_MISMATCH'']) @
            (if ptype then [] else [''PERIOD_TYPE_MISMATCH'']) @
            (if standard then [] else [''ACCOUNTING_STANDARD_MISMATCH'']) @ snd durations\<rparr>)"

section \<open>Facts\<close>

text \<open>The registry is complete and has one entry per concept.\<close>

lemmas concept_lists = canonical_concepts_def income_amount_concepts_def balance_concepts_def
  cash_flow_concepts_def

lemma cd_code_simps [simp]:
  "cd_code (duration_amount st c) = c" "cd_code (instant_amount c) = c" "cd_code (per_share c) = c"
  "cd_code (shares i c) = c"
  by (simp_all add: duration_amount_def instant_amount_def per_share_def shares_def)

lemma get_concept_total: "\<exists>d. get_concept c = Inr d \<and> cd_code d = c"
proof -
  have "c \<in> cd_code ` set canonical_concepts" by (cases c) (simp_all add: concept_lists)
  then have "List.find (\<lambda>d. cd_code d = c) canonical_concepts \<noteq> None" by (auto simp: find_None_iff)
  then obtain d where f: "List.find (\<lambda>d. cd_code d = c) canonical_concepts = Some d" by auto
  then have "cd_code d = c" by (auto dest: find_SomeD)
  with f show ?thesis by (simp add: get_concept_def)
qed

lemma concept_codes_distinct: "distinct (map cd_code canonical_concepts)"
  by (simp add: concept_lists)

text \<open>A concept that can be accumulated or summed over quarters is a duration amount.\<close>

lemma cumulative_concept_is_amount:
  "get_concept c = Inr d \<Longrightarrow> cd_supports_cumulative d \<or> cd_supports_ttm d \<Longrightarrow>
   cd_fact_nature d = DURATION \<and> cd_default_unit_type d = MONETARY_AMOUNT \<and> cd_supports_duration d"
proof -
  assume g: "get_concept c = Inr d" and s: "cd_supports_cumulative d \<or> cd_supports_ttm d"
  then have "d \<in> set canonical_concepts" by (auto simp: get_concept_def dest: find_SomeD split: option.splits)
  then show ?thesis using s
    by (auto simp: canonical_concepts_def duration_amount_def instant_amount_def per_share_def shares_def)
qed

lemma create_period_duration:
  "create_period a = Inr p \<Longrightarrow>
   (fp_period_type p = period_type.INSTANT \<longleftrightarrow> fp_fact_nature p = fact_nature.INSTANT) \<and>
   (case fp_duration_days p of
      None \<Rightarrow> fp_period_type p = period_type.INSTANT \<and> fp_period_start p = None \<and>
        \<not> fp_is_cumulative p \<and> \<not> fp_is_single_quarter p
    | Some n \<Rightarrow> 1 \<le> n \<and> (\<exists>s. fp_period_start p = Some s \<and> fp_period_end p = s + n - 1))"
  by (auto simp: create_period_def period_duration_def split: if_splits option.splits)

lemma comparable_sym:
  "pc_comparable (assess_period_comparability m a b) = pc_comparable (assess_period_comparability m b a)"
  by (auto simp: assess_period_comparability_def check_durations_def Let_def abs_minus_commute
      split: option.splits)

text \<open>The scale of a unit and the size of what rounding can change.\<close>

lemma normalize_unit_close:
  "normalize_unit v u t = Inr r \<Longrightarrow>
   rel_close half_ulp (dec_val (ur_normalized_value r))
     (dec_val (ur_original_value r) * dec_val (ur_scale_factor r))"
  by (auto simp: normalize_unit_def dec_mul_close split: option.splits prod.splits)

end
