(* ===== verification/Metric_Formulas.thy ===== *)
theory Metric_Formulas
  imports Financial_Types
begin

text \<open>
  The metric formulas of \<open>domain/financials/formulas.py\<close>: the registry of definitions, which is
  audit metadata, and one fixed implementation per metric on decimals. A formula that lacks an input
  or has inputs of different currencies or units is blocked; the block is caught and becomes a result
  without a value.
\<close>

section \<open>Metrics\<close>

datatype metric_code =
    REVENUE_GROWTH | GROSS_MARGIN | OPERATING_MARGIN | NET_MARGIN_PARENT | ROE_PARENT
  | ROA_TOTAL | ROIC | OPERATING_CASH_FLOW | FREE_CASH_FLOW | LIABILITIES_TO_ASSETS | NET_DEBT
  | BASIC_EPS | DILUTED_EPS | MARKET_CAP | PE_TTM_DILUTED | PB_PARENT | PS_TTM
  | ENTERPRISE_VALUE | EV_TO_EBITDA_TTM | FCF_YIELD_TTM | REVENUE_TTM | NET_INCOME_PARENT_TTM
  | EBITDA_TTM

fun metric_value :: "metric_code \<Rightarrow> string" where
  "metric_value REVENUE_GROWTH = ''revenue_growth''"
| "metric_value GROSS_MARGIN = ''gross_margin''"
| "metric_value OPERATING_MARGIN = ''operating_margin''"
| "metric_value NET_MARGIN_PARENT = ''net_margin_parent''"
| "metric_value ROE_PARENT = ''roe_parent''"
| "metric_value ROA_TOTAL = ''roa_total''"
| "metric_value ROIC = ''roic''"
| "metric_value OPERATING_CASH_FLOW = ''operating_cash_flow''"
| "metric_value FREE_CASH_FLOW = ''free_cash_flow''"
| "metric_value LIABILITIES_TO_ASSETS = ''liabilities_to_assets''"
| "metric_value NET_DEBT = ''net_debt''"
| "metric_value BASIC_EPS = ''basic_eps''"
| "metric_value DILUTED_EPS = ''diluted_eps''"
| "metric_value MARKET_CAP = ''market_cap''"
| "metric_value PE_TTM_DILUTED = ''pe_ttm_diluted''"
| "metric_value PB_PARENT = ''pb_parent''"
| "metric_value PS_TTM = ''ps_ttm''"
| "metric_value ENTERPRISE_VALUE = ''enterprise_value''"
| "metric_value EV_TO_EBITDA_TTM = ''ev_to_ebitda_ttm''"
| "metric_value FCF_YIELD_TTM = ''fcf_yield_ttm''"
| "metric_value REVENUE_TTM = ''revenue_ttm''"
| "metric_value NET_INCOME_PARENT_TTM = ''net_income_parent_ttm''"
| "metric_value EBITDA_TTM = ''ebitda_ttm''"

datatype metric_value_state = VALUE | ZERO | NULL | NOT_MEANINGFUL

fun value_state_value :: "metric_value_state \<Rightarrow> string" where
  "value_state_value VALUE = ''VALUE''"
| "value_state_value ZERO = ''ZERO''"
| "value_state_value NULL = ''NULL''"
| "value_state_value NOT_MEANINGFUL = ''NOT_MEANINGFUL''"

record formula_input =
  fi_value :: "dec option"
  fi_unit :: string
  fi_currency_code :: "string option"

definition make_formula_input :: "dec option \<Rightarrow> string \<Rightarrow> string option \<Rightarrow> formula_input fin_res" where
  "make_formula_input v unit currency =
     (if unit = [] then Inl (FinValueError ''formula input unit must not be empty'')
      else if (case currency of None \<Rightarrow> False | Some c \<Rightarrow> \<not> iso_currency c)
      then Inl (FinValueError ''currency_code must be an uppercase ISO 4217 token'')
      else Inr \<lparr>fi_value = v, fi_unit = unit, fi_currency_code = currency\<rparr>)"

type_synonym formula_inputs = "(string, formula_input) dict"

record formula_definition =
  fd_metric_code :: metric_code
  fd_name :: string
  fd_formula_expression :: string
  fd_formula_version :: string
  fd_required_inputs :: "string list"
  fd_optional_inputs :: "string list"
  fd_period_requirement :: string
  fd_currency_requirement :: string
  fd_denominator_policy :: string
  fd_negative_value_policy :: string
  fd_status :: string

record metric_result =
  mr_metric_code :: metric_code
  mr_value :: "dec option"
  mr_value_state :: metric_value_state
  mr_unit :: string
  mr_currency_code :: "string option"
  mr_quality_status :: quality_status
  mr_formula_version :: string
  mr_warnings :: "string list"
  mr_consumed_inputs :: "string list"

section \<open>The registry\<close>

definition make_definition ::
  "metric_code \<Rightarrow> string \<Rightarrow> string list \<Rightarrow> string list \<Rightarrow> string \<Rightarrow> string \<Rightarrow> string \<Rightarrow> string \<Rightarrow> formula_definition" where
  "make_definition code expression required optional period currency denominator negative =
     \<lparr>fd_metric_code = code, fd_name = title_case False (underscores_to_spaces (metric_value code)),
      fd_formula_expression = expression, fd_formula_version = ''1.0.0'',
      fd_required_inputs = required, fd_optional_inputs = optional, fd_period_requirement = period,
      fd_currency_requirement = currency, fd_denominator_policy = denominator,
      fd_negative_value_policy = negative, fd_status = ''ACTIVE''\<rparr>"

definition formula_registry :: "formula_definition list" where
  "formula_registry =
    [make_definition REVENUE_GROWTH
       ''(current_revenue - prior_revenue) / prior_revenue''
       [''current_revenue'', ''prior_revenue'']
       []
       ''COMPARABLE_DURATION'' ''SAME_CURRENCY''
       ''NON_POSITIVE_IS_NM'' ''ALLOWED'',
     make_definition GROSS_MARGIN
       ''(revenue - cost_of_revenue) / revenue''
       [''revenue'', ''cost_of_revenue'']
       []
       ''SAME_DURATION'' ''SAME_CURRENCY''
       ''NON_POSITIVE_IS_NM'' ''ALLOWED'',
     make_definition OPERATING_MARGIN
       ''operating_income / revenue''
       [''operating_income'', ''revenue'']
       []
       ''SAME_DURATION'' ''SAME_CURRENCY''
       ''NON_POSITIVE_IS_NM'' ''ALLOWED'',
     make_definition NET_MARGIN_PARENT
       ''net_income_parent / revenue''
       [''net_income_parent'', ''revenue'']
       []
       ''SAME_DURATION'' ''SAME_CURRENCY''
       ''NON_POSITIVE_IS_NM'' ''ALLOWED'',
     make_definition ROE_PARENT
       ''net_income_parent / average(opening_equity_parent, closing_equity_parent)''
       [''net_income_parent'', ''opening_equity_parent'', ''closing_equity_parent'']
       []
       ''DURATION_WITH_OPENING_AND_CLOSING'' ''SAME_CURRENCY''
       ''NON_POSITIVE_IS_NM'' ''ALLOWED'',
     make_definition ROA_TOTAL
       ''net_income_total / average(opening_total_assets, closing_total_assets)''
       [''net_income_total'', ''opening_total_assets'', ''closing_total_assets'']
       []
       ''DURATION_WITH_OPENING_AND_CLOSING'' ''SAME_CURRENCY''
       ''NON_POSITIVE_IS_NM'' ''ALLOWED'',
     make_definition ROIC
       ''nopat / average(opening_invested_capital, closing_invested_capital)''
       [''operating_income'', ''pretax_income'', ''income_tax_expense'',
        ''opening_total_equity'', ''closing_total_equity'', ''opening_total_debt'',
        ''closing_total_debt'', ''opening_cash'', ''closing_cash'']
       []
       ''DURATION_WITH_OPENING_AND_CLOSING'' ''SAME_CURRENCY''
       ''NON_POSITIVE_IS_NM'' ''ALLOWED'',
     make_definition OPERATING_CASH_FLOW
       ''reported_ocf''
       [''reported_ocf'']
       []
       ''DURATION'' ''SAME_CURRENCY''
       ''NOT_APPLICABLE'' ''ALLOWED'',
     make_definition FREE_CASH_FLOW
       ''operating_cash_flow - capital_expenditures''
       [''operating_cash_flow'', ''capital_expenditures'']
       []
       ''SAME_DURATION'' ''SAME_CURRENCY''
       ''NOT_APPLICABLE'' ''ALLOWED'',
     make_definition LIABILITIES_TO_ASSETS
       ''total_liabilities / total_assets''
       [''total_liabilities'', ''total_assets'']
       []
       ''SAME_INSTANT'' ''SAME_CURRENCY''
       ''NON_POSITIVE_IS_NM'' ''NEGATIVE_LIABILITIES_BLOCKED'',
     make_definition NET_DEBT
       ''total_debt - cash''
       [''total_debt'', ''cash'']
       []
       ''SAME_INSTANT'' ''SAME_CURRENCY''
       ''NOT_APPLICABLE'' ''ALLOWED'',
     make_definition BASIC_EPS
       ''reported_basic_eps''
       [''reported_basic_eps'']
       []
       ''EXACT_REPORTED_DURATION'' ''PER_SHARE_CURRENCY''
       ''NOT_APPLICABLE'' ''ALLOWED'',
     make_definition DILUTED_EPS
       ''reported_diluted_eps''
       [''reported_diluted_eps'']
       []
       ''EXACT_REPORTED_DURATION'' ''PER_SHARE_CURRENCY''
       ''NOT_APPLICABLE'' ''ALLOWED'',
     make_definition MARKET_CAP
       ''price * actual_shares_outstanding''
       [''price'', ''actual_shares_outstanding'']
       []
       ''PRICE_DATE'' ''PRICE_CURRENCY''
       ''POSITIVE_PRICE_AND_SHARES'' ''ALLOWED'',
     make_definition PE_TTM_DILUTED
       ''market_cap / net_income_parent_ttm''
       [''market_cap'', ''net_income_parent_ttm'']
       []
       ''POINT_IN_TIME_OVER_TTM'' ''SAME_CURRENCY''
       ''NON_POSITIVE_IS_NM'' ''ALLOWED'',
     make_definition PB_PARENT
       ''market_cap / equity_parent''
       [''market_cap'', ''equity_parent'']
       []
       ''POINT_IN_TIME'' ''SAME_CURRENCY''
       ''NON_POSITIVE_IS_NM'' ''ALLOWED'',
     make_definition PS_TTM
       ''market_cap / revenue_ttm''
       [''market_cap'', ''revenue_ttm'']
       []
       ''POINT_IN_TIME_OVER_TTM'' ''SAME_CURRENCY''
       ''NON_POSITIVE_IS_NM'' ''ALLOWED'',
     make_definition ENTERPRISE_VALUE
       ''market_cap + total_debt + preferred_equity + minority_interest - cash''
       [''market_cap'', ''total_debt'', ''preferred_equity'', ''minority_interest'', ''cash'']
       []
       ''POINT_IN_TIME'' ''SAME_CURRENCY''
       ''NOT_APPLICABLE'' ''ALLOWED'',
     make_definition EV_TO_EBITDA_TTM
       ''enterprise_value / ebitda_ttm''
       [''enterprise_value'', ''ebitda_ttm'']
       []
       ''POINT_IN_TIME_OVER_TTM'' ''SAME_CURRENCY''
       ''NON_POSITIVE_IS_NM'' ''ALLOWED'',
     make_definition FCF_YIELD_TTM
       ''free_cash_flow_ttm / market_cap''
       [''free_cash_flow_ttm'', ''market_cap'']
       []
       ''POINT_IN_TIME_OVER_TTM'' ''SAME_CURRENCY''
       ''NON_POSITIVE_IS_NM'' ''ALLOWED'',
     make_definition REVENUE_TTM
       ''four quarters OR latest_fy + latest_ytd - prior_ytd''
       [''quarter_1'', ''quarter_2'', ''quarter_3'', ''quarter_4'']
       [''latest_fy'', ''latest_ytd'', ''prior_ytd'']
       ''FOUR_COMPARABLE_QUARTERS'' ''SAME_CURRENCY''
       ''NOT_APPLICABLE'' ''ALLOWED'',
     make_definition NET_INCOME_PARENT_TTM
       ''four quarters OR latest_fy + latest_ytd - prior_ytd''
       [''quarter_1'', ''quarter_2'', ''quarter_3'', ''quarter_4'']
       [''latest_fy'', ''latest_ytd'', ''prior_ytd'']
       ''FOUR_COMPARABLE_QUARTERS'' ''SAME_CURRENCY''
       ''NOT_APPLICABLE'' ''ALLOWED'',
     make_definition EBITDA_TTM
       ''four quarters OR latest_fy + latest_ytd - prior_ytd''
       [''quarter_1'', ''quarter_2'', ''quarter_3'', ''quarter_4'']
       [''latest_fy'', ''latest_ytd'', ''prior_ytd'']
       ''FOUR_COMPARABLE_QUARTERS'' ''SAME_CURRENCY''
       ''NOT_APPLICABLE'' ''ALLOWED'']"

definition get_formula :: "metric_code \<Rightarrow> formula_definition fin_res" where
  "get_formula code =
     (case List.find (\<lambda>d. fd_metric_code d = code) formula_registry of
        None \<Rightarrow> Inl (FinKeyError (metric_value code)) | Some d \<Rightarrow> Inr d)"

section \<open>Inputs and results\<close>

fun required :: "formula_inputs \<Rightarrow> string list \<Rightarrow> formula_input list fin_res" where
  "required inputs [] = Inr []"
| "required inputs (role # roles) =
     (case map_of inputs role of
        None \<Rightarrow> Inl (FormulaBlocked (''SOURCE_MISSING:'' @ role))
      | Some item \<Rightarrow>
          if fi_value item = None then Inl (FormulaBlocked (''SOURCE_MISSING:'' @ role))
          else bind_res (required inputs roles) (\<lambda>items. Inr (item # items)))"

text \<open>The one currency and the one unit of the values.\<close>

definition same_amount_basis :: "formula_input list \<Rightarrow> (string \<times> string) fin_res" where
  "same_amount_basis values =
     (case remdups (map fi_currency_code values) of
        [Some currency] \<Rightarrow>
          (case remdups (map fi_unit values) of
             [unit] \<Rightarrow> Inr (currency, unit)
           | _ \<Rightarrow> Inl (FormulaBlocked ''INCOMPATIBLE_UNIT''))
      | _ \<Rightarrow> Inl (FormulaBlocked ''INCOMPATIBLE_CURRENCY''))"

text \<open>The number of an input that \<open>required\<close> has let through.\<close>

definition number :: "formula_input \<Rightarrow> dec" where
  "number i = (case fi_value i of None \<Rightarrow> dec_int 0 | Some v \<Rightarrow> v)"

definition numeric ::
  "metric_code \<Rightarrow> dec \<Rightarrow> string \<Rightarrow> string option \<Rightarrow> string list \<Rightarrow> string list \<Rightarrow> metric_result fin_res" where
  "numeric code v unit currency roles warnings =
     bind_res (get_formula code) (\<lambda>definition.
       Inr \<lparr>mr_metric_code = code, mr_value = Some v,
            mr_value_state = (if dec_zero v then ZERO else VALUE), mr_unit = unit,
            mr_currency_code = currency,
            mr_quality_status = (if warnings \<noteq> [] then PARTIAL else PASS),
            mr_formula_version = fd_formula_version definition, mr_warnings = warnings,
            mr_consumed_inputs = roles\<rparr>)"

definition amount_outputs :: "metric_code list" where
  "amount_outputs = [OPERATING_CASH_FLOW, FREE_CASH_FLOW, NET_DEBT, MARKET_CAP, ENTERPRISE_VALUE,
     REVENUE_TTM, NET_INCOME_PARENT_TTM, EBITDA_TTM]"

definition per_share_outputs :: "metric_code list" where
  "per_share_outputs = [BASIC_EPS, DILUTED_EPS]"

definition non_numeric ::
  "metric_code \<Rightarrow> metric_value_state \<Rightarrow> string \<Rightarrow> string list \<Rightarrow> metric_result fin_res" where
  "non_numeric code state warning roles =
     bind_res (get_formula code) (\<lambda>definition.
       Inr \<lparr>mr_metric_code = code, mr_value = None, mr_value_state = state,
            mr_unit = (if code \<in> set amount_outputs then ''ONE''
                       else if code \<in> set per_share_outputs then ''PER_SHARE'' else ''RATIO''),
            mr_currency_code = None,
            mr_quality_status = (if state = NULL then BLOCKED else PASS),
            mr_formula_version = fd_formula_version definition, mr_warnings = [warning],
            mr_consumed_inputs = roles\<rparr>)"

definition not_meaningful :: "metric_code \<Rightarrow> string list \<Rightarrow> metric_result fin_res" where
  "not_meaningful code roles = non_numeric code NOT_MEANINGFUL ''DENOMINATOR_NON_POSITIVE'' roles"

section \<open>Implementations\<close>

definition ratio_formula ::
  "metric_code \<Rightarrow> formula_inputs \<Rightarrow> string \<Rightarrow> string \<Rightarrow> string option \<Rightarrow> metric_result fin_res" where
  "ratio_formula code inputs numerator_role denominator_role negative_warning =
     (let roles = [numerator_role, denominator_role] in
      bind_res (required inputs roles) (\<lambda>values.
      bind_res (same_amount_basis values) (\<lambda>_.
        let numerator = number (values ! 0); denominator = number (values ! 1)
        in if dec_nonpos denominator then not_meaningful code roles
           else let result = dec_div numerator denominator;
                    warnings = (case negative_warning of None \<Rightarrow> []
                                | Some w \<Rightarrow> if dec_neg result then [w] else [])
                in numeric code result ''RATIO'' None roles warnings)))"

definition revenue_growth :: "formula_inputs \<Rightarrow> metric_result fin_res" where
  "revenue_growth inputs =
     (let roles = [''current_revenue'', ''prior_revenue''] in
      bind_res (required inputs roles) (\<lambda>values.
      bind_res (same_amount_basis values) (\<lambda>_.
        let current = number (values ! 0); prior = number (values ! 1)
        in if dec_nonpos prior then not_meaningful REVENUE_GROWTH roles
           else numeric REVENUE_GROWTH (dec_div (dec_sub current prior) prior) ''RATIO'' None roles
                  (if dec_neg current then [''NEGATIVE_CURRENT_REVENUE''] else []))))"

definition average_return ::
  "metric_code \<Rightarrow> formula_inputs \<Rightarrow> string \<Rightarrow> string \<Rightarrow> string \<Rightarrow> metric_result fin_res" where
  "average_return code inputs numerator_role opening_role closing_role =
     (let roles = [numerator_role, opening_role, closing_role] in
      bind_res (required inputs roles) (\<lambda>values.
      bind_res (same_amount_basis values) (\<lambda>_.
        let average = dec_div (dec_add (number (values ! 1)) (number (values ! 2))) (dec_int 2)
        in if dec_nonpos average then not_meaningful code roles
           else numeric code (dec_div (number (values ! 0)) average) ''RATIO'' None roles [])))"

text \<open>The values in the order of the roles: income and taxes, then equity, debt and cash, each
  opening and closing.\<close>

definition roic_value :: "string list \<Rightarrow> dec list \<Rightarrow> metric_result fin_res" where
  "roic_value roles vs =
     (let operating_income = vs ! 0; pretax = vs ! 1; tax = vs ! 2 in
      if dec_nonpos pretax then non_numeric ROIC NULL ''EFFECTIVE_TAX_RATE_UNUSABLE'' roles
      else let tax_rate = dec_div tax pretax in
        if dec_neg tax_rate \<or> dec_less (dec_int 1) tax_rate
        then non_numeric ROIC NULL ''EFFECTIVE_TAX_RATE_UNUSABLE'' roles
        else let opening_capital = dec_sub (dec_add (vs ! 3) (vs ! 5)) (vs ! 7);
                 closing_capital = dec_sub (dec_add (vs ! 4) (vs ! 6)) (vs ! 8);
                 average_capital = dec_div (dec_add opening_capital closing_capital) (dec_int 2)
          in if dec_nonpos average_capital then not_meaningful ROIC roles
             else let nopat = dec_mul operating_income (dec_sub (dec_int 1) tax_rate)
               in numeric ROIC (dec_div nopat average_capital) ''RATIO'' None roles [])"

definition roic :: "formula_inputs \<Rightarrow> metric_result fin_res" where
  "roic inputs =
     bind_res (get_formula ROIC) (\<lambda>definition.
     bind_res (required inputs (fd_required_inputs definition)) (\<lambda>values.
     bind_res (same_amount_basis values) (\<lambda>_. roic_value (fd_required_inputs definition) (map number values))))"

definition signed_amount ::
  "metric_code \<Rightarrow> formula_inputs \<Rightarrow> string list \<Rightarrow> (dec list \<Rightarrow> dec) \<Rightarrow> metric_result fin_res" where
  "signed_amount code inputs roles operation =
     bind_res (required inputs roles) (\<lambda>values.
     bind_res (same_amount_basis values) (\<lambda>(currency, unit).
       numeric code (operation (map number values)) unit (Some currency) roles []))"

definition quarter_roles :: "string list" where
  "quarter_roles = [''quarter_1'', ''quarter_2'', ''quarter_3'', ''quarter_4'']"

definition bridge_roles :: "string list" where
  "bridge_roles = [''latest_fy'', ''latest_ytd'', ''prior_ytd'']"

definition has_role :: "formula_inputs \<Rightarrow> string \<Rightarrow> bool" where
  "has_role inputs role \<longleftrightarrow> map_of inputs role \<noteq> None"

definition ttm_amount :: "metric_code \<Rightarrow> formula_inputs \<Rightarrow> metric_result fin_res" where
  "ttm_amount code inputs =
     (if list_all (has_role inputs) quarter_roles then signed_amount code inputs quarter_roles dec_sum
      else if list_all (has_role inputs) bridge_roles
      then signed_amount code inputs bridge_roles (\<lambda>vs. dec_sub (dec_add (vs ! 0) (vs ! 1)) (vs ! 2))
      else Inl (FormulaBlocked ''SOURCE_MISSING:TTM_COMPARABLE_INPUT_SET''))"

definition reported_eps :: "metric_code \<Rightarrow> string \<Rightarrow> formula_inputs \<Rightarrow> metric_result fin_res" where
  "reported_eps code role inputs =
     bind_res (required inputs [role]) (\<lambda>values.
       let v = values ! 0
       in if fi_unit v \<noteq> ''PER_SHARE'' \<or> fi_currency_code v = None
          then Inl (FormulaBlocked ''INCOMPATIBLE_UNIT'')
          else numeric code (number v) ''PER_SHARE'' (fi_currency_code v) [role] [])"

definition market_cap :: "formula_inputs \<Rightarrow> metric_result fin_res" where
  "market_cap inputs =
     (let roles = [''price'', ''actual_shares_outstanding''] in
      bind_res (required inputs roles) (\<lambda>values.
        let price = values ! 0; shares = values ! 1
        in if fi_unit price \<noteq> ''PER_SHARE'' \<or> fi_unit shares \<noteq> ''SHARES''
           then Inl (FormulaBlocked ''INCOMPATIBLE_UNIT'')
           else if fi_currency_code price = None \<or> fi_currency_code shares \<noteq> None
           then Inl (FormulaBlocked ''INCOMPATIBLE_CURRENCY'')
           else if dec_nonpos (number price) \<or> dec_nonpos (number shares)
           then non_numeric MARKET_CAP NOT_MEANINGFUL ''NON_POSITIVE_PRICE_OR_SHARES'' roles
           else numeric MARKET_CAP (dec_mul (number price) (number shares)) ''ONE''
                  (fi_currency_code price) roles []))"

definition enterprise_value :: "formula_inputs \<Rightarrow> metric_result fin_res" where
  "enterprise_value inputs =
     bind_res (get_formula ENTERPRISE_VALUE) (\<lambda>definition.
       let roles = fd_required_inputs definition in
       bind_res (required inputs roles) (\<lambda>values.
       bind_res (same_amount_basis values) (\<lambda>(currency, unit).
         let vs = map number values;
             result = dec_sub (dec_add (dec_add (dec_add (vs ! 0) (vs ! 1)) (vs ! 2)) (vs ! 3)) (vs ! 4)
         in numeric ENTERPRISE_VALUE result unit (Some currency) roles
              (if dec_neg result then [''NEGATIVE_ENTERPRISE_VALUE''] else []))))"

definition ev_to_ebitda :: "formula_inputs \<Rightarrow> metric_result fin_res" where
  "ev_to_ebitda inputs =
     bind_res (ratio_formula EV_TO_EBITDA_TTM inputs ''enterprise_value'' ''ebitda_ttm'' None) (\<lambda>result.
       if (case mr_value result of None \<Rightarrow> False | Some v \<Rightarrow> dec_neg v)
       then Inr (result\<lparr>mr_quality_status := PARTIAL, mr_warnings := [''NEGATIVE_ENTERPRISE_VALUE'']\<rparr>)
       else Inr result)"

definition liabilities_to_assets :: "formula_inputs \<Rightarrow> metric_result fin_res" where
  "liabilities_to_assets inputs =
     (if (case map_of inputs ''total_liabilities'' of None \<Rightarrow> False
          | Some i \<Rightarrow> (case fi_value i of None \<Rightarrow> False | Some v \<Rightarrow> dec_neg v))
      then non_numeric LIABILITIES_TO_ASSETS NULL ''NEGATIVE_LIABILITIES_REJECTED'' []
      else ratio_formula LIABILITIES_TO_ASSETS inputs ''total_liabilities'' ''total_assets'' None)"

definition gross_margin :: "formula_inputs \<Rightarrow> metric_result fin_res" where
  "gross_margin inputs =
     (let roles = [''revenue'', ''cost_of_revenue''] in
      bind_res (required inputs roles) (\<lambda>values.
      bind_res (same_amount_basis values) (\<lambda>_.
        let revenue = number (values ! 0); cost = number (values ! 1)
        in if dec_nonpos revenue then not_meaningful GROSS_MARGIN roles
           else let result = dec_div (dec_sub revenue cost) revenue
                in numeric GROSS_MARGIN result ''RATIO'' None roles
                     (if dec_neg result then [''NEGATIVE_GROSS_MARGIN''] else []))))"

fun implementation :: "metric_code \<Rightarrow> formula_inputs \<Rightarrow> metric_result fin_res" where
  "implementation REVENUE_GROWTH inputs = revenue_growth inputs"
| "implementation GROSS_MARGIN inputs = gross_margin inputs"
| "implementation OPERATING_MARGIN inputs =
     ratio_formula OPERATING_MARGIN inputs ''operating_income'' ''revenue'' (Some ''NEGATIVE_OPERATING_MARGIN'')"
| "implementation NET_MARGIN_PARENT inputs =
     ratio_formula NET_MARGIN_PARENT inputs ''net_income_parent'' ''revenue'' (Some ''NEGATIVE_NET_MARGIN'')"
| "implementation ROE_PARENT inputs =
     average_return ROE_PARENT inputs ''net_income_parent'' ''opening_equity_parent'' ''closing_equity_parent''"
| "implementation ROA_TOTAL inputs =
     average_return ROA_TOTAL inputs ''net_income_total'' ''opening_total_assets'' ''closing_total_assets''"
| "implementation ROIC inputs = roic inputs"
| "implementation OPERATING_CASH_FLOW inputs =
     signed_amount OPERATING_CASH_FLOW inputs [''reported_ocf''] (\<lambda>vs. vs ! 0)"
| "implementation FREE_CASH_FLOW inputs =
     signed_amount FREE_CASH_FLOW inputs [''operating_cash_flow'', ''capital_expenditures'']
       (\<lambda>vs. dec_sub (vs ! 0) (vs ! 1))"
| "implementation LIABILITIES_TO_ASSETS inputs = liabilities_to_assets inputs"
| "implementation NET_DEBT inputs =
     signed_amount NET_DEBT inputs [''total_debt'', ''cash''] (\<lambda>vs. dec_sub (vs ! 0) (vs ! 1))"
| "implementation BASIC_EPS inputs = reported_eps BASIC_EPS ''reported_basic_eps'' inputs"
| "implementation DILUTED_EPS inputs = reported_eps DILUTED_EPS ''reported_diluted_eps'' inputs"
| "implementation MARKET_CAP inputs = market_cap inputs"
| "implementation PE_TTM_DILUTED inputs =
     ratio_formula PE_TTM_DILUTED inputs ''market_cap'' ''net_income_parent_ttm'' None"
| "implementation PB_PARENT inputs = ratio_formula PB_PARENT inputs ''market_cap'' ''equity_parent'' None"
| "implementation PS_TTM inputs = ratio_formula PS_TTM inputs ''market_cap'' ''revenue_ttm'' None"
| "implementation ENTERPRISE_VALUE inputs = enterprise_value inputs"
| "implementation EV_TO_EBITDA_TTM inputs = ev_to_ebitda inputs"
| "implementation FCF_YIELD_TTM inputs =
     ratio_formula FCF_YIELD_TTM inputs ''free_cash_flow_ttm'' ''market_cap'' None"
| "implementation REVENUE_TTM inputs = ttm_amount REVENUE_TTM inputs"
| "implementation NET_INCOME_PARENT_TTM inputs = ttm_amount NET_INCOME_PARENT_TTM inputs"
| "implementation EBITDA_TTM inputs = ttm_amount EBITDA_TTM inputs"

definition execute_formula :: "metric_code \<Rightarrow> formula_inputs \<Rightarrow> metric_result fin_res" where
  "execute_formula code inputs =
     bind_res (get_formula code) (\<lambda>definition.
       case implementation (fd_metric_code definition) inputs of
         Inl (FormulaBlocked warning) \<Rightarrow> non_numeric (fd_metric_code definition) NULL warning []
       | r \<Rightarrow> r)"

section \<open>Every formula gives a well-formed result\<close>

lemma make_definition_simps [simp]:
  "fd_metric_code (make_definition c e r o1 p cu dn n) = c"
  "fd_formula_version (make_definition c e r o1 p cu dn n) = ''1.0.0''"
  "fd_required_inputs (make_definition c e r o1 p cu dn n) = r"
  by (simp_all add: make_definition_def)

lemma registry_codes:
  "map fd_metric_code formula_registry =
    [REVENUE_GROWTH, GROSS_MARGIN, OPERATING_MARGIN, NET_MARGIN_PARENT, ROE_PARENT, ROA_TOTAL, ROIC,
     OPERATING_CASH_FLOW, FREE_CASH_FLOW, LIABILITIES_TO_ASSETS, NET_DEBT, BASIC_EPS, DILUTED_EPS,
     MARKET_CAP, PE_TTM_DILUTED, PB_PARENT, PS_TTM, ENTERPRISE_VALUE, EV_TO_EBITDA_TTM, FCF_YIELD_TTM,
     REVENUE_TTM, NET_INCOME_PARENT_TTM, EBITDA_TTM]"
  unfolding formula_registry_def by (simp only: list.map make_definition_simps)

lemma registry_versions: "\<forall>d\<in>set formula_registry. fd_formula_version d = ''1.0.0''"
  unfolding formula_registry_def by (simp only: list.set ball_simps make_definition_simps simp_thms)

lemma get_formula_total:
  "\<exists>d. get_formula code = Inr d \<and> fd_metric_code d = code \<and> fd_formula_version d = ''1.0.0''"
proof -
  have "code \<in> set (map fd_metric_code formula_registry)"
    unfolding registry_codes by (cases code) simp_all
  then have "List.find (\<lambda>d. fd_metric_code d = code) formula_registry \<noteq> None" by (auto simp: find_None_iff)
  then obtain d where f: "List.find (\<lambda>d. fd_metric_code d = code) formula_registry = Some d" by auto
  from find_SomeD [OF f] registry_versions f show ?thesis by (auto simp: get_formula_def)
qed

definition result_ok :: "metric_code \<Rightarrow> metric_result \<Rightarrow> bool" where
  "result_ok code r \<longleftrightarrow> mr_metric_code r = code \<and> mr_formula_version r = ''1.0.0'' \<and>
     (case mr_value r of
        None \<Rightarrow> mr_warnings r \<noteq> [] \<and>
          (mr_value_state r = NULL \<and> mr_quality_status r = BLOCKED \<or>
           mr_value_state r = NOT_MEANINGFUL \<and> mr_quality_status r = PASS)
      | Some v \<Rightarrow> mr_value_state r = (if dec_val v = 0 then ZERO else VALUE) \<and>
          mr_quality_status r = (if mr_warnings r = [] then PASS else PARTIAL))"

text \<open>An implementation either is blocked or gives a well-formed result.\<close>

definition blocked_or_ok :: "metric_code \<Rightarrow> metric_result fin_res \<Rightarrow> bool" where
  "blocked_or_ok code x = (case x of
     Inl e \<Rightarrow> (\<exists>w. e = FormulaBlocked w) | Inr r \<Rightarrow> result_ok code r)"

lemma blocked_or_ok_simps [simp]:
  "blocked_or_ok code (Inl (FormulaBlocked w))" "blocked_or_ok code (Inr r) = result_ok code r"
  by (simp_all add: blocked_or_ok_def)

lemma required_blocked: "required inputs roles = Inl e \<Longrightarrow> \<exists>w. e = FormulaBlocked w"
  by (induction roles) (auto simp: bind_res_eq_Inl split: option.splits if_splits)

lemma basis_blocked: "same_amount_basis vals = Inl e \<Longrightarrow> \<exists>w. e = FormulaBlocked w"
  by (auto simp: same_amount_basis_def split: list.splits option.splits)

lemma blocked_or_ok_required [intro]:
  "(\<And>vals. required inputs roles = Inr vals \<Longrightarrow> blocked_or_ok code (f vals)) \<Longrightarrow>
   blocked_or_ok code (bind_res (required inputs roles) f)"
  by (cases "required inputs roles") (auto simp: blocked_or_ok_def dest: required_blocked)

lemma blocked_or_ok_basis [intro]:
  "(\<And>cu. same_amount_basis vals = Inr cu \<Longrightarrow> blocked_or_ok code (f cu)) \<Longrightarrow>
   blocked_or_ok code (bind_res (same_amount_basis vals) f)"
  by (cases "same_amount_basis vals") (auto simp: blocked_or_ok_def dest: basis_blocked)

lemma blocked_or_ok_get_formula [intro]:
  "(\<And>d. get_formula c = Inr d \<Longrightarrow> fd_formula_version d = ''1.0.0'' \<Longrightarrow> blocked_or_ok code (f d)) \<Longrightarrow>
   blocked_or_ok code (bind_res (get_formula c) f)"
  using get_formula_total [of c] by auto

lemma numeric_ok: "blocked_or_ok code (numeric code v unit currency roles warnings)"
  unfolding numeric_def
  by (rule blocked_or_ok_get_formula) (simp add: result_ok_def dec_sign_iff)

lemma non_numeric_ok:
  "state = NULL \<or> state = NOT_MEANINGFUL \<Longrightarrow> blocked_or_ok code (non_numeric code state w roles)"
  unfolding non_numeric_def
  by (rule blocked_or_ok_get_formula) (auto simp: result_ok_def)

lemma not_meaningful_ok: "blocked_or_ok code (not_meaningful code roles)"
  by (simp add: not_meaningful_def non_numeric_ok)

lemmas formula_parts_ok = numeric_ok non_numeric_ok not_meaningful_ok

lemma ratio_formula_ok: "blocked_or_ok code (ratio_formula code inputs n d w)"
  unfolding ratio_formula_def Let_def
  by (intro blocked_or_ok_required blocked_or_ok_basis) (simp add: formula_parts_ok)

lemma ev_to_ebitda_ok: "blocked_or_ok EV_TO_EBITDA_TTM (ev_to_ebitda inputs)"
  using ratio_formula_ok [of EV_TO_EBITDA_TTM inputs "''enterprise_value''" "''ebitda_ttm''" None]
  by (cases "ratio_formula EV_TO_EBITDA_TTM inputs ''enterprise_value'' ''ebitda_ttm'' None")
    (auto simp: ev_to_ebitda_def blocked_or_ok_def result_ok_def split: option.splits)

lemma revenue_growth_ok: "blocked_or_ok REVENUE_GROWTH (revenue_growth inputs)"
  unfolding revenue_growth_def Let_def
  by (intro blocked_or_ok_required blocked_or_ok_basis) (simp add: formula_parts_ok)

lemma gross_margin_ok: "blocked_or_ok GROSS_MARGIN (gross_margin inputs)"
  unfolding gross_margin_def Let_def
  by (intro blocked_or_ok_required blocked_or_ok_basis) (simp add: formula_parts_ok)

lemma average_return_ok: "blocked_or_ok code (average_return code inputs n a b)"
  unfolding average_return_def Let_def
  by (intro blocked_or_ok_required blocked_or_ok_basis) (simp add: formula_parts_ok)

lemma roic_ok: "blocked_or_ok ROIC (roic inputs)"
  unfolding roic_def roic_value_def Let_def
  by (intro blocked_or_ok_get_formula blocked_or_ok_required blocked_or_ok_basis)
    (simp add: formula_parts_ok)

lemma signed_amount_ok: "blocked_or_ok code (signed_amount code inputs roles f)"
  unfolding signed_amount_def
  by (intro blocked_or_ok_required blocked_or_ok_basis) (simp add: formula_parts_ok split: prod.split)

lemma ttm_amount_ok: "blocked_or_ok code (ttm_amount code inputs)"
  by (simp add: ttm_amount_def signed_amount_ok)

lemma reported_eps_ok: "blocked_or_ok code (reported_eps code role inputs)"
  unfolding reported_eps_def Let_def
  by (intro blocked_or_ok_required) (simp add: formula_parts_ok)

lemma market_cap_ok: "blocked_or_ok MARKET_CAP (market_cap inputs)"
  unfolding market_cap_def Let_def
  by (intro blocked_or_ok_required) (simp add: formula_parts_ok)

lemma enterprise_value_ok: "blocked_or_ok ENTERPRISE_VALUE (enterprise_value inputs)"
  unfolding enterprise_value_def Let_def
  by (intro blocked_or_ok_get_formula blocked_or_ok_required blocked_or_ok_basis)
    (simp add: formula_parts_ok split: prod.split)

lemma liabilities_to_assets_ok: "blocked_or_ok LIABILITIES_TO_ASSETS (liabilities_to_assets inputs)"
  unfolding liabilities_to_assets_def by (simp add: formula_parts_ok ratio_formula_ok)

lemma implementation_ok: "blocked_or_ok code (implementation code inputs)"
  by (cases code) (simp_all add: revenue_growth_ok gross_margin_ok ratio_formula_ok average_return_ok
      roic_ok signed_amount_ok liabilities_to_assets_ok reported_eps_ok market_cap_ok
      enterprise_value_ok ev_to_ebitda_ok ttm_amount_ok)

lemma execute_formula_cases:
  "(\<exists>w. implementation code inputs = Inl (FormulaBlocked w) \<and>
      execute_formula code inputs = non_numeric code NULL w []) \<or>
   (\<exists>r. implementation code inputs = Inr r \<and> execute_formula code inputs = Inr r \<and> result_ok code r)"
proof -
  obtain d where d: "get_formula code = Inr d" "fd_metric_code d = code" using get_formula_total by blast
  show ?thesis using implementation_ok [of code inputs]
    by (cases "implementation code inputs") (auto simp: execute_formula_def d blocked_or_ok_def)
qed

lemma execute_formula_total: "\<exists>r. execute_formula code inputs = Inr r \<and> result_ok code r"
proof -
  have "\<exists>r. non_numeric code NULL w [] = Inr r \<and> result_ok code r" for w
    using non_numeric_ok [of NULL code w "[]"] get_formula_total [of code]
    by (auto simp: non_numeric_def)
  then show ?thesis using execute_formula_cases [of code inputs] by metis
qed

section \<open>Results against exact arithmetic\<close>

text \<open>The formula expressions of the registry, read on rational numbers.\<close>

fun formula_reference :: "metric_code \<Rightarrow> (string \<Rightarrow> rat) \<Rightarrow> rat" where
  "formula_reference REVENUE_GROWTH x = (x ''current_revenue'' - x ''prior_revenue'') / x ''prior_revenue''"
| "formula_reference GROSS_MARGIN x = (x ''revenue'' - x ''cost_of_revenue'') / x ''revenue''"
| "formula_reference OPERATING_MARGIN x = x ''operating_income'' / x ''revenue''"
| "formula_reference NET_MARGIN_PARENT x = x ''net_income_parent'' / x ''revenue''"
| "formula_reference ROE_PARENT x =
     x ''net_income_parent'' / ((x ''opening_equity_parent'' + x ''closing_equity_parent'') / 2)"
| "formula_reference ROA_TOTAL x =
     x ''net_income_total'' / ((x ''opening_total_assets'' + x ''closing_total_assets'') / 2)"
| "formula_reference OPERATING_CASH_FLOW x = x ''reported_ocf''"
| "formula_reference FREE_CASH_FLOW x = x ''operating_cash_flow'' - x ''capital_expenditures''"
| "formula_reference LIABILITIES_TO_ASSETS x = x ''total_liabilities'' / x ''total_assets''"
| "formula_reference NET_DEBT x = x ''total_debt'' - x ''cash''"
| "formula_reference BASIC_EPS x = x ''reported_basic_eps''"
| "formula_reference DILUTED_EPS x = x ''reported_diluted_eps''"
| "formula_reference MARKET_CAP x = x ''price'' * x ''actual_shares_outstanding''"
| "formula_reference PE_TTM_DILUTED x = x ''market_cap'' / x ''net_income_parent_ttm''"
| "formula_reference PB_PARENT x = x ''market_cap'' / x ''equity_parent''"
| "formula_reference PS_TTM x = x ''market_cap'' / x ''revenue_ttm''"
| "formula_reference EV_TO_EBITDA_TTM x = x ''enterprise_value'' / x ''ebitda_ttm''"
| "formula_reference FCF_YIELD_TTM x = x ''free_cash_flow_ttm'' / x ''market_cap''"
| "formula_reference _ x = 0"

text \<open>The metrics whose implementation rounds no intermediate sum that can cancel.\<close>

definition stable_metric :: "metric_code \<Rightarrow> bool" where
  "stable_metric code \<longleftrightarrow>
     code \<notin> {ROIC, ENTERPRISE_VALUE, REVENUE_TTM, NET_INCOME_PARENT_TTM, EBITDA_TTM}"

definition input_value :: "formula_inputs \<Rightarrow> string \<Rightarrow> rat" where
  "input_value inputs role = (case map_of inputs role of None \<Rightarrow> 0 | Some i \<Rightarrow> dec_val (number i))"

lemma required_values:
  "required inputs roles = Inr vals \<Longrightarrow>
   length vals = length roles \<and> map (dec_val \<circ> number) vals = map (input_value inputs) roles \<and>
   (\<forall>role\<in>set roles. \<exists>i d. map_of inputs role = Some i \<and> fi_value i = Some d)"
  by (induction roles arbitrary: vals)
    (auto simp: input_value_def split: option.splits if_splits)

lemma required_two:
  "required inputs [a, b] = Inr vals \<Longrightarrow>
   dec_val (number (vals ! 0)) = input_value inputs a \<and> dec_val (number (vals ! 1)) = input_value inputs b"
  using required_values [of inputs "[a, b]" vals] by (cases vals; cases "tl vals") auto

lemma required_three:
  "required inputs [a, b, c] = Inr vals \<Longrightarrow>
   dec_val (number (vals ! 0)) = input_value inputs a \<and> dec_val (number (vals ! 1)) = input_value inputs b \<and>
   dec_val (number (vals ! 2)) = input_value inputs c"
  using required_values [of inputs "[a, b, c]" vals]
  by (cases vals; cases "tl vals"; cases "tl (tl vals)") auto

lemma numeric_value: "numeric code v unit currency roles warnings = Inr r \<Longrightarrow> mr_value r = Some v"
  by (auto simp: numeric_def)

lemma non_numeric_value: "non_numeric code state w roles = Inr r \<Longrightarrow> mr_value r = None"
  by (auto simp: non_numeric_def)

lemmas formula_values = numeric_value non_numeric_value

definition metric_eps :: rat where "metric_eps = 5 / 10 ^ 27"

lemma div_after_close:
  assumes "rel_close (1 / 10 ^ 27) a A" and "dec_val b \<noteq> 0" and "dec_val x = a"
  shows "rel_close metric_eps (dec_val (dec_div x b)) (A / dec_val b)"
proof -
  have "rel_close (1 / 10 ^ 27) (dec_val x / dec_val b) (A / dec_val b)"
    using rel_close_div_num [OF assms(1), of "dec_val b"] assms(3) by simp
  from rel_close_trans [OF dec_div_close [OF assms(2), of x] this]
  show ?thesis by (rule rel_close_mono) (simp_all add: metric_eps_def)
qed

lemma ratio_formula_close:
  assumes "ratio_formula code inputs n d w = Inr r" and "mr_value r = Some v"
  shows "rel_close metric_eps (dec_val v) (input_value inputs n / input_value inputs d)"
proof -
  obtain vals where req: "required inputs [n, d] = Inr vals"
    using assms(1) by (auto simp: ratio_formula_def Let_def)
  note two = required_two [OF req]
  have v: "v = dec_div (number (vals ! 0)) (number (vals ! 1))" and pos: "\<not> dec_nonpos (number (vals ! 1))"
    using assms req by (auto simp: ratio_formula_def Let_def not_meaningful_def dest: formula_values
        split: if_splits)
  show ?thesis
    using div_after_close [of "input_value inputs n" "input_value inputs n" "number (vals ! 1)" "number (vals ! 0)"]
      two pos unfolding v by (simp add: dec_sign_iff)
qed

lemma difference_ratio_close:
  assumes "\<not> dec_nonpos b"
  shows "rel_close metric_eps (dec_val (dec_div (dec_sub x y) b)) ((dec_val x - dec_val y) / dec_val b)"
proof -
  have "rel_close (1 / 10 ^ 27) (dec_val (dec_sub x y)) (dec_val x - dec_val y)"
    using dec_sub_close by (rule rel_close_mono) (simp add: half_ulp_def)
  then show ?thesis using assms by (intro div_after_close) (auto simp: dec_sign_iff)
qed

lemma revenue_growth_close:
  assumes "revenue_growth inputs = Inr r" and "mr_value r = Some v"
  shows "rel_close metric_eps (dec_val v) (formula_reference REVENUE_GROWTH (input_value inputs))"
proof -
  obtain vals where req: "required inputs [''current_revenue'', ''prior_revenue''] = Inr vals"
    using assms(1) by (auto simp: revenue_growth_def Let_def)
  have v: "v = dec_div (dec_sub (number (vals ! 0)) (number (vals ! 1))) (number (vals ! 1))"
    and pos: "\<not> dec_nonpos (number (vals ! 1))"
    using assms req by (auto simp: revenue_growth_def Let_def not_meaningful_def dest: formula_values
        split: if_splits)
  show ?thesis using difference_ratio_close [OF pos, of "number (vals ! 0)" "number (vals ! 1)"]
      required_two [OF req] by (simp add: v)
qed

lemma gross_margin_close:
  assumes "gross_margin inputs = Inr r" and "mr_value r = Some v"
  shows "rel_close metric_eps (dec_val v) (formula_reference GROSS_MARGIN (input_value inputs))"
proof -
  obtain vals where req: "required inputs [''revenue'', ''cost_of_revenue''] = Inr vals"
    using assms(1) by (auto simp: gross_margin_def Let_def)
  have v: "v = dec_div (dec_sub (number (vals ! 0)) (number (vals ! 1))) (number (vals ! 0))"
    and pos: "\<not> dec_nonpos (number (vals ! 0))"
    using assms req by (auto simp: gross_margin_def Let_def not_meaningful_def dest: formula_values
        split: if_splits)
  show ?thesis using difference_ratio_close [OF pos, of "number (vals ! 0)" "number (vals ! 1)"]
      required_two [OF req] by (simp add: v)
qed

lemma average_close:
  "rel_close (16 / 10 ^ 28) (dec_val (dec_div (dec_add a b) (dec_int 2))) ((dec_val a + dec_val b) / 2)"
proof -
  have "rel_close half_ulp (dec_val (dec_add a b) / 2) ((dec_val a + dec_val b) / 2)"
    by (rule rel_close_div_num [OF dec_add_close])
  moreover have "rel_close (1 / 10 ^ 27) (dec_val (dec_div (dec_add a b) (dec_int 2))) (dec_val (dec_add a b) / 2)"
    using dec_div_close [of "dec_int 2" "dec_add a b"] by simp
  ultimately have "rel_close (1 / 10 ^ 27 + half_ulp + 1 / 10 ^ 27 * half_ulp)
      (dec_val (dec_div (dec_add a b) (dec_int 2))) ((dec_val a + dec_val b) / 2)"
    by (intro rel_close_trans) simp_all
  then show ?thesis by (rule rel_close_mono) (simp add: half_ulp_def)
qed

lemma average_return_close:
  assumes "average_return code inputs n a b = Inr r" and "mr_value r = Some v"
  shows "rel_close (43 / 10 ^ 28) (dec_val v)
    (input_value inputs n / ((input_value inputs a + input_value inputs b) / 2))"
proof -
  obtain vals where req: "required inputs [n, a, b] = Inr vals"
    using assms(1) by (auto simp: average_return_def Let_def)
  let ?avg = "dec_div (dec_add (number (vals ! 1)) (number (vals ! 2))) (dec_int 2)"
  have v: "v = dec_div (number (vals ! 0)) ?avg" and pos: "\<not> dec_nonpos ?avg"
    using assms req by (auto simp: average_return_def Let_def not_meaningful_def dest: formula_values
        split: if_splits)
  have avg: "rel_close (16 / 10 ^ 28) (dec_val ?avg) ((input_value inputs a + input_value inputs b) / 2)"
    using average_close [of "number (vals ! 1)" "number (vals ! 2)"] required_three [OF req] by simp
  have nz: "(input_value inputs a + input_value inputs b) / 2 \<noteq> 0" "dec_val ?avg \<noteq> 0"
    using rel_close_sgn(3) [OF avg] pos by (auto simp: dec_sign_iff)
  have "rel_close (2 * (16 / 10 ^ 28)) (input_value inputs n / dec_val ?avg)
      (input_value inputs n / ((input_value inputs a + input_value inputs b) / 2))"
    by (rule rel_close_div_den [OF avg _ _ nz(1)]) simp_all
  moreover have "rel_close (1 / 10 ^ 27) (dec_val v) (input_value inputs n / dec_val ?avg)"
    using dec_div_close [OF nz(2), of "number (vals ! 0)"] required_three [OF req] by (simp add: v)
  ultimately have "rel_close (1 / 10 ^ 27 + 2 * (16 / 10 ^ 28) + 1 / 10 ^ 27 * (2 * (16 / 10 ^ 28)))
      (dec_val v) (input_value inputs n / ((input_value inputs a + input_value inputs b) / 2))"
    by (intro rel_close_trans) simp_all
  then show ?thesis by (rule rel_close_mono) simp
qed

lemma signed_amount_value:
  assumes "signed_amount code inputs roles f = Inr r" and "mr_value r = Some v"
  shows "\<exists>vals. required inputs roles = Inr vals \<and> v = f (map number vals)"
  using assms by (auto simp: signed_amount_def dest: formula_values split: prod.splits)

lemma signed_difference_close:
  assumes "signed_amount code inputs [a, b] (\<lambda>vs. dec_sub (vs ! 0) (vs ! 1)) = Inr r" and "mr_value r = Some v"
  shows "rel_close metric_eps (dec_val v) (input_value inputs a - input_value inputs b)"
proof -
  obtain vals where req: "required inputs [a, b] = Inr vals"
    and v: "v = dec_sub (map number vals ! 0) (map number vals ! 1)"
    using signed_amount_value [OF assms] by auto
  have "length vals = 2" using required_values [OF req] by simp
  then have "v = dec_sub (number (vals ! 0)) (number (vals ! 1))" using v by simp
  then have "rel_close half_ulp (dec_val v) (input_value inputs a - input_value inputs b)"
    using dec_sub_close [of "number (vals ! 0)" "number (vals ! 1)"] required_two [OF req] by simp
  then show ?thesis by (rule rel_close_mono) (simp add: half_ulp_def metric_eps_def)
qed

lemma required_one:
  "required inputs [a] = Inr vals \<Longrightarrow> dec_val (number (vals ! 0)) = input_value inputs a \<and> vals \<noteq> []"
  using required_values [of inputs "[a]" vals] by (cases vals) auto

lemma signed_single_close:
  assumes "signed_amount code inputs [a] (\<lambda>vs. vs ! 0) = Inr r" and "mr_value r = Some v"
  shows "rel_close metric_eps (dec_val v) (input_value inputs a)"
  using signed_amount_value [OF assms] required_one [of inputs a] by (auto simp: metric_eps_def)

lemma reported_eps_close:
  assumes "reported_eps code a inputs = Inr r" and "mr_value r = Some v"
  shows "rel_close metric_eps (dec_val v) (input_value inputs a)"
proof -
  obtain vals where req: "required inputs [a] = Inr vals" using assms(1) by (auto simp: reported_eps_def)
  then have "v = number (vals ! 0)"
    using assms by (auto simp: reported_eps_def Let_def dest: formula_values split: if_splits)
  then show ?thesis using required_one [OF req] by (simp add: metric_eps_def)
qed

lemma market_cap_close:
  assumes "market_cap inputs = Inr r" and "mr_value r = Some v"
  shows "rel_close metric_eps (dec_val v) (formula_reference MARKET_CAP (input_value inputs))"
proof -
  obtain vals where req: "required inputs [''price'', ''actual_shares_outstanding''] = Inr vals"
    using assms(1) by (auto simp: market_cap_def Let_def)
  then have "v = dec_mul (number (vals ! 0)) (number (vals ! 1))"
    using assms by (auto simp: market_cap_def Let_def dest: formula_values split: if_splits)
  then have "rel_close half_ulp (dec_val v) (formula_reference MARKET_CAP (input_value inputs))"
    using dec_mul_close [of "number (vals ! 0)" "number (vals ! 1)"] required_two [OF req] by simp
  then show ?thesis by (rule rel_close_mono) (simp add: half_ulp_def metric_eps_def)
qed

lemma ev_to_ebitda_close:
  assumes "ev_to_ebitda inputs = Inr r" and "mr_value r = Some v"
  shows "rel_close metric_eps (dec_val v) (formula_reference EV_TO_EBITDA_TTM (input_value inputs))"
proof -
  obtain s where s: "ratio_formula EV_TO_EBITDA_TTM inputs ''enterprise_value'' ''ebitda_ttm'' None = Inr s"
    and "mr_value s = mr_value r"
    using assms(1) by (auto simp: ev_to_ebitda_def split: if_splits)
  with ratio_formula_close [OF s, of v] assms(2) show ?thesis by simp
qed

lemma liabilities_close:
  assumes "liabilities_to_assets inputs = Inr r" and "mr_value r = Some v"
  shows "rel_close metric_eps (dec_val v) (formula_reference LIABILITIES_TO_ASSETS (input_value inputs))"
  using assms ratio_formula_close [of LIABILITIES_TO_ASSETS inputs "''total_liabilities''" "''total_assets''" None r v]
  by (auto simp: liabilities_to_assets_def dest: formula_values split: if_splits)

lemma average_return_close_eps:
  assumes "average_return code inputs n a b = Inr r" and "mr_value r = Some v"
  shows "rel_close metric_eps (dec_val v)
    (input_value inputs n / ((input_value inputs a + input_value inputs b) / 2))"
  using average_return_close [OF assms] by (rule rel_close_mono) (simp add: metric_eps_def)

lemma implementation_close:
  assumes "implementation code inputs = Inr r" and "mr_value r = Some v" and "stable_metric code"
  shows "rel_close metric_eps (dec_val v) (formula_reference code (input_value inputs))"
  using assms
  by (cases code)
    (auto simp: stable_metric_def
      dest: revenue_growth_close gross_margin_close ratio_formula_close average_return_close_eps
        signed_single_close signed_difference_close [unfolded One_nat_def] liabilities_close reported_eps_close
        market_cap_close ev_to_ebitda_close)

section \<open>Properties\<close>

text \<open>
  Executing a formula never raises and its result says what happened: on any inputs it returns a
  result of the metric, without a value exactly when it is blocked (NULL) or not meaningful, with a
  state ZERO exactly for the value zero, and with quality PARTIAL exactly for a value with warnings.
\<close>

theorem formula_result_well_formed:
  "\<exists>r. execute_formula code inputs = Inr r \<and> mr_metric_code r = code \<and>
    (mr_value r = None \<longleftrightarrow> mr_value_state r = NULL \<or> mr_value_state r = NOT_MEANINGFUL) \<and>
    (mr_value_state r = ZERO \<longleftrightarrow> (\<exists>v. mr_value r = Some v \<and> dec_val v = 0)) \<and>
    (mr_quality_status r = BLOCKED \<longleftrightarrow> mr_value_state r = NULL) \<and>
    (mr_quality_status r = PARTIAL \<longleftrightarrow> mr_value r \<noteq> None \<and> mr_warnings r \<noteq> [])"
proof -
  obtain r where r: "execute_formula code inputs = Inr r" "result_ok code r"
    using execute_formula_total by blast
  then show ?thesis
    by (intro exI [of _ r]) (auto simp: result_ok_def split: option.splits if_splits)
qed


definition witness_inputs :: formula_inputs where
  "witness_inputs =
     [(''revenue'', \<lparr>fi_value = Some (Dec 3 0), fi_unit = ''ONE'', fi_currency_code = Some ''USD''\<rparr>),
      (''operating_income'', \<lparr>fi_value = Some (Dec 1 0), fi_unit = ''ONE'', fi_currency_code = Some ''USD''\<rparr>)]"

lemma witness_third: "dec_div (Dec 1 0) (Dec 3 0) = Dec 3333333333333333333333333333 (-28)"
  by (simp add: dec_eval)

lemma witness_margin:
  "\<exists>r. execute_formula OPERATING_MARGIN witness_inputs = Inr r \<and>
    mr_value r = Some (Dec 3333333333333333333333333333 (-28))"
proof -
  obtain d where d: "get_formula OPERATING_MARGIN = Inr d" "fd_metric_code d = OPERATING_MARGIN"
    using get_formula_total by blast
  then show ?thesis
    by (simp add: execute_formula_def ratio_formula_def witness_inputs_def same_amount_basis_def
        number_def numeric_def dec_nonpos_def dec_neg_def witness_third Let_def)
qed


end
