(* ===== verification/As_Of.thy ===== *)
theory As_Of
  imports Financial_Types
begin

text \<open>
  Point-in-time selection of fact versions (\<open>domain/financials/as_of.py\<close>): of every fact
  identity the latest version that was public at the research time, unless the latest versions
  disagree.
\<close>

section \<open>Candidates\<close>

record fact_candidate =
  fc_fact_id :: uuid
  fc_identity_key :: string
  fc_value :: dec
  fc_source_published_at :: "datetime option"
  fc_retrieved_at :: datetime
  fc_is_restated :: bool

definition aware_utc :: "clock_time \<Rightarrow> string \<Rightarrow> datetime fin_res" where
  "aware_utc t field_name =
     (case t of Naive _ \<Rightarrow> Inl (FinValueError (field_name @ '' must be timezone aware''))
      | Aware u \<Rightarrow> Inr u)"

definition make_candidate ::
  "uuid \<Rightarrow> string \<Rightarrow> decimal \<Rightarrow> clock_time option \<Rightarrow> clock_time \<Rightarrow> bool \<Rightarrow> fact_candidate fin_res" where
  "make_candidate fact_id identity_key v source_published_at retrieved_at is_restated =
     (if identity_key = [] then Inl (FinValueError ''identity_key must not be empty'')
      else case dec_of_decimal v of
        None \<Rightarrow> Inl (FinValueError ''fact value must be a finite Decimal'')
      | Some x \<Rightarrow>
          bind_res (aware_utc retrieved_at ''retrieved_at'') (\<lambda>retrieved.
          bind_res (case source_published_at of None \<Rightarrow> Inr None
                    | Some t \<Rightarrow> bind_res (aware_utc t ''source_published_at'') (\<lambda>u. Inr (Some u)))
            (\<lambda>published.
              Inr \<lparr>fc_fact_id = fact_id, fc_identity_key = identity_key, fc_value = x,
                   fc_source_published_at = published, fc_retrieved_at = retrieved,
                   fc_is_restated = is_restated\<rparr>)))"

record as_of_selection =
  as_status :: quality_status
  as_selected_fact_ids :: "uuid list"
  as_excluded_fact_ids :: "uuid list"
  as_warnings :: "string list"

section \<open>Selection\<close>

definition unknown_publication :: "fact_candidate \<Rightarrow> bool" where
  "unknown_publication c \<longleftrightarrow> fc_source_published_at c = None"

definition public_at :: "datetime \<Rightarrow> fact_candidate \<Rightarrow> bool" where
  "public_at cutoff c = (case fc_source_published_at c of None \<Rightarrow> False | Some p \<Rightarrow> p \<le> cutoff)"

definition published_at :: "fact_candidate \<Rightarrow> datetime" where
  "published_at c = (case fc_source_published_at c of None \<Rightarrow> 0 | Some p \<Rightarrow> p)"

definition ordered_candidates :: "fact_candidate list \<Rightarrow> fact_candidate list" where
  "ordered_candidates cs = order_by2 fc_identity_key fc_fact_id cs"

text \<open>The versions of one identity: the one that is chosen, the ids it excludes, its warnings.\<close>

definition latest_versions :: "fact_candidate list \<Rightarrow> fact_candidate list" where
  "latest_versions versions =
     (let latest_publication = Max (set (map published_at versions))
      in sort_key fc_fact_id (filter (\<lambda>v. published_at v = latest_publication) versions))"

definition choose_version ::
  "string \<Rightarrow> fact_candidate list \<Rightarrow> fact_candidate option \<times> uuid list \<times> string list" where
  "choose_version identity_key versions =
     (let latest = latest_versions versions;
          chosen = hd latest
      in if 1 < length latest \<and> \<not> list_all (\<lambda>v. dec_same (fc_value v) (fc_value chosen)) latest
         then (None, map fc_fact_id versions, [''CONFLICTING_FACT_VERSIONS:'' @ identity_key])
         else (Some chosen,
               map fc_fact_id (filter (\<lambda>v. fc_fact_id v \<noteq> fc_fact_id chosen) versions),
               if 1 < length latest then [''DUPLICATE_FACT_VERSION:'' @ identity_key] else []))"

definition identity_keys :: "fact_candidate list \<Rightarrow> string list" where
  "identity_keys cs = sort (from_keys (map fc_identity_key cs))"

definition choose_all ::
  "fact_candidate list \<Rightarrow> (fact_candidate option \<times> uuid list \<times> string list) list" where
  "choose_all eligible =
     map (\<lambda>k. choose_version k (filter (\<lambda>c. fc_identity_key c = k) eligible)) (identity_keys eligible)"

definition select_at :: "fact_candidate list \<Rightarrow> datetime \<Rightarrow> as_of_selection" where
  "select_at candidates cutoff =
     (let ordered = ordered_candidates candidates;
          unknown = filter unknown_publication ordered;
          late = filter (\<lambda>c. \<not> unknown_publication c \<and> \<not> public_at cutoff c) ordered;
          choices = choose_all (filter (public_at cutoff) ordered);
          selected = map fc_fact_id (List.map_filter fst choices);
          excluded = map fc_fact_id unknown @ map fc_fact_id late @ concat (map (fst \<circ> snd) choices);
          warnings = map (\<lambda>c. ''SOURCE_PUBLISHED_AT_UNKNOWN:'' @ fc_fact_id c) unknown @
                     concat (map (snd \<circ> snd) choices)
      in \<lparr>as_status = (if selected = [] then BLOCKED else if warnings \<noteq> [] then PARTIAL else PASS),
          as_selected_fact_ids = selected,
          as_excluded_fact_ids = sort (remdups excluded),
          as_warnings = sort (if selected = [] \<and> warnings = [] then [''NO_FACTS_AS_OF''] else warnings)\<rparr>)"

definition select_fact_versions_as_of ::
  "fact_candidate list \<Rightarrow> clock_time \<Rightarrow> as_of_selection fin_res" where
  "select_fact_versions_as_of candidates research_as_of_time =
     bind_res (aware_utc research_as_of_time ''research_as_of_time'') (\<lambda>cutoff.
       Inr (select_at candidates cutoff))"

section \<open>What is chosen\<close>

text \<open>A declarative reading: the public versions of an identity, the latest of them, the choice.\<close>

definition is_latest :: "datetime \<Rightarrow> fact_candidate set \<Rightarrow> fact_candidate \<Rightarrow> bool" where
  "is_latest cutoff C c \<longleftrightarrow> c \<in> C \<and> public_at cutoff c \<and>
     (\<forall>d\<in>C. public_at cutoff d \<longrightarrow> fc_identity_key d = fc_identity_key c \<longrightarrow> published_at d \<le> published_at c)"

definition is_choice :: "datetime \<Rightarrow> fact_candidate set \<Rightarrow> fact_candidate \<Rightarrow> bool" where
  "is_choice cutoff C c \<longleftrightarrow> is_latest cutoff C c \<and>
     (\<forall>d. is_latest cutoff C d \<and> fc_identity_key d = fc_identity_key c \<longrightarrow>
        dec_val (fc_value d) = dec_val (fc_value c) \<and> fc_fact_id c \<le> fc_fact_id d)"

lemma set_ordered [simp]: "set (ordered_candidates cs) = set cs"
  by (simp add: ordered_candidates_def order_by2_def)

lemma filter_ordered: "filter P (ordered_candidates cs) = ordered_candidates (filter P cs)"
  by (simp add: ordered_candidates_def order_by2_def filter_sort)

lemma set_latest_versions:
  assumes "vs \<noteq> []"
  shows "set (latest_versions vs) = {v \<in> set vs. \<forall>w\<in>set vs. published_at w \<le> published_at v}"
proof -
  let ?m = "Max (set (map published_at vs))"
  have fin: "finite (set (map published_at vs))" "set (map published_at vs) \<noteq> {}" using assms by auto
  have "published_at v = ?m \<longleftrightarrow> (\<forall>w\<in>set vs. published_at w \<le> published_at v)" if "v \<in> set vs" for v
    using that Max_eq_iff [OF fin, of "published_at v"] by auto
  then show ?thesis by (auto simp: latest_versions_def)
qed

lemma latest_versions_nonempty:
  assumes "vs \<noteq> []"
  shows "latest_versions vs \<noteq> []"
proof -
  have "Max (set (map published_at vs)) \<in> set (map published_at vs)" using assms by (intro Max_in) auto
  then have "filter (\<lambda>v. published_at v = Max (set (map published_at vs))) vs \<noteq> []"
    by (auto simp: filter_empty_conv)
  then show ?thesis
    by (metis latest_versions_def length_0_conv length_sort)
qed

lemma hd_latest_min:
  assumes "vs \<noteq> []" and "v \<in> set (latest_versions vs)"
  shows "hd (latest_versions vs) \<in> set (latest_versions vs)"
    and "fc_fact_id (hd (latest_versions vs)) \<le> fc_fact_id v"
proof -
  obtain x xs where l: "latest_versions vs = x # xs"
    using latest_versions_nonempty [OF assms(1)] by (cases "latest_versions vs") auto
  have "sorted (map fc_fact_id (latest_versions vs))" by (simp add: latest_versions_def Let_def)
  then show "hd (latest_versions vs) \<in> set (latest_versions vs)"
    "fc_fact_id (hd (latest_versions vs)) \<le> fc_fact_id v"
    using assms(2) by (auto simp: l)
qed

text \<open>The choice among the versions of one identity.\<close>

lemma choose_version_iff:
  assumes vs: "vs \<noteq> []"
  shows "fst (choose_version k vs) = Some c \<longleftrightarrow> c = hd (latest_versions vs) \<and>
    (\<forall>v\<in>set (latest_versions vs). dec_val (fc_value v) = dec_val (fc_value c))"
proof -
  let ?l = "latest_versions vs"
  have agree: "list_all (\<lambda>v. dec_same (fc_value v) (fc_value (hd ?l))) ?l \<longleftrightarrow>
      (\<forall>v\<in>set ?l. dec_val (fc_value v) = dec_val (fc_value (hd ?l)))"
    by (simp add: list_all_iff dec_same_iff)
  have "list_all (\<lambda>v. dec_same (fc_value v) (fc_value (hd ?l))) ?l" if "\<not> 1 < length ?l"
    using that latest_versions_nonempty [OF vs] by (cases ?l) (auto simp: dec_same_iff)
  then have "fst (choose_version k vs) = (if list_all (\<lambda>v. dec_same (fc_value v) (fc_value (hd ?l))) ?l
      then Some (hd ?l) else None)"
    by (auto simp: choose_version_def Let_def)
  then show ?thesis unfolding agree by auto
qed

lemma latest_of_identity:
  assumes "c0 \<in> C0" "public_at cutoff c0" "fc_identity_key c0 = k" "C0 = set cs"
  shows "set (latest_versions (filter (\<lambda>c. fc_identity_key c = k) (filter (public_at cutoff) (ordered_candidates cs))))
    = {c. is_latest cutoff C0 c \<and> fc_identity_key c = k}"
proof -
  have "c0 \<in> set (filter (\<lambda>c. fc_identity_key c = k) (filter (public_at cutoff) (ordered_candidates cs)))"
    using assms by simp
  then have "filter (\<lambda>c. fc_identity_key c = k) (filter (public_at cutoff) (ordered_candidates cs)) \<noteq> []"
    by (metis empty_iff list.set(1))
  then show ?thesis using assms(4) by (auto simp: set_latest_versions is_latest_def)
qed

lemma chosen_iff:
  assumes "c0 \<in> set cs" "public_at cutoff c0" "fc_identity_key c0 = k"
  shows "(\<exists>c. fst (choose_version k (filter (\<lambda>c. fc_identity_key c = k)
        (filter (public_at cutoff) (ordered_candidates cs)))) = Some c \<and> fc_fact_id c = i) \<longleftrightarrow>
    (\<exists>c. is_choice cutoff (set cs) c \<and> fc_identity_key c = k \<and> fc_fact_id c = i)"
proof -
  define vs where "vs = filter (\<lambda>c. fc_identity_key c = k) (filter (public_at cutoff) (ordered_candidates cs))"
  have "c0 \<in> set vs" using assms by (simp add: vs_def)
  then have vs: "vs \<noteq> []" by auto
  have L: "set (latest_versions vs) = {c. is_latest cutoff (set cs) c \<and> fc_identity_key c = k}"
    unfolding vs_def by (rule latest_of_identity [OF assms refl])
  have h: "hd (latest_versions vs) \<in> set (latest_versions vs)" using latest_versions_nonempty [OF vs] by simp
  have le: "fc_fact_id (hd (latest_versions vs)) \<le> fc_fact_id c" if "c \<in> set (latest_versions vs)" for c
    using hd_latest_min(2) [OF vs that] .
  show ?thesis unfolding vs_def [symmetric] choose_version_iff [OF vs]
  proof (intro iffI; elim exE conjE)
    fix c assume c: "c = hd (latest_versions vs)" "fc_fact_id c = i"
      "\<forall>v\<in>set (latest_versions vs). dec_val (fc_value v) = dec_val (fc_value c)"
    have "c \<in> set (latest_versions vs)" using h c(1) by simp
    then have lat: "is_latest cutoff (set cs) c" "fc_identity_key c = k" unfolding L by simp_all
    have "dec_val (fc_value d) = dec_val (fc_value c) \<and> fc_fact_id c \<le> fc_fact_id d"
      if "is_latest cutoff (set cs) d" "fc_identity_key d = k" for d
    proof -
      have "d \<in> set (latest_versions vs)" unfolding L using that by simp
      then show ?thesis using c(3) le unfolding c(1) by blast
    qed
    then have "is_choice cutoff (set cs) c \<and> fc_identity_key c = k"
      using lat unfolding is_choice_def by blast
    with c show "\<exists>c. is_choice cutoff (set cs) c \<and> fc_identity_key c = k \<and> fc_fact_id c = i" by blast
  next
    fix c assume c: "is_choice cutoff (set cs) c" "fc_identity_key c = k" "fc_fact_id c = i"
    then have mem: "c \<in> set (latest_versions vs)" using L by (simp add: is_choice_def)
    have agree: "dec_val (fc_value d) = dec_val (fc_value c) \<and> fc_fact_id c \<le> fc_fact_id d"
      if "d \<in> set (latest_versions vs)" for d
    proof -
      have "is_latest cutoff (set cs) d" "fc_identity_key d = fc_identity_key c"
        using that c(2) unfolding L by simp_all
      then show ?thesis using c(1) unfolding is_choice_def by blast
    qed
    have "fc_fact_id (hd (latest_versions vs)) = i" using le [OF mem] agree [OF h] c(3) by simp
    moreover have "\<forall>v\<in>set (latest_versions vs). dec_val (fc_value v) = dec_val (fc_value (hd (latest_versions vs)))"
      using agree h by simp
    ultimately show "\<exists>c. (c = hd (latest_versions vs) \<and>
        (\<forall>v\<in>set (latest_versions vs). dec_val (fc_value v) = dec_val (fc_value c))) \<and> fc_fact_id c = i"
      by blast
  qed
qed

lemma set_map_filter: "set (List.map_filter f xs) = {y. \<exists>x\<in>set xs. f x = Some y}"
  by (induction xs) (auto simp: List.map_filter_simps split: option.splits)

lemma selected_iff:
  "i \<in> set (as_selected_fact_ids (select_at cs cutoff)) \<longleftrightarrow>
   (\<exists>c. is_choice cutoff (set cs) c \<and> fc_fact_id c = i)"
proof -
  let ?E = "filter (public_at cutoff) (ordered_candidates cs)"
  let ?ch = "\<lambda>k. choose_version k (filter (\<lambda>c. fc_identity_key c = k) ?E)"
  have "i \<in> set (as_selected_fact_ids (select_at cs cutoff)) \<longleftrightarrow>
      (\<exists>k \<in> fc_identity_key ` set ?E. \<exists>c. fst (?ch k) = Some c \<and> fc_fact_id c = i)"
    by (auto simp: select_at_def Let_def choose_all_def identity_keys_def set_map_filter image_iff)
  also have "\<dots> \<longleftrightarrow> (\<exists>k \<in> fc_identity_key ` set ?E.
      \<exists>c. is_choice cutoff (set cs) c \<and> fc_identity_key c = k \<and> fc_fact_id c = i)"
  proof (rule bex_cong [OF refl])
    fix k assume "k \<in> fc_identity_key ` set ?E"
    then obtain c0 where "c0 \<in> set cs" "public_at cutoff c0" "fc_identity_key c0 = k" by auto
    then show "(\<exists>c. fst (?ch k) = Some c \<and> fc_fact_id c = i) \<longleftrightarrow>
        (\<exists>c. is_choice cutoff (set cs) c \<and> fc_identity_key c = k \<and> fc_fact_id c = i)"
      by (rule chosen_iff)
  qed
  also have "\<dots> \<longleftrightarrow> (\<exists>c. is_choice cutoff (set cs) c \<and> fc_fact_id c = i)"
    by (auto simp: is_choice_def is_latest_def)
  finally show ?thesis .
qed

text \<open>One choice per identity, so no identity is selected twice.\<close>

lemma length_map_filter: "length (List.map_filter f xs) \<le> length xs"
  by (induction xs) (auto simp: List.map_filter_simps split: option.splits)

lemma selected_count:
  "length (as_selected_fact_ids (select_at cs cutoff)) \<le> card (fc_identity_key ` {c \<in> set cs. public_at cutoff c})"
proof -
  let ?E = "filter (public_at cutoff) (ordered_candidates cs)"
  have "length (as_selected_fact_ids (select_at cs cutoff)) \<le> length (identity_keys ?E)"
    using length_map_filter [of fst "choose_all ?E"]
    by (simp add: select_at_def Let_def choose_all_def)
  also have "\<dots> = card (set (identity_keys ?E))"
    by (rule distinct_card [symmetric]) (simp add: identity_keys_def)
  also have "set (identity_keys ?E) = fc_identity_key ` {c \<in> set cs. public_at cutoff c}"
    by (auto simp: identity_keys_def)
  finally show ?thesis .
qed

text \<open>Versions published after the cutoff play no part but to be listed as excluded.\<close>

definition known_by :: "datetime \<Rightarrow> fact_candidate \<Rightarrow> bool" where
  "known_by cutoff c \<longleftrightarrow> unknown_publication c \<or> public_at cutoff c"

lemma filter_known_by:
  "filter unknown_publication (ordered_candidates (filter (known_by t) cs)) =
     filter unknown_publication (ordered_candidates cs)"
  "filter (public_at t) (ordered_candidates (filter (known_by t) cs)) =
     filter (public_at t) (ordered_candidates cs)"
  by (simp_all add: filter_ordered [symmetric] known_by_def conj_disj_distribR cong: conj_cong)
    (rule filter_cong; auto)+

lemma select_at_known_by:
  "as_selected_fact_ids (select_at (filter (known_by t) cs) t) = as_selected_fact_ids (select_at cs t)"
  "as_warnings (select_at (filter (known_by t) cs) t) = as_warnings (select_at cs t)"
  "as_status (select_at (filter (known_by t) cs) t) = as_status (select_at cs t)"
  by (simp_all add: select_at_def Let_def filter_known_by)

section \<open>Properties\<close>

text \<open>
  C30. Selection as of a time is exact. The selected facts are the choices: a version that was public
  at the cutoff, with no later public version of its identity, whose value all versions of that same
  publication time share, and with the smallest id among them. Whatever the order of the candidates,
  and at most one fact is selected per identity.
\<close>

theorem as_of_selection_exact:
  "\<exists>sel. select_fact_versions_as_of candidates (Aware cutoff) = Inr sel \<and>
    (\<forall>i. i \<in> set (as_selected_fact_ids sel) \<longleftrightarrow>
       (\<exists>c\<in>set candidates. fc_fact_id c = i \<and> is_choice cutoff (set candidates) c)) \<and>
    length (as_selected_fact_ids sel) \<le>
      card (fc_identity_key ` {c \<in> set candidates. public_at cutoff c})"
  by (auto simp: select_fact_versions_as_of_def aware_utc_def selected_iff selected_count
      is_choice_def is_latest_def)

text \<open>
  There is no look-ahead. The selected facts, the warnings and the status are those of the
  candidates that were public at the cutoff or whose publication time is unknown: versions that were
  published later can be added or removed freely.
\<close>

theorem as_of_no_lookahead:
  assumes "filter (known_by cutoff) candidates = filter (known_by cutoff) candidates'"
    and "select_fact_versions_as_of candidates (Aware cutoff) = Inr sel"
    and "select_fact_versions_as_of candidates' (Aware cutoff) = Inr sel'"
  shows "as_selected_fact_ids sel = as_selected_fact_ids sel' \<and> as_warnings sel = as_warnings sel' \<and>
    as_status sel = as_status sel'"
proof -
  have "sel = select_at candidates cutoff" "sel' = select_at candidates' cutoff"
    using assms(2,3) by (simp_all add: select_fact_versions_as_of_def aware_utc_def)
  then show ?thesis
    using select_at_known_by [of cutoff candidates] select_at_known_by [of cutoff candidates']
    unfolding assms(1) by simp
qed

definition witness_candidate :: "string \<Rightarrow> int \<Rightarrow> int \<Rightarrow> fact_candidate" where
  "witness_candidate i v t = \<lparr>fc_fact_id = i, fc_identity_key = ''revenue'', fc_value = Dec v 0,
     fc_source_published_at = Some t, fc_retrieved_at = t, fc_is_restated = False\<rparr>"

theorem as_of_no_lookahead_witness:
  "as_selected_fact_ids (select_at [witness_candidate ''a'' 5 10] 20) =
   as_selected_fact_ids (select_at [witness_candidate ''a'' 5 10, witness_candidate ''b'' 7 30] 20)"
proof -
  have "filter (known_by 20) [witness_candidate ''a'' 5 10] =
      filter (known_by 20) [witness_candidate ''a'' 5 10, witness_candidate ''b'' 7 30]"
    by (simp add: known_by_def public_at_def unknown_publication_def witness_candidate_def)
  moreover have "select_fact_versions_as_of cs (Aware 20) = Inr (select_at cs 20)" for cs
    by (simp add: select_fact_versions_as_of_def aware_utc_def)
  ultimately show ?thesis using as_of_no_lookahead by blast
qed

end
