(* ===== verification/Period_Calculations.thy ===== *)
theory Period_Calculations
  imports As_Of "HOL-Library.Multiset"
begin

text \<open>
  The period derivations of \<open>domain/financials/calculations.py\<close>: a single quarter from
  cumulative facts, and the trailing twelve months from four quarters or from a fiscal year and two
  comparable year-to-date facts.
\<close>

section \<open>Values\<close>

record financial_value =
  fv_fact_id :: uuid
  fv_security_id :: uuid
  fv_concept :: canonical_concept
  fv_period :: financial_period
  fv_value :: dec
  fv_normalized_unit :: string
  fv_currency_code :: "string option"
  fv_accounting_basis :: string
  fv_source_published_at :: "datetime option"

definition check_value :: "financial_value \<Rightarrow> financial_value fin_res" where
  "check_value v =
     (if fv_normalized_unit v = [] \<or> fv_accounting_basis v = []
      then Inl (FinValueError ''normalized unit and accounting basis are required'') else Inr v)"

record derived_value =
  dv_concept :: canonical_concept
  dv_value :: dec
  dv_normalized_unit :: string
  dv_currency_code :: "string option"
  dv_input_fact_ids :: "uuid list"
  dv_formula_version :: string
  dv_method :: string
  dv_warnings :: "string list"
  dv_is_derived_from_cumulative :: bool

definition calc_aware :: "clock_time \<Rightarrow> datetime fin_res" where
  "calc_aware t =
     (case t of Naive _ \<Rightarrow> Inl (CalculationBlocked ''research_as_of_time must be timezone aware'')
      | Aware u \<Rightarrow> Inr u)"

definition require_visible :: "datetime \<Rightarrow> financial_value \<Rightarrow> unit fin_res" where
  "require_visible cutoff v =
     (case fv_source_published_at v of
        None \<Rightarrow> Inl (CalculationBlocked ''source_published_at is required for as-of calculation'')
      | Some p \<Rightarrow>
          if cutoff < p then Inl (CalculationBlocked ''fact was not public at the research as-of time'')
          else Inr ())"

definition compatible_with :: "financial_value \<Rightarrow> financial_value \<Rightarrow> unit fin_res" where
  "compatible_with first v =
     (if fv_security_id v \<noteq> fv_security_id first
      then Inl (CalculationBlocked ''security mismatch blocks deterministic calculation'')
      else if fv_concept v \<noteq> fv_concept first
      then Inl (CalculationBlocked ''concept mismatch blocks deterministic calculation'')
      else if fv_currency_code v \<noteq> fv_currency_code first
      then Inl (CalculationBlocked ''currency mismatch blocks deterministic calculation'')
      else if fv_normalized_unit v \<noteq> fv_normalized_unit first
      then Inl (CalculationBlocked ''unit mismatch blocks deterministic calculation'')
      else if fv_accounting_basis v \<noteq> fv_accounting_basis first
      then Inl (CalculationBlocked ''accounting basis mismatch blocks deterministic calculation'')
      else Inr ())"

definition require_compatible :: "financial_value list \<Rightarrow> unit fin_res" where
  "require_compatible values = fold_res (\<lambda>v _. compatible_with (hd values) v) (tl values) ()"

definition require_all_visible :: "datetime \<Rightarrow> financial_value list \<Rightarrow> unit fin_res" where
  "require_all_visible cutoff values = fold_res (\<lambda>v _. require_visible cutoff v) values ()"

text \<open>A condition that must hold, or the calculation is blocked.\<close>

definition require :: "bool \<Rightarrow> string \<Rightarrow> unit fin_res" where
  "require ok message = (if ok then Inr () else Inl (CalculationBlocked message))"

section \<open>One quarter from cumulative facts\<close>

definition cumulative_stage :: "financial_period \<Rightarrow> int fin_res" where
  "cumulative_stage p =
     (if fp_period_type p = QUARTER \<and> fp_fiscal_quarter p = Some 1 then Inr 1
      else if fp_period_type p = HALF_YEAR \<and> fp_fiscal_quarter p = Some 2 then Inr 2
      else if fp_period_type p = NINE_MONTH_YTD \<and> fp_fiscal_quarter p = Some 3 then Inr 3
      else if fp_period_type p = ANNUAL then Inr 4
      else Inl (CalculationBlocked ''unsupported cumulative fiscal-period sequence''))"

definition deaccumulated :: "financial_value \<Rightarrow> dec \<Rightarrow> uuid list \<Rightarrow> derived_value" where
  "deaccumulated current v input_ids =
     \<lparr>dv_concept = fv_concept current, dv_value = v, dv_normalized_unit = fv_normalized_unit current,
      dv_currency_code = fv_currency_code current, dv_input_fact_ids = input_ids,
      dv_formula_version = ''deaccumulation-v1.0.0'', dv_method = ''CUMULATIVE_DIFFERENCE'',
      dv_warnings = (if dec_neg v then [''NEGATIVE_DEACCUMULATED_VALUE''] else []),
      dv_is_derived_from_cumulative = True\<rparr>"

definition deaccumulate_after ::
  "financial_value \<Rightarrow> financial_value \<Rightarrow> int \<Rightarrow> datetime \<Rightarrow> derived_value fin_res" where
  "deaccumulate_after current previous stage cutoff =
     bind_res (require_compatible [current, previous]) (\<lambda>_.
     bind_res (require_visible cutoff previous) (\<lambda>_.
     bind_res (require (fp_is_cumulative (fv_period previous))
                 ''previous fact must be explicitly cumulative'') (\<lambda>_.
     bind_res (require (fp_fiscal_year (fv_period current) = fp_fiscal_year (fv_period previous))
                 ''cumulative facts must belong to the same fiscal year'') (\<lambda>_.
     bind_res (cumulative_stage (fv_period previous)) (\<lambda>previous_stage.
     bind_res (require (previous_stage = stage - 1) ''cumulative periods must be consecutive'') (\<lambda>_.
     bind_res (require (fp_period_start (fv_period current) = fp_period_start (fv_period previous) \<and>
                        fp_period_end (fv_period previous) < fp_period_end (fv_period current))
                 ''cumulative periods must share a continuous source start'') (\<lambda>_.
       Inr (deaccumulated current (dec_sub (fv_value current) (fv_value previous))
              [fv_fact_id previous, fv_fact_id current]))))))))"

definition deaccumulate_quarter ::
  "financial_value \<Rightarrow> financial_value option \<Rightarrow> clock_time \<Rightarrow> derived_value fin_res" where
  "deaccumulate_quarter current previous research_as_of_time =
     bind_res (calc_aware research_as_of_time) (\<lambda>cutoff.
     bind_res (get_concept (fv_concept current)) (\<lambda>concept.
     bind_res (require (cd_supports_cumulative concept \<and> cd_fact_nature concept = DURATION)
                 (concept_value (cd_code concept) @ '' cannot be de-accumulated'')) (\<lambda>_.
     bind_res (require (fp_is_cumulative (fv_period current))
                 ''current fact must be explicitly cumulative'') (\<lambda>_.
     bind_res (require_visible cutoff current) (\<lambda>_.
     bind_res (cumulative_stage (fv_period current)) (\<lambda>stage.
       if stage = 1
       then (case previous of
               Some _ \<Rightarrow> Inl (CalculationBlocked ''Q1 cumulative derivation must not have a predecessor'')
             | None \<Rightarrow> Inr (deaccumulated current (fv_value current) [fv_fact_id current]))
       else (case previous of
               None \<Rightarrow> Inl (CalculationBlocked ''previous cumulative fact is required'')
             | Some p \<Rightarrow> deaccumulate_after current p stage cutoff)))))))"

section \<open>Trailing twelve months\<close>

definition quarter_index :: "financial_period \<Rightarrow> int fin_res" where
  "quarter_index p =
     (case fp_fiscal_quarter p of
        None \<Rightarrow> Inl (CalculationBlocked ''single-quarter fact requires an explicit fiscal quarter'')
      | Some q \<Rightarrow> Inr (fp_fiscal_year p * 4 + q - 1))"

fun quarter_indexes :: "financial_value list \<Rightarrow> int list fin_res" where
  "quarter_indexes [] = Inr []"
| "quarter_indexes (v # vs) =
     bind_res (quarter_index (fv_period v)) (\<lambda>i. bind_res (quarter_indexes vs) (\<lambda>is. Inr (i # is)))"

fun consecutive :: "int list \<Rightarrow> bool" where
  "consecutive (a # b # rest) = (b = a + 1 \<and> consecutive (b # rest))"
| "consecutive _ = True"

definition require_ttm_concept :: "canonical_concept \<Rightarrow> unit fin_res" where
  "require_ttm_concept code =
     bind_res (get_concept code) (\<lambda>concept.
       require (cd_supports_ttm concept \<and> cd_supports_duration concept)
         (concept_value (cd_code concept) @ '' is not eligible for TTM''))"

definition calculate_ttm_four_quarters ::
  "financial_value list \<Rightarrow> clock_time \<Rightarrow> derived_value fin_res" where
  "calculate_ttm_four_quarters quarters research_as_of_time =
     bind_res (require (length quarters = 4) ''TTM method A requires exactly four quarters'') (\<lambda>_.
     bind_res (calc_aware research_as_of_time) (\<lambda>cutoff.
       let ordered = sort_key (\<lambda>f. fp_period_end (fv_period f)) quarters in
       bind_res (require_compatible ordered) (\<lambda>_.
       bind_res (require_ttm_concept (fv_concept (hd ordered))) (\<lambda>_.
       bind_res (require (list_all (\<lambda>f. \<not> fp_is_cumulative (fv_period f) \<and>
                     fp_is_single_quarter (fv_period f)) ordered)
                   ''TTM method A requires non-cumulative single quarters'') (\<lambda>_.
       bind_res (require_all_visible cutoff ordered) (\<lambda>_.
       bind_res (quarter_indexes ordered) (\<lambda>indexes.
       bind_res (require (consecutive indexes) ''TTM quarters must be consecutive'') (\<lambda>_.
         let duration_days = sum_list (map (\<lambda>f. case fp_duration_days (fv_period f) of
                               None \<Rightarrow> 0 | Some d \<Rightarrow> d) ordered)
         in Inr \<lparr>dv_concept = fv_concept (hd ordered), dv_value = dec_sum (map fv_value ordered),
              dv_normalized_unit = fv_normalized_unit (hd ordered),
              dv_currency_code = fv_currency_code (hd ordered),
              dv_input_fact_ids = map fv_fact_id ordered,
              dv_formula_version = ''ttm-four-quarters-v1.0.0'', dv_method = ''FOUR_QUARTERS'',
              dv_warnings = (if 370 \<le> duration_days then [''FIFTY_THREE_WEEK_PERIOD''] else []),
              dv_is_derived_from_cumulative = False\<rparr>))))))))"

definition calculate_ttm_bridge ::
  "financial_value \<Rightarrow> financial_value \<Rightarrow> financial_value \<Rightarrow> clock_time \<Rightarrow> derived_value fin_res" where
  "calculate_ttm_bridge annual latest_ytd prior_year_ytd research_as_of_time =
     bind_res (calc_aware research_as_of_time) (\<lambda>cutoff.
       let inputs = [annual, latest_ytd, prior_year_ytd] in
       bind_res (require_compatible inputs) (\<lambda>_.
       bind_res (require_ttm_concept (fv_concept annual)) (\<lambda>_.
       bind_res (require_all_visible cutoff inputs) (\<lambda>_.
       bind_res (require (fp_period_type (fv_period annual) = ANNUAL \<and> fp_is_cumulative (fv_period annual))
                   ''TTM bridge requires one cumulative annual fact'') (\<lambda>_.
       bind_res (require (fp_is_cumulative (fv_period latest_ytd) \<and> fp_is_cumulative (fv_period prior_year_ytd))
                   ''TTM bridge requires cumulative YTD facts'') (\<lambda>_.
       bind_res (require (fp_fiscal_year (fv_period latest_ytd) = fp_fiscal_year (fv_period annual) + 1)
                   ''latest YTD must follow the annual fiscal year'') (\<lambda>_.
       bind_res (require (fp_fiscal_year (fv_period prior_year_ytd) = fp_fiscal_year (fv_period annual))
                   ''prior YTD must belong to the annual fiscal year'') (\<lambda>_.
       bind_res (require (fp_fiscal_quarter (fv_period latest_ytd) = fp_fiscal_quarter (fv_period prior_year_ytd))
                   ''YTD fiscal quarters must match'') (\<lambda>_.
         let comparability = assess_period_comparability 7 (fv_period latest_ytd) (fv_period prior_year_ytd) in
         bind_res (require (pc_comparable comparability) ''YTD periods are not comparable'') (\<lambda>_.
           Inr \<lparr>dv_concept = fv_concept annual,
                dv_value = dec_sub (dec_add (fv_value annual) (fv_value latest_ytd)) (fv_value prior_year_ytd),
                dv_normalized_unit = fv_normalized_unit annual, dv_currency_code = fv_currency_code annual,
                dv_input_fact_ids = map fv_fact_id inputs,
                dv_formula_version = ''ttm-annual-ytd-bridge-v1.0.0'', dv_method = ''ANNUAL_YTD_BRIDGE'',
                dv_warnings = pc_warnings comparability, dv_is_derived_from_cumulative = False\<rparr>))))))))))"

section \<open>Only public facts are used\<close>

lemma require_Inr [simp]: "require ok m = Inr u \<longleftrightarrow> ok"
  by (simp add: require_def)

definition visible :: "clock_time \<Rightarrow> financial_value \<Rightarrow> bool" where
  "visible t v \<longleftrightarrow> (\<exists>cutoff p. t = Aware cutoff \<and> fv_source_published_at v = Some p \<and> p \<le> cutoff)"

lemma require_visible_Inr:
  "require_visible cutoff v = Inr u \<longleftrightarrow> visible (Aware cutoff) v"
  by (auto simp: require_visible_def visible_def split: option.splits)

lemma calc_aware_Inr [simp]: "calc_aware t = Inr u \<longleftrightarrow> t = Aware u"
  by (auto simp: calc_aware_def split: clock_time.splits)

lemma fold_check_Inr:
  "fold_res (\<lambda>v _. f v) vs () = Inr () \<longleftrightarrow> (\<forall>v\<in>set vs. f v = Inr ())"
  by (induction vs) auto

lemma require_all_visible_Inr:
  "require_all_visible cutoff vs = Inr u \<longleftrightarrow> (\<forall>v\<in>set vs. visible (Aware cutoff) v)"
  using require_visible_Inr [of cutoff] by (auto simp: require_all_visible_def fold_check_Inr)

lemma deaccumulate_visible:
  "deaccumulate_quarter c p t = Inr d \<Longrightarrow> visible t c \<and> (\<forall>q. p = Some q \<longrightarrow> visible t q)"
  by (auto simp: deaccumulate_quarter_def deaccumulate_after_def require_visible_Inr
      split: if_splits option.splits)

lemma ttm_visible:
  "calculate_ttm_four_quarters qs t = Inr d \<Longrightarrow> \<forall>v\<in>set qs. visible t v"
  "calculate_ttm_bridge a l p t = Inr d \<Longrightarrow> \<forall>v\<in>{a, l, p}. visible t v"
  by (auto simp: calculate_ttm_four_quarters_def calculate_ttm_bridge_def Let_def require_all_visible_Inr)

section \<open>Exact sums\<close>

text \<open>Values of one scale that are short enough for sums of a few of them to stay exact.\<close>

definition fits :: "int \<Rightarrow> dec \<Rightarrow> bool" where
  "fits e d \<longleftrightarrow> dexp d = e \<and> \<bar>coef d\<bar> < 10 ^ 26"

lemma dec_add_same_scale:
  "dexp a = e \<Longrightarrow> dexp b = e \<Longrightarrow> \<bar>coef a + coef b\<bar> < 10 ^ 28 \<Longrightarrow> dec_add a b = Dec (coef a + coef b) e"
  by (simp add: dec_add_def Let_def scaled_def ctx_fix_exact)

lemma dec_sub_same_scale:
  "dexp a = e \<Longrightarrow> dexp b = e \<Longrightarrow> \<bar>coef a - coef b\<bar> < 10 ^ 28 \<Longrightarrow> dec_sub a b = Dec (coef a - coef b) e"
  using dec_add_same_scale [of a e "dec_uminus b"] by (simp add: dec_sub_def dec_uminus_def)

lemma fits_add: "fits e a \<Longrightarrow> fits e b \<Longrightarrow> dec_add a b = Dec (coef a + coef b) e"
  unfolding fits_def by (rule dec_add_same_scale) (simp_all, linarith)

lemma fits_add_sub:
  assumes "fits e a" "fits e b" "fits e c"
  shows "dec_sub (dec_add a b) c = Dec (coef a + coef b - coef c) e"
proof -
  have "\<bar>coef a + coef b - coef c\<bar> < 10 ^ 28" using assms by (simp add: fits_def) linarith
  then show ?thesis
    using fits_add [OF assms(1,2)] assms(3) dec_sub_same_scale [of "Dec (coef a + coef b) e" e c]
    by (simp add: fits_def)
qed

lemma dec_sum_snoc: "dec_sum (ds @ [d]) = dec_add (dec_sum ds) d"
  by (simp add: dec_sum_def)

lemma dec_sum_same_scale:
  assumes "e \<le> 0" and "ds \<noteq> []" and "\<forall>d\<in>set ds. dexp d = e \<and> \<bar>coef d\<bar> \<le> B"
    and "int (length ds) * B < 10 ^ 28"
  shows "dec_sum ds = Dec (sum_list (map coef ds)) e \<and> \<bar>sum_list (map coef ds)\<bar> \<le> int (length ds) * B"
  using assms(2-)
proof (induction ds rule: rev_induct)
  case Nil
  then show ?case by simp
next
  case (snoc d ds)
  have B: "0 \<le> B" and d: "dexp d = e" "\<bar>coef d\<bar> \<le> B" using snoc.prems(2) by auto
  have len: "int (length (ds @ [d])) * B = int (length ds) * B + B" by (simp add: distrib_right)
  show ?case
  proof (cases "ds = []")
    case True
    have "dec_add (Dec 0 0) d = Dec (coef d) e"
      using assms(1) d snoc.prems(3) True
      by (cases d) (simp add: dec_add_def Let_def scaled_def min_def ctx_fix_exact)
    then show ?thesis using True d by (simp add: dec_sum_def dec_int_def)
  next
    case False
    have IH: "dec_sum ds = Dec (sum_list (map coef ds)) e" "\<bar>sum_list (map coef ds)\<bar> \<le> int (length ds) * B"
      using snoc.IH False snoc.prems(2,3) B len by auto
    have abs: "\<bar>sum_list (map coef ds) + coef d\<bar> \<le> int (length ds) * B + B" using IH(2) d(2) by linarith
    moreover have "\<bar>sum_list (map coef ds) + coef d\<bar> < 10 ^ 28" using abs snoc.prems(3) len by linarith
    ultimately show ?thesis using IH(1) d len by (simp only: dec_sum_snoc)
        (simp add: dec_add_same_scale)
  qed
qed

section \<open>The two ways to twelve months\<close>

text \<open>The quarters of the cumulative facts of one fiscal year, in order.\<close>

fun derive_quarters ::
  "financial_value option \<Rightarrow> financial_value list \<Rightarrow> clock_time \<Rightarrow> derived_value list fin_res" where
  "derive_quarters previous [] t = Inr []"
| "derive_quarters previous (c # cs) t =
     bind_res (deaccumulate_quarter c previous t) (\<lambda>d.
       bind_res (derive_quarters (Some c) cs t) (\<lambda>ds. Inr (d # ds)))"

fun diffs :: "int \<Rightarrow> int list \<Rightarrow> int list" where
  "diffs p [] = []"
| "diffs p (x # xs) = (x - p) # diffs x xs"

lemma sum_diffs: "sum_list (diffs p xs) = last (p # xs) - p"
  by (induction xs arbitrary: p) auto

lemma drop_diffs: "0 < q \<Longrightarrow> q \<le> length xs \<Longrightarrow> drop q (diffs p xs) = diffs (xs ! (q - 1)) (drop q xs)"
proof (induction xs arbitrary: p q)
  case (Cons x xs)
  then show ?case by (cases q; cases "q - 1") auto
qed simp

lemma deaccumulate_value:
  "deaccumulate_quarter c p t = Inr d \<Longrightarrow>
   dv_value d = (case p of None \<Rightarrow> fv_value c | Some q \<Rightarrow> dec_sub (fv_value c) (fv_value q))"
  by (auto simp: deaccumulate_quarter_def deaccumulate_after_def deaccumulated_def
      split: if_splits option.splits)

lemma derive_quarters_values:
  assumes "derive_quarters prev cs t = Inr ds" and "\<forall>c\<in>set cs. fits e (fv_value c)"
    and "\<forall>q. prev = Some q \<longrightarrow> fits e (fv_value q)"
  shows "map (coef \<circ> dv_value) ds =
      diffs (case prev of None \<Rightarrow> 0 | Some q \<Rightarrow> coef (fv_value q)) (map (coef \<circ> fv_value) cs) \<and>
    (\<forall>d\<in>set ds. dexp (dv_value d) = e \<and> \<bar>coef (dv_value d)\<bar> \<le> 2 * 10 ^ 26)"
  using assms
proof (induction cs arbitrary: prev ds)
  case Nil
  then show ?case by simp
next
  case (Cons c cs)
  from Cons.prems(1) obtain d ds' where d: "deaccumulate_quarter c prev t = Inr d"
    and ds': "derive_quarters (Some c) cs t = Inr ds'" and ds: "ds = d # ds'" by auto
  have c: "dexp (fv_value c) = e" "\<bar>coef (fv_value c)\<bar> < 10 ^ 26"
    using Cons.prems(2) by (simp_all add: fits_def)
  have "dv_value d = Dec (coef (fv_value c) - (case prev of None \<Rightarrow> 0 | Some q \<Rightarrow> coef (fv_value q))) e \<and>
      \<bar>coef (dv_value d)\<bar> \<le> 2 * 10 ^ 26"
  proof (cases prev)
    case None
    then show ?thesis using deaccumulate_value [OF d] c by (cases "fv_value c") simp
  next
    case (Some q)
    then have q: "dexp (fv_value q) = e" "\<bar>coef (fv_value q)\<bar> < 10 ^ 26"
      using Cons.prems(3) by (simp_all add: fits_def)
    have "\<bar>coef (fv_value c) - coef (fv_value q)\<bar> \<le> 2 * 10 ^ 26" using c(2) q(2) by linarith
    then show ?thesis using deaccumulate_value [OF d] Some c(1) q(1)
      by (simp add: dec_sub_same_scale)
  qed
  then have "coef (dv_value d) = coef (fv_value c) - (case prev of None \<Rightarrow> 0 | Some q \<Rightarrow> coef (fv_value q))"
    "dexp (dv_value d) = e" "\<bar>coef (dv_value d)\<bar> \<le> 2 * 10 ^ 26"
    by (metis dec.sel(1), metis dec.sel(2), blast)
  then show ?case using Cons.IH [OF ds'] Cons.prems(2) by (simp add: ds)
qed

lemma sum_list_sort_key: "sum_list (map f (sort_key k xs)) = sum_list (map f xs :: int list)"
  by (simp flip: sum_mset_sum_list)

lemma four_quarters_value:
  assumes "calculate_ttm_four_quarters quarters t = Inr a" and "e \<le> 0"
    and "\<forall>f\<in>set quarters. dexp (fv_value f) = e \<and> \<bar>coef (fv_value f)\<bar> \<le> 2 * 10 ^ 26"
  shows "dv_value a = Dec (sum_list (map (coef \<circ> fv_value) quarters)) e"
proof -
  let ?o = "sort_key (\<lambda>f. fp_period_end (fv_period f)) quarters"
  have a: "dv_value a = dec_sum (map fv_value ?o)" and len: "length quarters = 4"
    using assms(1) by (auto simp: calculate_ttm_four_quarters_def Let_def)
  have "dec_sum (map fv_value ?o) = Dec (sum_list (map coef (map fv_value ?o))) e"
  proof (rule dec_sum_same_scale [OF assms(2), THEN conjunct1])
    have "length ?o = 4" using len by simp
    then show "map fv_value ?o \<noteq> []" by (metis length_0_conv length_map zero_neq_numeral)
    show "\<forall>d\<in>set (map fv_value ?o). dexp d = e \<and> \<bar>coef d\<bar> \<le> 2 * 10 ^ 26" using assms(3) by auto
    show "int (length (map fv_value ?o)) * (2 * 10 ^ 26) < 10 ^ 28" using len by simp
  qed
  moreover have "sum_list (map coef (map fv_value ?o)) = sum_list (map (coef \<circ> fv_value) quarters)"
    by (simp only: map_map sum_list_sort_key)
  ultimately show ?thesis using a by simp
qed

section \<open>Properties\<close>

text \<open>
  C31. The two methods for twelve trailing months agree. Take the cumulative facts of a fiscal year
  and those of the first \<open>q\<close> quarters of the next one, derive the single quarters of both, and
  sum the last four: the result is the fiscal year plus the latest year-to-date fact minus the
  comparable one, whenever the values have one scale and at most 26 digits, so that no step rounds.
\<close>

theorem ttm_methods_agree:
  assumes "e \<le> 0" and "\<forall>f\<in>set (fy @ ytd). fits e (fv_value f)"
    and "length fy = 4" and "q = length ytd" and "0 < q" and "q \<le> 4"
    and "derive_quarters None fy t = Inr fy_quarters"
    and "derive_quarters None ytd t = Inr ytd_quarters"
    and "map fv_value quarters = drop q (map dv_value fy_quarters) @ map dv_value ytd_quarters"
    and "calculate_ttm_four_quarters quarters t = Inr by_quarters"
    and "calculate_ttm_bridge (fy ! 3) (ytd ! (q - 1)) (fy ! (q - 1)) t = Inr by_bridge"
  shows "dv_value by_quarters = dv_value by_bridge"
proof -
  let ?c = "coef \<circ> fv_value"
  note fyq = derive_quarters_values [OF assms(7), of e] and yq = derive_quarters_values [OF assms(8), of e]
  have fy: "map (coef \<circ> dv_value) fy_quarters = diffs 0 (map ?c fy)"
    "\<forall>d\<in>set fy_quarters. dexp (dv_value d) = e \<and> \<bar>coef (dv_value d)\<bar> \<le> 2 * 10 ^ 26"
    using fyq assms(2) by auto
  have ytd: "map (coef \<circ> dv_value) ytd_quarters = diffs 0 (map ?c ytd)"
    "\<forall>d\<in>set ytd_quarters. dexp (dv_value d) = e \<and> \<bar>coef (dv_value d)\<bar> \<le> 2 * 10 ^ 26"
    using yq assms(2) by auto
  have "\<forall>d\<in>set (map fv_value quarters). dexp d = e \<and> \<bar>coef d\<bar> \<le> 2 * 10 ^ 26"
    unfolding assms(9) using fy(2) ytd(2) by (auto simp: drop_map dest: in_set_dropD)
  then have "dv_value by_quarters = Dec (sum_list (map ?c quarters)) e"
    using four_quarters_value [OF assms(10,1)] by simp
  also have "map ?c quarters = drop q (diffs 0 (map ?c fy)) @ diffs 0 (map ?c ytd)"
    using arg_cong [OF assms(9), of "map coef"] fy(1) ytd(1) by (simp add: drop_map [symmetric])
  also have "sum_list \<dots> = last ((map ?c fy) ! (q - 1) # drop q (map ?c fy)) - (map ?c fy) ! (q - 1) +
      last (0 # map ?c ytd)"
    using assms(3,5,6) by (simp add: drop_diffs sum_diffs)
  also have "last ((map ?c fy) ! (q - 1) # drop q (map ?c fy)) = ?c (fy ! 3)"
    using assms(3,5,6) by (cases "q = 4") (auto simp: last_drop last_conv_nth)
  also have "last (0 # map ?c ytd) = ?c (ytd ! (q - 1))"
    using assms(4,5) by (cases ytd) (auto simp: last_conv_nth)
  finally have s: "dv_value by_quarters = Dec (?c (fy ! 3) - ?c (fy ! (q - 1)) + ?c (ytd ! (q - 1))) e"
    using assms(3,5,6) by simp
  have in_fits: "fits e (fv_value (fy ! 3))" "fits e (fv_value (fy ! (q - 1)))" "fits e (fv_value (ytd ! (q - 1)))"
    using assms(2-6) by auto
  have "dv_value by_bridge = Dec (?c (fy ! 3) + ?c (ytd ! (q - 1)) - ?c (fy ! (q - 1))) e"
    using assms(11) fits_add_sub [OF in_fits(1,3,2)]
    by (auto simp: calculate_ttm_bridge_def Let_def)
  with s show ?thesis by simp
qed

definition witness_period :: "int \<Rightarrow> period_type \<Rightarrow> int \<Rightarrow> int \<Rightarrow> int \<Rightarrow> bool \<Rightarrow> financial_period" where
  "witness_period year ptype quarter start stop cumulative =
     \<lparr>fp_fiscal_year = year, fp_fiscal_quarter = Some quarter, fp_fiscal_period = ''P'',
      fp_period_type = ptype, fp_fact_nature = DURATION, fp_period_start = Some start,
      fp_period_end = stop, fp_filing_date = None, fp_published_at = None,
      fp_duration_days = Some (stop - start + 1), fp_is_annual = (ptype = ANNUAL),
      fp_is_cumulative = cumulative, fp_is_single_quarter = (\<not> cumulative), fp_is_ttm = False,
      fp_accounting_standard = ''GAAP'', fp_source_form_type = ''10-K''\<rparr>"

definition witness_value :: "string \<Rightarrow> int \<Rightarrow> financial_period \<Rightarrow> financial_value" where
  "witness_value i v p =
     \<lparr>fv_fact_id = i, fv_security_id = ''s'', fv_concept = REVENUE, fv_period = p, fv_value = Dec v 0,
      fv_normalized_unit = ''ONE'', fv_currency_code = Some ''USD'', fv_accounting_basis = ''GAAP'',
      fv_source_published_at = Some 5\<rparr>"

definition witness_fy :: "financial_value list" where
  "witness_fy =
     [witness_value ''1'' 10 (witness_period 2020 QUARTER 1 1 90 True),
      witness_value ''2'' 30 (witness_period 2020 HALF_YEAR 2 1 180 True),
      witness_value ''3'' 60 (witness_period 2020 NINE_MONTH_YTD 3 1 270 True),
      witness_value ''4'' 100 (witness_period 2020 ANNUAL 4 1 365 True)]"

definition witness_ytd :: "financial_value list" where
  "witness_ytd = [witness_value ''5'' 15 (witness_period 2021 QUARTER 1 366 455 True)]"

definition witness_quarters :: "financial_value list" where
  "witness_quarters =
     [witness_value ''a'' 20 (witness_period 2020 QUARTER 2 91 180 False),
      witness_value ''b'' 30 (witness_period 2020 QUARTER 3 181 270 False),
      witness_value ''c'' 40 (witness_period 2020 QUARTER 4 271 365 False),
      witness_value ''d'' 15 (witness_period 2021 QUARTER 1 366 455 False)]"

lemma revenue_concept: "get_concept REVENUE = Inr (duration_amount INCOME_STATEMENT REVENUE)"
  by (simp add: get_concept_def concept_lists)

lemmas witness_facts = witness_fy_def witness_ytd_def witness_quarters_def witness_value_def
  witness_period_def

lemma witness_derived:
  "\<exists>ds. derive_quarters None witness_fy (Aware 9) = Inr ds \<and>
     drop 1 (map dv_value ds) = [Dec 20 0, Dec 30 0, Dec 40 0]"
  "\<exists>ds. derive_quarters None witness_ytd (Aware 9) = Inr ds \<and> map dv_value ds = [Dec 15 0]"
  by (simp_all add: witness_facts deaccumulate_quarter_def calc_aware_def revenue_concept
      duration_amount_def require_def require_visible_def cumulative_stage_def deaccumulate_after_def
      require_compatible_def compatible_with_def deaccumulated_def dec_eval)

lemma witness_ttm:
  "\<exists>a. calculate_ttm_four_quarters witness_quarters (Aware 9) = Inr a"
  "\<exists>b. calculate_ttm_bridge (witness_fy ! 3) (witness_ytd ! 0) (witness_fy ! 0) (Aware 9) = Inr b"
  by (simp_all add: calculate_ttm_four_quarters_def calculate_ttm_bridge_def witness_facts
      calc_aware_def require_def require_compatible_def compatible_with_def require_ttm_concept_def
      revenue_concept duration_amount_def require_all_visible_def require_visible_def quarter_index_def
      assess_period_comparability_def check_durations_def)

theorem ttm_methods_agree_witness:
  "\<exists>a b. calculate_ttm_four_quarters witness_quarters (Aware 9) = Inr a \<and>
    calculate_ttm_bridge (witness_fy ! 3) (witness_ytd ! 0) (witness_fy ! 0) (Aware 9) = Inr b \<and>
    dv_value a = dv_value b"
proof -
  obtain fq yq where q: "derive_quarters None witness_fy (Aware 9) = Inr fq"
      "derive_quarters None witness_ytd (Aware 9) = Inr yq"
    and v: "map fv_value witness_quarters = drop 1 (map dv_value fq) @ map dv_value yq"
    using witness_derived by (auto simp: witness_quarters_def witness_value_def)
  obtain a b where ab: "calculate_ttm_four_quarters witness_quarters (Aware 9) = Inr a"
      "calculate_ttm_bridge (witness_fy ! 3) (witness_ytd ! 0) (witness_fy ! 0) (Aware 9) = Inr b"
    using witness_ttm by blast
  have "\<forall>f\<in>set (witness_fy @ witness_ytd). fits 0 (fv_value f)"
    by (simp add: witness_fy_def witness_ytd_def witness_value_def fits_def)
  then have "dv_value a = dv_value b"
    using ttm_methods_agree [OF _ _ _ _ _ _ q v ab(1), of 0 b] ab(2)
    by (simp add: witness_fy_def witness_ytd_def)
  with ab show ?thesis by blast
qed

end
