(* ===== verification/Financial_Repository.thy ===== *)
theory Financial_Repository
  imports Metric_Formulas Period_Calculations
begin

text \<open>
  The tables of the financial domain and the operations of \<open>SqlAlchemyFinancialRepository\<close>
  (\<open>db/repositories/financials.py\<close>) that normalization and calculation use. A table is the list
  of its rows in the order of insertion. New identifiers come from \<open>uuid4\<close> and new times from
  the clock: both are numbered calls of the \<open>env\<close> of the state. A flush raises
  \<open>DatabaseError\<close> with the constraint it violates; primary keys, unique constraints, the numeric
  range and the value-state check are modelled, the length and pattern checks of texts are not.
  Advisory locks serialize transactions and have no effect in a sequential model.
\<close>

section \<open>Rows\<close>

record snapshot_row =
  sn_id :: uuid
  sn_security_id :: uuid
  sn_research_as_of_time :: datetime
  sn_status :: string

record concept_row =
  cn_id :: uuid
  cn_code :: string
  cn_fact_nature :: fact_nature
  cn_default_unit_type :: unit_type

record mapping_row =
  mp_id :: uuid
  mp_provider_id :: uuid
  mp_provider_concept :: string
  mp_taxonomy :: "string option"
  mp_statement_type :: string
  mp_form_type :: "string option"
  mp_context_rules :: "string list"
  mp_dimension_rules :: "string list"
  mp_canonical_concept_id :: "uuid option"
  mp_mapping_status :: string
  mp_mapping_version :: string
  mp_valid_from :: "date option"
  mp_valid_to :: "date option"

record provider_row =
  pv_id :: uuid
  pv_code :: string

record provider_fact_row =
  pf_id :: uuid
  pf_security_id :: uuid
  pf_provider_id :: uuid
  pf_statement_type :: string
  pf_provider_concept :: string
  pf_taxonomy :: "string option"
  pf_context_id :: "string option"
  pf_dimensions :: "(string, string) dict"
  pf_value :: "decimal option"
  pf_unit :: "string option"
  pf_currency_code :: "string option"
  pf_fiscal_year :: "int option"
  pf_fiscal_quarter :: "int option"
  pf_fiscal_period :: "string option"
  pf_period_start :: "date option"
  pf_period_end :: "date option"
  pf_instant_date :: "date option"
  pf_filed_at :: "datetime option"
  pf_source_published_at :: "datetime option"
  pf_form_type :: "string option"
  pf_is_annual :: "bool option"
  pf_is_cumulative :: "bool option"
  pf_is_restated :: "bool option"
  pf_retrieved_at :: datetime

record snapshot_item_row =
  si_snapshot_id :: uuid
  si_source_record_type :: string
  si_source_record_id :: uuid

record period_write =
  pw_security_id :: uuid
  pw_snapshot_id :: uuid
  pw_fiscal_year :: int
  pw_fiscal_quarter :: "int option"
  pw_fiscal_period :: string
  pw_period_type :: string
  pw_period_start :: "date option"
  pw_period_end :: date
  pw_filing_date :: "date option"
  pw_published_at :: "datetime option"
  pw_duration_days :: "int option"
  pw_is_annual :: bool
  pw_is_cumulative :: bool
  pw_is_single_quarter :: bool
  pw_is_ttm :: bool
  pw_accounting_standard :: string
  pw_source_form_type :: string

record fact_write =
  fw_security_id :: uuid
  fw_snapshot_id :: uuid
  fw_financial_period_id :: uuid
  fw_canonical_concept_id :: uuid
  fw_source_financial_fact_id :: uuid
  fw_mapping_id :: uuid
  fw_original_value :: dec
  fw_normalized_value :: dec
  fw_original_unit :: string
  fw_normalized_unit :: string
  fw_currency_code :: "string option"
  fw_scale_factor :: dec
  fw_fact_nature :: fact_nature
  fw_is_reported :: bool
  fw_is_derived_from_cumulative :: bool
  fw_is_restated :: bool
  fw_source_published_at :: "datetime option"
  fw_mapping_version :: string
  fw_normalization_version :: string

record fact_input_write =
  iw_normalized_fact_id :: uuid
  iw_input_normalized_fact_id :: uuid
  iw_input_role :: string
  iw_input_ordinal :: nat

record formula_row =
  fr_id :: uuid
  fr_metric_code :: string
  fr_formula_version :: string
  fr_status :: string

record run_write =
  rw_security_id :: uuid
  rw_snapshot_id :: uuid
  rw_status :: string
  rw_calculation_version :: string
  rw_formula_set_version :: string
  rw_mapping_version :: string
  rw_normalization_version :: string
  rw_input_checksum :: checksum
  rw_started_at :: datetime
  rw_warning_count :: nat

record calc_run_row = run_write +
  rr_id :: uuid
  rr_completed_at :: "datetime option"

record metric_write =
  mw_calculation_run_id :: uuid
  mw_security_id :: uuid
  mw_snapshot_id :: uuid
  mw_formula_definition_id :: uuid
  mw_metric_code :: string
  mw_metric_period :: string
  mw_period_end :: "date option"
  mw_value :: "dec option"
  mw_value_state :: string
  mw_unit :: string
  mw_currency_code :: "string option"
  mw_quality_status :: quality_status
  mw_formula_version :: string
  mw_warning_codes :: "string list"

record calc_input_write =
  cw_calculation_run_id :: uuid
  cw_metric_code :: string
  cw_normalized_fact_id :: "uuid option"
  cw_source_record_type :: "string option"
  cw_source_record_id :: "uuid option"
  cw_input_role :: string
  cw_value_used :: dec
  cw_unit :: string
  cw_currency_code :: "string option"

text \<open>A stored row that has only an identifier besides what was written is a pair.\<close>

record fin_db =
  fdb_snapshots :: "snapshot_row list"
  fdb_concepts :: "concept_row list"
  fdb_mappings :: "mapping_row list"
  fdb_providers :: "provider_row list"
  fdb_provider_facts :: "provider_fact_row list"
  fdb_snapshot_items :: "snapshot_item_row list"
  fdb_periods :: "(uuid \<times> period_write) list"
  fdb_facts :: "(uuid \<times> fact_write) list"
  fdb_fact_inputs :: "(uuid \<times> fact_input_write) list"
  fdb_formulas :: "formula_row list"
  fdb_runs :: "calc_run_row list"
  fdb_metrics :: "(uuid \<times> metric_write) list"
  fdb_calc_inputs :: "(uuid \<times> calc_input_write) list"
  fdb_env :: env

definition fresh_id :: "fin_db \<Rightarrow> uuid \<times> fin_db" where
  "fresh_id db = (case next_id (fdb_env db) of (i, e) \<Rightarrow> (i, db\<lparr>fdb_env := e\<rparr>))"

definition fresh_now :: "fin_db \<Rightarrow> datetime \<times> fin_db" where
  "fresh_now db = (case next_now (fdb_env db) of (t, e) \<Rightarrow> (t, db\<lparr>fdb_env := e\<rparr>))"

definition flush_check :: "bool \<Rightarrow> string \<Rightarrow> unit fin_res" where
  "flush_check ok constraint = (if ok then Inr () else Inl (DatabaseError constraint))"

definition store_numeric :: "dec \<Rightarrow> dec fin_res" where
  "store_numeric d =
     (case numeric_38_18 d of None \<Rightarrow> Inl (DatabaseError ''numeric field overflow'') | Some x \<Rightarrow> Inr x)"

section \<open>Reading\<close>

definition get_snapshot :: "fin_db \<Rightarrow> uuid \<Rightarrow> snapshot_row option" where
  "get_snapshot db snapshot_id = List.find (\<lambda>s. sn_id s = snapshot_id) (fdb_snapshots db)"

text \<open>\<open>NormalizedFactForCalculation\<close>: a fact joined with its period and the code of its concept.\<close>

record calc_fact =
  cf_id :: uuid
  cf_canonical_concept_code :: string
  cf_financial_period_id :: uuid
  cf_fiscal_year :: int
  cf_fiscal_quarter :: "int option"
  cf_fiscal_period :: string
  cf_period_type :: string
  cf_period_start :: "date option"
  cf_period_end :: date
  cf_duration_days :: "int option"
  cf_accounting_standard :: string
  cf_is_cumulative :: bool
  cf_is_single_quarter :: bool
  cf_normalized_value :: dec
  cf_normalized_unit :: string
  cf_currency_code :: "string option"
  cf_source_published_at :: datetime

definition calc_fact_of ::
  "uuid \<Rightarrow> fact_write \<Rightarrow> uuid \<Rightarrow> period_write \<Rightarrow> string \<Rightarrow> datetime \<Rightarrow> calc_fact" where
  "calc_fact_of fact_id f period_id p concept_code published =
     \<lparr>cf_id = fact_id, cf_canonical_concept_code = concept_code, cf_financial_period_id = period_id,
      cf_fiscal_year = pw_fiscal_year p, cf_fiscal_quarter = pw_fiscal_quarter p,
      cf_fiscal_period = pw_fiscal_period p, cf_period_type = pw_period_type p,
      cf_period_start = pw_period_start p, cf_period_end = pw_period_end p,
      cf_duration_days = pw_duration_days p, cf_accounting_standard = pw_accounting_standard p,
      cf_is_cumulative = pw_is_cumulative p, cf_is_single_quarter = pw_is_single_quarter p,
      cf_normalized_value = fw_normalized_value f, cf_normalized_unit = fw_normalized_unit f,
      cf_currency_code = fw_currency_code f, cf_source_published_at = published\<rparr>"

definition join_fact :: "fin_db \<Rightarrow> uuid \<times> fact_write \<Rightarrow> calc_fact option" where
  "join_fact db row =
     (case row of (fact_id, f) \<Rightarrow>
        (case (map_of (fdb_periods db) (fw_financial_period_id f),
               List.find (\<lambda>c. cn_id c = fw_canonical_concept_id f) (fdb_concepts db),
               fw_source_published_at f) of
           (Some p, Some c, Some t) \<Rightarrow> Some (calc_fact_of fact_id f (fw_financial_period_id f) p (cn_code c) t)
         | _ \<Rightarrow> None))"

definition list_normalized_facts :: "fin_db \<Rightarrow> uuid \<Rightarrow> calc_fact list" where
  "list_normalized_facts db snapshot_id =
     sort_key cf_period_end (order_by2 cf_canonical_concept_code cf_id
       (List.map_filter (join_fact db) (filter (\<lambda>(_, f). fw_snapshot_id f = snapshot_id) (fdb_facts db))))"

text \<open>\<open>find_calculation_run\<close>: the terminal run of the snapshot, checksum and versions.\<close>

type_synonym run_key = "uuid \<times> checksum \<times> string \<times> string \<times> string \<times> string"

definition run_key_of :: "calc_run_row \<Rightarrow> run_key" where
  "run_key_of r = (rw_snapshot_id r, rw_input_checksum r, rw_calculation_version r,
     rw_formula_set_version r, rw_mapping_version r, rw_normalization_version r)"

record calc_run_record =
  rc_id :: uuid
  rc_snapshot_id :: uuid
  rc_status :: string
  rc_input_checksum :: checksum
  rc_metric_count :: nat
  rc_warning_count :: nat

definition find_calculation_run :: "fin_db \<Rightarrow> run_key \<Rightarrow> calc_run_record option" where
  "find_calculation_run db key =
     map_option (\<lambda>r. \<lparr>rc_id = rr_id r, rc_snapshot_id = rw_snapshot_id r, rc_status = rw_status r,
         rc_input_checksum = rw_input_checksum r,
         rc_metric_count = length (filter (\<lambda>(_, m). mw_calculation_run_id m = rr_id r) (fdb_metrics db)),
         rc_warning_count = rw_warning_count r\<rparr>)
       (List.find (\<lambda>r. run_key_of r = key \<and> rw_status r \<noteq> ''RUNNING'') (fdb_runs db))"

definition get_formula_definition_id :: "fin_db \<Rightarrow> string \<Rightarrow> string \<Rightarrow> uuid fin_res" where
  "get_formula_definition_id db code version =
     (case List.find (\<lambda>f. fr_metric_code f = code \<and> fr_formula_version f = version \<and> fr_status f = ''ACTIVE'')
             (fdb_formulas db) of
        None \<Rightarrow> Inl (FinancialSeedConflictError (''active formula definition missing for '' @ code @ '':'' @ version))
      | Some f \<Rightarrow> Inr (fr_id f))"

section \<open>Writing calculation results\<close>

definition create_calculation_run :: "run_write \<Rightarrow> fin_db \<Rightarrow> (uuid \<times> fin_db) fin_res" where
  "create_calculation_run v db =
     (case fresh_id db of (i, db1) \<Rightarrow>
        let row = run_write.extend v (calc_run_row.fields i None) in
        bind_res (flush_check (\<forall>r\<in>set (fdb_runs db). rr_id r \<noteq> i) ''pk_calculation_runs'') (\<lambda>_.
        bind_res (flush_check (\<forall>r\<in>set (fdb_runs db). run_key_of r \<noteq> run_key_of row)
                    ''uq_calculation_runs_idempotency'') (\<lambda>_.
          Inr (i, db1\<lparr>fdb_runs := fdb_runs db @ [row]\<rparr>))))"

text \<open>What the value-state check of \<open>derived_metrics\<close> asks of the stored value.\<close>

definition value_state_check :: "metric_write \<Rightarrow> bool" where
  "value_state_check m \<longleftrightarrow>
     (case mw_value m of
        None \<Rightarrow> mw_value_state m = ''NULL'' \<or> mw_value_state m = ''NOT_MEANINGFUL''
      | Some v \<Rightarrow> mw_value_state m = (if dec_zero v then ''ZERO'' else ''VALUE''))"

definition store_metric_value :: "metric_write \<Rightarrow> metric_write fin_res" where
  "store_metric_value m =
     (case mw_value m of None \<Rightarrow> Inr m
      | Some v \<Rightarrow> bind_res (store_numeric v) (\<lambda>x. Inr (m\<lparr>mw_value := Some x\<rparr>)))"

definition metric_key :: "metric_write \<Rightarrow> uuid \<times> string \<times> string \<times> date option" where
  "metric_key m = (mw_calculation_run_id m, mw_metric_code m, mw_metric_period m, mw_period_end m)"

definition add_derived_metric :: "metric_write \<Rightarrow> fin_db \<Rightarrow> (uuid \<times> fin_db) fin_res" where
  "add_derived_metric v db =
     (case fresh_id db of (i, db1) \<Rightarrow>
        bind_res (store_metric_value v) (\<lambda>row.
        bind_res (flush_check (value_state_check row) ''ck_derived_metrics_value_state'') (\<lambda>_.
        bind_res (flush_check (i \<notin> fst ` set (fdb_metrics db)) ''pk_derived_metrics'') (\<lambda>_.
        bind_res (flush_check (metric_key row \<notin> metric_key ` snd ` set (fdb_metrics db))
                    ''uq_derived_metrics_run_metric_period'') (\<lambda>_.
          Inr (i, db1\<lparr>fdb_metrics := fdb_metrics db @ [(i, row)]\<rparr>))))))"

definition calc_input_key ::
  "calc_input_write \<Rightarrow> uuid \<times> string \<times> string \<times> uuid option \<times> string option \<times> uuid option" where
  "calc_input_key w = (cw_calculation_run_id w, cw_metric_code w, cw_input_role w,
     cw_normalized_fact_id w, cw_source_record_type w, cw_source_record_id w)"

definition add_calculation_input :: "calc_input_write \<Rightarrow> fin_db \<Rightarrow> (uuid \<times> fin_db) fin_res" where
  "add_calculation_input v db =
     (case fresh_id db of (i, db1) \<Rightarrow>
        bind_res (store_numeric (cw_value_used v)) (\<lambda>x.
        bind_res (flush_check (i \<notin> fst ` set (fdb_calc_inputs db)) ''pk_calculation_inputs'') (\<lambda>_.
        bind_res (flush_check (calc_input_key v \<notin> calc_input_key ` snd ` set (fdb_calc_inputs db))
                    ''uq_calculation_inputs_lineage'') (\<lambda>_.
          Inr (i, db1\<lparr>fdb_calc_inputs := fdb_calc_inputs db @ [(i, v\<lparr>cw_value_used := x\<rparr>)]\<rparr>)))))"

fun quality_status_value :: "quality_status \<Rightarrow> string" where
  "quality_status_value PASS = ''PASS''"
| "quality_status_value PARTIAL = ''PARTIAL''"
| "quality_status_value BLOCKED = ''BLOCKED''"
| "quality_status_value FAIL = ''FAIL''"

definition complete_calculation_run :: "uuid \<Rightarrow> quality_status \<Rightarrow> nat \<Rightarrow> fin_db \<Rightarrow> fin_db fin_res" where
  "complete_calculation_run run_id status warning_count db =
     (case List.find (\<lambda>r. rr_id r = run_id) (fdb_runs db) of
        None \<Rightarrow> Inl (FinancialSeedConflictError ''calculation run is missing or already terminal'')
      | Some run \<Rightarrow>
          if rw_status run \<noteq> ''RUNNING''
          then Inl (FinancialSeedConflictError ''calculation run is missing or already terminal'')
          else case fresh_now db of (t, db1) \<Rightarrow>
            bind_res (flush_check (rw_started_at run \<le> t) ''ck_calculation_runs_timestamp_order'') (\<lambda>_.
              Inr (db1\<lparr>fdb_runs := update_first (\<lambda>r. rr_id r = run_id)
                     (\<lambda>r. r\<lparr>rw_status := quality_status_value status, rw_warning_count := warning_count,
                            rr_completed_at := Some t\<rparr>) (fdb_runs db)\<rparr>)))"

section \<open>Frame conditions\<close>

text \<open>The tables that a calculation never writes.\<close>

definition same_inputs :: "fin_db \<Rightarrow> fin_db \<Rightarrow> bool" where
  "same_inputs a b \<longleftrightarrow> fdb_snapshots a = fdb_snapshots b \<and> fdb_concepts a = fdb_concepts b \<and>
     fdb_mappings a = fdb_mappings b \<and> fdb_providers a = fdb_providers b \<and>
     fdb_provider_facts a = fdb_provider_facts b \<and> fdb_snapshot_items a = fdb_snapshot_items b \<and>
     fdb_periods a = fdb_periods b \<and> fdb_facts a = fdb_facts b \<and>
     fdb_fact_inputs a = fdb_fact_inputs b \<and> fdb_formulas a = fdb_formulas b"

lemma same_inputs_refl [simp]: "same_inputs a a"
  by (simp add: same_inputs_def)

lemma same_inputs_trans: "same_inputs a b \<Longrightarrow> same_inputs b c \<Longrightarrow> same_inputs a c"
  by (simp add: same_inputs_def)

lemma list_normalized_facts_cong:
  assumes "same_inputs a b"
  shows "list_normalized_facts a sid = list_normalized_facts b sid"
proof -
  have "join_fact a = join_fact b" using assms by (auto simp: join_fact_def same_inputs_def fun_eq_iff)
  then show ?thesis using assms by (simp add: list_normalized_facts_def same_inputs_def)
qed

lemma get_snapshot_cong: "same_inputs a b \<Longrightarrow> get_snapshot a sid = get_snapshot b sid"
  by (simp add: get_snapshot_def same_inputs_def)

lemma fresh_id_cases: "fresh_id db = (i, db1) \<Longrightarrow> \<exists>e. db1 = db\<lparr>fdb_env := e\<rparr>"
  by (auto simp: fresh_id_def split: prod.splits)

lemma flush_check_Inr [simp]: "flush_check ok c = Inr u \<longleftrightarrow> ok"
  by (simp add: flush_check_def)

lemma create_run_Inr:
  assumes "create_calculation_run v db = Inr (i, db')"
  shows "\<exists>e. db' = db\<lparr>fdb_env := e, fdb_runs := fdb_runs db @ [run_write.extend v (calc_run_row.fields i None)]\<rparr> \<and>
    (\<forall>r\<in>set (fdb_runs db). rr_id r \<noteq> i \<and>
       run_key_of r \<noteq> run_key_of (run_write.extend v (calc_run_row.fields i None)))"
  using assms by (auto simp: create_calculation_run_def Let_def split: prod.splits dest!: fresh_id_cases)

lemma add_metric_Inr:
  assumes "add_derived_metric v db = Inr (i, db')"
  shows "\<exists>e row. db' = db\<lparr>fdb_env := e, fdb_metrics := fdb_metrics db @ [(i, row)]\<rparr> \<and>
    store_metric_value v = Inr row"
  using assms by (auto simp: add_derived_metric_def split: prod.splits dest!: fresh_id_cases)

lemma store_metric_value_fields:
  "store_metric_value v = Inr row \<Longrightarrow> \<exists>x. row = v\<lparr>mw_value := x\<rparr>"
  by (auto simp: store_metric_value_def split: option.splits intro: exI [of _ "mw_value v"])

lemma add_input_Inr:
  assumes "add_calculation_input v db = Inr (i, db')"
  shows "\<exists>e rows. db' = db\<lparr>fdb_env := e, fdb_calc_inputs := rows\<rparr>"
  using assms by (auto simp: add_calculation_input_def split: prod.splits dest!: fresh_id_cases)

lemma complete_run_Inr:
  assumes "complete_calculation_run i st n db = Inr db'"
  shows "\<exists>e t. db' = db\<lparr>fdb_env := e, fdb_runs := update_first (\<lambda>r. rr_id r = i)
      (\<lambda>r. r\<lparr>rw_status := quality_status_value st, rw_warning_count := n, rr_completed_at := Some t\<rparr>)
      (fdb_runs db)\<rparr>"
  using assms
  by (auto simp: complete_calculation_run_def fresh_now_def split: option.splits if_splits prod.splits)

end
