(* ===== verification/Metric_Service.thy ===== *)
theory Metric_Service
  imports Financial_Repository
begin

text \<open>
  \<open>MetricCalculationService\<close> (\<open>domain/financials/calculation_service.py\<close>): bind the facts of
  a snapshot to the inputs of every formula, execute the formulas and store the results in one
  calculation run, or reuse the terminal run of the same inputs.
\<close>

section \<open>Binding facts to formula inputs\<close>

type_synonym selection = "(string, calc_fact) dict"

definition role_concept :: "(string, string) dict" where
  "role_concept =
     [(''current_revenue'', ''REVENUE''), (''prior_revenue'', ''REVENUE''), (''revenue'', ''REVENUE''),
      (''cost_of_revenue'', ''COST_OF_REVENUE''), (''operating_income'', ''OPERATING_INCOME''),
      (''net_income_parent'', ''NET_INCOME_ATTRIBUTABLE_TO_PARENT''), (''net_income_total'', ''NET_INCOME''),
      (''opening_equity_parent'', ''EQUITY_ATTRIBUTABLE_TO_PARENT''),
      (''closing_equity_parent'', ''EQUITY_ATTRIBUTABLE_TO_PARENT''),
      (''opening_total_assets'', ''TOTAL_ASSETS''), (''closing_total_assets'', ''TOTAL_ASSETS''),
      (''opening_total_equity'', ''TOTAL_EQUITY''), (''closing_total_equity'', ''TOTAL_EQUITY''),
      (''opening_total_debt'', ''TOTAL_DEBT''), (''closing_total_debt'', ''TOTAL_DEBT''),
      (''opening_cash'', ''CASH_AND_CASH_EQUIVALENTS''), (''closing_cash'', ''CASH_AND_CASH_EQUIVALENTS''),
      (''reported_ocf'', ''OPERATING_CASH_FLOW''), (''operating_cash_flow'', ''OPERATING_CASH_FLOW''),
      (''capital_expenditures'', ''CAPITAL_EXPENDITURES''), (''total_liabilities'', ''TOTAL_LIABILITIES''),
      (''total_assets'', ''TOTAL_ASSETS''), (''total_debt'', ''TOTAL_DEBT''),
      (''cash'', ''CASH_AND_CASH_EQUIVALENTS''), (''reported_basic_eps'', ''BASIC_EPS''),
      (''reported_diluted_eps'', ''DILUTED_EPS''),
      (''actual_shares_outstanding'', ''PERIOD_END_SHARES_OUTSTANDING''),
      (''equity_parent'', ''EQUITY_ATTRIBUTABLE_TO_PARENT''), (''preferred_equity'', ''PREFERRED_EQUITY''),
      (''minority_interest'', ''MINORITY_INTEREST'')]"

fun ttm_concept :: "metric_code \<Rightarrow> string option" where
  "ttm_concept REVENUE_TTM = Some ''REVENUE''"
| "ttm_concept NET_INCOME_PARENT_TTM = Some ''NET_INCOME_ATTRIBUTABLE_TO_PARENT''"
| "ttm_concept EBITDA_TTM = Some ''EBITDA''"
| "ttm_concept _ = None"

definition facts_for_concept :: "calc_fact list \<Rightarrow> string \<Rightarrow> calc_fact list" where
  "facts_for_concept facts concept =
     sort_key cf_period_end (order_by2 cf_source_published_at cf_id
       (filter (\<lambda>f. cf_canonical_concept_code f = concept) facts))"

definition has_prefix :: "string \<Rightarrow> string \<Rightarrow> bool" where
  "has_prefix prefix s \<longleftrightarrow> take (length prefix) s = prefix"

definition is_opening :: "string \<Rightarrow> bool" where "is_opening role = has_prefix ''opening_'' role"

definition is_closing :: "string \<Rightarrow> bool" where "is_closing role = has_prefix ''closing_'' role"

text \<open>The last fact of the first role that is neither an opening nor a closing balance.\<close>

fun latest_anchor :: "string list \<Rightarrow> calc_fact list \<Rightarrow> calc_fact option" where
  "latest_anchor [] facts = None"
| "latest_anchor (role # roles) facts =
     (case map_of role_concept role of
        None \<Rightarrow> latest_anchor roles facts
      | Some concept \<Rightarrow>
          if is_opening role \<or> is_closing role then latest_anchor roles facts
          else let candidates = facts_for_concept facts concept
               in if candidates \<noteq> [] then Some (last candidates) else latest_anchor roles facts)"

definition select_for_role ::
  "calc_fact list \<Rightarrow> calc_fact option \<Rightarrow> string \<Rightarrow> calc_fact option" where
  "select_for_role facts anchor role =
     (case map_of role_concept role of
        None \<Rightarrow> None
      | Some concept \<Rightarrow>
          let candidates = facts_for_concept facts concept in
          if is_opening role
          then (if 2 \<le> length candidates then Some (candidates ! (length candidates - 2)) else None)
          else if is_closing role then (if candidates \<noteq> [] then Some (last candidates) else None)
          else (case anchor of
            Some a \<Rightarrow>
              let same_period = filter (\<lambda>f. cf_financial_period_id f = cf_financial_period_id a) candidates
              in if same_period \<noteq> [] then Some (last same_period) else None
          | None \<Rightarrow> if candidates \<noteq> [] then Some (last candidates) else None))"

definition bind_roles :: "string list \<Rightarrow> calc_fact list \<Rightarrow> selection" where
  "bind_roles roles facts =
     (let anchor = latest_anchor roles facts in
      List.map_filter (\<lambda>role. map_option (\<lambda>f. (role, f)) (select_for_role facts anchor role)) roles)"

definition bind_growth :: "calc_fact list \<Rightarrow> selection" where
  "bind_growth facts =
     (let revenue = facts_for_concept facts ''REVENUE'' in
      if revenue = [] then []
      else let current = last revenue;
               prior = List.find (\<lambda>f. cf_fiscal_year f = cf_fiscal_year current - 1 \<and>
                   cf_period_type f = cf_period_type current \<and>
                   cf_fiscal_quarter f = cf_fiscal_quarter current \<and>
                   cf_is_cumulative f = cf_is_cumulative current) (rev (butlast revenue))
           in (''current_revenue'', current) #
              (case prior of None \<Rightarrow> [] | Some p \<Rightarrow> [(''prior_revenue'', p)]))"

definition same_ttm_basis :: "calc_fact list \<Rightarrow> bool" where
  "same_ttm_basis facts \<longleftrightarrow>
     length (remdups (map cf_normalized_unit facts)) = 1 \<and>
     length (remdups (map cf_currency_code facts)) = 1 \<and> None \<notin> set (map cf_currency_code facts) \<and>
     length (remdups (map cf_accounting_standard facts)) = 1"

definition durations_are_comparable :: "calc_fact \<Rightarrow> calc_fact \<Rightarrow> bool" where
  "durations_are_comparable current comparison =
     (case (cf_duration_days current, cf_duration_days comparison) of
        (Some a, Some b) \<Rightarrow> \<bar>a - b\<bar> \<le> 7
      | (a, b) \<Rightarrow> a = b)"

fun fact_indexes :: "calc_fact list \<Rightarrow> int list option" where
  "fact_indexes [] = Some []"
| "fact_indexes (f # fs) =
     (case (cf_fiscal_quarter f, fact_indexes fs) of
        (Some q, Some is) \<Rightarrow> Some ((cf_fiscal_year f * 4 + q - 1) # is)
      | _ \<Rightarrow> None)"

definition quarters_are_comparable :: "calc_fact list \<Rightarrow> bool" where
  "quarters_are_comparable quarters \<longleftrightarrow> same_ttm_basis quarters \<and>
     (case fact_indexes quarters of None \<Rightarrow> False | Some is \<Rightarrow> consecutive is)"

text \<open>The first year-to-date fact, from the last, with a comparable one in the fiscal year.\<close>

fun bridge_for ::
  "calc_fact list \<Rightarrow> calc_fact \<Rightarrow> calc_fact list \<Rightarrow> selection option" where
  "bridge_for concept_facts annual [] = None"
| "bridge_for concept_facts annual (latest_ytd # rest) =
     (let prior_candidates = filter (\<lambda>f. cf_fiscal_year f = cf_fiscal_year annual \<and>
            cf_fiscal_quarter f = cf_fiscal_quarter latest_ytd \<and>
            cf_period_type f = cf_period_type latest_ytd \<and> cf_is_cumulative f \<and>
            cf_period_type f \<noteq> ''ANNUAL'') concept_facts in
      if prior_candidates = [] then bridge_for concept_facts annual rest
      else let prior_ytd = last prior_candidates in
        if same_ttm_basis [annual, latest_ytd, prior_ytd] \<and> durations_are_comparable latest_ytd prior_ytd
        then Some [(''latest_fy'', annual), (''latest_ytd'', latest_ytd), (''prior_ytd'', prior_ytd)]
        else bridge_for concept_facts annual rest)"

fun bridge_over :: "calc_fact list \<Rightarrow> calc_fact list \<Rightarrow> selection" where
  "bridge_over concept_facts [] = []"
| "bridge_over concept_facts (annual # rest) =
     (case bridge_for concept_facts annual (rev (filter (\<lambda>f. cf_fiscal_year f = cf_fiscal_year annual + 1 \<and>
              cf_is_cumulative f \<and> cf_period_type f \<noteq> ''ANNUAL'') concept_facts)) of
        Some s \<Rightarrow> s | None \<Rightarrow> bridge_over concept_facts rest)"

definition last_four :: "'a list \<Rightarrow> 'a list" where
  "last_four xs = drop (length xs - 4) xs"

definition bind_ttm :: "calc_fact list \<Rightarrow> string \<Rightarrow> selection" where
  "bind_ttm facts concept =
     (let concept_facts = facts_for_concept facts concept;
          quarters = last_four (filter (\<lambda>f. cf_is_single_quarter f \<and> \<not> cf_is_cumulative f) concept_facts)
      in if length quarters = 4 \<and> quarters_are_comparable quarters then zip quarter_roles quarters
         else bridge_over concept_facts
           (rev (filter (\<lambda>f. cf_period_type f = ''ANNUAL'' \<and> cf_is_cumulative f) concept_facts)))"

definition select_inputs :: "formula_definition \<Rightarrow> calc_fact list \<Rightarrow> selection" where
  "select_inputs definition facts =
     (case ttm_concept (fd_metric_code definition) of
        Some concept \<Rightarrow> bind_ttm facts concept
      | None \<Rightarrow>
          if fd_metric_code definition = REVENUE_GROWTH then bind_growth facts
          else bind_roles (fd_required_inputs definition) facts)"

fun formula_inputs_of :: "selection \<Rightarrow> formula_inputs fin_res" where
  "formula_inputs_of [] = Inr []"
| "formula_inputs_of ((role, f) # rest) =
     bind_res (make_formula_input (Some (cf_normalized_value f)) (cf_normalized_unit f) (cf_currency_code f))
       (\<lambda>i. bind_res (formula_inputs_of rest) (\<lambda>is. Inr ((role, i) # is)))"

section \<open>The service\<close>

definition fact_line :: "calc_fact \<Rightarrow> string" where
  "fact_line f =
     cf_id f @ ''|'' @ cf_canonical_concept_code f @ ''|'' @ cf_financial_period_id f @ ''|'' @
     dec_format_f (cf_normalized_value f) @ ''|'' @ cf_normalized_unit f @ ''|'' @
     (case cf_currency_code f of None \<Rightarrow> [] | Some c \<Rightarrow> c) @ ''|'' @
     (case cf_duration_days f of None \<Rightarrow> [] | Some d \<Rightarrow> if d = 0 then [] else int_str d) @ ''|'' @
     cf_accounting_standard f @ ''|'' @ utc_isoformat (cf_source_published_at f)"

fun join_lines :: "string list \<Rightarrow> string" where
  "join_lines [] = []"
| "join_lines [x] = x"
| "join_lines (x # y # zs) = x @ [CHR 0x0A] @ join_lines (y # zs)"

definition input_checksum :: "pylib \<Rightarrow> calc_fact list \<Rightarrow> checksum" where
  "input_checksum L facts = lib_sha256_hex L (join_lines (map fact_line (sort_key cf_id facts)))"

definition reference_fact :: "selection \<Rightarrow> calc_fact option" where
  "reference_fact selected =
     (case map snd selected of [] \<Rightarrow> None
      | f # fs \<Rightarrow> Some (fold (\<lambda>g best. if cf_period_end best < cf_period_end g \<or>
             cf_period_end best = cf_period_end g \<and> cf_id best < cf_id g then g else best) fs f))"

definition metric_period :: "formula_definition \<Rightarrow> calc_fact option \<Rightarrow> selection \<Rightarrow> string" where
  "metric_period definition reference selected =
     (if ttm_concept (fd_metric_code definition) \<noteq> None
      then (if map_of selected ''quarter_1'' \<noteq> None then ''TTM:FOUR_QUARTERS''
            else if map_of selected ''latest_fy'' \<noteq> None then ''TTM:ANNUAL_YTD_BRIDGE''
            else ''TTM:BLOCKED'')
      else case reference of None \<Rightarrow> ''SNAPSHOT'' | Some f \<Rightarrow> cf_fiscal_period f)"

definition aggregate_status :: "quality_status list \<Rightarrow> quality_status" where
  "aggregate_status statuses =
     (if statuses \<noteq> [] \<and> list_all (\<lambda>s. s = PASS) statuses then PASS
      else if list_ex (\<lambda>s. s = PASS \<or> s = PARTIAL) statuses then PARTIAL
      else BLOCKED)"

definition output_unit :: "metric_code \<Rightarrow> string" where
  "output_unit code = (if code \<in> set amount_outputs then ''ONE''
     else if code \<in> set per_share_outputs then ''PER_SHARE'' else ''RATIO'')"

record calculation_result =
  cr_calculation_run_id :: uuid
  cr_snapshot_id :: uuid
  cr_status :: string
  cr_metric_count :: nat
  cr_warning_count :: nat
  cr_input_checksum :: checksum

definition run_to_write :: "snapshot_row \<Rightarrow> checksum \<Rightarrow> datetime \<Rightarrow> run_write" where
  "run_to_write snapshot checksum started_at =
     \<lparr>rw_security_id = sn_security_id snapshot, rw_snapshot_id = sn_id snapshot, rw_status = ''RUNNING'',
      rw_calculation_version = ''1.0.0'', rw_formula_set_version = ''1.0.0'',
      rw_mapping_version = ''1.0.0'', rw_normalization_version = ''1.0.0'',
      rw_input_checksum = checksum, rw_started_at = started_at, rw_warning_count = 0\<rparr>"

text \<open>The metric of a snapshot without facts.\<close>

definition blocked_metric :: "uuid \<Rightarrow> snapshot_row \<Rightarrow> formula_definition \<Rightarrow> fin_db \<Rightarrow> fin_db fin_res" where
  "blocked_metric run_id snapshot definition db =
     bind_res (get_formula_definition_id db (metric_value (fd_metric_code definition))
                 (fd_formula_version definition)) (\<lambda>formula_id.
     bind_res (add_derived_metric
         \<lparr>mw_calculation_run_id = run_id, mw_security_id = sn_security_id snapshot,
          mw_snapshot_id = sn_id snapshot, mw_formula_definition_id = formula_id,
          mw_metric_code = metric_value (fd_metric_code definition), mw_metric_period = ''SNAPSHOT'',
          mw_period_end = None, mw_value = None, mw_value_state = ''NULL'',
          mw_unit = output_unit (fd_metric_code definition), mw_currency_code = None,
          mw_quality_status = BLOCKED, mw_formula_version = fd_formula_version definition,
          mw_warning_codes = [''NO_NORMALIZED_FINANCIAL_FACTS'']\<rparr> db) (\<lambda>(_, db'). Inr db'))"

definition input_to_write :: "uuid \<Rightarrow> formula_definition \<Rightarrow> string \<times> calc_fact \<Rightarrow> calc_input_write" where
  "input_to_write run_id definition rf =
     \<lparr>cw_calculation_run_id = run_id, cw_metric_code = metric_value (fd_metric_code definition),
      cw_normalized_fact_id = Some (cf_id (snd rf)), cw_source_record_type = None,
      cw_source_record_id = None, cw_input_role = fst rf, cw_value_used = cf_normalized_value (snd rf),
      cw_unit = cf_normalized_unit (snd rf), cw_currency_code = cf_currency_code (snd rf)\<rparr>"

definition metric_to_write ::
  "uuid \<Rightarrow> snapshot_row \<Rightarrow> formula_definition \<Rightarrow> selection \<Rightarrow> uuid \<Rightarrow> metric_result \<Rightarrow> metric_write" where
  "metric_to_write run_id snapshot definition selected formula_id result =
     (let reference = reference_fact selected in
      \<lparr>mw_calculation_run_id = run_id, mw_security_id = sn_security_id snapshot,
       mw_snapshot_id = sn_id snapshot, mw_formula_definition_id = formula_id,
       mw_metric_code = metric_value (fd_metric_code definition),
       mw_metric_period = metric_period definition reference selected,
       mw_period_end = map_option cf_period_end reference, mw_value = mr_value result,
       mw_value_state = value_state_value (mr_value_state result), mw_unit = mr_unit result,
       mw_currency_code = mr_currency_code result, mw_quality_status = mr_quality_status result,
       mw_formula_version = mr_formula_version result, mw_warning_codes = mr_warnings result\<rparr>)"

definition record_inputs :: "uuid \<Rightarrow> formula_definition \<Rightarrow> selection \<Rightarrow> fin_db \<Rightarrow> fin_db fin_res" where
  "record_inputs run_id definition selected db =
     fold_res (\<lambda>rf d. bind_res (add_calculation_input (input_to_write run_id definition rf) d)
        (\<lambda>(_, d'). Inr d')) (sort_key fst selected) db"

text \<open>One pass of the loop: the accumulator holds the statuses, the warnings so far and the state.\<close>

definition calculate_metric ::
  "uuid \<Rightarrow> snapshot_row \<Rightarrow> calc_fact list \<Rightarrow> formula_definition \<Rightarrow>
   quality_status list \<times> nat \<times> fin_db \<Rightarrow> (quality_status list \<times> nat \<times> fin_db) fin_res" where
  "calculate_metric run_id snapshot facts definition acc =
     (case acc of (statuses, warning_count, db) \<Rightarrow>
        let selected = select_inputs definition facts in
        bind_res (formula_inputs_of selected) (\<lambda>formula_inputs.
        bind_res (execute_formula (fd_metric_code definition) formula_inputs) (\<lambda>result.
        bind_res (get_formula_definition_id db (metric_value (fd_metric_code definition))
                    (fd_formula_version definition)) (\<lambda>formula_id.
        bind_res (add_derived_metric (metric_to_write run_id snapshot definition selected formula_id result) db)
          (\<lambda>(_, db1).
        bind_res (record_inputs run_id definition selected db1) (\<lambda>db2.
          Inr (statuses @ [mr_quality_status result], warning_count + length (mr_warnings result), db2)))))))"

definition result_of_run :: "calc_run_record \<Rightarrow> calculation_result" where
  "result_of_run r = \<lparr>cr_calculation_run_id = rc_id r, cr_snapshot_id = rc_snapshot_id r,
     cr_status = rc_status r, cr_metric_count = rc_metric_count r,
     cr_warning_count = rc_warning_count r, cr_input_checksum = rc_input_checksum r\<rparr>"

text \<open>Everything after the run is created; \<open>run_metrics\<close> is the loop over the registry.\<close>

definition run_metrics ::
  "uuid \<Rightarrow> snapshot_row \<Rightarrow> calc_fact list \<Rightarrow> fin_db \<Rightarrow> (quality_status \<times> nat \<times> fin_db) fin_res" where
  "run_metrics run_id snapshot facts db =
     (if facts = []
      then bind_res (fold_res (blocked_metric run_id snapshot) formula_registry db) (\<lambda>db'.
             Inr (BLOCKED, length formula_registry, db'))
      else bind_res (fold_res (calculate_metric run_id snapshot facts) formula_registry ([], 0, db))
             (\<lambda>(statuses, warning_count, db'). Inr (aggregate_status statuses, warning_count, db')))"

definition calculate_snapshot ::
  "pylib \<Rightarrow> uuid \<Rightarrow> fin_db \<Rightarrow> (calculation_result \<times> fin_db) fin_res" where
  "calculate_snapshot L snapshot_id db =
     (case get_snapshot db snapshot_id of
        None \<Rightarrow> Inl (FinValueError ''snapshot does not exist'')
      | Some snapshot \<Rightarrow>
          let facts = list_normalized_facts db snapshot_id;
              checksum = input_checksum L facts
          in case find_calculation_run db (snapshot_id, checksum, ''1.0.0'', ''1.0.0'', ''1.0.0'', ''1.0.0'') of
               Some existing \<Rightarrow> Inr (result_of_run existing, db)
             | None \<Rightarrow>
                 case fresh_now db of (started_at, db0) \<Rightarrow>
                 bind_res (create_calculation_run (run_to_write snapshot checksum started_at) db0)
                   (\<lambda>(run_id, db1).
                 bind_res (run_metrics run_id snapshot facts db1) (\<lambda>(status, warning_count, db2).
                 bind_res (complete_calculation_run run_id status warning_count db2) (\<lambda>db3.
                   Inr (\<lparr>cr_calculation_run_id = run_id, cr_snapshot_id = sn_id snapshot,
                          cr_status = quality_status_value status,
                          cr_metric_count = length formula_registry, cr_warning_count = warning_count,
                          cr_input_checksum = checksum\<rparr>, db3)))))"

section \<open>What a run stores\<close>

text \<open>The state has grown by a number of metrics of one run and otherwise kept what it reads.\<close>

definition grows :: "uuid \<Rightarrow> nat \<Rightarrow> fin_db \<Rightarrow> fin_db \<Rightarrow> bool" where
  "grows run_id n a b \<longleftrightarrow> same_inputs a b \<and> fdb_runs b = fdb_runs a \<and>
     (\<exists>ms. fdb_metrics b = fdb_metrics a @ ms \<and> length ms = n \<and>
        (\<forall>m\<in>set ms. mw_calculation_run_id (snd m) = run_id))"

lemma grows_refl [simp]: "grows i 0 a a"
  by (simp add: grows_def)

lemma grows_trans: "grows i m a b \<Longrightarrow> grows i n b c \<Longrightarrow> grows i (m + n) a c"
  unfolding grows_def
  by (elim conjE exE, intro conjI) (auto intro: same_inputs_trans)

lemma grows_add_metric:
  assumes "add_derived_metric v db = Inr (k, db')" and "mw_calculation_run_id v = i"
  shows "grows i 1 db db'"
proof -
  obtain e row where db': "db' = db\<lparr>fdb_env := e, fdb_metrics := fdb_metrics db @ [(k, row)]\<rparr>"
    and row: "store_metric_value v = Inr row" using add_metric_Inr [OF assms(1)] by blast
  have "mw_calculation_run_id row = i" using store_metric_value_fields [OF row] assms(2) by auto
  then show ?thesis by (simp add: grows_def db' same_inputs_def)
qed

lemma grows_add_input: "add_calculation_input v db = Inr (k, db') \<Longrightarrow> grows i 0 db db'"
  using add_input_Inr [of v db k db'] by (auto simp: grows_def same_inputs_def)

lemma fold_grows:
  assumes "\<And>x s t. x \<in> set xs \<Longrightarrow> f x s = Inr t \<Longrightarrow> grows i n (proj s) (proj t)"
    and "fold_res f xs s = Inr t"
  shows "grows i (n * length xs) (proj s) (proj t)"
  using assms
proof (induction xs arbitrary: s)
  case Nil
  then show ?case by simp
next
  case (Cons x xs)
  from Cons.prems(2) obtain u where u: "f x s = Inr u" "fold_res f xs u = Inr t" by auto
  have "grows i n (proj s) (proj u)" by (rule Cons.prems(1) [OF _ u(1)]) simp
  moreover have "grows i (n * length xs) (proj u) (proj t)" by (rule Cons.IH [OF _ u(2)]) (rule Cons.prems(1); simp)
  ultimately show ?case using grows_trans by (metis length_Cons mult_Suc_right)
qed

lemma blocked_metric_grows:
  assumes "blocked_metric i sn d db = Inr db'"
  shows "grows i 1 db db'"
proof -
  obtain w k where "add_derived_metric w db = Inr (k, db')" "mw_calculation_run_id w = i"
    using assms by (auto simp: blocked_metric_def intro: that [rotated])
  then show ?thesis by (rule grows_add_metric)
qed

lemma record_inputs_grows:
  assumes "record_inputs i d sel db = Inr db'"
  shows "grows k 0 db db'"
proof -
  have "grows k 0 s t" if "bind_res (add_calculation_input (input_to_write i d rf) s) (\<lambda>(_, d'). Inr d') = Inr t"
    for rf s t
    using that by (auto intro: grows_add_input)
  from fold_grows [where proj = id and n = 0 and i = k, OF _ assms [unfolded record_inputs_def]] this
  show ?thesis by simp
qed

lemma calculate_metric_grows:
  assumes "calculate_metric i sn facts d acc = Inr acc'"
  shows "grows i 1 (snd (snd acc)) (snd (snd acc'))"
proof -
  obtain w k db1 where m: "add_derived_metric w (snd (snd acc)) = Inr (k, db1)" "mw_calculation_run_id w = i"
    and f: "record_inputs i d (select_inputs d facts) db1 = Inr (snd (snd acc'))"
    using assms
    by (auto simp: calculate_metric_def Let_def metric_to_write_def intro: that [rotated] split: prod.splits)
  show ?thesis using grows_trans [OF grows_add_metric [OF m] record_inputs_grows [OF f]] by simp
qed

lemma run_metrics_grows:
  assumes "run_metrics i sn facts db = Inr (status, n, db')"
  shows "grows i (length formula_registry) db db'"
proof (cases "facts = []")
  case True
  then have f: "fold_res (blocked_metric i sn) formula_registry db = Inr db'"
    using assms by (auto simp: run_metrics_def)
  show ?thesis using fold_grows [where proj = id and n = 1, OF _ f] blocked_metric_grows by simp
next
  case False
  then obtain acc where f: "fold_res (calculate_metric i sn facts) formula_registry ([], 0, db) = Inr acc"
    and db': "snd (snd acc) = db'"
    using assms by (auto simp: run_metrics_def split: prod.splits)
  show ?thesis
    using fold_grows [where proj = "snd \<circ> snd" and n = 1, OF _ f] calculate_metric_grows db' by simp
qed

section \<open>A second calculation reuses the first\<close>

text \<open>The foreign key of the metrics.\<close>

definition metrics_have_runs :: "fin_db \<Rightarrow> bool" where
  "metrics_have_runs db \<longleftrightarrow> (\<forall>(_, m)\<in>set (fdb_metrics db). mw_calculation_run_id m \<in> rr_id ` set (fdb_runs db))"

lemma find_last:
  assumes "\<forall>x\<in>set xs. \<not> P x" and "P y"
  shows "List.find P (xs @ [y]) = Some y"
  using assms by (induction xs) auto

lemma update_first_last:
  assumes "\<forall>x\<in>set xs. \<not> P x" and "P y"
  shows "update_first P f (xs @ [y]) = xs @ [f y]"
  using assms by (induction xs) auto

abbreviation snapshot_key :: "pylib \<Rightarrow> uuid \<Rightarrow> fin_db \<Rightarrow> run_key" where
  "snapshot_key L sid db \<equiv>
     (sid, input_checksum L (list_normalized_facts db sid), ''1.0.0'', ''1.0.0'', ''1.0.0'', ''1.0.0'')"

lemma status_not_running: "quality_status_value st \<noteq> ''RUNNING''"
  by (cases st) simp_all

text \<open>The state a fresh calculation leaves: one more run, terminal, with its metrics.\<close>

lemma calculate_fresh:
  assumes run: "calculate_snapshot L sid db = Inr (r, db')"
    and none: "find_calculation_run db (snapshot_key L sid db) = None"
  shows "\<exists>row ms. same_inputs db db' \<and> fdb_runs db' = fdb_runs db @ [row] \<and>
    (\<forall>q\<in>set (fdb_runs db). rr_id q \<noteq> rr_id row \<and> run_key_of q \<noteq> run_key_of row) \<and>
    run_key_of row = snapshot_key L sid db \<and> rw_status row \<noteq> ''RUNNING'' \<and>
    fdb_metrics db' = fdb_metrics db @ ms \<and> length ms = length formula_registry \<and>
    (\<forall>m\<in>set ms. mw_calculation_run_id (snd m) = rr_id row) \<and>
    r = \<lparr>cr_calculation_run_id = rr_id row, cr_snapshot_id = sid, cr_status = rw_status row,
         cr_metric_count = length formula_registry, cr_warning_count = rw_warning_count row,
         cr_input_checksum = rw_input_checksum row\<rparr>"
proof -
  obtain snapshot where sn: "get_snapshot db sid = Some snapshot"
    using run by (auto simp: calculate_snapshot_def split: option.splits)
  then have sid: "sn_id snapshot = sid" by (auto simp: get_snapshot_def dest: find_SomeD)
  obtain started db0 where now: "fresh_now db = (started, db0)" by (cases "fresh_now db")
  then obtain e0 where db0: "db0 = db\<lparr>fdb_env := e0\<rparr>" by (auto simp: fresh_now_def split: prod.splits)
  let ?facts = "list_normalized_facts db sid"
  let ?w = "run_to_write snapshot (input_checksum L ?facts) started"
  obtain i db1 status n db2 where c: "create_calculation_run ?w db0 = Inr (i, db1)"
    and m: "run_metrics i snapshot ?facts db1 = Inr (status, n, db2)"
    and d: "complete_calculation_run i status n db2 = Inr db'"
    and r: "r = \<lparr>cr_calculation_run_id = i, cr_snapshot_id = sid, cr_status = quality_status_value status,
       cr_metric_count = length formula_registry, cr_warning_count = n,
       cr_input_checksum = input_checksum L ?facts\<rparr>"
    using run none sn sid now by (auto simp: calculate_snapshot_def Let_def)
  let ?row = "run_write.extend ?w (calc_run_row.fields i None)"
  obtain e1 where db1: "db1 = db0\<lparr>fdb_env := e1, fdb_runs := fdb_runs db0 @ [?row]\<rparr>"
    and new: "\<forall>q\<in>set (fdb_runs db). rr_id q \<noteq> i \<and> run_key_of q \<noteq> run_key_of ?row"
    using create_run_Inr [OF c] by (auto simp: db0)
  obtain ms where g: "same_inputs db1 db2" "fdb_runs db2 = fdb_runs db @ [?row]"
    "fdb_metrics db2 = fdb_metrics db @ ms" "length ms = length formula_registry"
    "\<forall>m\<in>set ms. mw_calculation_run_id (snd m) = i"
    using run_metrics_grows [OF m] by (auto simp: grows_def db1 db0)
  obtain e3 t where db': "db' = db2\<lparr>fdb_env := e3, fdb_runs := update_first (\<lambda>r. rr_id r = i)
      (\<lambda>r. r\<lparr>rw_status := quality_status_value status, rw_warning_count := n, rr_completed_at := Some t\<rparr>)
      (fdb_runs db2)\<rparr>" using complete_run_Inr [OF d] by blast
  let ?new = "?row\<lparr>rw_status := quality_status_value status, rw_warning_count := n, rr_completed_at := Some t\<rparr>"
  have ids: "rr_id ?row = i" by (simp add: run_write.defs calc_run_row.defs)
  have runs: "fdb_runs db' = fdb_runs db @ [?new]"
    using new ids by (simp add: db' g(2) update_first_last)
  have "same_inputs db db'" using g(1) by (simp add: same_inputs_def db' db1 db0)
  moreover have "run_key_of ?new = run_key_of ?row" "run_key_of ?row = snapshot_key L sid db"
    by (simp_all add: run_key_of_def run_write.defs calc_run_row.defs run_to_write_def sid)
  moreover have "rr_id ?new = i" "rw_status ?new = quality_status_value status" "rw_warning_count ?new = n"
    "rw_input_checksum ?new = input_checksum L ?facts"
    by (simp_all add: run_write.defs calc_run_row.defs run_to_write_def)
  moreover have "fdb_metrics db' = fdb_metrics db @ ms" using g(3) by (simp add: db')
  ultimately show ?thesis using runs new g(4,5) r status_not_running
    by (intro exI [of _ ?new] exI [of _ ms]) simp
qed

lemma find_run_of_fresh:
  assumes fk: "metrics_have_runs db"
    and runs: "fdb_runs db' = fdb_runs db @ [row]"
      "\<forall>q\<in>set (fdb_runs db). rr_id q \<noteq> rr_id row \<and> run_key_of q \<noteq> run_key_of row"
      "rw_status row \<noteq> ''RUNNING''"
    and ms: "fdb_metrics db' = fdb_metrics db @ ms" "\<forall>m\<in>set ms. mw_calculation_run_id (snd m) = rr_id row"
  shows "find_calculation_run db' (run_key_of row) =
    Some \<lparr>rc_id = rr_id row, rc_snapshot_id = rw_snapshot_id row, rc_status = rw_status row,
          rc_input_checksum = rw_input_checksum row, rc_metric_count = length ms,
          rc_warning_count = rw_warning_count row\<rparr>"
proof -
  have "List.find (\<lambda>r. run_key_of r = run_key_of row \<and> rw_status r \<noteq> ''RUNNING'') (fdb_runs db') = Some row"
    unfolding runs(1) by (rule find_last) (use runs(2,3) in auto)
  moreover have "filter (\<lambda>(_, m). mw_calculation_run_id m = rr_id row) (fdb_metrics db) = []"
    using fk runs(2) by (auto simp: metrics_have_runs_def filter_empty_conv)
  moreover have "filter (\<lambda>(_, m). mw_calculation_run_id m = rr_id row) ms = ms"
    using ms(2) by (auto simp: filter_id_conv)
  ultimately show ?thesis by (simp add: find_calculation_run_def ms(1))
qed

lemma calculate_existing:
  assumes "calculate_snapshot L sid db = Inr (r, db')"
    and "find_calculation_run db (snapshot_key L sid db) = Some existing"
  shows "r = result_of_run existing" "db' = db"
  using assms by (auto simp: calculate_snapshot_def Let_def split: option.splits)

lemma calculate_keeps_inputs:
  assumes "calculate_snapshot L sid db = Inr (r, db')"
  shows "same_inputs db db'"
proof (cases "find_calculation_run db (snapshot_key L sid db)")
  case None
  with calculate_fresh [OF assms] show ?thesis by blast
next
  case (Some existing)
  with calculate_existing(2) [OF assms] show ?thesis by simp
qed

lemma calculate_has_snapshot:
  "calculate_snapshot L sid db = Inr (r, db') \<Longrightarrow> \<exists>sn. get_snapshot db sid = Some sn"
  by (auto simp: calculate_snapshot_def split: option.splits)

lemma calculate_repeats:
  assumes "metrics_have_runs db" and "calculate_snapshot L sid db = Inr (r, db')"
  shows "calculate_snapshot L sid db' = Inr (r, db')"
proof (cases "find_calculation_run db (snapshot_key L sid db)")
  case (Some existing)
  from calculate_existing [OF assms(2) this] assms(2) show ?thesis by simp
next
  case None
  from calculate_fresh [OF assms(2) None] obtain row ms where same: "same_inputs db db'"
    and runs: "fdb_runs db' = fdb_runs db @ [row]"
      "\<forall>q\<in>set (fdb_runs db). rr_id q \<noteq> rr_id row \<and> run_key_of q \<noteq> run_key_of row"
    and key: "run_key_of row = snapshot_key L sid db" and st: "rw_status row \<noteq> ''RUNNING''"
    and ms: "fdb_metrics db' = fdb_metrics db @ ms" "length ms = length formula_registry"
      "\<forall>m\<in>set ms. mw_calculation_run_id (snd m) = rr_id row"
    and r: "r = \<lparr>cr_calculation_run_id = rr_id row, cr_snapshot_id = sid, cr_status = rw_status row,
         cr_metric_count = length formula_registry, cr_warning_count = rw_warning_count row,
         cr_input_checksum = rw_input_checksum row\<rparr>"
    by (elim exE conjE) (rule that)
  obtain sn where sn: "get_snapshot db' sid = Some sn"
    using calculate_has_snapshot [OF assms(2)] get_snapshot_cong [OF same] by auto
  note found = find_run_of_fresh [OF assms(1) runs st ms(1,3)]
  have "rw_snapshot_id row = sid" using key by (simp add: run_key_of_def)
  then show ?thesis
    using found sn r ms(2) list_normalized_facts_cong [OF same, of sid]
    by (simp add: key calculate_snapshot_def Let_def result_of_run_def)
qed

text \<open>
  C33. Calculation is idempotent. When a calculation of a snapshot has succeeded, a second one over
  the resulting state returns the same result (run, status, metric and warning counts, checksum)
  and changes nothing, whether the first one created the run or found it. The hypothesis is the
  foreign key of the metrics table.
\<close>

theorem calculation_idempotent:
  assumes "metrics_have_runs db" and "calculate_snapshot L sid db = Inr (r, db')"
  shows "calculate_snapshot L sid db' = Inr (r, db')"
  by (rule calculate_repeats [OF assms])

section \<open>Metrics that no fact can feed\<close>

text \<open>The formulas with a required role that \<open>role_concept\<close> does not bind.\<close>

definition unbound_codes :: "metric_code list" where
  "unbound_codes = [ROIC, MARKET_CAP, PE_TTM_DILUTED, PB_PARENT, PS_TTM, ENTERPRISE_VALUE,
     EV_TO_EBITDA_TTM, FCF_YIELD_TTM]"

lemma bind_roles_unbound:
  assumes "map_of role_concept role = None"
  shows "map_of (bind_roles roles facts) role = None"
proof -
  have "select_for_role facts a role = None" for a using assms by (simp add: select_for_role_def)
  then show ?thesis
    by (auto simp: bind_roles_def Let_def map_filter_def map_of_eq_None_iff)
qed

lemma formula_inputs_None:
  "formula_inputs_of sel = Inr inputs \<Longrightarrow> map_of inputs role = None \<longleftrightarrow> map_of sel role = None"
  by (induction sel arbitrary: inputs rule: formula_inputs_of.induct) auto

lemma required_missing:
  assumes "role \<in> set roles" and "map_of inputs role = None"
  shows "\<exists>w. required inputs roles = Inl (FormulaBlocked w)"
  using assms by (induction roles) (auto split: option.splits)

text \<open>The roles that no concept feeds; each of the formulas requires one of them.\<close>

definition unbound_roles :: "string list" where
  "unbound_roles = [''pretax_income'', ''price'', ''market_cap'', ''enterprise_value'']"

lemma unbound_roles_no_concept: "role \<in> set unbound_roles \<Longrightarrow> map_of role_concept role = None"
proof -
  have "list_all (\<lambda>role. map_of role_concept role = None) unbound_roles" by code_simp
  then show "role \<in> set unbound_roles \<Longrightarrow> map_of role_concept role = None" by (simp add: list_all_iff)
qed

lemma composite_formula_roles:
  "get_formula ROIC = Inr d \<Longrightarrow> ''pretax_income'' \<in> set (fd_required_inputs d)"
  "get_formula ENTERPRISE_VALUE = Inr e \<Longrightarrow> ''market_cap'' \<in> set (fd_required_inputs e)"
  unfolding get_formula_def formula_registry_def find.simps make_definition_simps metric_code.distinct if_False
  by auto

lemma ratio_formula_missing:
  assumes "map_of inputs a = None \<or> map_of inputs b = None"
  shows "\<exists>w. ratio_formula code inputs a b n = Inl (FormulaBlocked w)"
proof -
  obtain w where "required inputs [a, b] = Inl (FormulaBlocked w)"
    using assms required_missing [of _ "[a, b]"] by fastforce
  then show ?thesis by (simp add: ratio_formula_def Let_def)
qed

lemma composite_missing:
  assumes "map_of inputs ''pretax_income'' = None" "map_of inputs ''market_cap'' = None"
    "map_of inputs ''price'' = None"
  shows "\<exists>w. roic inputs = Inl (FormulaBlocked w)" "\<exists>w. enterprise_value inputs = Inl (FormulaBlocked w)"
    "\<exists>w. market_cap inputs = Inl (FormulaBlocked w)"
proof -
  obtain d e where d: "get_formula ROIC = Inr d" and e: "get_formula ENTERPRISE_VALUE = Inr e"
    using get_formula_total by blast
  show "\<exists>w. roic inputs = Inl (FormulaBlocked w)"
    using required_missing [OF composite_formula_roles(1) [OF d] assms(1)] d by (auto simp: roic_def)
  show "\<exists>w. enterprise_value inputs = Inl (FormulaBlocked w)"
    using required_missing [OF composite_formula_roles(2) [OF e] assms(2)] e
    by (auto simp: enterprise_value_def Let_def)
  show "\<exists>w. market_cap inputs = Inl (FormulaBlocked w)"
    using required_missing [OF _ assms(3), of "[''price'', ''actual_shares_outstanding'']"]
    by (auto simp: market_cap_def Let_def)
qed

lemma implementation_unbound:
  assumes "code \<in> set unbound_codes" and "\<forall>role\<in>set unbound_roles. map_of inputs role = None"
  shows "\<exists>w. implementation code inputs = Inl (FormulaBlocked w)"
proof -
  have m: "map_of inputs ''pretax_income'' = None" "map_of inputs ''market_cap'' = None"
    "map_of inputs ''price'' = None" "map_of inputs ''enterprise_value'' = None"
    using assms(2) by (simp_all add: unbound_roles_def)
  have n: "\<exists>w. ratio_formula c inputs ''market_cap'' b n = Inl (FormulaBlocked w)" for c b n
    by (rule ratio_formula_missing) (simp add: m)
  have y: "\<exists>w. ratio_formula c inputs a ''market_cap'' n = Inl (FormulaBlocked w)" for c a n
    by (rule ratio_formula_missing) (simp add: m)
  obtain w where "ratio_formula EV_TO_EBITDA_TTM inputs ''enterprise_value'' ''ebitda_ttm'' None = Inl (FormulaBlocked w)"
    using ratio_formula_missing m(4) by blast
  then have "\<exists>w. ev_to_ebitda inputs = Inl (FormulaBlocked w)" by (simp add: ev_to_ebitda_def)
  moreover note n y composite_missing [OF m(1,2,3)]
  moreover have "code = ROIC \<or> code = MARKET_CAP \<or> code = PE_TTM_DILUTED \<or> code = PB_PARENT \<or> code = PS_TTM \<or>
    code = ENTERPRISE_VALUE \<or> code = EV_TO_EBITDA_TTM \<or> code = FCF_YIELD_TTM"
    using assms(1) by (simp add: unbound_codes_def)
  ultimately show ?thesis by (elim disjE) (simp_all only: implementation.simps simp_thms)
qed

lemma execute_unbound:
  assumes "code \<in> set unbound_codes" "\<forall>role\<in>set unbound_roles. map_of inputs role = None"
    and "execute_formula code inputs = Inr result"
  shows "mr_value result = None" "mr_quality_status result = BLOCKED"
proof -
  obtain d where d: "get_formula code = Inr d" "fd_metric_code d = code" using get_formula_total by blast
  obtain w where "implementation code inputs = Inl (FormulaBlocked w)"
    using implementation_unbound [OF assms(1,2)] by blast
  then have "non_numeric code NULL w [] = Inr result" using assms(3) d by (simp add: execute_formula_def)
  then show "mr_value result = None" "mr_quality_status result = BLOCKED"
    using d by (auto simp: non_numeric_def)
qed

lemma select_inputs_unbound:
  assumes "fd_metric_code d \<in> set unbound_codes"
  shows "select_inputs d facts = bind_roles (fd_required_inputs d) facts"
  using assms by (auto simp: unbound_codes_def select_inputs_def)

text \<open>A metric of the run is blocked when its formula is one of these.\<close>

definition unbound_blocked :: "uuid \<Rightarrow> fin_db \<Rightarrow> bool" where
  "unbound_blocked i db \<longleftrightarrow> (\<forall>(_, m)\<in>set (fdb_metrics db).
     mw_calculation_run_id m = i \<longrightarrow> mw_metric_code m \<in> metric_value ` set unbound_codes \<longrightarrow>
       mw_value m = None \<and> mw_quality_status m = BLOCKED)"

lemma unbound_blocked_add:
  assumes "add_derived_metric w db = Inr (k, db')" and "unbound_blocked i db"
    and "mw_metric_code w \<in> metric_value ` set unbound_codes \<Longrightarrow> mw_value w = None \<and> mw_quality_status w = BLOCKED"
  shows "unbound_blocked i db'"
proof -
  obtain e row where db': "db' = db\<lparr>fdb_env := e, fdb_metrics := fdb_metrics db @ [(k, row)]\<rparr>"
    and row: "store_metric_value w = Inr row" using add_metric_Inr [OF assms(1)] by blast
  obtain x where x: "row = w\<lparr>mw_value := x\<rparr>" using store_metric_value_fields [OF row] by blast
  have "mw_value row = None" if "mw_value w = None" using row that by (simp add: store_metric_value_def)
  then show ?thesis using assms(2,3) x by (auto simp: unbound_blocked_def db')
qed

lemma record_inputs_metrics: "record_inputs i d sel db = Inr db' \<Longrightarrow> fdb_metrics db' = fdb_metrics db"
  using record_inputs_grows by (auto simp: grows_def)

lemma metric_value_unbound: "metric_value c \<in> metric_value ` set unbound_codes \<longleftrightarrow> c \<in> set unbound_codes"
  by (cases c) (simp_all add: unbound_codes_def)

lemma calculate_metric_unbound:
  assumes "calculate_metric i sn facts d acc = Inr acc'" and "unbound_blocked i (snd (snd acc))"
  shows "unbound_blocked i (snd (snd acc'))"
    and "fd_metric_code d \<in> set unbound_codes \<Longrightarrow> BLOCKED \<in> set (fst acc')"
    and "set (fst acc) \<subseteq> set (fst acc')"
proof -
  let ?sel = "select_inputs d facts"
  obtain inputs result f k db1 where i: "formula_inputs_of ?sel = Inr inputs"
    and x: "execute_formula (fd_metric_code d) inputs = Inr result"
    and m: "add_derived_metric (metric_to_write i sn d ?sel f result) (snd (snd acc)) = Inr (k, db1)"
    and r: "record_inputs i d ?sel db1 = Inr (snd (snd acc'))"
    and s: "fst acc' = fst acc @ [mr_quality_status result]"
    using assms(1) by (auto simp: calculate_metric_def Let_def split: prod.splits intro: that)
  have b: "mr_value result = None \<and> mr_quality_status result = BLOCKED" if c: "fd_metric_code d \<in> set unbound_codes"
  proof -
    have "\<forall>role\<in>set unbound_roles. map_of inputs role = None"
      using formula_inputs_None [OF i] select_inputs_unbound [OF c] bind_roles_unbound
        unbound_roles_no_concept by simp
    then show ?thesis using execute_unbound [OF c _ x] by simp
  qed
  have "unbound_blocked i db1"
    by (rule unbound_blocked_add [OF m assms(2)])
       (use b metric_value_unbound in \<open>auto simp: metric_to_write_def Let_def\<close>)
  then show "unbound_blocked i (snd (snd acc'))"
    using record_inputs_metrics [OF r] by (simp add: unbound_blocked_def)
  show "fd_metric_code d \<in> set unbound_codes \<Longrightarrow> BLOCKED \<in> set (fst acc')" using b s by simp
  show "set (fst acc) \<subseteq> set (fst acc')" using s by auto
qed

lemma blocked_metric_unbound:
  assumes "blocked_metric i sn d db = Inr db'" and "unbound_blocked i db"
  shows "unbound_blocked i db'"
proof -
  obtain w k where "add_derived_metric w db = Inr (k, db')" "mw_value w = None" "mw_quality_status w = BLOCKED"
    using assms(1) by (auto simp: blocked_metric_def intro: that [rotated])
  then show ?thesis using unbound_blocked_add [OF _ assms(2)] by simp
qed

lemma registry_has_market_cap: "\<exists>d\<in>set formula_registry. fd_metric_code d \<in> set unbound_codes"
proof -
  have "MARKET_CAP \<in> fd_metric_code ` set formula_registry"
    by (simp add: registry_codes flip: set_map)
  moreover have "MARKET_CAP \<in> set unbound_codes" by (simp add: unbound_codes_def)
  ultimately show ?thesis by (metis imageE)
qed

lemma loop_reports_blocked:
  assumes "fold_res (calculate_metric i sn facts) ds acc = Inr acc'" and "unbound_blocked i (snd (snd acc))"
  shows "unbound_blocked i (snd (snd acc')) \<and> set (fst acc) \<subseteq> set (fst acc') \<and>
    ((\<exists>d\<in>set ds. fd_metric_code d \<in> set unbound_codes) \<longrightarrow> BLOCKED \<in> set (fst acc'))"
  using assms
proof (induction ds arbitrary: acc)
  case Nil
  then show ?case by simp
next
  case (Cons d ds)
  from Cons.prems(1) obtain u where u: "calculate_metric i sn facts d acc = Inr u"
    and v: "fold_res (calculate_metric i sn facts) ds u = Inr acc'" by auto
  note step = calculate_metric_unbound [OF u Cons.prems(2)]
  from Cons.IH [OF v step(1)] step(2,3) show ?case by (auto dest: subsetD)
qed

lemma aggregate_blocked: "BLOCKED \<in> set statuses \<Longrightarrow> aggregate_status statuses \<in> {PARTIAL, BLOCKED}"
  by (auto simp: aggregate_status_def list_all_iff)

lemma run_metrics_unbound:
  assumes "run_metrics i sn facts db = Inr (status, n, db')" and "unbound_blocked i db"
  shows "unbound_blocked i db' \<and> status \<in> {PARTIAL, BLOCKED}"
proof (cases "facts = []")
  case True
  then have f: "fold_res (blocked_metric i sn) formula_registry db = Inr db'" "status = BLOCKED"
    using assms(1) by (auto simp: run_metrics_def)
  show ?thesis
    using fold_res_invariant [where I = "unbound_blocked i", OF f(1) assms(2)] blocked_metric_unbound f(2) by simp
next
  case False
  then obtain acc where f: "fold_res (calculate_metric i sn facts) formula_registry ([], 0, db) = Inr acc"
    and db': "snd (snd acc) = db'" and st: "status = aggregate_status (fst acc)"
    using assms(1) by (auto simp: run_metrics_def split: prod.splits)
  show ?thesis
    using loop_reports_blocked [OF f] assms(2) registry_has_market_cap aggregate_blocked db' st by simp
qed

text \<open>
  C34. A fresh calculation never passes. Eight of the formulas (return on invested capital, market
  capitalization and everything derived from it) require an input that the role table binds to no
  concept, so every metric of the new run with one of these codes is stored blocked and without a
  value, and the status of the run is PARTIAL or BLOCKED, never PASS, whatever the facts.
\<close>

theorem unbound_metrics_blocked:
  assumes "metrics_have_runs db" and "find_calculation_run db (snapshot_key L sid db) = None"
    and "calculate_snapshot L sid db = Inr (r, db')"
  shows "unbound_blocked (cr_calculation_run_id r) db' \<and> cr_status r \<in> {''PARTIAL'', ''BLOCKED''}"
proof -
  obtain snapshot where sn: "get_snapshot db sid = Some snapshot"
    using calculate_has_snapshot [OF assms(3)] by blast
  obtain started db0 where now: "fresh_now db = (started, db0)" by (cases "fresh_now db")
  then obtain e0 where db0: "db0 = db\<lparr>fdb_env := e0\<rparr>" by (auto simp: fresh_now_def split: prod.splits)
  let ?facts = "list_normalized_facts db sid"
  obtain i db1 status n db2
    where c: "create_calculation_run (run_to_write snapshot (input_checksum L ?facts) started) db0 = Inr (i, db1)"
    and m: "run_metrics i snapshot ?facts db1 = Inr (status, n, db2)"
    and d: "complete_calculation_run i status n db2 = Inr db'"
    and r: "cr_calculation_run_id r = i" "cr_status r = quality_status_value status"
    using assms(2,3) sn now by (auto simp: calculate_snapshot_def Let_def)
  have fresh: "fdb_metrics db1 = fdb_metrics db" "\<forall>q\<in>set (fdb_runs db). rr_id q \<noteq> i"
    using create_run_Inr [OF c] by (auto simp: db0)
  then have "mw_calculation_run_id (snd m) \<noteq> i" if "m \<in> set (fdb_metrics db1)" for m
    using assms(1) that by (fastforce simp: metrics_have_runs_def)
  then have "unbound_blocked i db1" by (force simp: unbound_blocked_def)
  from run_metrics_unbound [OF m this] have u: "unbound_blocked i db2" "status \<in> {PARTIAL, BLOCKED}" by auto
  have "unbound_blocked i db'" using complete_run_Inr [OF d] u(1) by (auto simp: unbound_blocked_def)
  then show ?thesis using r u(2) by auto
qed

section \<open>Values below the scale of the column\<close>

text \<open>A nonzero metric that rounds to zero at 18 decimals fails the value-state check of its row.\<close>

lemma tiny_metric_rejected:
  assumes "mw_value w = Some v" "mw_value_state w = ''VALUE''" "numeric_38_18 v = Some x" "dec_zero x"
  shows "add_derived_metric w db = Inl (DatabaseError ''ck_derived_metrics_value_state'')"
  using assms
  by (simp add: add_derived_metric_def store_metric_value_def store_numeric_def value_state_check_def
      flush_check_def split: prod.splits)

section \<open>Witnesses\<close>

definition calc_lib :: pylib where
  "calc_lib = \<lparr>lib_casefold = id, lib_sha256_hex = (\<lambda>s. replicate 64 (CHR ''a'')),
     lib_decimal = (\<lambda>s. None), lib_fromisoformat = (\<lambda>s. None)\<rparr>"

definition demo_fin_db :: fin_db where
  "demo_fin_db =
     \<lparr>fdb_snapshots = [\<lparr>sn_id = ''s'', sn_security_id = ''x'', sn_research_as_of_time = 100, sn_status = ''READY''\<rparr>],
      fdb_concepts = [], fdb_mappings = [], fdb_providers = [], fdb_provider_facts = [], fdb_snapshot_items = [],
      fdb_periods = [], fdb_facts = [], fdb_fact_inputs = [],
      fdb_formulas = map (\<lambda>d. \<lparr>fr_id = metric_value (fd_metric_code d),
         fr_metric_code = metric_value (fd_metric_code d), fr_formula_version = ''1.0.0'',
         fr_status = ''ACTIVE''\<rparr>) formula_registry,
      fdb_runs = [], fdb_metrics = [], fdb_calc_inputs = [],
      fdb_env = \<lparr>env_id = (\<lambda>n. replicate n CHR ''i''), env_now = (\<lambda>n. int n), env_i = 0, env_t = 0\<rparr>\<rparr>"

lemma demo_calculated:
  "map_sum id fst (calculate_snapshot calc_lib ''s'' demo_fin_db) =
     Inr \<lparr>cr_calculation_run_id = [], cr_snapshot_id = ''s'', cr_status = ''BLOCKED'',
          cr_metric_count = 23, cr_warning_count = 23, cr_input_checksum = lib_sha256_hex calc_lib []\<rparr>"
  by code_simp

lemma demo_succeeds:
  "\<exists>r db'. calculate_snapshot calc_lib ''s'' demo_fin_db = Inr (r, db') \<and> cr_metric_count r = 23"
  using demo_calculated by (cases "calculate_snapshot calc_lib ''s'' demo_fin_db") auto

lemma demo_fin_db_state: "metrics_have_runs demo_fin_db" "fdb_runs demo_fin_db = []"
  by (simp_all add: metrics_have_runs_def demo_fin_db_def)

theorem calculation_idempotent_witness:
  "metrics_have_runs demo_fin_db \<and>
   (\<exists>r db'. calculate_snapshot calc_lib ''s'' demo_fin_db = Inr (r, db') \<and> cr_metric_count r = 23 \<and>
      calculate_snapshot calc_lib ''s'' db' = Inr (r, db'))"
  using demo_succeeds demo_fin_db_state(1) calculation_idempotent [of demo_fin_db calc_lib "''s''"] by blast

theorem unbound_metrics_blocked_witness:
  "metrics_have_runs demo_fin_db \<and>
   find_calculation_run demo_fin_db (snapshot_key calc_lib ''s'' demo_fin_db) = None \<and>
   (\<exists>r db'. calculate_snapshot calc_lib ''s'' demo_fin_db = Inr (r, db') \<and>
      unbound_blocked (cr_calculation_run_id r) db' \<and> cr_status r \<in> {''PARTIAL'', ''BLOCKED''})"
proof -
  have none: "find_calculation_run demo_fin_db (snapshot_key calc_lib ''s'' demo_fin_db) = None"
    by (simp add: find_calculation_run_def demo_fin_db_state)
  obtain r db' where c: "calculate_snapshot calc_lib ''s'' demo_fin_db = Inr (r, db')"
    using demo_succeeds by blast
  from unbound_metrics_blocked [OF demo_fin_db_state(1) none c] none c demo_fin_db_state(1)
  show ?thesis by blast
qed

end
