(* ===== verification/Fact_Normalization.thy ===== *)
theory Fact_Normalization
  imports Financial_Repository
begin

text \<open>
  Provider facts become normalized facts: the mapping rules of \<open>domain/financials/mapping.py\<close>,
  the normalization service of \<open>domain/financials/normalization.py\<close> and the repository operations
  it calls (\<open>db/repositories/financials.py\<close>). A call of the service is one transaction with a
  session of its own, so a row it reads has the values the columns hold. Times of the database are
  in UTC. The dimension values and the rules of a mapping are texts, and the case change of a fiscal
  period label is that of ASCII.
\<close>

section \<open>Mapping rules\<close>

datatype mapping_status = APPROVED | AMBIGUOUS | UNMAPPED | DEPRECATED

record mapping_input =
  mi_provider_code :: string
  mi_provider_concept :: string
  mi_taxonomy :: string
  mi_statement_type :: statement_type
  mi_form_type :: "string option"
  mi_contexts :: "string list"
  mi_dimensions :: "string list"
  mi_source_published_on :: date

record mapping_rule =
  mr_rule_id :: string
  mr_provider_code :: string
  mr_provider_concept :: string
  mr_taxonomy :: string
  mr_statement_type :: statement_type
  mr_form_type :: "string option"
  mr_context_rules :: "string list"
  mr_dimension_rules :: "string list"
  mr_canonical_concept :: "canonical_concept option"
  mr_status :: mapping_status
  mr_mapping_version :: string
  mr_valid_from :: "date option"
  mr_valid_to :: "date option"
  mr_source_reference :: "string option"
  mr_reviewed_by :: "string option"

definition falsy :: "string option \<Rightarrow> bool" where
  "falsy s \<longleftrightarrow> s = None \<or> s = Some []"

definition check_rule :: "mapping_rule \<Rightarrow> mapping_rule fin_res" where
  "check_rule r =
     (if mr_rule_id r = [] \<or> mr_provider_code r = [] \<or> mr_provider_concept r = []
      then Inl (FinValueError ''mapping identity fields must not be empty'')
      else if (case (mr_valid_from r, mr_valid_to r) of (Some a, Some b) \<Rightarrow> b < a | _ \<Rightarrow> False)
      then Inl (FinValueError ''valid_to cannot precede valid_from'')
      else if mr_status r = APPROVED \<and> mr_canonical_concept r = None
      then Inl (FinValueError ''APPROVED mappings require a canonical_concept'')
      else if mr_status r = APPROVED \<and> falsy (mr_source_reference r)
      then Inl (FinValueError ''APPROVED mappings require source_reference evidence'')
      else if mr_status r = APPROVED \<and> falsy (mr_reviewed_by r)
      then Inl (FinValueError ''APPROVED mappings require reviewed_by evidence'')
      else Inr r)"

record mapping_result =
  ms_status :: mapping_status
  ms_canonical_concept :: "canonical_concept option"
  ms_rule_ids :: "string list"
  ms_mapping_version :: "string option"

definition rule_matches :: "mapping_input \<Rightarrow> mapping_rule \<Rightarrow> bool" where
  "rule_matches f r \<longleftrightarrow>
     mr_status r \<noteq> DEPRECATED \<and>
     mi_provider_code f = mr_provider_code r \<and> mi_provider_concept f = mr_provider_concept r \<and>
     mi_taxonomy f = mr_taxonomy r \<and> mi_statement_type f = mr_statement_type r \<and>
     (mr_form_type r = None \<or> mi_form_type f = mr_form_type r) \<and>
     set (mr_context_rules r) \<subseteq> set (mi_contexts f) \<and>
     set (mr_dimension_rules r) \<subseteq> set (mi_dimensions f) \<and>
     (case mr_valid_from r of None \<Rightarrow> True | Some d \<Rightarrow> d \<le> mi_source_published_on f) \<and>
     (case mr_valid_to r of None \<Rightarrow> True | Some d \<Rightarrow> mi_source_published_on f \<le> d)"

definition resolve_fact_mapping :: "mapping_input \<Rightarrow> mapping_rule list \<Rightarrow> mapping_result" where
  "resolve_fact_mapping f rules =
     (let matches = sort_key mr_rule_id (filter (rule_matches f) rules) in
      if matches = []
      then \<lparr>ms_status = UNMAPPED, ms_canonical_concept = None, ms_rule_ids = [], ms_mapping_version = None\<rparr>
      else let rule_ids = map mr_rule_id matches;
               approved = filter (\<lambda>r. mr_status r = APPROVED) matches
           in if length matches \<noteq> 1 \<or> length approved \<noteq> 1
              then \<lparr>ms_status = AMBIGUOUS, ms_canonical_concept = None, ms_rule_ids = rule_ids,
                    ms_mapping_version = None\<rparr>
              else let selected = hd approved
                   in \<lparr>ms_status = APPROVED, ms_canonical_concept = mr_canonical_concept selected,
                       ms_rule_ids = rule_ids, ms_mapping_version = Some (mr_mapping_version selected)\<rparr>)"

section \<open>Reading provider facts and mappings\<close>

record raw_fact =
  rf_id :: uuid
  rf_security_id :: uuid
  rf_provider_id :: uuid
  rf_provider_code :: string
  rf_statement_type :: string
  rf_provider_concept :: string
  rf_taxonomy :: "string option"
  rf_context_id :: "string option"
  rf_dimensions :: "(string \<times> string) list"
  rf_value :: decimal
  rf_unit :: string
  rf_currency_code :: "string option"
  rf_fiscal_year :: int
  rf_fiscal_quarter :: "int option"
  rf_fiscal_period :: string
  rf_period_start :: "date option"
  rf_period_end :: "date option"
  rf_instant_date :: "date option"
  rf_filed_at :: "datetime option"
  rf_source_published_at :: "datetime option"
  rf_form_type :: "string option"
  rf_is_annual :: bool
  rf_is_cumulative :: bool
  rf_is_restated :: bool
  rf_retrieved_at :: datetime

text \<open>A provider fact without a value, unit, fiscal year or period is skipped.\<close>

definition raw_fact_of :: "provider_fact_row \<Rightarrow> string \<Rightarrow> raw_fact option" where
  "raw_fact_of f code =
     (case (pf_value f, pf_unit f, pf_fiscal_year f, pf_fiscal_period f) of
        (Some v, Some u, Some y, Some p) \<Rightarrow>
          Some \<lparr>rf_id = pf_id f, rf_security_id = pf_security_id f, rf_provider_id = pf_provider_id f,
            rf_provider_code = code, rf_statement_type = pf_statement_type f,
            rf_provider_concept = pf_provider_concept f, rf_taxonomy = pf_taxonomy f,
            rf_context_id = pf_context_id f, rf_dimensions = order_by2 fst snd (pf_dimensions f),
            rf_value = v, rf_unit = u, rf_currency_code = pf_currency_code f, rf_fiscal_year = y,
            rf_fiscal_quarter = pf_fiscal_quarter f, rf_fiscal_period = p,
            rf_period_start = pf_period_start f, rf_period_end = pf_period_end f,
            rf_instant_date = pf_instant_date f, rf_filed_at = pf_filed_at f,
            rf_source_published_at = pf_source_published_at f, rf_form_type = pf_form_type f,
            rf_is_annual = (pf_is_annual f = Some True), rf_is_cumulative = (pf_is_cumulative f = Some True),
            rf_is_restated = (pf_is_restated f = Some True), rf_retrieved_at = pf_retrieved_at f\<rparr>
      | _ \<Rightarrow> None)"

text \<open>The join of a snapshot item with the fact and the provider it names.\<close>

definition item_fact :: "fin_db \<Rightarrow> snapshot_item_row \<Rightarrow> (provider_fact_row \<times> string) option" where
  "item_fact db item =
     (case List.find (\<lambda>f. pf_id f = si_source_record_id item) (fdb_provider_facts db) of
        None \<Rightarrow> None
      | Some f \<Rightarrow> map_option (\<lambda>p. (f, pv_code p))
          (List.find (\<lambda>p. pv_id p = pf_provider_id f) (fdb_providers db)))"

definition list_snapshot_financial_facts :: "fin_db \<Rightarrow> uuid \<Rightarrow> raw_fact list" where
  "list_snapshot_financial_facts db snapshot_id =
     List.map_filter (\<lambda>(f, code). raw_fact_of f code)
       (sort_key (\<lambda>(f, _). pf_id f) (List.map_filter (item_fact db)
         (filter (\<lambda>i. si_snapshot_id i = snapshot_id \<and> si_source_record_type i = ''provider_financial_facts'')
           (fdb_snapshot_items db))))"

record approved_mapping =
  am_mapping_id :: uuid
  am_canonical_concept_id :: uuid
  am_canonical_concept_code :: string
  am_fact_nature :: fact_nature
  am_default_unit_type :: unit_type
  am_accounting_standard :: string
  am_mapping_version :: string

definition mapping_candidate :: "raw_fact \<Rightarrow> date \<Rightarrow> mapping_row \<Rightarrow> bool" where
  "mapping_candidate f as_of m \<longleftrightarrow>
     mp_provider_id m = rf_provider_id f \<and> mp_provider_concept m = rf_provider_concept f \<and>
     mp_taxonomy m = rf_taxonomy f \<and> mp_statement_type m = rf_statement_type f \<and>
     mp_form_type m = rf_form_type f \<and> mp_mapping_status m = ''APPROVED'' \<and>
     (case mp_valid_from m of None \<Rightarrow> True | Some d \<Rightarrow> d \<le> as_of) \<and>
     (case mp_valid_to m of None \<Rightarrow> True | Some d \<Rightarrow> as_of \<le> d)"

definition rules_hold :: "raw_fact \<Rightarrow> mapping_row \<Rightarrow> bool" where
  "rules_hold f m \<longleftrightarrow>
     set (mp_context_rules m) \<subseteq> (case rf_context_id f of None \<Rightarrow> {} | Some c \<Rightarrow> {c}) \<and>
     set (mp_dimension_rules m) \<subseteq> set (map (\<lambda>(k, v). k @ ''='' @ v) (rf_dimensions f))"

text \<open>The inner join with the concept of a mapping.\<close>

definition mapped_concept :: "fin_db \<Rightarrow> mapping_row \<Rightarrow> (mapping_row \<times> concept_row) option" where
  "mapped_concept db m =
     (case mp_canonical_concept_id m of
        None \<Rightarrow> None
      | Some c \<Rightarrow> map_option (\<lambda>row. (m, row)) (List.find (\<lambda>row. cn_id row = c) (fdb_concepts db)))"

definition accounting_standard_of :: "raw_fact \<Rightarrow> string" where
  "accounting_standard_of f =
     (case rf_taxonomy f of None \<Rightarrow> ''PROVIDER_REPORTED''
      | Some t \<Rightarrow> if t = [] then ''PROVIDER_REPORTED'' else t)"

definition find_approved_fact_mapping :: "fin_db \<Rightarrow> raw_fact \<Rightarrow> date \<Rightarrow> approved_mapping option" where
  "find_approved_fact_mapping db f as_of =
     (case filter (\<lambda>(m, _). rules_hold f m)
             (List.map_filter (mapped_concept db) (sort_key mp_id (filter (mapping_candidate f as_of) (fdb_mappings db)))) of
        [(m, c)] \<Rightarrow> Some \<lparr>am_mapping_id = mp_id m, am_canonical_concept_id = cn_id c,
           am_canonical_concept_code = cn_code c, am_fact_nature = cn_fact_nature c,
           am_default_unit_type = cn_default_unit_type c, am_accounting_standard = accounting_standard_of f,
           am_mapping_version = mp_mapping_version m\<rparr>
      | _ \<Rightarrow> None)"

section \<open>Idempotent writes\<close>

definition period_key where
  "period_key p = (pw_security_id p, pw_snapshot_id p, pw_fiscal_year p, pw_fiscal_quarter p,
     pw_fiscal_period p, pw_period_type p, pw_period_start p, pw_period_end p, pw_is_cumulative p,
     pw_is_single_quarter p, pw_accounting_standard p, pw_source_form_type p)"

definition get_or_create_financial_period :: "period_write \<Rightarrow> fin_db \<Rightarrow> (uuid \<times> fin_db) fin_res" where
  "get_or_create_financial_period v db =
     (case List.find (\<lambda>(_, p). p = v) (fdb_periods db) of
        Some (i, _) \<Rightarrow> Inr (i, db)
      | None \<Rightarrow>
          (case fresh_id db of (i, db1) \<Rightarrow>
             bind_res (flush_check (i \<notin> fst ` set (fdb_periods db)) ''pk_financial_periods'') (\<lambda>_.
             bind_res (flush_check (period_key v \<notin> period_key ` snd ` set (fdb_periods db))
                         ''uq_financial_periods_snapshot_identity'') (\<lambda>_.
               Inr (i, db1\<lparr>fdb_periods := fdb_periods db @ [(i, v)]\<rparr>)))))"

definition fact_key :: "fact_write \<Rightarrow> uuid \<times> uuid \<times> string \<times> string \<times> bool" where
  "fact_key f = (fw_snapshot_id f, fw_source_financial_fact_id f, fw_mapping_version f,
     fw_normalization_version f, fw_is_derived_from_cumulative f)"

text \<open>Every column of the stored row equals the value; decimals are compared as numbers.\<close>

definition fact_agrees :: "fact_write \<Rightarrow> fact_write \<Rightarrow> bool" where
  "fact_agrees row v \<longleftrightarrow>
     dec_same (fw_original_value row) (fw_original_value v) \<and>
     dec_same (fw_normalized_value row) (fw_normalized_value v) \<and>
     dec_same (fw_scale_factor row) (fw_scale_factor v) \<and>
     row\<lparr>fw_original_value := fw_original_value v, fw_normalized_value := fw_normalized_value v,
         fw_scale_factor := fw_scale_factor v\<rparr> = v"

definition store_fact :: "fact_write \<Rightarrow> fact_write fin_res" where
  "store_fact v =
     bind_res (store_numeric (fw_original_value v)) (\<lambda>a.
     bind_res (store_numeric (fw_normalized_value v)) (\<lambda>b.
     bind_res (store_numeric (fw_scale_factor v)) (\<lambda>c.
       Inr (v\<lparr>fw_original_value := a, fw_normalized_value := b, fw_scale_factor := c\<rparr>))))"

definition get_or_create_normalized_fact ::
  "fact_write \<Rightarrow> fin_db \<Rightarrow> ((uuid \<times> bool) \<times> fin_db) fin_res" where
  "get_or_create_normalized_fact v db =
     (case List.find (\<lambda>(_, f). fact_key f = fact_key v) (fdb_facts db) of
        Some (i, row) \<Rightarrow>
          if fact_agrees row v then Inr ((i, False), db)
          else Inl (FinancialSeedConflictError
            (''normalized fact conflict for source '' @ fw_source_financial_fact_id v))
      | None \<Rightarrow>
          (case fresh_id db of (i, db1) \<Rightarrow>
             bind_res (store_fact v) (\<lambda>row.
             bind_res (flush_check (i \<notin> fst ` set (fdb_facts db)) ''pk_normalized_financial_facts'') (\<lambda>_.
               Inr ((i, True), db1\<lparr>fdb_facts := fdb_facts db @ [(i, row)]\<rparr>)))))"

definition lineage_key :: "fact_input_write \<Rightarrow> uuid \<times> string \<times> uuid" where
  "lineage_key w = (iw_normalized_fact_id w, iw_input_role w, iw_input_normalized_fact_id w)"

definition get_or_create_normalized_fact_input ::
  "fact_input_write \<Rightarrow> fin_db \<Rightarrow> ((uuid \<times> bool) \<times> fin_db) fin_res" where
  "get_or_create_normalized_fact_input v db =
     (case List.find (\<lambda>(_, w). lineage_key w = lineage_key v) (fdb_fact_inputs db) of
        Some (i, row) \<Rightarrow>
          if iw_input_ordinal row = iw_input_ordinal v then Inr ((i, False), db)
          else Inl (FinancialSeedConflictError
            (''normalized lineage conflict for fact '' @ iw_normalized_fact_id v))
      | None \<Rightarrow>
          (case fresh_id db of (i, db1) \<Rightarrow>
             bind_res (flush_check (iw_normalized_fact_id v \<noteq> iw_input_normalized_fact_id v)
                         ''ck_normalized_fact_inputs_no_self_reference'') (\<lambda>_.
             bind_res (flush_check (i \<notin> fst ` set (fdb_fact_inputs db)) ''pk_normalized_fact_inputs'') (\<lambda>_.
               Inr ((i, True), db1\<lparr>fdb_fact_inputs := fdb_fact_inputs db @ [(i, v)]\<rparr>)))))"

section \<open>Building a period\<close>

definition date_of :: "datetime \<Rightarrow> date" where
  "date_of t = t div 86400000000"

definition ascii_upper :: "string \<Rightarrow> string" where
  "ascii_upper = map ascii_upper_char"

definition raw_period_type :: "raw_fact \<Rightarrow> fact_nature \<Rightarrow> period_type fin_res" where
  "raw_period_type f nature =
     (if nature = fact_nature.INSTANT then Inr period_type.INSTANT
      else let label = ascii_upper (rf_fiscal_period f) in
        if label \<in> {''FY'', ''ANNUAL''} \<or> rf_is_annual f then Inr ANNUAL
        else if label \<in> {''H1'', ''HY'', ''HALF_YEAR''} then Inr HALF_YEAR
        else if label \<in> {''9M'', ''Q3_YTD'', ''NINE_MONTH_YTD''} then Inr NINE_MONTH_YTD
        else if label \<in> {''YTD'', ''YEAR_TO_DATE''} then Inr YEAR_TO_DATE
        else if rf_fiscal_quarter f \<noteq> None \<or> label \<in> {''Q1'', ''Q2'', ''Q3'', ''Q4''} then Inr QUARTER
        else Inl (PeriodSemanticsError (''unsupported fiscal period: '' @ rf_fiscal_period f)))"

definition build_period :: "raw_fact \<Rightarrow> fact_nature \<Rightarrow> string \<Rightarrow> financial_period fin_res" where
  "build_period f nature standard =
     bind_res (raw_period_type f nature) (\<lambda>ptype.
       case (if ptype = period_type.INSTANT then rf_instant_date f else rf_period_end f) of
         None \<Rightarrow> Inl (PeriodSemanticsError ''period_end or instant_date is required'')
       | Some period_end \<Rightarrow>
           (case rf_form_type f of
              None \<Rightarrow> Inl (PeriodSemanticsError ''source form type is required'')
            | Some form \<Rightarrow> create_period
                \<lparr>pa_fiscal_year = Some (rf_fiscal_year f), pa_fiscal_quarter = rf_fiscal_quarter f,
                 pa_fiscal_period = rf_fiscal_period f, pa_period_type = ptype, pa_fact_nature = nature,
                 pa_period_start = rf_period_start f, pa_period_end = period_end,
                 pa_filing_date = map_option date_of (rf_filed_at f),
                 pa_published_at = map_option Aware (rf_source_published_at f),
                 pa_is_cumulative = rf_is_cumulative f,
                 pa_is_single_quarter = (ptype = QUARTER \<and> \<not> rf_is_cumulative f),
                 pa_accounting_standard = standard, pa_source_form_type = form\<rparr>))"

text \<open>The columns of a period; a derived quarter is written with its own flags.\<close>

definition period_to_write :: "uuid \<Rightarrow> uuid \<Rightarrow> financial_period \<Rightarrow> period_write" where
  "period_to_write security_id snapshot_id p =
     \<lparr>pw_security_id = security_id, pw_snapshot_id = snapshot_id, pw_fiscal_year = fp_fiscal_year p,
      pw_fiscal_quarter = fp_fiscal_quarter p, pw_fiscal_period = fp_fiscal_period p,
      pw_period_type = period_type_value (fp_period_type p), pw_period_start = fp_period_start p,
      pw_period_end = fp_period_end p, pw_filing_date = fp_filing_date p,
      pw_published_at = fp_published_at p, pw_duration_days = fp_duration_days p,
      pw_is_annual = fp_is_annual p, pw_is_cumulative = fp_is_cumulative p,
      pw_is_single_quarter = fp_is_single_quarter p, pw_is_ttm = fp_is_ttm p,
      pw_accounting_standard = fp_accounting_standard p, pw_source_form_type = fp_source_form_type p\<rparr>"

definition reported_unit_checked :: "string \<Rightarrow> reported_unit fin_res" where
  "reported_unit_checked s =
     (case reported_unit_of_text s of
        None \<Rightarrow> Inl (FinValueError (py_repr s @ '' is not a valid ReportedUnit'')) | Some u \<Rightarrow> Inr u)"

definition normalized_parts :: "raw_fact \<Rightarrow> approved_mapping \<Rightarrow> (financial_period \<times> unit_result) fin_res" where
  "normalized_parts f m =
     bind_res (build_period f (am_fact_nature m) (am_accounting_standard m)) (\<lambda>period.
     bind_res (reported_unit_checked (rf_unit f)) (\<lambda>u.
     bind_res (normalize_unit (rf_value f) (reported_unit_value u) (am_default_unit_type m)) (\<lambda>unit.
       Inr (period, unit))))"

text \<open>The message of an exception that \<open>except ValueError\<close> catches.\<close>

fun value_error_message :: "fin_error \<Rightarrow> string option" where
  "value_error_message (UnitNormalizationBlocked m) = Some m"
| "value_error_message (PeriodSemanticsError m) = Some m"
| "value_error_message (CalculationBlocked m) = Some m"
| "value_error_message (FinValueError m) = Some m"
| "value_error_message _ = None"

section \<open>Reported facts\<close>

record reported_fact =
  rn_raw :: raw_fact
  rn_snapshot_id :: uuid
  rn_mapping :: approved_mapping
  rn_period :: financial_period
  rn_period_id :: uuid
  rn_normalized_fact_id :: uuid
  rn_normalized_value :: unit_result

definition reported_to_write ::
  "snapshot_row \<Rightarrow> raw_fact \<Rightarrow> datetime \<Rightarrow> approved_mapping \<Rightarrow> unit_result \<Rightarrow> uuid \<Rightarrow> fact_write" where
  "reported_to_write snapshot f published m unit period_id =
     \<lparr>fw_security_id = rf_security_id f, fw_snapshot_id = sn_id snapshot,
      fw_financial_period_id = period_id, fw_canonical_concept_id = am_canonical_concept_id m,
      fw_source_financial_fact_id = rf_id f, fw_mapping_id = am_mapping_id m,
      fw_original_value = ur_original_value unit, fw_normalized_value = ur_normalized_value unit,
      fw_original_unit = reported_unit_value (ur_original_unit unit),
      fw_normalized_unit = ur_normalized_unit unit, fw_currency_code = rf_currency_code f,
      fw_scale_factor = ur_scale_factor unit, fw_fact_nature = am_fact_nature m, fw_is_reported = True,
      fw_is_derived_from_cumulative = False, fw_is_restated = rf_is_restated f,
      fw_source_published_at = Some published, fw_mapping_version = am_mapping_version m,
      fw_normalization_version = ''1.0.0''\<rparr>"

text \<open>What the loops accumulate.\<close>

record progress =
  pg_warnings :: "string list"
  pg_count :: nat
  pg_period_ids :: "uuid list"
  pg_reported :: "reported_fact list"

definition warn :: "string \<Rightarrow> progress \<Rightarrow> progress" where
  "warn w p = p\<lparr>pg_warnings := pg_warnings p @ [w]\<rparr>"

definition split_eligible ::
  "datetime \<Rightarrow> raw_fact list \<Rightarrow> string list \<times> (raw_fact \<times> datetime) list" where
  "split_eligible as_of facts =
     (List.map_filter (\<lambda>f. case rf_source_published_at f of
          None \<Rightarrow> Some (''SOURCE_PUBLISHED_AT_UNKNOWN:'' @ rf_id f)
        | Some t \<Rightarrow> if as_of < t then Some (''FACT_AFTER_RESEARCH_AS_OF:'' @ rf_id f) else None) facts,
      List.map_filter (\<lambda>f. case rf_source_published_at f of
          None \<Rightarrow> None | Some t \<Rightarrow> if as_of < t then None else Some (f, t)) facts)"

definition store_reported ::
  "snapshot_row \<Rightarrow> raw_fact \<times> datetime \<Rightarrow> approved_mapping \<Rightarrow> financial_period \<Rightarrow> unit_result \<Rightarrow>
   progress \<Rightarrow> fin_db \<Rightarrow> (progress \<times> fin_db) fin_res" where
  "store_reported snapshot ft m period unit p db =
     (case ft of (f, published) \<Rightarrow>
        bind_res (get_or_create_financial_period (period_to_write (rf_security_id f) (sn_id snapshot) period) db)
          (\<lambda>(period_id, db1).
        bind_res (get_or_create_normalized_fact (reported_to_write snapshot f published m unit period_id) db1)
          (\<lambda>((fact_id, _), db2).
          Inr (p\<lparr>pg_count := Suc (pg_count p), pg_period_ids := pg_period_ids p @ [period_id],
                 pg_reported := pg_reported p @
                   [\<lparr>rn_raw = f, rn_snapshot_id = sn_id snapshot, rn_mapping = m, rn_period = period,
                     rn_period_id = period_id, rn_normalized_fact_id = fact_id,
                     rn_normalized_value = unit\<rparr>]\<rparr>, db2))))"

definition normalize_fact ::
  "snapshot_row \<Rightarrow> raw_fact \<times> datetime \<Rightarrow> progress \<times> fin_db \<Rightarrow> (progress \<times> fin_db) fin_res" where
  "normalize_fact snapshot ft acc =
     (case acc of (p, db) \<Rightarrow>
        let f = fst ft in
        case find_approved_fact_mapping db f (date_of (sn_research_as_of_time snapshot)) of
          None \<Rightarrow> Inr (warn (''NO_APPROVED_MAPPING:'' @ rf_id f) p, db)
        | Some m \<Rightarrow>
            (case normalized_parts f m of
               Inl e \<Rightarrow>
                 (case value_error_message e of
                    None \<Rightarrow> Inl e
                  | Some message \<Rightarrow>
                      Inr (warn (''FACT_NORMALIZATION_BLOCKED:'' @ rf_id f @ '':'' @ message) p, db))
             | Inr (period, unit) \<Rightarrow> store_reported snapshot ft m period unit p db))"

section \<open>Single quarters from cumulative facts\<close>

type_synonym group_key = "uuid \<times> string \<times> int \<times> string option \<times> string"

definition cumulative_key :: "reported_fact \<Rightarrow> group_key option" where
  "cumulative_key item =
     (if am_fact_nature (rn_mapping item) \<noteq> DURATION \<or> \<not> rf_is_cumulative (rn_raw item) then None
      else map_option (\<lambda>c. (rf_security_id (rn_raw item), concept_value c, rf_fiscal_year (rn_raw item),
             rf_currency_code (rn_raw item), am_accounting_standard (rn_mapping item)))
           (concept_of_text (am_canonical_concept_code (rn_mapping item))))"

text \<open>The groups in the order of their first members, each sorted by the end of its period.\<close>

definition cumulative_groups :: "reported_fact list \<Rightarrow> reported_fact list list" where
  "cumulative_groups items =
     map (\<lambda>k. sort_key (fp_period_end \<circ> rn_period) (filter (\<lambda>item. cumulative_key item = Some k) items))
       (rev (remdups (rev (List.map_filter cumulative_key items))))"

definition value_of_item :: "canonical_concept \<Rightarrow> reported_fact \<Rightarrow> financial_value fin_res" where
  "value_of_item concept item =
     check_value \<lparr>fv_fact_id = rn_normalized_fact_id item, fv_security_id = rf_security_id (rn_raw item),
       fv_concept = concept, fv_period = rn_period item,
       fv_value = ur_normalized_value (rn_normalized_value item),
       fv_normalized_unit = ur_normalized_unit (rn_normalized_value item),
       fv_currency_code = rf_currency_code (rn_raw item),
       fv_accounting_basis = am_accounting_standard (rn_mapping item),
       fv_source_published_at = rf_source_published_at (rn_raw item)\<rparr>"

definition derive_value ::
  "datetime \<Rightarrow> reported_fact option \<Rightarrow> reported_fact \<Rightarrow> derived_value fin_res" where
  "derive_value as_of previous current =
     (case concept_of_text (am_canonical_concept_code (rn_mapping current)) of
        None \<Rightarrow> Inl (FinValueError
          (py_repr (am_canonical_concept_code (rn_mapping current)) @ '' is not a valid CanonicalConcept''))
      | Some concept \<Rightarrow>
          bind_res (value_of_item concept current) (\<lambda>current_value.
          bind_res (case previous of None \<Rightarrow> Inr None
                    | Some q \<Rightarrow> bind_res (value_of_item concept q) (\<lambda>v. Inr (Some v))) (\<lambda>previous_value.
            deaccumulate_quarter current_value previous_value (Aware as_of))))"

definition quarter_of :: "reported_fact \<Rightarrow> int" where
  "quarter_of item = (case rf_fiscal_quarter (rn_raw item) of
     None \<Rightarrow> 4 | Some q \<Rightarrow> if q = 0 then 4 else q)"

definition derived_period :: "reported_fact \<Rightarrow> date \<Rightarrow> financial_period fin_res" where
  "derived_period item start =
     create_period
       \<lparr>pa_fiscal_year = Some (rf_fiscal_year (rn_raw item)), pa_fiscal_quarter = Some (quarter_of item),
        pa_fiscal_period = ''Q'' @ int_str (quarter_of item), pa_period_type = QUARTER,
        pa_fact_nature = DURATION, pa_period_start = Some start,
        pa_period_end = fp_period_end (rn_period item), pa_filing_date = fp_filing_date (rn_period item),
        pa_published_at = map_option Aware (fp_published_at (rn_period item)), pa_is_cumulative = False,
        pa_is_single_quarter = True, pa_accounting_standard = am_accounting_standard (rn_mapping item),
        pa_source_form_type = fp_source_form_type (rn_period item)\<rparr>"

definition derived_to_write ::
  "reported_fact \<Rightarrow> datetime \<Rightarrow> derived_value \<Rightarrow> uuid \<Rightarrow> fact_write" where
  "derived_to_write item published d period_id =
     (let raw = rn_raw item; m = rn_mapping item; unit = rn_normalized_value item in
      \<lparr>fw_security_id = rf_security_id raw, fw_snapshot_id = rn_snapshot_id item,
       fw_financial_period_id = period_id, fw_canonical_concept_id = am_canonical_concept_id m,
       fw_source_financial_fact_id = rf_id raw, fw_mapping_id = am_mapping_id m,
       fw_original_value = ur_original_value unit, fw_normalized_value = dv_value d,
       fw_original_unit = reported_unit_value (ur_original_unit unit),
       fw_normalized_unit = dv_normalized_unit d, fw_currency_code = dv_currency_code d,
       fw_scale_factor = ur_scale_factor unit, fw_fact_nature = DURATION, fw_is_reported = False,
       fw_is_derived_from_cumulative = True, fw_is_restated = rf_is_restated raw,
       fw_source_published_at = Some published, fw_mapping_version = am_mapping_version m,
       fw_normalization_version = ''1.0.0''\<rparr>)"

definition store_lineage ::
  "uuid \<Rightarrow> uuid \<Rightarrow> nat \<times> uuid \<Rightarrow> unit \<times> fin_db \<Rightarrow> (unit \<times> fin_db) fin_res" where
  "store_lineage derived_id current_id oi acc =
     (case (oi, acc) of ((ordinal, input_id), (_, db)) \<Rightarrow>
        bind_res (get_or_create_normalized_fact_input
            \<lparr>iw_normalized_fact_id = derived_id, iw_input_normalized_fact_id = input_id,
             iw_input_role = (if input_id = current_id then ''CURRENT_CUMULATIVE'' else ''PREVIOUS_CUMULATIVE''),
             iw_input_ordinal = ordinal\<rparr> db) (\<lambda>(_, db'). Inr ((), db')))"

definition store_derived ::
  "reported_fact \<Rightarrow> derived_value \<Rightarrow> financial_period \<Rightarrow> progress \<Rightarrow> fin_db \<Rightarrow> (progress \<times> fin_db) fin_res" where
  "store_derived item d period p db =
     bind_res (get_or_create_financial_period
         (period_to_write (rf_security_id (rn_raw item)) (rn_snapshot_id item) period) db) (\<lambda>(period_id, db1).
     case rf_source_published_at (rn_raw item) of
       None \<Rightarrow> Inl FinAssertionError
     | Some published \<Rightarrow>
         bind_res (get_or_create_normalized_fact (derived_to_write item published d period_id) db1)
           (\<lambda>((fact_id, _), db2).
         bind_res (fold_res (store_lineage fact_id (rn_normalized_fact_id item))
             (enumerate 0 (dv_input_fact_ids d)) ((), db2)) (\<lambda>(_, db3).
           Inr (p\<lparr>pg_count := Suc (pg_count p), pg_period_ids := pg_period_ids p @ [period_id],
                  pg_warnings := pg_warnings p @ dv_warnings d\<rparr>, db3))))"

text \<open>One pass of the inner loop, with the cumulative fact before this one.\<close>

definition derive_item ::
  "datetime \<Rightarrow> reported_fact option \<times> reported_fact \<Rightarrow> progress \<times> fin_db \<Rightarrow> (progress \<times> fin_db) fin_res" where
  "derive_item as_of pc acc =
     (case (pc, acc) of ((previous, current), (p, db)) \<Rightarrow>
        (case derive_value as_of previous current of
           Inl (CalculationBlocked message) \<Rightarrow>
             Inr (warn (''DEACCUMULATION_BLOCKED:'' @ am_canonical_concept_code (rn_mapping current) @ '':'' @
                        int_str (rf_fiscal_year (rn_raw current)) @ '':'' @ message) p, db)
         | Inl e \<Rightarrow> Inl e
         | Inr d \<Rightarrow>
             (case (case previous of None \<Rightarrow> fp_period_start (rn_period current)
                    | Some q \<Rightarrow> Some (fp_period_end (rn_period q) + 1)) of
                None \<Rightarrow> Inr (warn (''DEACCUMULATION_BLOCKED:'' @ rf_id (rn_raw current) @ '':MISSING_START'') p, db)
              | Some start \<Rightarrow>
                  bind_res (derived_period current start) (\<lambda>period.
                    store_derived current d period p db))))"

text \<open>Whatever the outcome of a pass, its fact is the previous one of the next.\<close>

definition with_previous :: "'a list \<Rightarrow> ('a option \<times> 'a) list" where
  "with_previous xs = zip (None # map Some xs) xs"

definition derive_cumulative_quarters ::
  "datetime \<Rightarrow> progress \<times> fin_db \<Rightarrow> (progress \<times> fin_db) fin_res" where
  "derive_cumulative_quarters as_of acc =
     fold_res (derive_item as_of) (concat (map with_previous (cumulative_groups (pg_reported (fst acc))))) acc"

section \<open>The service\<close>

record normalization_result =
  nr_snapshot_id :: uuid
  nr_status :: quality_status
  nr_normalized_fact_count :: nat
  nr_period_count :: nat
  nr_warnings :: "string list"

definition blocked_result :: "uuid \<Rightarrow> string list \<Rightarrow> normalization_result" where
  "blocked_result snapshot_id warnings =
     \<lparr>nr_snapshot_id = snapshot_id, nr_status = BLOCKED, nr_normalized_fact_count = 0,
      nr_period_count = 0, nr_warnings = warnings\<rparr>"

definition finish_normalization :: "uuid \<Rightarrow> progress \<Rightarrow> normalization_result" where
  "finish_normalization snapshot_id p =
     (if 0 < pg_count p
      then \<lparr>nr_snapshot_id = snapshot_id,
            nr_status = (if pg_warnings p \<noteq> [] then PARTIAL else PASS),
            nr_normalized_fact_count = pg_count p,
            nr_period_count = card (set (pg_period_ids p)), nr_warnings = pg_warnings p\<rparr>
      else blocked_result snapshot_id
        (if pg_warnings p \<noteq> [] then pg_warnings p else [''NO_APPROVED_FINANCIAL_FACT_MAPPINGS'']))"

definition normalize_eligible ::
  "snapshot_row \<Rightarrow> string list \<Rightarrow> (raw_fact \<times> datetime) list \<Rightarrow> fin_db \<Rightarrow> (progress \<times> fin_db) fin_res" where
  "normalize_eligible snapshot warnings eligible db =
     bind_res (fold_res (normalize_fact snapshot) eligible
         (\<lparr>pg_warnings = warnings, pg_count = 0, pg_period_ids = [], pg_reported = []\<rparr>, db))
       (derive_cumulative_quarters (sn_research_as_of_time snapshot))"

definition normalize_snapshot :: "uuid \<Rightarrow> fin_db \<Rightarrow> (normalization_result \<times> fin_db) fin_res" where
  "normalize_snapshot snapshot_id db =
     (case get_snapshot db snapshot_id of
        None \<Rightarrow> Inr (blocked_result snapshot_id [''SNAPSHOT_NOT_FOUND''], db)
      | Some snapshot \<Rightarrow>
          let facts = list_snapshot_financial_facts db snapshot_id in
          if facts = [] then Inr (blocked_result snapshot_id [''NO_FINANCIAL_FACTS_IN_SNAPSHOT''], db)
          else case split_eligible (sn_research_as_of_time snapshot) facts of
            (warnings, eligible) \<Rightarrow>
              if eligible = [] then Inr (blocked_result snapshot_id warnings, db)
              else bind_res (normalize_eligible snapshot warnings eligible db) (\<lambda>(p, db').
                Inr (finish_normalization snapshot_id p, db')))"

section \<open>Repeating a transaction\<close>

text \<open>
  A store whose states are ordered by extension. A transaction is repeatable when its outcome
  satisfies a condition, it only extends the state, and running it again on any extension of the
  state it left gives the same outcome and changes nothing.
\<close>

locale extensible_store =
  fixes ext :: "'s \<Rightarrow> 's \<Rightarrow> bool"
  assumes ext_refl: "ext s s"
    and ext_trans: "ext s t \<Longrightarrow> ext t u \<Longrightarrow> ext s u"
begin

definition repeatable :: "('a \<Rightarrow> bool) \<Rightarrow> ('s \<Rightarrow> 'e + 'a \<times> 's) \<Rightarrow> bool" where
  "repeatable Q f \<longleftrightarrow> (\<forall>s a s'. f s = Inr (a, s') \<longrightarrow>
     Q a \<and> ext s s' \<and> (\<forall>d. ext s' d \<longrightarrow> f d = Inr (a, d)))"

lemma repeatableI:
  assumes "\<And>s a s'. f s = Inr (a, s') \<Longrightarrow> Q a \<and> ext s s' \<and> (\<forall>d. ext s' d \<longrightarrow> f d = Inr (a, d))"
  shows "repeatable Q f"
  unfolding repeatable_def using assms by blast

lemma repeatableD:
  assumes "repeatable Q f" and "f s = Inr (a, s')"
  shows "Q a" and "ext s s'" and "ext s' d \<Longrightarrow> f d = Inr (a, d)"
  using assms unfolding repeatable_def by blast+

lemma repeatable_return: "Q a \<Longrightarrow> repeatable Q (\<lambda>s. Inr (a, s))"
  by (simp add: repeatable_def ext_refl)

lemma repeatable_raise: "repeatable Q (\<lambda>s. Inl e)"
  by (simp add: repeatable_def)

lemma repeatable_mono: "repeatable Q f \<Longrightarrow> (\<And>a. Q a \<Longrightarrow> R a) \<Longrightarrow> repeatable R f"
  unfolding repeatable_def by blast

lemma repeatable_bind:
  assumes f: "repeatable Q f" and g: "\<And>a. Q a \<Longrightarrow> repeatable R (g a)"
  shows "repeatable R (\<lambda>s. bind_res (f s) (\<lambda>(a, t). g a t))"
proof (rule repeatableI)
  fix s b u
  assume "bind_res (f s) (\<lambda>(a, t). g a t) = Inr (b, u)"
  then obtain a t where fs: "f s = Inr (a, t)" and gt: "g a t = Inr (b, u)" by auto
  note F = repeatableD [OF f fs] and G = repeatableD [OF g [OF repeatableD(1) [OF f fs]] gt]
  have again: "bind_res (f d) (\<lambda>(a, t). g a t) = Inr (b, d)" if "ext u d" for d
    using F(3) [OF ext_trans [OF G(2) that]] G(3) [OF that] by simp
  show "R b \<and> ext s u \<and> (\<forall>d. ext u d \<longrightarrow> bind_res (f d) (\<lambda>(a, t). g a t) = Inr (b, d))"
    using G(1) ext_trans [OF F(2) G(2)] again by blast
qed

lemma repeatable_read:
  assumes "\<And>s t. ext s t \<Longrightarrow> h s = h t" and "\<And>x. repeatable Q (f x)"
  shows "repeatable Q (\<lambda>s. f (h s) s)"
proof (rule repeatableI)
  fix s a s'
  assume r: "f (h s) s = Inr (a, s')"
  note F = repeatableD [OF assms(2) r]
  have "f (h d) d = Inr (a, d)" if "ext s' d" for d
    using F(3) [OF that] assms(1) [OF ext_trans [OF F(2) that]] by simp
  with F show "Q a \<and> ext s s' \<and> (\<forall>d. ext s' d \<longrightarrow> f (h d) d = Inr (a, d))" by blast
qed

lemma repeatable_fold:
  assumes "\<And>x a. x \<in> set xs \<Longrightarrow> Q a \<Longrightarrow> repeatable Q (\<lambda>s. f x (a, s))" and "Q a"
  shows "repeatable Q (\<lambda>s. fold_res f xs (a, s))"
  using assms
proof (induction xs arbitrary: a)
  case Nil
  then show ?case by (simp add: repeatable_return)
next
  case (Cons x xs)
  have "repeatable Q (\<lambda>s. bind_res (f x (a, s)) (\<lambda>(b, t). fold_res f xs (b, t)))"
    by (rule repeatable_bind [where Q = Q]) (use Cons in auto)
  then show ?case by (simp add: case_prod_beta')
qed

end

text \<open>
  The tables of normalization under extension: what it reads is unchanged, periods and lineage are
  appended to, and so are facts, each of which satisfies a condition.
\<close>

definition read_tables where
  "read_tables db = (fdb_snapshots db, fdb_concepts db, fdb_mappings db, fdb_providers db,
     fdb_provider_facts db, fdb_snapshot_items db)"

definition extends_by :: "(fact_write \<Rightarrow> bool) \<Rightarrow> fin_db \<Rightarrow> fin_db \<Rightarrow> bool" where
  "extends_by P s t \<longleftrightarrow> read_tables s = read_tables t \<and>
     (\<exists>ps. fdb_periods t = fdb_periods s @ ps) \<and> (\<exists>is. fdb_fact_inputs t = fdb_fact_inputs s @ is) \<and>
     (\<exists>fs. fdb_facts t = fdb_facts s @ fs \<and> (\<forall>(_, f)\<in>set fs. P f))"

interpretation tables: extensible_store "extends_by P" for P :: "fact_write \<Rightarrow> bool"
proof
  show "extends_by P s s" for s by (simp add: extends_by_def)
  show "extends_by P s u" if "extends_by P s t" "extends_by P t u" for s t u
    using that unfolding extends_by_def by (elim conjE exE) (auto 0 3 simp: ball_Un)
qed

lemma find_append_Some: "List.find P xs = Some x \<Longrightarrow> List.find P (xs @ ys) = Some x"
  by (induction xs) auto

lemma find_append_None: "List.find P xs = None \<Longrightarrow> List.find P (xs @ ys) = List.find P ys"
  by (induction xs) auto

lemmas table_ops = extends_by_def read_tables_def fresh_id_def next_id_def

lemma repeatable_period: "tables.repeatable P (\<lambda>_. True) (get_or_create_financial_period v)"
proof (rule tables.repeatableI, intro conjI TrueI allI impI)
  fix s i s'
  assume r: "get_or_create_financial_period v s = Inr (i, s')"
  then show "extends_by P s s'"
    by (auto simp: get_or_create_financial_period_def table_ops split: option.splits)
  have "\<exists>p. List.find (\<lambda>(_, p). p = v) (fdb_periods s') = Some (i, p)"
    using r by (auto simp: get_or_create_financial_period_def table_ops find_append_None split: option.splits)
  then show "get_or_create_financial_period v d = Inr (i, d)" if "extends_by P s' d" for d
    using that by (auto simp: get_or_create_financial_period_def extends_by_def find_append_Some)
qed

text \<open>Whether a row was created is not part of what the service uses.\<close>

definition fact_id_of :: "fact_write \<Rightarrow> fin_db \<Rightarrow> (uuid \<times> fin_db) fin_res" where
  "fact_id_of v db = bind_res (get_or_create_normalized_fact v db) (\<lambda>((i, _), t). Inr (i, t))"

definition lineage_of :: "fact_input_write \<Rightarrow> fin_db \<Rightarrow> (unit \<times> fin_db) fin_res" where
  "lineage_of v db = bind_res (get_or_create_normalized_fact_input v db) (\<lambda>(_, t). Inr ((), t))"

lemma repeatable_lineage: "tables.repeatable P (\<lambda>_. True) (lineage_of v)"
proof (rule tables.repeatableI, intro conjI TrueI allI impI)
  fix s u s'
  assume "lineage_of v s = Inr (u, s')"
  then obtain i c where r: "get_or_create_normalized_fact_input v s = Inr ((i, c), s')"
    by (auto simp: lineage_of_def)
  then show "extends_by P s s'"
    by (auto simp: get_or_create_normalized_fact_input_def table_ops split: option.splits if_splits)
  have "\<exists>w. List.find (\<lambda>(_, w). lineage_key w = lineage_key v) (fdb_fact_inputs s') = Some (i, w) \<and>
      iw_input_ordinal w = iw_input_ordinal v"
    using r by (auto simp: get_or_create_normalized_fact_input_def table_ops find_append_None
        split: option.splits if_splits)
  then show "lineage_of v d = Inr (u, d)" if "extends_by P s' d" for d
    using that
    by (auto simp: lineage_of_def get_or_create_normalized_fact_input_def extends_by_def find_append_Some)
qed

text \<open>A column of 18 decimals keeps a number with at most 18 decimals.\<close>

lemma numeric_exact:
  assumes "numeric_38_18 d = Some x" and "- 18 \<le> dexp d"
  shows "dec_same x d"
proof -
  have "x = Dec (coef d * 10 ^ nat (dexp d + 18)) (- 18)"
    using assms by (auto simp: numeric_38_18_def Let_def split: if_splits)
  moreover have "of_int (scaled d (- 18)) * 10 powi (- 18) = dec_val d" by (rule dec_val_scaled) (rule assms(2))
  ultimately show ?thesis by (simp add: dec_same_iff scaled_def)
qed

definition column_exact :: "fact_write \<Rightarrow> bool" where
  "column_exact v \<longleftrightarrow> - 18 \<le> dexp (fw_original_value v) \<and> - 18 \<le> dexp (fw_normalized_value v) \<and>
     - 18 \<le> dexp (fw_scale_factor v)"

lemma store_fact_agrees:
  assumes "store_fact v = Inr row" and "column_exact v"
  shows "fact_agrees row v" and "fact_key row = fact_key v"
    and "\<exists>a b c. row = v\<lparr>fw_original_value := a, fw_normalized_value := b, fw_scale_factor := c\<rparr>"
proof -
  obtain a b c where n: "numeric_38_18 (fw_original_value v) = Some a"
      "numeric_38_18 (fw_normalized_value v) = Some b" "numeric_38_18 (fw_scale_factor v) = Some c"
    and row: "row = v\<lparr>fw_original_value := a, fw_normalized_value := b, fw_scale_factor := c\<rparr>"
    using assms(1) by (auto simp: store_fact_def store_numeric_def split: option.splits)
  show "fact_agrees row v"
    using n numeric_exact assms(2) by (simp add: fact_agrees_def row column_exact_def)
  show "fact_key row = fact_key v" by (simp add: fact_key_def row)
  show "\<exists>a b c. row = v\<lparr>fw_original_value := a, fw_normalized_value := b, fw_scale_factor := c\<rparr>"
    using row by blast
qed

text \<open>A condition on facts that does not look at their decimals.\<close>

definition ignores_decimals :: "(fact_write \<Rightarrow> bool) \<Rightarrow> bool" where
  "ignores_decimals P \<longleftrightarrow>
     (\<forall>v a b c. P (v\<lparr>fw_original_value := a, fw_normalized_value := b, fw_scale_factor := c\<rparr>) = P v)"

lemma repeatable_fact:
  assumes "column_exact v" and "P v" and "ignores_decimals P"
  shows "tables.repeatable P (\<lambda>_. True) (fact_id_of v)"
proof (rule tables.repeatableI, intro conjI TrueI allI impI)
  fix s i s'
  assume "fact_id_of v s = Inr (i, s')"
  then obtain c where r: "get_or_create_normalized_fact v s = Inr ((i, c), s')"
    by (auto simp: fact_id_of_def)
  have "extends_by P s s' \<and> (\<exists>row. List.find (\<lambda>(_, f). fact_key f = fact_key v) (fdb_facts s') = Some (i, row) \<and>
      fact_agrees row v)"
  proof (cases "List.find (\<lambda>(_, f). fact_key f = fact_key v) (fdb_facts s)")
    case (Some x)
    then show ?thesis using r
      by (cases x) (auto simp: get_or_create_normalized_fact_def extends_by_def split: if_splits)
  next
    case None
    then obtain row where row: "store_fact v = Inr row" and s': "fdb_facts s' = fdb_facts s @ [(i, row)]"
      "read_tables s' = read_tables s" "fdb_periods s' = fdb_periods s" "fdb_fact_inputs s' = fdb_fact_inputs s"
      using r by (auto simp: get_or_create_normalized_fact_def fresh_id_def next_id_def read_tables_def)
    note S = store_fact_agrees [OF row assms(1)]
    have "P row" using S(3) assms(2,3) by (auto simp: ignores_decimals_def)
    then show ?thesis using s' S None by (simp add: extends_by_def find_append_None)
  qed
  then obtain row where e: "extends_by P s s'" and a: "fact_agrees row v"
    and f: "List.find (\<lambda>(_, f). fact_key f = fact_key v) (fdb_facts s') = Some (i, row)" by blast
  show "extends_by P s s'" by (rule e)
  show "fact_id_of v d = Inr (i, d)" if x: "extends_by P s' d" for d
  proof -
    obtain fs where "fdb_facts d = fdb_facts s' @ fs" using x by (auto simp: extends_by_def)
    then have "List.find (\<lambda>(_, f). fact_key f = fact_key v) (fdb_facts d) = Some (i, row)"
      using find_append_Some [OF f] by simp
    then show ?thesis using a by (simp add: fact_id_of_def get_or_create_normalized_fact_def)
  qed
qed

section \<open>Exponents\<close>

lemma ctx_fix_dexp: "dexp d \<le> dexp (ctx_fix d)"
  by (simp add: ctx_fix_def Let_def)

lemma dec_mul_dexp: "dexp a + dexp b \<le> dexp (dec_mul a b)"
  using ctx_fix_dexp [of "Dec (coef a * coef b) (dexp a + dexp b)"] by (simp add: dec_mul_def)

lemma dec_sub_dexp: "min (dexp a) (dexp b) \<le> dexp (dec_sub a b)"
proof -
  let ?m = "min (dexp a) (dexp (dec_uminus b))"
  have "?m \<le> dexp (dec_sub a b)"
    unfolding dec_sub_def dec_add_def Let_def
    using ctx_fix_dexp [of "Dec (scaled a ?m + scaled (dec_uminus b) ?m) ?m"] by simp
  then show ?thesis by (simp add: dec_uminus_def)
qed

text \<open>The column of a provider fact has 12 decimals; scaling adds at most two.\<close>

definition column_12 :: "decimal \<Rightarrow> bool" where
  "column_12 v \<longleftrightarrow> (\<forall>x. dec_of_decimal v = Some x \<longrightarrow> - 12 \<le> dexp x)"

definition unit_exact :: "unit_result \<Rightarrow> bool" where
  "unit_exact u \<longleftrightarrow> - 18 \<le> dexp (ur_original_value u) \<and> - 18 \<le> dexp (ur_normalized_value u) \<and>
     - 18 \<le> dexp (ur_scale_factor u)"

lemma unit_scale_dexp: "unit_scale u t = Some (s, n) \<Longrightarrow> - 2 \<le> dexp s"
  by (cases u) (auto simp: unit_scale_def split: if_splits)

lemma normalize_unit_exact:
  assumes "normalize_unit v u t = Inr r" and "column_12 v"
  shows "unit_exact r"
proof -
  obtain x s where x: "dec_of_decimal v = Some x" and r: "ur_original_value r = x"
      "ur_normalized_value r = dec_mul x s" "ur_scale_factor r = s" and s: "- 2 \<le> dexp s"
    using assms(1) by (auto simp: normalize_unit_def split: option.splits prod.splits dest: unit_scale_dexp)
  then have "- 12 \<le> dexp x" using assms(2) by (simp add: column_12_def)
  then show ?thesis using dec_mul_dexp [of x s] s by (simp add: unit_exact_def r)
qed

lemma normalized_parts_exact:
  "normalized_parts f m = Inr (period, u) \<Longrightarrow> column_12 (rf_value f) \<Longrightarrow> unit_exact u"
  by (auto simp: normalized_parts_def intro: normalize_unit_exact)

lemma deaccumulate_dexp:
  assumes "deaccumulate_quarter c q t = Inr d" and "k \<le> dexp (fv_value c)"
    and "\<And>p. q = Some p \<Longrightarrow> k \<le> dexp (fv_value p)"
  shows "k \<le> dexp (dv_value d)"
proof (cases q)
  case None
  then have "dv_value d = fv_value c"
    using assms(1) by (auto simp: deaccumulate_quarter_def deaccumulated_def split: if_splits)
  then show ?thesis using assms(2) by simp
next
  case (Some p)
  then have "dv_value d = dec_sub (fv_value c) (fv_value p)"
    using assms(1) by (auto simp: deaccumulate_quarter_def deaccumulate_after_def deaccumulated_def split: if_splits)
  then show ?thesis using assms(2) assms(3) [OF Some] dec_sub_dexp [of "fv_value c" "fv_value p"] by simp
qed

lemma value_of_item_value: "value_of_item c i = Inr v \<Longrightarrow> fv_value v = ur_normalized_value (rn_normalized_value i)"
  by (auto simp: value_of_item_def check_value_def split: if_splits)

lemma derive_value_dexp:
  assumes "derive_value t q c = Inr d" and "unit_exact (rn_normalized_value c)"
    and "\<And>p. q = Some p \<Longrightarrow> unit_exact (rn_normalized_value p)"
  shows "- 18 \<le> dexp (dv_value d)"
proof -
  obtain concept cv qv where c: "value_of_item concept c = Inr cv"
    and q: "(case q of None \<Rightarrow> Inr None | Some p \<Rightarrow> bind_res (value_of_item concept p) (\<lambda>v. Inr (Some v))) = Inr qv"
    and d: "deaccumulate_quarter cv qv (Aware t) = Inr d"
    using assms(1) by (auto simp: derive_value_def split: option.splits)
  show ?thesis
  proof (rule deaccumulate_dexp [OF d])
    show "- 18 \<le> dexp (fv_value cv)" using assms(2) value_of_item_value [OF c] by (simp add: unit_exact_def)
    show "- 18 \<le> dexp (fv_value p)" if qv: "qv = Some p" for p
    proof -
      obtain i where i: "q = Some i" using q qv by (cases q) auto
      then have "value_of_item concept i = Inr p" using q qv by auto
      then show ?thesis using assms(3) [OF i] value_of_item_value by (simp add: unit_exact_def)
    qed
  qed
qed

section \<open>The loops are repeatable\<close>

text \<open>A fact of the snapshot that was public at the time, and what is written for it.\<close>

definition admissible_fact :: "raw_fact list \<Rightarrow> datetime \<Rightarrow> raw_fact \<Rightarrow> bool" where
  "admissible_fact facts as_of f \<longleftrightarrow> f \<in> set facts \<and> (\<exists>t. rf_source_published_at f = Some t \<and> t \<le> as_of)"

definition known_fact :: "uuid \<Rightarrow> raw_fact list \<Rightarrow> datetime \<Rightarrow> fact_write \<Rightarrow> bool" where
  "known_fact sid facts as_of w \<longleftrightarrow> fw_snapshot_id w = sid \<and>
     (\<exists>f. admissible_fact facts as_of f \<and> fw_source_financial_fact_id w = rf_id f \<and>
        fw_source_published_at w = rf_source_published_at f)"

definition item_ok :: "uuid \<Rightarrow> raw_fact list \<Rightarrow> datetime \<Rightarrow> reported_fact \<Rightarrow> bool" where
  "item_ok sid facts as_of i \<longleftrightarrow> rn_snapshot_id i = sid \<and> admissible_fact facts as_of (rn_raw i) \<and>
     unit_exact (rn_normalized_value i)"

definition progress_ok :: "uuid \<Rightarrow> raw_fact list \<Rightarrow> datetime \<Rightarrow> progress \<Rightarrow> bool" where
  "progress_ok sid facts as_of p \<longleftrightarrow> (\<forall>i\<in>set (pg_reported p). item_ok sid facts as_of i)"

lemma known_fact_ignores [simp]: "ignores_decimals (known_fact sid facts as_of)"
  by (simp add: ignores_decimals_def known_fact_def)

lemma progress_ok_simps [simp]:
  "progress_ok sid facts as_of (warn w p) = progress_ok sid facts as_of p"
  "progress_ok sid facts as_of (p\<lparr>pg_count := n\<rparr>) = progress_ok sid facts as_of p"
  "progress_ok sid facts as_of (p\<lparr>pg_period_ids := ids\<rparr>) = progress_ok sid facts as_of p"
  "progress_ok sid facts as_of (p\<lparr>pg_warnings := ws\<rparr>) = progress_ok sid facts as_of p"
  by (simp_all add: progress_ok_def warn_def)

text \<open>The bodies of the loops with the flag of a write left out.\<close>

lemma fact_bind:
  "bind_res (get_or_create_normalized_fact v s) (\<lambda>((i, _), t). g i t) = bind_res (fact_id_of v s) (\<lambda>(i, t). g i t)"
  by (cases "get_or_create_normalized_fact v s") (auto simp: fact_id_of_def split: prod.splits)

lemma repeatable_store_lineage: "tables.repeatable P (\<lambda>_. True) (\<lambda>s. store_lineage k c oi (u, s))"
proof -
  have "\<exists>v. (\<lambda>s. store_lineage k c oi (u, s)) = lineage_of v"
    by (cases oi) (auto simp: store_lineage_def lineage_of_def fun_eq_iff)
  then show ?thesis using repeatable_lineage by metis
qed

lemma repeatable_store_reported:
  assumes "admissible_fact facts as_of f" and "rf_source_published_at f = Some t"
    and "unit_exact u" and "progress_ok (sn_id snapshot) facts as_of p"
  shows "tables.repeatable (known_fact (sn_id snapshot) facts as_of) (progress_ok (sn_id snapshot) facts as_of)
    (store_reported snapshot (f, t) m period u p)"
  unfolding store_reported_def prod.case fact_bind
proof (rule tables.repeatable_bind [OF repeatable_period], rule tables.repeatable_bind [OF repeatable_fact])
  fix i
  show "column_exact (reported_to_write snapshot f t m u i)"
    using assms(3) by (simp add: column_exact_def reported_to_write_def unit_exact_def)
  show "known_fact (sn_id snapshot) facts as_of (reported_to_write snapshot f t m u i)"
    using assms(1,2) by (auto simp: known_fact_def reported_to_write_def)
qed (use assms in \<open>auto intro!: tables.repeatable_return simp: progress_ok_def item_ok_def\<close>)

lemma mapping_read:
  assumes "extends_by P s t"
  shows "find_approved_fact_mapping s f d = find_approved_fact_mapping t f d"
proof -
  have "mapped_concept s = mapped_concept t"
    using assms by (auto simp: mapped_concept_def extends_by_def read_tables_def fun_eq_iff split: option.splits)
  then show ?thesis using assms by (simp add: find_approved_fact_mapping_def extends_by_def read_tables_def)
qed

lemma repeatable_normalize_fact:
  assumes "admissible_fact facts as_of f" and "rf_source_published_at f = Some t"
    and "column_12 (rf_value f)" and "progress_ok (sn_id snapshot) facts as_of p"
  shows "tables.repeatable (known_fact (sn_id snapshot) facts as_of) (progress_ok (sn_id snapshot) facts as_of)
    (\<lambda>s. normalize_fact snapshot (f, t) (p, s))"
proof -
  let ?rep = "tables.repeatable (known_fact (sn_id snapshot) facts as_of) (progress_ok (sn_id snapshot) facts as_of)"
  let ?body = "\<lambda>x s. case x of
      None \<Rightarrow> Inr (warn (''NO_APPROVED_MAPPING:'' @ rf_id f) p, s)
    | Some m \<Rightarrow> (case normalized_parts f m of
        Inl e \<Rightarrow> (case value_error_message e of None \<Rightarrow> Inl e
          | Some message \<Rightarrow> Inr (warn (''FACT_NORMALIZATION_BLOCKED:'' @ rf_id f @ '':'' @ message) p, s))
      | Inr (period, u) \<Rightarrow> store_reported snapshot (f, t) m period u p s)"
  have "?rep (?body x)" for x
  proof (cases x)
    case None
    then show ?thesis using assms(4) by (auto intro: tables.repeatable_return)
  next
    case (Some m)
    show ?thesis
    proof (cases "normalized_parts f m")
      case (Inl e)
      then show ?thesis using Some assms(4)
        by (cases "value_error_message e") (auto intro: tables.repeatable_return tables.repeatable_raise)
    next
      case (Inr pu)
      then show ?thesis
        using Some repeatable_store_reported [OF assms(1,2) _ assms(4)] normalized_parts_exact [of f m _ _] assms(3)
        by (cases pu) auto
    qed
  qed
  from tables.repeatable_read [OF mapping_read this]
  show ?thesis by (simp add: normalize_fact_def)
qed

lemma repeatable_store_derived:
  assumes "item_ok sid facts as_of item" and "- 18 \<le> dexp (dv_value d)" and "progress_ok sid facts as_of p"
  shows "tables.repeatable (known_fact sid facts as_of) (progress_ok sid facts as_of) (store_derived item d period p)"
proof -
  obtain t where t: "rf_source_published_at (rn_raw item) = Some t" "admissible_fact facts as_of (rn_raw item)"
    and sid: "rn_snapshot_id item = sid" and u: "unit_exact (rn_normalized_value item)"
    using assms(1) by (auto simp: item_ok_def admissible_fact_def)
  have lineage: "tables.repeatable (known_fact sid facts as_of) (\<lambda>_. True)
      (\<lambda>s. fold_res (store_lineage k c) xs ((), s))" for k c xs
    by (rule tables.repeatable_fold) (rule repeatable_store_lineage, rule TrueI)
  show ?thesis
    unfolding store_derived_def t(1) option.case fact_bind
  proof (rule tables.repeatable_bind [OF repeatable_period], rule tables.repeatable_bind [OF repeatable_fact],
      goal_cases)
    case (1 i)
    then show ?case using u assms(2) by (simp add: column_exact_def derived_to_write_def unit_exact_def Let_def)
  next
    case (2 i)
    then show ?case using t sid by (auto simp: known_fact_def derived_to_write_def Let_def)
  next
    case (4 i k)
    show ?case
      by (rule tables.repeatable_bind [OF lineage], rule tables.repeatable_return) (use assms(3) in simp)
  qed simp_all
qed

lemma repeatable_derive_item:
  assumes "item_ok sid facts as_of current" and "\<And>q. previous = Some q \<Longrightarrow> item_ok sid facts as_of q"
    and "progress_ok sid facts as_of p"
  shows "tables.repeatable (known_fact sid facts as_of) (progress_ok sid facts as_of)
    (\<lambda>s. derive_item as_of (previous, current) (p, s))"
proof (cases "derive_value as_of previous current")
  case (Inl e)
  then show ?thesis using assms(3)
    by (cases e) (auto simp: derive_item_def intro: tables.repeatable_return tables.repeatable_raise)
next
  case (Inr d)
  then have d: "- 18 \<le> dexp (dv_value d)"
    using derive_value_dexp [OF Inr] assms(1,2) by (simp add: item_ok_def)
  let ?start = "case previous of None \<Rightarrow> fp_period_start (rn_period current)
    | Some q \<Rightarrow> Some (fp_period_end (rn_period q) + 1)"
  show ?thesis
  proof (cases ?start)
    case None
    then show ?thesis using Inr assms(3) by (auto simp: derive_item_def intro: tables.repeatable_return)
  next
    case (Some start)
    show ?thesis
    proof (cases "derived_period current start")
      case (Inl e)
      then show ?thesis using Inr Some by (simp add: derive_item_def tables.repeatable_raise)
    next
      case i: (Inr period)
      have "(\<lambda>s. derive_item as_of (previous, current) (p, s)) = store_derived current d period p"
        by (simp add: derive_item_def Inr Some i fun_eq_iff)
      then show ?thesis using repeatable_store_derived [OF assms(1) d assms(3)] by simp
    qed
  qed
qed

lemma set_with_previous:
  assumes "(q, c) \<in> set (with_previous xs)"
  shows "c \<in> set xs" and "q = Some r \<Longrightarrow> r \<in> set xs"
  using assms by (auto simp: with_previous_def dest: set_zip_leftD set_zip_rightD)

lemma set_cumulative_groups: "g \<in> set (cumulative_groups items) \<Longrightarrow> set g \<subseteq> set items"
  by (auto simp: cumulative_groups_def)

lemma repeatable_derive:
  assumes "progress_ok sid facts as_of p"
  shows "tables.repeatable (known_fact sid facts as_of) (progress_ok sid facts as_of)
    (\<lambda>s. derive_cumulative_quarters as_of (p, s))"
  unfolding derive_cumulative_quarters_def fst_conv
proof (rule tables.repeatable_fold)
  fix x q
  assume x: "x \<in> set (concat (map with_previous (cumulative_groups (pg_reported p))))" and q: "progress_ok sid facts as_of q"
  then obtain g where g: "g \<in> set (cumulative_groups (pg_reported p))" "x \<in> set (with_previous g)" by auto
  have ok: "item_ok sid facts as_of i" if "i \<in> set g" for i
    using set_cumulative_groups [OF g(1)] assms that by (auto simp: progress_ok_def)
  obtain a c where ac: "x = (a, c)" by (cases x)
  note members = set_with_previous [OF g(2) [unfolded ac]]
  show "tables.repeatable (known_fact sid facts as_of) (progress_ok sid facts as_of)
      (\<lambda>s. derive_item as_of x (q, s))"
    unfolding ac by (rule repeatable_derive_item [OF ok [OF members(1)] ok [OF members(2)] q])
qed (rule assms)

lemma eligible_fact:
  assumes "(f, t) \<in> set (snd (split_eligible as_of facts))"
  shows "admissible_fact facts as_of f" and "rf_source_published_at f = Some t"
  using assms
  by (auto simp: split_eligible_def map_filter_def admissible_fact_def split: option.splits if_splits)

lemma repeatable_eligible:
  assumes "\<forall>f\<in>set facts. column_12 (rf_value f)"
  shows "tables.repeatable (known_fact (sn_id snapshot) facts (sn_research_as_of_time snapshot)) (\<lambda>_. True)
    (normalize_eligible snapshot ws (snd (split_eligible (sn_research_as_of_time snapshot) facts)))"
proof -
  let ?as_of = "sn_research_as_of_time snapshot"
  let ?Q = "progress_ok (sn_id snapshot) facts ?as_of"
  have "tables.repeatable (known_fact (sn_id snapshot) facts ?as_of) ?Q
    (\<lambda>s. fold_res (normalize_fact snapshot) (snd (split_eligible ?as_of facts))
       (\<lparr>pg_warnings = ws, pg_count = 0, pg_period_ids = [], pg_reported = []\<rparr>, s))"
  proof (rule tables.repeatable_fold)
    fix x p
    assume x: "x \<in> set (snd (split_eligible ?as_of facts))" and p: "?Q p"
    have "admissible_fact facts ?as_of (fst x)" "rf_source_published_at (fst x) = Some (snd x)"
      using eligible_fact [of "fst x" "snd x"] x by simp_all
    moreover from this have "column_12 (rf_value (fst x))" using assms by (simp add: admissible_fact_def)
    ultimately show "tables.repeatable (known_fact (sn_id snapshot) facts ?as_of) ?Q
        (\<lambda>s. normalize_fact snapshot x (p, s))"
      using repeatable_normalize_fact [of facts ?as_of "fst x" "snd x" snapshot p] p by simp
  qed (simp add: progress_ok_def)
  from tables.repeatable_bind [OF this, of "\<lambda>_. True" "\<lambda>p s. derive_cumulative_quarters ?as_of (p, s)"]
  have "tables.repeatable (known_fact (sn_id snapshot) facts ?as_of) (\<lambda>_. True)
    (\<lambda>s. bind_res (fold_res (normalize_fact snapshot) (snd (split_eligible ?as_of facts))
       (\<lparr>pg_warnings = ws, pg_count = 0, pg_period_ids = [], pg_reported = []\<rparr>, s))
       (\<lambda>(p, s). derive_cumulative_quarters ?as_of (p, s)))"
    using tables.repeatable_mono [OF repeatable_derive] by simp
  then show ?thesis by (simp add: normalize_eligible_def [abs_def] case_prod_beta')
qed

lemma snapshot_facts_column:
  assumes "\<forall>f\<in>set (fdb_provider_facts db). \<forall>v. pf_value f = Some v \<longrightarrow> column_12 v"
  shows "\<forall>f\<in>set (list_snapshot_financial_facts db sid). column_12 (rf_value f)"
proof
  fix f
  assume "f \<in> set (list_snapshot_financial_facts db sid)"
  then obtain i row code where i: "item_fact db i = Some (row, code)" and f: "raw_fact_of row code = Some f"
    by (auto simp: list_snapshot_financial_facts_def map_filter_def)
  have "row \<in> set (fdb_provider_facts db)"
    using i by (auto simp: item_fact_def split: option.splits dest: find_SomeD)
  moreover have "pf_value row = Some (rf_value f)"
    using f by (auto simp: raw_fact_of_def split: option.splits)
  ultimately show "column_12 (rf_value f)" using assms by blast
qed

lemma snapshot_reads:
  assumes "extends_by P s t"
  shows "get_snapshot s sid = get_snapshot t sid"
    and "list_snapshot_financial_facts s sid = list_snapshot_financial_facts t sid"
proof -
  have "item_fact s = item_fact t" using assms
    by (auto simp: item_fact_def extends_by_def read_tables_def fun_eq_iff split: option.splits)
  then show "list_snapshot_financial_facts s sid = list_snapshot_financial_facts t sid"
    using assms by (simp add: list_snapshot_financial_facts_def extends_by_def read_tables_def)
  show "get_snapshot s sid = get_snapshot t sid"
    using assms by (simp add: get_snapshot_def extends_by_def read_tables_def)
qed

text \<open>Either nothing is written, or the eligible facts of an existing snapshot are normalized.\<close>

lemma normalize_snapshot_cases:
  assumes "normalize_snapshot sid db = Inr (r, db')"
  obtains (idle) "db' = db" "\<And>P d. extends_by P db d \<Longrightarrow> normalize_snapshot sid d = Inr (r, d)"
  | (run) snapshot p where "get_snapshot db sid = Some snapshot" "sn_id snapshot = sid"
      "list_snapshot_financial_facts db sid \<noteq> []"
      "snd (split_eligible (sn_research_as_of_time snapshot) (list_snapshot_financial_facts db sid)) \<noteq> []"
      "normalize_eligible snapshot
         (fst (split_eligible (sn_research_as_of_time snapshot) (list_snapshot_financial_facts db sid)))
         (snd (split_eligible (sn_research_as_of_time snapshot) (list_snapshot_financial_facts db sid))) db = Inr (p, db')"
      "r = finish_normalization sid p"
proof (cases "get_snapshot db sid")
  case None
  then have "r = blocked_result sid [''SNAPSHOT_NOT_FOUND'']" "db' = db"
    using assms by (simp_all add: normalize_snapshot_def)
  moreover have "normalize_snapshot sid d = Inr (blocked_result sid [''SNAPSHOT_NOT_FOUND''], d)"
    if "extends_by P db d" for P d
    using None snapshot_reads(1) [OF that, of sid] by (simp add: normalize_snapshot_def)
  ultimately show ?thesis using idle by blast
next
  case (Some snapshot)
  let ?facts = "list_snapshot_financial_facts db sid"
  let ?split = "split_eligible (sn_research_as_of_time snapshot) ?facts"
  have sid: "sn_id snapshot = sid" using Some by (auto simp: get_snapshot_def dest: find_SomeD)
  have reads: "get_snapshot d sid = Some snapshot" "list_snapshot_financial_facts d sid = ?facts"
    if "extends_by P db d" for P d
    using Some snapshot_reads [OF that, of sid] by simp_all
  show ?thesis
  proof (cases "?facts = [] \<or> snd ?split = []")
    case True
    let ?ws = "if ?facts = [] then [''NO_FINANCIAL_FACTS_IN_SNAPSHOT''] else fst ?split"
    have ws: "normalize_snapshot sid d = Inr (blocked_result sid ?ws, d)"
      if "get_snapshot d sid = Some snapshot" "list_snapshot_financial_facts d sid = ?facts" for d
      using True that by (auto simp: normalize_snapshot_def Let_def case_prod_beta')
    have "normalize_snapshot sid d = Inr (r, d)" if "extends_by P db d" for P d
      using ws [OF reads [OF that]] ws [OF Some refl] assms by simp
    moreover have "db' = db" using ws [OF Some refl] assms by simp
    ultimately show ?thesis using idle by blast
  next
    case False
    then show ?thesis using run [OF Some sid] Some assms
      by (auto simp: normalize_snapshot_def Let_def case_prod_beta')
  qed
qed

text \<open>A normalization can be repeated on every extension of the state it left.\<close>

lemma normalize_repeats:
  assumes "\<forall>f\<in>set (fdb_provider_facts db). \<forall>v. pf_value f = Some v \<longrightarrow> column_12 v"
    and "normalize_snapshot sid db = Inr (r, db')" and "extends_by (\<lambda>_. False) db' d"
  shows "normalize_snapshot sid d = Inr (r, d)"
  using assms(2)
proof (cases rule: normalize_snapshot_cases)
  case idle
  then show ?thesis using assms(3) by blast
next
  case (run snapshot p)
  let ?facts = "list_snapshot_financial_facts db sid"
  let ?P = "known_fact (sn_id snapshot) ?facts (sn_research_as_of_time snapshot)"
  note R = tables.repeatableD [OF repeatable_eligible [OF snapshot_facts_column [OF assms(1)]] run(5)]
  have e: "extends_by ?P db' d" using assms(3) by (auto simp: extends_by_def)
  note same = snapshot_reads [OF tables.ext_trans [OF R(2) e], of sid]
  have "normalize_eligible snapshot (fst (split_eligible (sn_research_as_of_time snapshot) ?facts))
      (snd (split_eligible (sn_research_as_of_time snapshot) ?facts)) d = Inr (p, d)"
    by (rule R(3)) (rule e)
  moreover have "get_snapshot d sid = Some snapshot" "list_snapshot_financial_facts d sid = ?facts"
    using same run(1) by simp_all
  ultimately show ?thesis
    using run(3,4,6) by (simp add: normalize_snapshot_def case_prod_beta')
qed

lemma normalize_extends:
  assumes "\<forall>f\<in>set (fdb_provider_facts db). \<forall>v. pf_value f = Some v \<longrightarrow> column_12 v"
    and "normalize_snapshot sid db = Inr (r, db')"
  shows "db' = db \<or> (\<exists>sn. get_snapshot db sid = Some sn \<and>
    extends_by (known_fact sid (list_snapshot_financial_facts db sid) (sn_research_as_of_time sn)) db db')"
  using assms(2)
proof (cases rule: normalize_snapshot_cases)
  case (run snapshot p)
  from tables.repeatableD(2) [OF repeatable_eligible [OF snapshot_facts_column [OF assms(1)]] run(5)] run(1,2)
  show ?thesis by auto
qed simp

section \<open>Properties\<close>

text \<open>
  C35. Normalizing a snapshot again changes nothing. After a successful normalization a second one
  returns the same status, counts and warnings and leaves the tables as they are: every period, fact
  and lineage row is found again, with equal columns. The hypothesis is the type of the column of
  provider values, which holds 12 decimals.
\<close>

theorem normalization_idempotent:
  assumes "\<forall>f\<in>set (fdb_provider_facts db). \<forall>v. pf_value f = Some v \<longrightarrow> column_12 v"
    and "normalize_snapshot sid db = Inr (r, db')"
  shows "normalize_snapshot sid db' = Inr (r, db')"
  by (rule normalize_repeats [OF assms]) (rule tables.ext_refl)


text \<open>
  The identity of a stored period leaves out the publication time and the filing date, which the
  lookup compares: a second fact of the same period that was published at another time is neither
  found nor accepted, and its flush aborts the transaction.
\<close>

lemma republished_period_rejected:
  assumes "v \<notin> snd ` set (fdb_periods db)" and "period_key v \<in> period_key ` snd ` set (fdb_periods db)"
    and "fst (fresh_id db) \<notin> fst ` set (fdb_periods db)"
  shows "get_or_create_financial_period v db = Inl (DatabaseError ''uq_financial_periods_snapshot_identity'')"
proof -
  have "List.find (\<lambda>(_, p). p = v) (fdb_periods db) = None" using assms(1) by (force simp: find_None_iff)
  moreover obtain i t where "fresh_id db = (i, t)" by (cases "fresh_id db")
  ultimately show ?thesis using assms(2,3) by (simp add: get_or_create_financial_period_def flush_check_def)
qed

section \<open>Witnesses\<close>

text \<open>Two cumulative revenues, in millions, of which the second is published after the snapshot.\<close>

definition demo_provider_fact :: "string \<Rightarrow> string \<Rightarrow> int \<Rightarrow> nat \<Rightarrow> date \<Rightarrow> datetime \<Rightarrow> provider_fact_row" where
  "demo_provider_fact i lab quarter amount end_day published =
     \<lparr>pf_id = i, pf_security_id = ''x'', pf_provider_id = ''p'', pf_statement_type = ''INCOME_STATEMENT'',
      pf_provider_concept = ''Revenues'', pf_taxonomy = Some ''us-gaap'', pf_context_id = None,
      pf_dimensions = [], pf_value = Some (DFinite False amount 0), pf_unit = Some ''MILLION'',
      pf_currency_code = Some ''USD'', pf_fiscal_year = Some 2025, pf_fiscal_quarter = Some quarter,
      pf_fiscal_period = Some lab, pf_period_start = Some 20089, pf_period_end = Some end_day,
      pf_instant_date = None, pf_filed_at = None, pf_source_published_at = Some published,
      pf_form_type = Some ''10-Q'', pf_is_annual = None, pf_is_cumulative = Some True,
      pf_is_restated = None, pf_retrieved_at = 0\<rparr>"

definition demo_facts_db :: fin_db where
  "demo_facts_db =
     \<lparr>fdb_snapshots = [\<lparr>sn_id = ''s'', sn_security_id = ''x'', sn_research_as_of_time = 100, sn_status = ''READY''\<rparr>],
      fdb_concepts = [\<lparr>cn_id = ''c'', cn_code = ''REVENUE'', cn_fact_nature = DURATION,
        cn_default_unit_type = MONETARY_AMOUNT\<rparr>],
      fdb_mappings = [\<lparr>mp_id = ''m'', mp_provider_id = ''p'', mp_provider_concept = ''Revenues'',
        mp_taxonomy = Some ''us-gaap'', mp_statement_type = ''INCOME_STATEMENT'', mp_form_type = Some ''10-Q'',
        mp_context_rules = [], mp_dimension_rules = [], mp_canonical_concept_id = Some ''c'',
        mp_mapping_status = ''APPROVED'', mp_mapping_version = ''1.0.0'', mp_valid_from = None, mp_valid_to = None\<rparr>],
      fdb_providers = [\<lparr>pv_id = ''p'', pv_code = ''SEC''\<rparr>],
      fdb_provider_facts = [demo_provider_fact ''f1'' ''Q1'' 1 21 20178 50, demo_provider_fact ''f2'' ''H1'' 2 45 20269 110],
      fdb_snapshot_items = map (\<lambda>i. \<lparr>si_snapshot_id = ''s'', si_source_record_type = ''provider_financial_facts'',
        si_source_record_id = i\<rparr>) [''f1'', ''f2''],
      fdb_periods = [], fdb_facts = [], fdb_fact_inputs = [], fdb_formulas = [], fdb_runs = [],
      fdb_metrics = [], fdb_calc_inputs = [],
      fdb_env = \<lparr>env_id = (\<lambda>n. replicate n CHR ''i''), env_now = (\<lambda>n. int n), env_i = 0, env_t = 0\<rparr>\<rparr>"

text \<open>A short coefficient is not rounded: an equation that does not count digits.\<close>

lemma ctx_fix_code [code]:
  "ctx_fix d = (if \<bar>coef d\<bar> < 10000000000000000000000000000 then d
     else let k = ndigits (nat \<bar>coef d\<bar>) - prec
      in if k = 0 then d
         else let c = round_half_even (coef d) (10 ^ k)
              in if ndigits (nat \<bar>c\<bar>) > prec then Dec (c div 10) (dexp d + int k + 1)
                 else Dec c (dexp d + int k))"
proof (cases "\<bar>coef d\<bar> < 10000000000000000000000000000")
  case True
  then have "\<bar>coef d\<bar> < 10 ^ 28" by simp
  from ctx_fix_exact [OF this] True show ?thesis by (simp only: if_True)
next
  case False
  then show ?thesis by (simp only: ctx_fix_def if_False)
qed

lemma find_by_code: "map_option cd_code (List.find (\<lambda>d. P (cd_code d)) ds) = List.find P (map cd_code ds)"
  by (induction ds) auto

lemma concept_of_text_code [code]:
  "concept_of_text s = List.find (\<lambda>c. concept_value c = s) (income_amount_concepts @ [canonical_concept.BASIC_EPS, canonical_concept.DILUTED_EPS] @
     balance_concepts @ cash_flow_concepts @ [BASIC_WEIGHTED_AVERAGE_SHARES, DILUTED_WEIGHTED_AVERAGE_SHARES,
     PERIOD_END_SHARES_OUTSTANDING])"
proof -
  have "map cd_code canonical_concepts = income_amount_concepts @ [canonical_concept.BASIC_EPS, canonical_concept.DILUTED_EPS] @
     balance_concepts @ cash_flow_concepts @ [BASIC_WEIGHTED_AVERAGE_SHARES, DILUTED_WEIGHTED_AVERAGE_SHARES,
     PERIOD_END_SHARES_OUTSTANDING]"
    by (simp add: canonical_concepts_def comp_def)
  then show ?thesis using find_by_code [of "\<lambda>c. concept_value c = s" canonical_concepts]
    by (simp only: concept_of_text_def)
qed

lemma demo_normalized:
  "map_sum id (\<lambda>(r, db). (r, map (fw_normalized_value \<circ> snd) (fdb_facts db)))
     (normalize_snapshot ''s'' demo_facts_db) =
   Inr (\<lparr>nr_snapshot_id = ''s'', nr_status = PARTIAL, nr_normalized_fact_count = 2, nr_period_count = 2,
         nr_warnings = [''FACT_AFTER_RESEARCH_AS_OF:f2'']\<rparr>,
     [Dec 21000000000000000000000000 (-18), Dec 21000000000000000000000000 (-18)])"
  by code_simp

lemma demo_normalizes:
  "\<exists>r db'. normalize_snapshot ''s'' demo_facts_db = Inr (r, db') \<and> nr_normalized_fact_count r = 2"
  using demo_normalized by (cases "normalize_snapshot ''s'' demo_facts_db") auto

lemma demo_columns: "\<forall>f\<in>set (fdb_provider_facts demo_facts_db). \<forall>v. pf_value f = Some v \<longrightarrow> column_12 v"
  by (simp add: demo_facts_db_def demo_provider_fact_def column_12_def)

theorem normalization_idempotent_witness:
  "\<exists>r db'. normalize_snapshot ''s'' demo_facts_db = Inr (r, db') \<and> nr_normalized_fact_count r = 2 \<and>
      normalize_snapshot ''s'' db' = Inr (r, db')"
  using normalization_idempotent [OF demo_columns, of "''s''"] demo_normalizes by blast


end
