(* ===== verification/Financial_Pipeline.thy ===== *)
theory Financial_Pipeline
  imports Metric_Service Fact_Normalization
begin

text \<open>
  The two commands of \<open>cli_financials.py\<close> that write, one after the other: normalization of the
  facts of a snapshot and calculation of its metrics, each a transaction of its own.
\<close>

section \<open>From provider facts to metrics\<close>

lemma same_inputs_extends: "same_inputs a b \<Longrightarrow> extends_by (\<lambda>_. False) a b"
  by (simp add: same_inputs_def extends_by_def read_tables_def)

text \<open>What a calculation reads of a snapshot are stored facts of it.\<close>

lemma calc_fact_stored:
  assumes "c \<in> set (list_normalized_facts db sid)"
  shows "\<exists>i w. (i, w) \<in> set (fdb_facts db) \<and> fw_snapshot_id w = sid \<and>
    fw_source_published_at w = Some (cf_source_published_at c)"
proof -
  obtain i w where w: "(i, w) \<in> set (fdb_facts db)" "fw_snapshot_id w = sid" and j: "join_fact db (i, w) = Some c"
    using assms by (auto simp: list_normalized_facts_def order_by2_def map_filter_def)
  have "fw_source_published_at w = Some (cf_source_published_at c)"
    using j by (auto simp: join_fact_def calc_fact_of_def split: option.splits)
  with w show ?thesis by blast
qed


text \<open>One fact to normalize, and a calculation of the same digest that has ended before.\<close>

definition short_lib :: pylib where
  "short_lib = calc_lib\<lparr>lib_sha256_hex := (\<lambda>_. ''d'')\<rparr>"

definition demo_calc_run :: calc_run_row where
  "demo_calc_run = run_write.extend
     \<lparr>rw_security_id = ''x'', rw_snapshot_id = ''s'', rw_status = ''PARTIAL'', rw_calculation_version = ''1.0.0'',
      rw_formula_set_version = ''1.0.0'', rw_mapping_version = ''1.0.0'', rw_normalization_version = ''1.0.0'',
      rw_input_checksum = ''d'', rw_started_at = 0, rw_warning_count = 0\<rparr>
     (calc_run_row.fields ''r'' (Some 1))"

definition demo_pipeline_db :: fin_db where
  "demo_pipeline_db = demo_facts_db\<lparr>fdb_runs := [demo_calc_run],
     fdb_provider_facts := [(demo_provider_fact ''f1'' ''Q1'' 1 0 20178 50)\<lparr>pf_is_cumulative := None\<rparr>]\<rparr>"

lemma demo_pipeline:
  "map_sum id (\<lambda>(n, db1). (nr_normalized_fact_count n, fdb_metrics db1, fdb_runs db1, get_snapshot db1 ''s'' \<noteq> None))
     (normalize_snapshot ''s'' demo_pipeline_db) = Inr (1, [], [demo_calc_run], True)"
  by code_simp

lemma demo_calc_run_found:
  assumes "fdb_runs db = [demo_calc_run]" and "get_snapshot db ''s'' \<noteq> None"
  shows "\<exists>c. calculate_snapshot short_lib ''s'' db = Inr (c, db)"
proof -
  have "find_calculation_run db (snapshot_key short_lib ''s'' db) \<noteq> None"
    by (simp add: find_calculation_run_def assms(1) run_key_of_def demo_calc_run_def run_write.defs calc_run_row.defs
        input_checksum_def short_lib_def)
  then show ?thesis using assms(2) by (auto simp: calculate_snapshot_def Let_def)
qed


end
