(* ===== verification/Chunking.thy ===== *)
theory Chunking
  imports Prelude
begin

text \<open>
  Chunk boundaries of \<open>domain/documents/chunking.py\<close>. A text is a list of code points, and
  \<open>is_space\<close> is \<open>str.isspace\<close> on one of them. Offsets are integers because the loop can make
  them negative; an index below zero counts from the end of the text, and one out of range raises.
  The loop is a partial function: \<open>None\<close> is a loop that never ends.
\<close>

section \<open>Configuration\<close>

record chunk_config =
  ck_target_characters :: int
  ck_maximum_characters :: int
  ck_minimum_characters :: int
  ck_overlap_characters :: int

definition default_config :: chunk_config where
  "default_config = \<lparr>ck_target_characters = 1000, ck_maximum_characters = 1600,
     ck_minimum_characters = 120, ck_overlap_characters = 200\<rparr>"

definition valid_config :: "chunk_config \<Rightarrow> bool" where
  "valid_config c \<longleftrightarrow>
     120 \<le> ck_target_characters c \<and> ck_target_characters c \<le> 1600 \<and>
     120 \<le> ck_maximum_characters c \<and> ck_maximum_characters c \<le> 1600 \<and>
     1 \<le> ck_minimum_characters c \<and> ck_minimum_characters c \<le> 1600 \<and>
     0 \<le> ck_overlap_characters c \<and> ck_overlap_characters c \<le> 200 \<and>
     ck_minimum_characters c \<le> ck_target_characters c \<and>
     ck_target_characters c \<le> ck_maximum_characters c \<and>
     ck_overlap_characters c \<le> ck_target_characters c div 5"

section \<open>Boundaries\<close>

datatype chunk_error = ChunkIndexError

definition py_index :: "'c list \<Rightarrow> int \<Rightarrow> 'c option" where
  "py_index xs i =
     (if 0 \<le> i \<and> i < int (length xs) then Some (xs ! nat i)
      else if - int (length xs) \<le> i \<and> i < 0 then Some (xs ! nat (int (length xs) + i))
      else None)"

text \<open>The indexes from \<open>lower + n\<close> down to \<open>lower + 1\<close>.\<close>

fun last_boundary_from ::
  "('c \<Rightarrow> bool) \<Rightarrow> 'c list \<Rightarrow> int \<Rightarrow> nat \<Rightarrow> chunk_error + int option" where
  "last_boundary_from is_space xs lower 0 = Inr None"
| "last_boundary_from is_space xs lower (Suc n) =
     (case py_index xs (lower + int (Suc n) - 1) of
        None \<Rightarrow> Inl ChunkIndexError
      | Some c \<Rightarrow> if is_space c then Inr (Some (lower + int (Suc n)))
                  else last_boundary_from is_space xs lower n)"

definition last_boundary ::
  "('c \<Rightarrow> bool) \<Rightarrow> 'c list \<Rightarrow> int \<Rightarrow> int \<Rightarrow> chunk_error + int option" where
  "last_boundary is_space xs lower upper = last_boundary_from is_space xs lower (nat (upper - lower))"

fun first_boundary_from ::
  "('c \<Rightarrow> bool) \<Rightarrow> 'c list \<Rightarrow> int \<Rightarrow> nat \<Rightarrow> chunk_error + int option" where
  "first_boundary_from is_space xs i 0 = Inr None"
| "first_boundary_from is_space xs i (Suc n) =
     (case py_index xs i of
        None \<Rightarrow> Inl ChunkIndexError
      | Some c \<Rightarrow> if is_space c then Inr (Some (i + 1)) else first_boundary_from is_space xs (i + 1) n)"

definition first_boundary ::
  "('c \<Rightarrow> bool) \<Rightarrow> 'c list \<Rightarrow> int \<Rightarrow> int \<Rightarrow> chunk_error + int option" where
  "first_boundary is_space xs lower upper =
     first_boundary_from is_space xs (max lower 0) (nat (upper - max lower 0))"

section \<open>Ranges\<close>

type_synonym chunk_range = "int \<times> int \<times> bool"

text \<open>The end of the chunk that begins at \<open>start\<close>, and whether the cut is forced.\<close>

definition chunk_end ::
  "('c \<Rightarrow> bool) \<Rightarrow> 'c list \<Rightarrow> chunk_config \<Rightarrow> int \<Rightarrow> chunk_error + int \<times> bool" where
  "chunk_end is_space xs cfg start =
     (let len = int (length xs) in
      if len - start \<le> ck_maximum_characters cfg then Inr (len, False)
      else let target = min (start + ck_target_characters cfg) len;
               lower = min (start + ck_minimum_characters cfg) target
           in bind_res (last_boundary is_space xs lower target) (\<lambda>boundary.
                case boundary of
                  Some e \<Rightarrow> Inr (e, False)
                | None \<Rightarrow> Inr (min (start + ck_maximum_characters cfg) len, True)))"

definition next_start ::
  "('c \<Rightarrow> bool) \<Rightarrow> 'c list \<Rightarrow> chunk_config \<Rightarrow> int \<Rightarrow> chunk_error + int" where
  "next_start is_space xs cfg stop =
     (let overlap = min (ck_overlap_characters cfg) (ck_target_characters cfg div 5);
          nxt = stop - overlap
      in bind_res (first_boundary is_space xs nxt stop) (\<lambda>boundary.
           case boundary of
             Some b \<Rightarrow> Inr (if b < stop then b else nxt)
           | None \<Rightarrow> Inr nxt))"

text \<open>One pass of the loop: the final ranges of a \<open>break\<close>, or the next start and the ranges so far.\<close>

datatype chunk_step = Break "chunk_range list" | Continue int "chunk_range list"

definition append_range ::
  "('c \<Rightarrow> bool) \<Rightarrow> 'c list \<Rightarrow> chunk_config \<Rightarrow> int \<Rightarrow> int \<Rightarrow> bool \<Rightarrow> chunk_range list \<Rightarrow>
   chunk_error + chunk_step" where
  "append_range is_space xs cfg start stop forced ranges =
     (let ranges' = ranges @ [(start, stop, forced)] in
      if stop = int (length xs) then Inr (Break ranges')
      else bind_res (next_start is_space xs cfg stop) (\<lambda>s. Inr (Continue s ranges')))"

definition chunk_pass ::
  "('c \<Rightarrow> bool) \<Rightarrow> 'c list \<Rightarrow> chunk_config \<Rightarrow> int \<Rightarrow> chunk_range list \<Rightarrow> chunk_error + chunk_step" where
  "chunk_pass is_space xs cfg start ranges =
     bind_res (chunk_end is_space xs cfg start) (\<lambda>(stop, forced).
       if ranges \<noteq> [] \<and> stop - start < ck_minimum_characters cfg
       then (case last ranges of (previous_start, _, previous_forced) \<Rightarrow>
              if stop - previous_start \<le> ck_maximum_characters cfg
              then Inr (Break (butlast ranges @ [(previous_start, stop, previous_forced \<or> forced)]))
              else append_range is_space xs cfg
                     (max (previous_start + 1) (stop - ck_minimum_characters cfg)) stop forced ranges)
       else append_range is_space xs cfg start stop forced ranges)"

partial_function (option) chunk_loop ::
  "('c \<Rightarrow> bool) \<Rightarrow> 'c list \<Rightarrow> chunk_config \<Rightarrow> int \<Rightarrow> chunk_range list \<Rightarrow>
   (chunk_error + chunk_range list) option" where
  "chunk_loop is_space xs cfg start ranges =
     (if start < int (length xs)
      then (case chunk_pass is_space xs cfg start ranges of
              Inl e \<Rightarrow> Some (Inl e)
            | Inr (Break rs) \<Rightarrow> Some (Inr rs)
            | Inr (Continue s rs) \<Rightarrow> chunk_loop is_space xs cfg s rs)
      else Some (Inr ranges))"

definition chunk_ranges ::
  "('c \<Rightarrow> bool) \<Rightarrow> 'c list \<Rightarrow> chunk_config \<Rightarrow> (chunk_error + chunk_range list) option" where
  "chunk_ranges is_space xs cfg =
     (if int (length xs) \<le> ck_maximum_characters cfg then Some (Inr [(0, int (length xs), False)])
      else chunk_loop is_space xs cfg 0 [])"

section \<open>What the boundary searches return\<close>

lemma py_index_in: "0 \<le> i \<Longrightarrow> i < int (length xs) \<Longrightarrow> py_index xs i = Some (xs ! nat i)"
  by (simp add: py_index_def)

lemma last_boundary_from_spec:
  assumes "0 \<le> lower" and "lower + int n \<le> int (length xs)"
  shows "(\<exists>k. last_boundary_from is_space xs lower n = Inr (Some k) \<and> lower < k \<and> k \<le> lower + int n \<and>
      is_space (xs ! nat (k - 1)) \<and> (\<forall>j. k < j \<and> j \<le> lower + int n \<longrightarrow> \<not> is_space (xs ! nat (j - 1)))) \<or>
    (last_boundary_from is_space xs lower n = Inr None \<and>
      (\<forall>j. lower < j \<and> j \<le> lower + int n \<longrightarrow> \<not> is_space (xs ! nat (j - 1))))"
  using assms
proof (induction n)
  case 0
  then show ?case by auto
next
  case (Suc n)
  have i: "py_index xs (lower + int (Suc n) - 1) = Some (xs ! nat (lower + int (Suc n) - 1))"
    by (rule py_index_in) (use Suc.prems in auto)
  show ?case
  proof (cases "is_space (xs ! nat (lower + int (Suc n) - 1))")
    case True
    then show ?thesis using i by (intro disjI1 exI [of _ "lower + int (Suc n)"]) auto
  next
    case False
    have e: "last_boundary_from is_space xs lower (Suc n) = last_boundary_from is_space xs lower n"
      using i False by simp
    have new: "\<not> is_space (xs ! nat (j - 1))" if "j = lower + int (Suc n)" for j using False that by simp
    have le: "j \<le> lower + int (Suc n) \<Longrightarrow> j \<le> lower + int n \<or> j = lower + int (Suc n)" for j by linarith
    have "lower + int n \<le> int (length xs)" using Suc.prems by simp
    from Suc.IH [OF Suc.prems(1) this] show ?thesis
    proof
      assume "\<exists>k. last_boundary_from is_space xs lower n = Inr (Some k) \<and> lower < k \<and> k \<le> lower + int n \<and>
        is_space (xs ! nat (k - 1)) \<and> (\<forall>j. k < j \<and> j \<le> lower + int n \<longrightarrow> \<not> is_space (xs ! nat (j - 1)))"
      then obtain k where k: "last_boundary_from is_space xs lower n = Inr (Some k)" "lower < k" "k \<le> lower + int n"
        "is_space (xs ! nat (k - 1))" "\<forall>j. k < j \<and> j \<le> lower + int n \<longrightarrow> \<not> is_space (xs ! nat (j - 1))" by blast
      then have "\<forall>j. k < j \<and> j \<le> lower + int (Suc n) \<longrightarrow> \<not> is_space (xs ! nat (j - 1))" using le new by blast
      with k e show ?thesis by (intro disjI1 exI [of _ k]) simp
    next
      assume "last_boundary_from is_space xs lower n = Inr None \<and>
        (\<forall>j. lower < j \<and> j \<le> lower + int n \<longrightarrow> \<not> is_space (xs ! nat (j - 1)))"
      then show ?thesis using e le new by (intro disjI2) metis
    qed
  qed
qed

lemma first_boundary_from_spec:
  assumes "0 \<le> i" and "i + int n \<le> int (length xs)"
  shows "(\<exists>k. first_boundary_from is_space xs i n = Inr (Some k) \<and> i < k \<and> k \<le> i + int n \<and>
      is_space (xs ! nat (k - 1)) \<and> (\<forall>j. i \<le> j \<and> j < k - 1 \<longrightarrow> \<not> is_space (xs ! nat j))) \<or>
    first_boundary_from is_space xs i n = Inr None"
  using assms
proof (induction n arbitrary: i)
  case 0
  then show ?case by simp
next
  case (Suc n)
  have p: "py_index xs i = Some (xs ! nat i)" by (rule py_index_in) (use Suc.prems in auto)
  show ?case
  proof (cases "is_space (xs ! nat i)")
    case True
    then show ?thesis using p by (intro disjI1 exI [of _ "i + 1"]) auto
  next
    case False
    then have e: "first_boundary_from is_space xs i (Suc n) = first_boundary_from is_space xs (i + 1) n"
      using p by simp
    have "0 \<le> i + 1" "i + 1 + int n \<le> int (length xs)" using Suc.prems by auto
    from Suc.IH [OF this] show ?thesis
    proof
      assume "\<exists>k. first_boundary_from is_space xs (i + 1) n = Inr (Some k) \<and> i + 1 < k \<and> k \<le> i + 1 + int n \<and>
        is_space (xs ! nat (k - 1)) \<and> (\<forall>j. i + 1 \<le> j \<and> j < k - 1 \<longrightarrow> \<not> is_space (xs ! nat j))"
      then obtain k where k: "first_boundary_from is_space xs (i + 1) n = Inr (Some k)" "i + 1 < k"
        "k \<le> i + 1 + int n" "is_space (xs ! nat (k - 1))"
        "\<forall>j. i + 1 \<le> j \<and> j < k - 1 \<longrightarrow> \<not> is_space (xs ! nat j)" by blast
      have "\<forall>j. i \<le> j \<and> j < k - 1 \<longrightarrow> \<not> is_space (xs ! nat j)"
        using k(5) False by (metis add1_zle_eq order_le_less)
      with k e show ?thesis by (intro disjI1 exI [of _ k]) simp
    next
      assume "first_boundary_from is_space xs (i + 1) n = Inr None"
      then show ?thesis using e by simp
    qed
  qed
qed

section \<open>The chunks of a text cover it\<close>

definition follows :: "chunk_range \<Rightarrow> chunk_range \<Rightarrow> bool" where
  "follows a b \<longleftrightarrow> (case (a, b) of ((s, e, _), (s', e', _)) \<Rightarrow> s < s' \<and> s' \<le> e \<and> e \<le> e')"

definition ranges_ok :: "int \<Rightarrow> int \<Rightarrow> chunk_range list \<Rightarrow> bool" where
  "ranges_ok len maximum rs \<longleftrightarrow> rs \<noteq> [] \<and> fst (hd rs) = 0 \<and> successively follows rs \<and>
     (\<forall>(s, e, _)\<in>set rs. 0 \<le> s \<and> s < e \<and> e \<le> len \<and> e - s \<le> maximum)"

lemma ranges_ok_snoc:
  assumes "rs = [] \<and> s = 0 \<or> ranges_ok len maximum rs \<and> follows (last rs) (s, e, f)"
    and "0 \<le> s" "s < e" "e \<le> len" "e - s \<le> maximum"
  shows "ranges_ok len maximum (rs @ [(s, e, f)])"
  using assms by (auto simp: ranges_ok_def successively_append_iff)

lemma ranges_ok_extend_last:
  assumes ok: "ranges_ok len maximum rs" and l: "last rs = (s, e, f)" and "e \<le> e'" "e' \<le> len" "e' - s \<le> maximum"
  shows "ranges_ok len maximum (butlast rs @ [(s, e', f')])"
proof -
  have rs: "rs = butlast rs @ [(s, e, f)]" using ok l append_butlast_last_id [of rs] by (simp add: ranges_ok_def)
  have m: "(s, e, f) \<in> set rs" using rs by (metis in_set_conv_decomp)
  have chain: "successively follows (butlast rs @ [(s, e, f)])" using ok rs by (simp add: ranges_ok_def)
  have link: "butlast rs = [] \<or> follows (last (butlast rs)) (s, e, f)"
    using chain by (simp add: successively_append_iff)
  then have "butlast rs = [] \<or> follows (last (butlast rs)) (s, e', f')"
    using assms(3) by (auto simp: follows_def split: prod.splits)
  then have "successively follows (butlast rs @ [(s, e', f')])" using chain by (simp add: successively_append_iff)
  moreover have "fst (hd (butlast rs @ [(s, e', f')])) = 0"
    using ok rs by (cases "butlast rs") (auto simp: ranges_ok_def)
  moreover have "0 \<le> s" "s < e'" using ok m assms(3) by (auto simp: ranges_ok_def)
  moreover have "set (butlast rs) \<subseteq> set rs" by (auto dest: in_set_butlastD)
  ultimately show ?thesis using ok assms(4,5) unfolding ranges_ok_def by fastforce
qed

lemma ranges_cover:
  assumes "successively follows rs" and "rs \<noteq> []" and "fst (hd rs) \<le> i" and "i < fst (snd (last rs))"
  shows "\<exists>(s, e, f)\<in>set rs. s \<le> i \<and> i < e"
  using assms
proof (induction rs)
  case Nil
  then show ?case by simp
next
  case (Cons r rs)
  obtain s e f where r: "r = (s, e, f)" by (cases r)
  show ?case
  proof (cases "i < e")
    case True
    then show ?thesis using Cons.prems(3) r by auto
  next
    case False
    then have ne: "rs \<noteq> []" using Cons.prems(4) r by auto
    then have "follows r (hd rs)" "successively follows rs" using Cons.prems(1) by (cases rs; simp)+
    then show ?thesis using Cons.IH ne Cons.prems(4) False r by (auto simp: follows_def split: prod.splits)
  qed
qed

text \<open>The overlap may not be larger than the smallest chunk.\<close>

definition progressive :: "chunk_config \<Rightarrow> bool" where
  "progressive c \<longleftrightarrow> valid_config c \<and> ck_overlap_characters c \<le> ck_minimum_characters c"

lemma chunk_end_spec:
  assumes "progressive cfg" and "0 \<le> start" and "start < int (length xs)"
  shows "\<exists>e f. chunk_end is_space xs cfg start = Inr (e, f) \<and>
    (e = int (length xs) \<and> e - start \<le> ck_maximum_characters cfg \<or>
     e < int (length xs) \<and> ck_minimum_characters cfg \<le> e - start \<and>
       e - start \<le> ck_maximum_characters cfg \<and> ck_overlap_characters cfg < e - start)"
proof (cases "int (length xs) - start \<le> ck_maximum_characters cfg")
  case True
  then show ?thesis by (intro exI [of _ "int (length xs)"] exI [of _ False]) (simp add: chunk_end_def)
next
  case False
  have c: "ck_minimum_characters cfg \<le> ck_target_characters cfg" "ck_target_characters cfg \<le> ck_maximum_characters cfg"
    "1 \<le> ck_minimum_characters cfg" "ck_overlap_characters cfg \<le> ck_minimum_characters cfg"
    "ck_overlap_characters cfg < ck_maximum_characters cfg"
    using assms(1) by (auto simp: progressive_def valid_config_def)
  let ?target = "start + ck_target_characters cfg" and ?lower = "start + ck_minimum_characters cfg"
  have bounds: "?target < int (length xs)" "?lower \<le> ?target" using False c by auto
  have e: "chunk_end is_space xs cfg start = bind_res (last_boundary is_space xs ?lower ?target)
      (\<lambda>b. case b of Some e \<Rightarrow> Inr (e, False) | None \<Rightarrow> Inr (start + ck_maximum_characters cfg, True))"
    using False bounds by (simp add: chunk_end_def Let_def min_def)
  have n: "?lower + int (nat (?target - ?lower)) = ?target" using bounds by simp
  have "(\<exists>k. last_boundary is_space xs ?lower ?target = Inr (Some k) \<and> ?lower < k \<and> k \<le> ?target) \<or>
      last_boundary is_space xs ?lower ?target = Inr None"
    using last_boundary_from_spec [of ?lower "nat (?target - ?lower)" xs is_space] assms(2) bounds c n
    unfolding last_boundary_def by fastforce
  then show ?thesis using e bounds c False by auto
qed

lemma next_start_spec:
  assumes "progressive cfg" and "ck_overlap_characters cfg \<le> e" and "e \<le> int (length xs)"
  shows "\<exists>s. next_start is_space xs cfg e = Inr s \<and> e - ck_overlap_characters cfg \<le> s \<and> s \<le> e"
proof -
  let ?n = "e - ck_overlap_characters cfg"
  have o: "0 \<le> ck_overlap_characters cfg" "ck_overlap_characters cfg \<le> ck_target_characters cfg div 5"
    using assms(1) by (auto simp: progressive_def valid_config_def)
  have "max ?n 0 + int (nat (e - max ?n 0)) \<le> int (length xs)" "0 \<le> max ?n 0" using assms(2,3) o by auto
  then have "(\<exists>k. first_boundary is_space xs ?n e = Inr (Some k) \<and> ?n < k) \<or> first_boundary is_space xs ?n e = Inr None"
    using first_boundary_from_spec [of "max ?n 0" "nat (e - max ?n 0)" xs is_space]
    unfolding first_boundary_def by fastforce
  then show ?thesis using o by (auto simp: next_start_def Let_def min_def)
qed

text \<open>Between two passes: where the next chunk begins, relative to the last one.\<close>

definition chunk_inv :: "'c list \<Rightarrow> chunk_config \<Rightarrow> int \<Rightarrow> chunk_range list \<Rightarrow> bool" where
  "chunk_inv xs cfg start rs \<longleftrightarrow> 0 \<le> start \<and> start < int (length xs) \<and>
     (rs = [] \<and> start = 0 \<or>
      ranges_ok (int (length xs)) (ck_maximum_characters cfg) rs \<and>
      (case last rs of (s, e, _) \<Rightarrow> s < start \<and> start \<le> e \<and> e < int (length xs) \<and> e - ck_overlap_characters cfg \<le> start))"

definition chunks_done :: "'c list \<Rightarrow> chunk_config \<Rightarrow> chunk_range list \<Rightarrow> bool" where
  "chunks_done xs cfg rs \<longleftrightarrow> ranges_ok (int (length xs)) (ck_maximum_characters cfg) rs \<and>
     fst (snd (last rs)) = int (length xs)"

text \<open>A short rest of the text joins the last chunk, or gets a chunk that begins earlier.\<close>

lemma chunk_pass_tail:
  assumes p: "progressive cfg" and inv: "chunk_inv xs cfg start rs" and rs: "rs \<noteq> []"
    and e: "chunk_end is_space xs cfg start = Inr (int (length xs), f)"
    and short: "int (length xs) - start < ck_minimum_characters cfg"
  shows "\<exists>rs'. chunk_pass is_space xs cfg start rs = Inr (Break rs') \<and> chunks_done xs cfg rs'"
proof -
  let ?len = "int (length xs)"
  have c: "1 \<le> ck_minimum_characters cfg" "ck_minimum_characters cfg \<le> ck_maximum_characters cfg"
    using p by (auto simp: progressive_def valid_config_def)
  obtain ps pe pf where l: "last rs = (ps, pe, pf)" by (cases "last rs")
  have prev: "ranges_ok ?len (ck_maximum_characters cfg) rs" "ps < start" "start \<le> pe" "pe < ?len"
    using inv rs l by (auto simp: chunk_inv_def)
  have "(ps, pe, pf) \<in> set rs" using l rs last_in_set by metis
  then have pos: "0 \<le> ps" "ps < pe" using prev(1) by (auto simp: ranges_ok_def)
  show ?thesis
  proof (cases "?len - ps \<le> ck_maximum_characters cfg")
    case True
    then have "chunk_pass is_space xs cfg start rs = Inr (Break (butlast rs @ [(ps, ?len, pf \<or> f)]))"
      using e rs short l by (simp add: chunk_pass_def)
    moreover have "ranges_ok ?len (ck_maximum_characters cfg) (butlast rs @ [(ps, ?len, pf \<or> f)])"
      by (rule ranges_ok_extend_last [OF prev(1) l]) (use prev True in auto)
    ultimately show ?thesis by (auto simp: chunks_done_def)
  next
    case False
    let ?s = "max (ps + 1) (?len - ck_minimum_characters cfg)"
    have "chunk_pass is_space xs cfg start rs = Inr (Break (rs @ [(?s, ?len, f)]))"
      using e rs short l False by (simp add: chunk_pass_def append_range_def Let_def)
    moreover have "ranges_ok ?len (ck_maximum_characters cfg) (rs @ [(?s, ?len, f)])"
      by (rule ranges_ok_snoc) (use prev pos short l c False in \<open>auto simp: follows_def max_def\<close>)
    ultimately show ?thesis by (auto simp: chunks_done_def)
  qed
qed

lemma chunk_pass_spec:
  assumes p: "progressive cfg" and inv: "chunk_inv xs cfg start rs"
  shows "(\<exists>rs'. chunk_pass is_space xs cfg start rs = Inr (Break rs') \<and> chunks_done xs cfg rs') \<or>
    (\<exists>s' rs'. chunk_pass is_space xs cfg start rs = Inr (Continue s' rs') \<and> start < s' \<and> chunk_inv xs cfg s' rs')"
proof -
  let ?len = "int (length xs)"
  have c: "1 \<le> ck_minimum_characters cfg" "ck_overlap_characters cfg \<le> ck_minimum_characters cfg"
    "ck_minimum_characters cfg \<le> ck_maximum_characters cfg" "0 \<le> ck_overlap_characters cfg"
    using p by (auto simp: progressive_def valid_config_def)
  have start: "0 \<le> start" "start < ?len" using inv by (auto simp: chunk_inv_def)
  obtain e f where e: "chunk_end is_space xs cfg start = Inr (e, f)"
    and cases: "e = ?len \<and> e - start \<le> ck_maximum_characters cfg \<or>
      e < ?len \<and> ck_minimum_characters cfg \<le> e - start \<and> e - start \<le> ck_maximum_characters cfg \<and>
      ck_overlap_characters cfg < e - start"
    using chunk_end_spec [OF p start] by blast
  have link: "rs = [] \<and> start = 0 \<or> ranges_ok ?len (ck_maximum_characters cfg) rs \<and> follows (last rs) (start, e, f)"
    if "start \<le> e - ck_overlap_characters cfg \<or> e = ?len"
    using inv that c by (auto simp: chunk_inv_def follows_def split: prod.splits)
  show ?thesis
  proof (cases "e = ?len")
    case False
    then have small: "e < ?len" "ck_minimum_characters cfg \<le> e - start" "e - start \<le> ck_maximum_characters cfg"
      "ck_overlap_characters cfg < e - start" using cases by auto
    obtain s' where s': "next_start is_space xs cfg e = Inr s'" "e - ck_overlap_characters cfg \<le> s'" "s' \<le> e"
      using next_start_spec [OF p, of e xs] small start by force
    have "chunk_pass is_space xs cfg start rs = Inr (Continue s' (rs @ [(start, e, f)]))"
      using e small s'(1) False by (auto simp: chunk_pass_def append_range_def Let_def)
    moreover have "ranges_ok ?len (ck_maximum_characters cfg) (rs @ [(start, e, f)])"
      by (rule ranges_ok_snoc [OF link]) (use small start c in auto)
    ultimately show ?thesis using small s' start
      by (intro disjI2 exI [of _ s'] exI [of _ "rs @ [(start, e, f)]"]) (auto simp: chunk_inv_def)
  next
    case True
    have fits: "e - start \<le> ck_maximum_characters cfg" using cases True by auto
    show ?thesis
    proof (cases "rs \<noteq> [] \<and> e - start < ck_minimum_characters cfg")
      case False
      then have "chunk_pass is_space xs cfg start rs = Inr (Break (rs @ [(start, e, f)]))"
        using e True by (auto simp: chunk_pass_def append_range_def Let_def)
      moreover have "ranges_ok ?len (ck_maximum_characters cfg) (rs @ [(start, e, f)])"
        by (rule ranges_ok_snoc [OF link]) (use True fits start in auto)
      ultimately show ?thesis using True by (auto simp: chunks_done_def)
    next
      case tail: True
      then show ?thesis using chunk_pass_tail [OF p inv _ e [unfolded True]] True by blast
    qed
  qed
qed

lemma chunk_loop_ends:
  assumes "progressive cfg" and "chunk_inv xs cfg start rs"
  shows "\<exists>rs'. chunk_loop is_space xs cfg start rs = Some (Inr rs') \<and> chunks_done xs cfg rs'"
  using assms(2)
proof (induction "nat (int (length xs) - start)" arbitrary: start rs rule: less_induct)
  case less
  have s: "start < int (length xs)" using less.prems by (simp add: chunk_inv_def)
  from chunk_pass_spec [OF assms(1) less.prems, of is_space] show ?case
  proof
    assume "\<exists>rs'. chunk_pass is_space xs cfg start rs = Inr (Break rs') \<and> chunks_done xs cfg rs'"
    then show ?thesis using s by (auto simp: chunk_loop.simps [of is_space xs cfg start rs])
  next
    assume "\<exists>s' rs'. chunk_pass is_space xs cfg start rs = Inr (Continue s' rs') \<and> start < s' \<and> chunk_inv xs cfg s' rs'"
    then obtain s' rs' where c: "chunk_pass is_space xs cfg start rs = Inr (Continue s' rs')" "start < s'"
      "chunk_inv xs cfg s' rs'" by blast
    have "nat (int (length xs) - s') < nat (int (length xs) - start)" using c(2) s by simp
    from less.hyps [OF this c(3)] c(1) s show ?thesis
      by (simp add: chunk_loop.simps [of is_space xs cfg start rs])
  qed
qed

lemma chunk_ranges_done:
  assumes "progressive cfg" and "xs \<noteq> []"
  shows "\<exists>rs. chunk_ranges is_space xs cfg = Some (Inr rs) \<and> chunks_done xs cfg rs"
proof (cases "int (length xs) \<le> ck_maximum_characters cfg")
  case True
  then show ?thesis using assms(2)
    by (simp add: chunk_ranges_def chunks_done_def ranges_ok_def)
next
  case False
  then show ?thesis using chunk_loop_ends [OF assms(1), of xs 0 "[]" is_space] assms(2)
    by (simp add: chunk_ranges_def chunk_inv_def)
qed

section \<open>Properties\<close>

text \<open>
  C38. Chunking ends and loses nothing when the overlap is at most the minimum size of a chunk. On
  every text it returns ranges that begin at 0 and end at the length of the text, none of them empty
  or longer than the maximum, each beginning after its predecessor begins and no later than it ends;
  so every character is in a chunk.
\<close>

theorem chunks_cover_text:
  assumes "valid_config cfg" and "ck_overlap_characters cfg \<le> ck_minimum_characters cfg" and "xs \<noteq> []"
  shows "\<exists>rs. chunk_ranges is_space xs cfg = Some (Inr rs) \<and>
    (\<forall>(s, e, f)\<in>set rs. 0 \<le> s \<and> s < e \<and> e \<le> int (length xs) \<and> e - s \<le> ck_maximum_characters cfg) \<and>
    successively (\<lambda>(s, e, _) (s', e', _). s < s' \<and> s' \<le> e \<and> e \<le> e') rs \<and>
    (\<forall>i. 0 \<le> i \<and> i < int (length xs) \<longrightarrow> (\<exists>(s, e, f)\<in>set rs. s \<le> i \<and> i < e))"
proof -
  obtain rs where rs: "chunk_ranges is_space xs cfg = Some (Inr rs)" "chunks_done xs cfg rs"
    using chunk_ranges_done [of cfg xs is_space] assms by (auto simp: progressive_def)
  then have ok: "ranges_ok (int (length xs)) (ck_maximum_characters cfg) rs"
    and l: "fst (snd (last rs)) = int (length xs)" by (simp_all add: chunks_done_def)
  have "(\<lambda>(s, e, _) (s', e', _). s < s' \<and> s' \<le> e \<and> e \<le> e') = follows"
    by (auto simp: follows_def fun_eq_iff)
  moreover have "\<exists>(s, e, f)\<in>set rs. s \<le> i \<and> i < e" if "0 \<le> i" "i < int (length xs)" for i
    by (rule ranges_cover) (use ok l that in \<open>auto simp: ranges_ok_def\<close>)
  ultimately show ?thesis using rs(1) ok by (auto simp: ranges_ok_def)
qed

text \<open>
  The default configuration has an overlap of 200 and a minimum of 120. After a chunk that ends at
  the only space of the next 1000 characters, the loop steps back behind where it began and finds
  the same end again.
\<close>

definition lone_space :: "('c \<Rightarrow> bool) \<Rightarrow> 'c list \<Rightarrow> nat \<Rightarrow> bool" where
  "lone_space is_space xs p \<longleftrightarrow> (\<forall>i < 1000. is_space (xs ! i) \<longleftrightarrow> i = p)"

lemma last_boundary_lone:
  assumes "lone_space is_space xs p" and "0 \<le> lower" "lower < int p + 1" "int p + 1 \<le> upper" "upper \<le> 1000"
    and "1000 \<le> length xs"
  shows "last_boundary is_space xs lower upper = Inr (Some (int p + 1))"
proof -
  have n: "lower + int (nat (upper - lower)) = upper" using assms by simp
  have space: "is_space (xs ! nat (k - 1)) \<longleftrightarrow> k = int p + 1" if "lower < k" "k \<le> upper" for k
  proof -
    have "nat (k - 1) < 1000" using that assms(2,5) by linarith
    then have "is_space (xs ! nat (k - 1)) \<longleftrightarrow> nat (k - 1) = p" using assms(1) by (simp add: lone_space_def)
    then show ?thesis using that assms(2) by linarith
  qed
  have "lower + int (nat (upper - lower)) \<le> int (length xs)" using n assms by simp
  from last_boundary_from_spec [OF assms(2) this, of is_space] show ?thesis
    unfolding last_boundary_def n using space assms by (metis)
qed

lemma next_start_lone:
  assumes "lone_space is_space xs p" and "p < 200" and "1000 \<le> length xs"
  shows "next_start is_space xs default_config (int p + 1) = Inr (int p - 199)"
proof -
  have "first_boundary is_space xs (int p - 199) (int p + 1) = first_boundary_from is_space xs 0 (Suc p)"
    using assms(2) by (simp add: first_boundary_def nat_add_distrib)
  moreover have "(\<exists>k. first_boundary_from is_space xs 0 (Suc p) = Inr (Some k) \<and> k = int p + 1) \<or>
      first_boundary_from is_space xs 0 (Suc p) = Inr None"
  proof -
    have "0 + int (Suc p) \<le> int (length xs)" using assms(2,3) by simp
    from first_boundary_from_spec [OF order_refl this, of is_space] show ?thesis
    proof
      assume "\<exists>k. first_boundary_from is_space xs 0 (Suc p) = Inr (Some k) \<and> 0 < k \<and> k \<le> 0 + int (Suc p) \<and>
        is_space (xs ! nat (k - 1)) \<and> (\<forall>j. 0 \<le> j \<and> j < k - 1 \<longrightarrow> \<not> is_space (xs ! nat j))"
      then obtain k where k: "first_boundary_from is_space xs 0 (Suc p) = Inr (Some k)" "0 < k" "k \<le> int (Suc p)"
        "is_space (xs ! nat (k - 1))" by auto
      have "nat (k - 1) < 1000" using k(3) assms(2) by linarith
      then have "nat (k - 1) = p" using k(4) assms(1) by (simp add: lone_space_def)
      then show ?thesis using k(1,2) by auto
    qed simp
  qed
  ultimately show ?thesis by (auto simp: next_start_def default_config_def Let_def)
qed

lemma chunk_pass_lone:
  assumes "lone_space is_space xs p" and "120 \<le> p" "p < 200" and "1600 < length xs"
    and "start = 0 \<or> start = int p - 199"
  shows "chunk_pass is_space xs default_config start rs =
    Inr (Continue (int p - 199) (rs @ [(start, int p + 1, False)]))"
proof -
  have "last_boundary is_space xs (start + 120) (start + 1000) = Inr (Some (int p + 1))"
    by (rule last_boundary_lone [OF assms(1)]) (use assms in auto)
  moreover have "min (start + 1000) (int (length xs)) = start + 1000" using assms by auto
  moreover have "\<not> int (length xs) - start \<le> 1600" using assms(3-5) by auto
  ultimately have "chunk_end is_space xs default_config start = Inr (int p + 1, False)"
    by (simp add: chunk_end_def default_config_def Let_def)
  moreover have "\<not> int p + 1 - start < 120" "int p + 1 \<noteq> int (length xs)" using assms by auto
  moreover have "next_start is_space xs default_config (int p + 1) = Inr (int p - 199)"
    by (rule next_start_lone [OF assms(1,3)]) (use assms(4) in simp)
  ultimately show ?thesis
    by (simp add: chunk_pass_def append_range_def Let_def default_config_def)
qed

text \<open>No number of passes gets the loop out of these two starts.\<close>

lemma chunk_loop_lone:
  assumes lone: "lone_space is_space xs p" "120 \<le> p" "p < 200" "1600 < length xs"
    and result: "chunk_loop sp ys cfg start rs = Some r"
  shows "sp = is_space \<longrightarrow> ys = xs \<longrightarrow> cfg = default_config \<longrightarrow> start \<noteq> 0 \<and> start \<noteq> int p - 199"
proof (rule chunk_loop.raw_induct [OF _ result, where P = "\<lambda>sp ys cfg start rs r.
    sp = is_space \<longrightarrow> ys = xs \<longrightarrow> cfg = default_config \<longrightarrow> start \<noteq> 0 \<and> start \<noteq> int p - 199"], intro impI)
  fix loop sp ys cfg start rs r
  assume IH: "\<And>sp ys cfg start rs r. loop sp ys cfg start rs = Some r \<Longrightarrow>
      sp = is_space \<longrightarrow> ys = xs \<longrightarrow> cfg = default_config \<longrightarrow> start \<noteq> 0 \<and> start \<noteq> int p - 199"
    and body: "(if start < int (length ys) then case chunk_pass sp ys cfg start rs of Inl e \<Rightarrow> Some (Inl e)
        | Inr (Break rs) \<Rightarrow> Some (Inr rs) | Inr (Continue s rs) \<Rightarrow> loop sp ys cfg s rs
      else Some (Inr rs)) = Some r"
    and eqs: "sp = is_space" "ys = xs" "cfg = default_config"
  show "start \<noteq> 0 \<and> start \<noteq> int p - 199"
  proof (rule ccontr)
    assume "\<not> (start \<noteq> 0 \<and> start \<noteq> int p - 199)"
    then have s: "start = 0 \<or> start = int p - 199" by blast
    then have "start < int (length xs)" using lone by auto
    with body chunk_pass_lone [OF lone s, of rs] eqs
    have "loop is_space xs default_config (int p - 199) (rs @ [(start, int p + 1, False)]) = Some r" by simp
    from IH [OF this] show False by simp
  qed
qed

text \<open>
  C39. With the default configuration chunking does not always end. Take any text of more than 1600
  characters whose first 1000 characters have one space, at an offset from 120 to 199: the loop
  appends the same chunk for ever. A long line of Chinese text after its heading is such a text.
\<close>

theorem default_chunking_diverges:
  assumes "1600 < length xs" and "120 \<le> p" and "p < 200"
    and "\<forall>i < 1000. is_space (xs ! i) \<longleftrightarrow> i = p"
  shows "chunk_ranges is_space xs default_config = None"
proof -
  have lone: "lone_space is_space xs p" using assms(4) by (simp add: lone_space_def)
  have "chunk_loop is_space xs default_config 0 [] = None"
    using chunk_loop_lone [OF lone assms(2,3,1), of is_space xs default_config 0 "[]"]
    by (cases "chunk_loop is_space xs default_config 0 []") auto
  then show ?thesis using assms(1) by (simp add: chunk_ranges_def default_config_def)
qed

section \<open>Witnesses\<close>

theorem chunks_cover_text_witness:
  "\<exists>cfg. valid_config cfg \<and> ck_overlap_characters cfg \<le> ck_minimum_characters cfg \<and>
    (\<exists>rs. chunk_ranges (\<lambda>c. c = CHR '' '') (replicate 3000 (CHR ''x'')) cfg = Some (Inr rs) \<and>
      (\<exists>s e f. (s, e, f) \<in> set rs \<and> s \<le> 1700 \<and> 1700 < e))"
proof -
  let ?cfg = "\<lparr>ck_target_characters = 1000, ck_maximum_characters = 1600, ck_minimum_characters = 200,
    ck_overlap_characters = 200\<rparr>"
  have "valid_config ?cfg" "ck_overlap_characters ?cfg \<le> ck_minimum_characters ?cfg" by (simp_all add: valid_config_def)
  moreover from chunks_cover_text [OF this, of "replicate 3000 (CHR ''x'')" "\<lambda>c. c = CHR '' ''"]
  obtain rs where "chunk_ranges (\<lambda>c. c = CHR '' '') (replicate 3000 (CHR ''x'')) ?cfg = Some (Inr rs)"
    and "\<forall>i. 0 \<le> i \<and> i < int 3000 \<longrightarrow> (\<exists>(s, e, f)\<in>set rs. s \<le> i \<and> i < e)"
    by (auto simp: length_replicate)
  moreover from this(2) have "\<exists>(s, e, f)\<in>set rs. s \<le> 1700 \<and> 1700 < e" by simp
  ultimately show ?thesis by fast
qed

theorem default_chunking_diverges_witness:
  "chunk_ranges (\<lambda>c. c = CHR '' '') (replicate 120 (CHR ''x'') @ CHR '' '' # replicate 1500 (CHR ''y'')) default_config = None"
proof (rule default_chunking_diverges [of _ 120])
  show "\<forall>i<1000. ((replicate 120 (CHR ''x'') @ CHR '' '' # replicate 1500 (CHR ''y'')) ! i = CHR '' '') = (i = 120)"
    by (auto simp: nth_append nth_Cons')
qed simp_all

end
