(* ===== verification/Spec2Isabelle.thy ===== *)
theory Spec2Isabelle
  imports Cli_Liveness Circuit_Breaker Rate_Limit Provider_Retry Provider_History Financial_Pipeline Chunking
begin

text \<open>
  Verification of \<open>stock-research-agent\<close>: the controlled research agent, the resilience policies
  of its data providers and the deterministic financial metrics. All paths below are relative to
  \<^verbatim>\<open>src/src/stock_research_agent/\<close>.

  \<^bold>\<open>The program.\<close> A research request names a security, a data snapshot and an as-of time. The agent
  (\<open>domain/research_agent\<close>) checks it against a stored policy, plans a fixed sequence of read-only
  Tool calls, executes them within budgets, records what they return as observations and evidence,
  derives claims, validates their support and assembles a package; every step is persisted by
  \<open>db/repositories/research_agent.py\<close>, and \<open>cli_agent.py\<close> drives it, one transaction per command.
  Snapshots are filled from data providers, whose calls are guarded by a persisted circuit breaker,
  rate limiter and retry policy (\<open>providers\<close>). The financial facts of a snapshot are normalized and
  become metrics by the formulas of \<open>domain/financials\<close>, stored by \<open>db/repositories/financials.py\<close>.

  \<^bold>\<open>How the model reads.\<close> A contract or row is a record, an enum a datatype, a table a list of rows in
  the order of insertion, an exception the left side of a sum. An operation that writes takes and
  returns the tables; a raise returns no tables, since every caller rolls its transaction back.
  Identifiers (\<open>uuid4\<close>) and times come from an \<open>env\<close> that numbers the calls, so hypotheses about
  freshness are about the identifiers still to be drawn. SHA-256, case folding, the text forms of
  \<open>Decimal\<close> and \<open>fromisoformat\<close> are the fields of \<open>pylib\<close>, a parameter. The Tool handlers, the
  security resolver, the snapshot reader and the SEC reservation port are parameters too.

  \<^bold>\<open>Shared theories.\<close>
  \<^item> \<open>Prelude\<close>: texts, errors and their sequencing, the environment, dictionaries, stable orders.
  \<^item> \<open>Py_Values\<close>: payload values and canonical JSON (\<open>canonical.py\<close>), a fixed point of reading back.
  \<^item> \<open>Decimal_Arith\<close>: the 28-digit decimal context, the rounding of a \<open>NUMERIC(38, 18)\<close> column and
    relative error bounds for every operation.

  \<^bold>\<open>The research agent\<close> (\<open>domain/research_agent\<close>), in the order in which a run meets its parts.
  \<^item> \<open>Research_Types\<close>: \<open>enums.py\<close>, \<open>schemas.py\<close>. \<open>Run_State_Machine\<close>: \<open>state_machine.py\<close>, with the
    interface of the run repository as a locale. \<open>Research_Repository\<close>: the tables and the writes of
    the repository, with keys and partial unique indexes; it interprets that locale.
  \<^item> \<open>Research_Policies\<close> (\<open>policies.py\<close>), \<open>Run_Budgets\<close> (\<open>budgets.py\<close>: no sequence of requests passes a
    limit), \<open>Requests\<close> (\<open>requests.py\<close>, \<open>idempotency.py\<close>: the preflight accepts exactly the admissible
    requests).
  \<^item> \<open>Tool_Registry\<close> (\<open>tools/registry.py\<close>: only read-only Tools, fail-closed execution), \<open>Tool_Policy\<close>
    (\<open>tool_policy.py\<close>, \<open>tool_catalog.py\<close>: deny by default).
  \<^item> \<open>Planning\<close>, \<open>Plan_Validation\<close> (\<open>planning.py\<close>, \<open>plan_validation.py\<close>): the validator accepts
    exactly the well-formed acyclic plans, its two searches terminate and are exact, and every
    compiled plan passes.
  \<^item> \<open>Tool_Context\<close>, \<open>Invocations\<close>, \<open>Tool_Execution\<close> (\<open>tool_context.py\<close>, \<open>invocations.py\<close>,
    \<open>observations.py\<close>, \<open>tool_execution.py\<close>): inputs and outputs stay in the scope of the run, nothing
    sensitive is stored, a step calls its Tool at most twice.
  \<^item> \<open>Evidence_Ledger\<close> (\<open>evidence.py\<close>, \<open>evidence_adapters.py\<close>, \<open>conflicts.py\<close>), \<open>Claims\<close> (\<open>claims.py\<close>,
    \<open>claim_pipeline.py\<close>), \<open>Packages\<close> (\<open>packages.py\<close>): evidence is valid, a claim supported and a
    package complete exactly under the stated conditions.
  \<^item> \<open>Run_Lifecycle\<close>: every reachable state of the repository has a legal audit trail per run, final
    terminal statuses and at most one reusable run per key, under interleaved sessions.
  \<^item> \<open>Run_Control\<close> (\<open>resume.py\<close>), \<open>Execution\<close> (\<open>application.py\<close>), \<open>Cli_Agent\<close>, \<open>Cli_Liveness\<close>
    (\<open>cli_agent.py\<close>, \<open>cli_datetime.py\<close>): an executed run is settled and a complete one is backed by
    stored evidence; admissible requests are always planned, planning is idempotent; the statuses
    the commands can leave.

  \<^bold>\<open>Providers.\<close>
  \<^item> \<open>Circuit_Breaker\<close> (\<open>providers/circuit_breaker.py\<close>): admission as a function of the history of a
    scope, proved for any store with the laws of the locale \<open>circuit_store\<close> and instantiated with the
    table of the source.
  \<^item> \<open>Rate_Limit\<close> (\<open>providers/rate_limit.py\<close>), \<open>Provider_Retry\<close> (\<open>providers/retry.py\<close>,
    \<open>providers/sec_edgar/retry.py\<close>): exact decisions, bounded attempts.
  \<^item> \<open>Provider_History\<close> (\<open>domain/providers/temporal.py\<close>, \<open>domain/providers/authorization.py\<close>): the
    revisions of a source form a chain; when a record is eligible and a live call allowed.

  \<^bold>\<open>Financials\<close> (\<open>domain/financials\<close>).
  \<^item> \<open>Financial_Types\<close> (\<open>enums.py\<close>, \<open>concepts.py\<close>, \<open>units.py\<close>, \<open>periods.py\<close>), \<open>As_Of\<close> (\<open>as_of.py\<close>:
    selection is exact and has no look-ahead), \<open>Period_Calculations\<close> (\<open>calculations.py\<close>: the two
    methods for trailing twelve months agree), \<open>Metric_Formulas\<close> (\<open>formulas.py\<close>: every formula
    returns a well-formed result, close to its expression evaluated exactly).
  \<^item> \<open>Financial_Repository\<close> (\<open>db/repositories/financials.py\<close>), \<open>Metric_Service\<close>
    (\<open>calculation_service.py\<close>): a calculation is idempotent, and which metrics can never have a value.
  \<^item> \<open>Fact_Normalization\<close> (\<open>mapping.py\<close>, \<open>normalization.py\<close> and the writes of the repository): the
    locale \<open>extensible_store\<close> states what makes a sequence of get-or-create writes repeatable and is
    interpreted on the tables; a normalization is idempotent and stores only what was public at the
    research time. \<open>Financial_Pipeline\<close>: normalization followed by calculation is repeatable.

  \<^bold>\<open>Documents.\<close> \<open>Chunking\<close> (\<open>domain/documents/chunking.py\<close>, \<open>_ranges\<close>): when the loop over a text
  ends its chunks cover the text; it ends whenever the overlap is at most the minimum chunk, and
  with the default configuration there are texts on which it never ends.

  \<^bold>\<open>Bounds.\<close> No definition uses fuel: loops are structural or have a termination proof by a measure
  (the unvisited steps of a plan), and the loop over chunks, which may not end, is a partial function
  whose value is then \<open>None\<close>. Integers are unbounded as in Python; the 32-bit range of counter
  columns is not modelled. Decimals have 28 digits as in the source, without the exponent limits of
  the context and without signed zeros.

  \<^bold>\<open>Not modelled.\<close> Reports (\<open>domain/reports\<close>), retrieval (its scores are binary floating point), document
  parsing and the assembly of chunks (third-party parsers), the financial seed, ingestion and live evidence, the HTTP transport and the vendor
  adapters, the security master, blob storage (operating-system calls), migrations, the HTTP API,
  the other command lines and the configuration. Of the modelled components: row locks and advisory
  locks (a sequential model runs the transactions one after the other, in any order), length and
  pattern checks of text columns, logging and printing.
\<close>

end
